(* ===== verification/Prelude.thy ===== *)
theory Prelude
  imports Main "HOL-Library.Multiset"
begin

section \<open>Prelude: errors, tables, text\<close>

text \<open>
  Shared vocabulary of the development: the identifiers and the exceptions of the Python code,
  the sum-typed composition that makes every \<open>raise\<close> a branch, tables of rows addressed by
  their primary key, and the decimal and hexadecimal renderings the code builds its messages,
  numbers and cache keys from.
\<close>

named_theorems table_simps \<open>reading a row or a column back after a write\<close>
named_theorems bind_elims \<open>inversion of successful runs\<close>

subsection \<open>Identifiers, amounts, exceptions\<close>

text \<open>
  A \<open>uuid\<close> is the 128-bit number behind a \<open>uuid.UUID\<close>; the code uses its equality, its order
  (\<open>order_by("product_id")\<close>) and its text. A \<open>time\<close> is a point of the server clock. A
  \<open>cents\<close> is a \<open>Decimal\<close> with two decimal places, counted in hundredths.
\<close>

type_synonym uuid = nat
type_synonym time = nat
type_synonym cents = int

text \<open>
  What a failing field of a serializer reports, and the exceptions the handlers can raise. The
  first three are turned into a 4xx answer by the REST framework's exception handler, every
  other one leaves the view and is answered by a 500.
\<close>

datatype field_error =
    RequiredField string
  | TooSmall string
  | OutOfRange string
  | SupplierMissing
  | NoItems
  | ProductsMissing "uuid list"
  | BadValue string
  | NotUnique string

datatype exn =
    ValidationError "field_error list"
  | Http404
  | PermissionDenied
  | DoesNotExist string
  | IntegrityError string
  | DataError string
  | ProtectedError string
  | KeyError string
  | ValueError string
  | IndexError string
  | MultipleObjectsReturned string

subsection \<open>Composing steps that may raise\<close>

definition bindE :: "'e + 'a \<Rightarrow> ('a \<Rightarrow> 'e + 'b) \<Rightarrow> 'e + 'b" where
  "bindE m f = (case m of Inl e \<Rightarrow> Inl e | Inr x \<Rightarrow> f x)"

lemma bindE_simps [simp]:
  "bindE (Inl e) f = Inl e"
  "bindE (Inr x) f = f x"
  by (simp_all add: bindE_def)

lemma bindE_eq_Inr [bind_elims]: "bindE m f = Inr y \<longleftrightarrow> (\<exists>x. m = Inr x \<and> f x = Inr y)"
  by (cases m) auto

lemma bindE_eq_Inl: "bindE m f = Inl e \<longleftrightarrow> m = Inl e \<or> (\<exists>x. m = Inr x \<and> f x = Inl e)"
  by (cases m) auto

lemma bindE_cong [fundef_cong]:
  "m = m' \<Longrightarrow> (\<And>x. m' = Inr x \<Longrightarrow> f x = g x) \<Longrightarrow> bindE m f = bindE m' g"
  by (cases m') auto

definition guardE :: "bool \<Rightarrow> 'e \<Rightarrow> 'e + unit" where
  "guardE b e = (if b then Inr () else Inl e)"

lemma guardE_simps [simp]:
  "guardE True e = Inr ()"
  "guardE False e = Inl e"
  by (simp_all add: guardE_def)

lemma guardE_eq [bind_elims]: "guardE b e = Inr u \<longleftrightarrow> b"
  by (simp add: guardE_def)

definition some_or :: "'e \<Rightarrow> 'a option \<Rightarrow> 'e + 'a" where
  "some_or e x = (case x of None \<Rightarrow> Inl e | Some y \<Rightarrow> Inr y)"

lemma some_or_simps [simp]:
  "some_or e None = Inl e"
  "some_or e (Some y) = Inr y"
  by (simp_all add: some_or_def)

lemma some_or_eq [bind_elims]: "some_or e x = Inr y \<longleftrightarrow> x = Some y"
  by (cases x) auto

text \<open>A \<open>for\<close> loop over a list whose body updates the state and may raise.\<close>

fun foldE :: "('m \<Rightarrow> 's \<Rightarrow> 'e + 's) \<Rightarrow> 'm list \<Rightarrow> 's \<Rightarrow> 'e + 's" where
  "foldE f [] s = Inr s"
| "foldE f (m # ms) s = bindE (f m s) (foldE f ms)"

lemma foldE_append: "foldE f (xs @ ys) s = bindE (foldE f xs s) (foldE f ys)"
proof (induction xs arbitrary: s)
  case (Cons x xs)
  then show ?case by (cases "f x s") auto
qed simp

lemma foldE_invariant:
  assumes "foldE f ms s = Inr s'" and "P s"
    and "\<And>m s s'. m \<in> set ms \<Longrightarrow> f m s = Inr s' \<Longrightarrow> P s \<Longrightarrow> P s'"
  shows "P s'"
  using assms
proof (induction ms arbitrary: s)
  case (Cons m ms)
  from Cons.prems(1) obtain t where t: "f m s = Inr t" "foldE f ms t = Inr s'"
    by (auto simp: bind_elims)
  have "P t" using Cons.prems(2,3) t(1) by auto
  then show ?case by (rule Cons.IH [OF t(2)]) (use Cons.prems(3) in auto)
qed simp

lemma foldE_total:
  assumes "\<And>m s. m \<in> set ms \<Longrightarrow> \<exists>s'. f m s = Inr s'"
  shows "\<exists>s'. foldE f ms s = Inr s'"
  using assms
proof (induction ms arbitrary: s)
  case (Cons m ms)
  then obtain t where "f m s = Inr t" by (metis list.set_intros(1))
  with Cons show ?case by simp
qed simp

text \<open>A comprehension whose element expression may raise.\<close>

fun mapE :: "('a \<Rightarrow> 'e + 'b) \<Rightarrow> 'a list \<Rightarrow> 'e + 'b list" where
  "mapE f [] = Inr []"
| "mapE f (x # xs) = bindE (f x) (\<lambda>y. bindE (mapE f xs) (\<lambda>ys. Inr (y # ys)))"

lemma mapE_Inr: "mapE f xs = Inr ys \<longleftrightarrow> list_all2 (\<lambda>x y. f x = Inr y) xs ys"
proof (induction xs arbitrary: ys)
  case (Cons x xs)
  then show ?case by (cases ys) (auto simp: bind_elims)
qed auto

subsection \<open>Tables of rows with a primary key\<close>

text \<open>
  A table is the list of its rows in the order they were inserted. \<open>get_row\<close> is a lookup by
  primary key, \<open>update_row\<close> writes columns of the row with the given key and leaves every other
  row alone, \<open>delete_rows\<close> removes the rows a condition selects.
\<close>

definition get_row :: "('r \<Rightarrow> 'k) \<Rightarrow> 'k \<Rightarrow> 'r list \<Rightarrow> 'r option" where
  "get_row key k t = find (\<lambda>r. key r = k) t"

definition update_row :: "('r \<Rightarrow> 'k) \<Rightarrow> 'k \<Rightarrow> ('r \<Rightarrow> 'r) \<Rightarrow> 'r list \<Rightarrow> 'r list" where
  "update_row key k f t = map (\<lambda>r. if key r = k then f r else r) t"

definition delete_rows :: "('r \<Rightarrow> bool) \<Rightarrow> 'r list \<Rightarrow> 'r list" where
  "delete_rows p t = filter (\<lambda>r. \<not> p r) t"

lemma get_row_Nil [simp]: "get_row key k [] = None"
  by (simp add: get_row_def)

lemma get_row_Cons: "get_row key k (r # t) = (if key r = k then Some r else get_row key k t)"
  by (simp add: get_row_def)

lemma get_row_SomeD:
  assumes "get_row key k t = Some r"
  shows "r \<in> set t" and "key r = k"
  using assms by (auto simp: get_row_def find_Some_iff)

lemma get_row_None: "get_row key k t = None \<longleftrightarrow> k \<notin> key ` set t"
  by (auto simp: get_row_def find_None_iff)

lemma get_row_mem: "get_row key k t = Some r \<Longrightarrow> k \<in> key ` set t"
  by (metis get_row_None option.distinct(1))

lemma get_row_append:
  "get_row key k (t @ u) = (case get_row key k t of None \<Rightarrow> get_row key k u | Some r \<Rightarrow> Some r)"
  by (induction t) (auto simp: get_row_Cons)

lemma get_row_eqI:
  assumes "distinct (map key t)" "r \<in> set t"
  shows "get_row key (key r) t = Some r"
  using assms by (induction t) (force simp: get_row_Cons)+

lemma get_row_update [table_simps]:
  assumes "\<And>r. key (f r) = key r"
  shows "get_row key j (update_row key k f t)
    = (if j = k then map_option f (get_row key j t) else get_row key j t)"
  using assms by (induction t) (auto simp: get_row_Cons update_row_def)

lemma get_row_replace:
  assumes "key r = k"
  shows "get_row key j (update_row key k (\<lambda>_. r) t)
    = (if j = k then map_option (\<lambda>_. r) (get_row key j t) else get_row key j t)"
  using assms by (induction t) (auto simp: get_row_Cons update_row_def)

lemma update_row_keys [table_simps]:
  assumes "\<And>r. key (f r) = key r"
  shows "map key (update_row key k f t) = map key t"
  using assms by (simp add: update_row_def)

lemma update_row_Nil [simp]: "update_row key k f [] = []"
  by (simp add: update_row_def)

lemma update_row_Cons:
  "update_row key k f (r # t) = (if key r = k then f r else r) # update_row key k f t"
  by (simp add: update_row_def)

lemma length_update_row [simp]: "length (update_row key k f t) = length t"
  by (simp add: update_row_def)

lemma set_update_rowD:
  "x \<in> set (update_row key k f t) \<Longrightarrow> \<exists>r \<in> set t. x = (if key r = k then f r else r)"
  by (auto simp: update_row_def)

lemma update_row_absent: "k \<notin> key ` set t \<Longrightarrow> update_row key k f t = t"
  by (auto simp: update_row_def intro!: map_idI)

lemma get_row_delete:
  assumes "distinct (map key t)"
  shows "get_row key k (delete_rows p t)
    = (case get_row key k t of None \<Rightarrow> None | Some r \<Rightarrow> if p r then None else Some r)"
  using assms
proof (induction t)
  case (Cons r t)
  show ?case
  proof (cases "key r = k \<and> p r")
    case True
    then have "k \<notin> key ` set (delete_rows p t)" using Cons.prems by (auto simp: delete_rows_def)
    then have "get_row key k (delete_rows p t) = None" by (simp add: get_row_None)
    with True show ?thesis by (simp add: delete_rows_def get_row_Cons)
  next
    case False
    with Cons show ?thesis by (auto simp: delete_rows_def get_row_Cons split: option.splits)
  qed
qed (simp add: delete_rows_def)

subsection \<open>Sums over lists\<close>

abbreviation total :: "('a \<Rightarrow> int) \<Rightarrow> 'a list \<Rightarrow> int" where
  "total f xs \<equiv> sum_list (map f xs)"

lemma total_nonneg: "(\<And>x. x \<in> set xs \<Longrightarrow> 0 \<le> f x) \<Longrightarrow> 0 \<le> total f xs"
  by (induction xs) auto

lemma total_filter: "total f (filter p xs) = total (\<lambda>x. if p x then f x else 0) xs"
  by (induction xs) auto

lemma total_mono: "(\<And>x. x \<in> set xs \<Longrightarrow> f x \<le> g x) \<Longrightarrow> total f xs \<le> total g xs"
  by (induction xs) (auto intro: add_mono)

lemma total_sort_key [simp]: "total f (sort_key k xs) = total f xs"
proof -
  have "mset (map f (sort_key k xs)) = mset (map f xs)" by simp
  then show ?thesis by (metis sum_mset_sum_list)
qed

lemma distinct_map_sort_key [simp]: "distinct (map f (sort_key g xs)) \<longleftrightarrow> distinct (map f xs)"
proof -
  have "mset (map f (sort_key g xs)) = mset (map f xs)" by simp
  then show ?thesis by (rule mset_eq_imp_distinct_iff)
qed

text \<open>
  \<open>order_by("-created_at")\<close>, and the \<open>ordering\<close> of every model class. Rows of one moment are in no
  order the code relies on; here the later row of the table is first.
\<close>

definition newest_first :: "('r \<Rightarrow> 'k :: linorder) \<Rightarrow> 'r list \<Rightarrow> 'r list" where
  "newest_first created t = rev (sort_key created t)"

lemma newest_first_set [simp]: "set (newest_first f xs) = set xs" "length (newest_first f xs) = length xs"
  by (simp_all add: newest_first_def)

lemma newest_first_Nil [simp]: "newest_first f xs = [] \<longleftrightarrow> xs = []"
  by (metis newest_first_set(2) length_0_conv)

lemma total_newest_first [simp]: "total g (newest_first f xs) = total g xs"
  by (simp add: newest_first_def flip: rev_map)

lemma filter_eq_member: "distinct (map key t) \<Longrightarrow> r \<in> set t \<Longrightarrow> filter (\<lambda>x. key x = key r) t = [r]"
  by (induction t) (auto simp: filter_empty_conv image_iff)

subsection \<open>Numbers as text\<close>

text \<open>
  Python's \<open>str\<close> of an integer, and the 32 hexadecimal digits of a UUID with their four dashes.
\<close>

function digits_of :: "nat \<Rightarrow> nat \<Rightarrow> nat list" where
  "digits_of b n = (if n < b \<or> b < 2 then [n] else digits_of b (n div b) @ [n mod b])"
  by pat_completeness auto
termination
  by (relation "measure (\<lambda>(b, n). n)") (auto intro: div_less_dividend)

declare digits_of.simps [simp del]

definition undigits :: "nat \<Rightarrow> nat list \<Rightarrow> nat" where
  "undigits b ds = foldl (\<lambda>a d. b * a + d) 0 ds"

lemma undigits_digits_of: "undigits b (digits_of b n) = n"
proof (induction b n rule: digits_of.induct)
  case (1 b n)
  then show ?case by (subst digits_of.simps) (auto simp: undigits_def)
qed

lemma undigits_leading_zeros: "undigits b (replicate k 0 @ ds) = undigits b ds"
  by (induction k) (auto simp: undigits_def)

lemma digits_of_bound: "2 \<le> b \<Longrightarrow> d \<in> set (digits_of b n) \<Longrightarrow> d < b"
proof (induction b n rule: digits_of.induct)
  case (1 b n)
  show ?case
  proof (cases "n < b")
    case True
    with 1 show ?thesis by (simp add: digits_of.simps [of b n])
  next
    case False
    with "1.prems" have "d \<in> set (digits_of b (n div b)) \<or> d = n mod b"
      by (auto simp: digits_of.simps [of b n])
    then show ?thesis
    proof
      assume "d \<in> set (digits_of b (n div b))"
      with "1.IH" False "1.prems"(1) show ?thesis by auto
    next
      assume "d = n mod b"
      then show ?thesis using "1.prems"(1) by simp
    qed
  qed
qed

definition digit_char :: "nat \<Rightarrow> char" where
  "digit_char d = ''0123456789abcdef'' ! d"

lemma less16_cases: "(d::nat) < 16 \<Longrightarrow> d \<in> {0,1,2,3,4,5,6,7,8,9,10,11,12,13,14,15}"
  by simp presburger

lemma digit_char_inj: "d < 16 \<Longrightarrow> e < 16 \<Longrightarrow> digit_char d = digit_char e \<Longrightarrow> d = e"
  by (drule less16_cases, drule less16_cases) (auto simp: digit_char_def)

lemma digit_char_plain: "d < 16 \<Longrightarrow> digit_char d \<notin> {CHR ''-'', CHR '':''}"
  by (drule less16_cases) (auto simp: digit_char_def)

lemma map_digit_char_inj:
  "set xs \<subseteq> {..<16} \<Longrightarrow> set ys \<subseteq> {..<16} \<Longrightarrow> map digit_char xs = map digit_char ys \<Longrightarrow> xs = ys"
proof (induction xs arbitrary: ys)
  case (Cons x xs)
  then show ?case by (cases ys) (auto intro: digit_char_inj)
qed simp

text \<open>\<open>str.lower\<close> and \<open>str.upper\<close> on ASCII text.\<close>

definition lower_char :: "char \<Rightarrow> char" where
  "lower_char c = (let n = of_char c in if 65 \<le> n \<and> n \<le> 90 then char_of (n + 32 :: nat) else c)"

definition upper_char :: "char \<Rightarrow> char" where
  "upper_char c = (let n = of_char c in if 97 \<le> n \<and> n \<le> 122 then char_of (n - 32 :: nat) else c)"

definition str_nat :: "nat \<Rightarrow> string" where
  "str_nat n = map digit_char (digits_of 10 n)"

definition str_int :: "int \<Rightarrow> string" where
  "str_int i = (if i < 0 then CHR ''-'' # str_nat (nat (- i)) else str_nat (nat i))"

definition uuid_hex :: "uuid \<Rightarrow> string" where
  "uuid_hex u = (let ds = digits_of 16 u in map digit_char (replicate (32 - length ds) 0 @ ds))"

definition str_uuid :: "uuid \<Rightarrow> string" where
  "str_uuid u = (let h = uuid_hex u in
     take 8 h @ ''-'' @ take 4 (drop 8 h) @ ''-'' @ take 4 (drop 12 h) @ ''-''
     @ take 4 (drop 16 h) @ ''-'' @ drop 20 h)"

lemma str_nat_inj: "str_nat m = str_nat n \<Longrightarrow> m = n"
proof -
  assume "str_nat m = str_nat n"
  moreover have "set (digits_of 10 k) \<subseteq> {..<16}" for k
    using digits_of_bound [of 10 _ k] by fastforce
  ultimately have "digits_of 10 m = digits_of 10 n"
    unfolding str_nat_def by (blast intro: map_digit_char_inj)
  then show ?thesis by (metis undigits_digits_of)
qed

lemma str_nat_plain: "c \<in> set (str_nat n) \<Longrightarrow> c \<noteq> CHR ''-'' \<and> c \<noteq> CHR '':''"
proof -
  assume "c \<in> set (str_nat n)"
  then obtain d where "d \<in> set (digits_of 10 n)" and c: "c = digit_char d"
    by (auto simp: str_nat_def)
  then have "d < 10" by (simp add: digits_of_bound)
  then show ?thesis using digit_char_plain [of d] c by auto
qed

lemma str_int_inj: "str_int i = str_int j \<Longrightarrow> i = j"
proof -
  assume eq: "str_int i = str_int j"
  have nodash: "str_nat n \<noteq> CHR ''-'' # xs" for n xs
  proof
    assume "str_nat n = CHR ''-'' # xs"
    then have "CHR ''-'' \<in> set (str_nat n)" by simp
    then show False using str_nat_plain by blast
  qed
  show ?thesis
  proof (cases "i < 0")
    case True
    with eq have "j < 0" by (auto simp: str_int_def nodash nodash [symmetric] split: if_splits)
    with True eq have "nat (- i) = nat (- j)" by (auto simp: str_int_def dest: str_nat_inj)
    with True \<open>j < 0\<close> show ?thesis by simp
  next
    case False
    with eq have "\<not> j < 0" by (auto simp: str_int_def nodash nodash [symmetric] split: if_splits)
    with False eq have "nat i = nat j" by (auto simp: str_int_def dest: str_nat_inj)
    with False \<open>\<not> j < 0\<close> show ?thesis by simp
  qed
qed

lemma uuid_hex_inj: "uuid_hex u = uuid_hex v \<Longrightarrow> u = v"
proof -
  assume eq: "uuid_hex u = uuid_hex v"
  have small: "set (replicate k 0 @ digits_of 16 w) \<subseteq> {..<16}" for k w
    using digits_of_bound [of 16 _ w] by fastforce
  from eq have "map digit_char (replicate (32 - length (digits_of 16 u)) 0 @ digits_of 16 u)
      = map digit_char (replicate (32 - length (digits_of 16 v)) 0 @ digits_of 16 v)"
    unfolding uuid_hex_def Let_def .
  then have "replicate (32 - length (digits_of 16 u)) 0 @ digits_of 16 u
      = replicate (32 - length (digits_of 16 v)) 0 @ digits_of 16 v"
    by (rule map_digit_char_inj [OF small small])
  then show ?thesis by (metis undigits_digits_of undigits_leading_zeros)
qed

lemma length_uuid_hex: "32 \<le> length (uuid_hex u)"
  by (auto simp: uuid_hex_def Let_def)

lemma strip_dashes:
  assumes "32 \<le> length h"
  shows "(\<lambda>s. take 8 s @ take 4 (drop 9 s) @ take 4 (drop 14 s) @ take 4 (drop 19 s) @ drop 24 s)
    (take 8 h @ ''-'' @ take 4 (drop 8 h) @ ''-'' @ take 4 (drop 12 h) @ ''-''
     @ take 4 (drop 16 h) @ ''-'' @ drop 20 h) = h"
proof -
  have split: "take n (drop k h) @ drop (k + n) h = drop k h" for k n
    by (metis append_take_drop_id drop_drop add.commute)
  have "take 8 h @ take 4 (drop 8 h) @ take 4 (drop 12 h) @ take 4 (drop 16 h) @ drop 20 h = h"
    using split [of 4 8] split [of 4 12] split [of 4 16] by simp
  with assms show ?thesis by simp
qed

lemma str_uuid_inj: "str_uuid u = str_uuid v \<Longrightarrow> u = v"
proof -
  assume "str_uuid u = str_uuid v"
  then have "uuid_hex u = uuid_hex v"
    unfolding str_uuid_def Let_def
    by (metis strip_dashes [OF length_uuid_hex])
  then show ?thesis by (rule uuid_hex_inj)
qed

end
