(* ===== verification/Schema.thy ===== *)
theory Schema
  imports Prelude
begin

section \<open>The data model\<close>

text \<open>
  One record per Django model class (a value is at once a row of the table and the Python
  object read from it), one datatype per \<open>TextChoices\<close> enum, and the database as the record of
  the tables. A foreign key column holds the key it refers to; a nullable column is an option.
\<close>

subsection \<open>accounts\<close>

datatype role_name = ADMIN | MANAGER | EMPLOYEE

fun role_value :: "role_name \<Rightarrow> string" where
  "role_value ADMIN = ''admin''"
| "role_value MANAGER = ''manager''"
| "role_value EMPLOYEE = ''employee''"

record user =
  u_id :: uuid
  u_email :: string
  u_password :: string
  u_last_login :: "time option"
  u_full_name :: string
  u_role :: role_name
  u_is_active :: bool
  u_is_staff :: bool
  u_is_superuser :: bool
  u_created_at :: time
  u_updated_at :: time
  u_created_by :: "uuid option"

subsection \<open>catalog\<close>

record category =
  c_id :: uuid
  c_name :: string
  c_description :: "string option"
  c_is_active :: bool
  c_created_at :: time
  c_updated_at :: time
  c_created_by :: "uuid option"

record supplier =
  s_id :: uuid
  s_name :: string
  s_email :: string
  s_phone :: "string option"
  s_address :: "string option"
  s_is_active :: bool
  s_created_at :: time
  s_updated_at :: time
  s_created_by :: "uuid option"

record product =
  p_id :: uuid
  p_sku :: string
  p_name :: string
  p_description :: "string option"
  p_cost_price :: cents
  p_selling_price :: cents
  p_current_stock :: int
  p_low_stock_threshold :: int
  p_category :: uuid
  p_supplier :: uuid
  p_is_active :: bool
  p_created_at :: time
  p_updated_at :: time
  p_created_by :: "uuid option"

subsection \<open>inventory\<close>

datatype po_status = ORDERED | RECEIVED

datatype so_status = CREATED | COMPLETED

datatype txn_type = PURCHASE | SALE | RETURN | DAMAGE

datatype return_status = PENDING | APPROVED

record purchase_order =
  po_id :: uuid
  po_supplier :: uuid
  po_status :: po_status
  po_received_at :: "time option"
  po_created_at :: time
  po_updated_at :: time
  po_created_by :: "uuid option"

record po_item =
  poi_id :: uuid
  poi_order :: uuid
  poi_product :: uuid
  poi_quantity :: int
  poi_unit_cost :: cents
  poi_created_at :: time

record sales_order =
  so_id :: uuid
  so_status :: so_status
  so_customer_name :: "string option"
  so_customer_phone :: "string option"
  so_invoice_number :: "string option"
  so_invoiced_at :: "time option"
  so_created_at :: time
  so_updated_at :: time
  so_created_by :: "uuid option"

record so_item =
  soi_id :: uuid
  soi_order :: uuid
  soi_product :: uuid
  soi_quantity :: int
  soi_unit_price :: cents
  soi_created_at :: time

record inventory_transaction =
  t_id :: uuid
  t_product :: uuid
  t_quantity :: int
  t_type :: txn_type
  t_reference :: "uuid option"
  t_reason :: "string option"
  t_created_at :: time
  t_created_by :: "uuid option"

record return_request =
  r_id :: uuid
  r_order :: uuid
  r_product :: uuid
  r_quantity :: int
  r_reason :: string
  r_status :: return_status
  r_approved_by :: "uuid option"
  r_created_at :: time
  r_created_by :: "uuid option"

subsection \<open>notifications\<close>

datatype notification_type =
    LOW_STOCK
  | OUT_OF_STOCK
  | PURCHASE_COMPLETED
  | SALE_COMPLETED
  | RECONCILIATION_MISMATCH

record notification =
  n_id :: uuid
  n_user :: uuid
  n_type :: notification_type
  n_message :: string
  n_reference :: "uuid option"
  n_is_read :: bool
  n_created_at :: time

subsection \<open>The database\<close>

text \<open>
  \<open>next_uuid\<close> stands for the source of \<open>uuid.uuid4()\<close>: a draw returns a value that was never
  drawn before.
\<close>

record db =
  users :: "user list"
  categories :: "category list"
  suppliers :: "supplier list"
  products :: "product list"
  purchase_orders :: "purchase_order list"
  po_items :: "po_item list"
  sales_orders :: "sales_order list"
  so_items :: "so_item list"
  transactions :: "inventory_transaction list"
  return_requests :: "return_request list"
  notifications :: "notification list"
  next_uuid :: uuid

definition empty_db :: db where
  "empty_db = \<lparr>users = [], categories = [], suppliers = [], products = [], purchase_orders = [],
     po_items = [], sales_orders = [], so_items = [], transactions = [], return_requests = [],
     notifications = [], next_uuid = 0\<rparr>"

abbreviation get_user :: "uuid \<Rightarrow> db \<Rightarrow> user option" where
  "get_user i d \<equiv> get_row u_id i (users d)"

abbreviation get_product :: "uuid \<Rightarrow> db \<Rightarrow> product option" where
  "get_product i d \<equiv> get_row p_id i (products d)"

abbreviation get_po :: "uuid \<Rightarrow> db \<Rightarrow> purchase_order option" where
  "get_po i d \<equiv> get_row po_id i (purchase_orders d)"

abbreviation get_so :: "uuid \<Rightarrow> db \<Rightarrow> sales_order option" where
  "get_so i d \<equiv> get_row so_id i (sales_orders d)"

abbreviation get_return :: "uuid \<Rightarrow> db \<Rightarrow> return_request option" where
  "get_return i d \<equiv> get_row r_id i (return_requests d)"

abbreviation items_of_po :: "uuid \<Rightarrow> db \<Rightarrow> po_item list" where
  "items_of_po i d \<equiv> filter (\<lambda>x. poi_order x = i) (po_items d)"

abbreviation items_of_so :: "uuid \<Rightarrow> db \<Rightarrow> so_item list" where
  "items_of_so i d \<equiv> filter (\<lambda>x. soi_order x = i) (so_items d)"

subsection \<open>Column ranges\<close>

text \<open>
  PostgreSQL stores an \<open>IntegerField\<close> and a \<open>PositiveIntegerField\<close> in a 32-bit \<open>integer\<close>, the
  second with a check that it is not negative. A write outside the range raises and rolls the
  transaction back; nothing wraps around.
\<close>

definition max_int32 :: int where
  "max_int32 = 2147483647"

definition fits_integer :: "int \<Rightarrow> bool" where
  "fits_integer n \<longleftrightarrow> - max_int32 - 1 \<le> n \<and> n \<le> max_int32"

definition check_integer :: "int \<Rightarrow> exn + unit" where
  "check_integer n = guardE (fits_integer n) (DataError ''integer out of range'')"

definition check_positive_integer :: "int \<Rightarrow> exn + unit" where
  "check_positive_integer n = bindE (check_integer n)
     (\<lambda>_. guardE (0 \<le> n) (IntegrityError ''quantity_check''))"

lemma check_integer_eq [bind_elims]: "check_integer n = Inr u \<longleftrightarrow> fits_integer n"
  by (simp add: check_integer_def bind_elims)

lemma check_positive_integer_eq [bind_elims]:
  "check_positive_integer n = Inr u \<longleftrightarrow> 0 \<le> n \<and> n \<le> max_int32"
  by (auto simp: check_positive_integer_def bind_elims fits_integer_def max_int32_def)

end
