(* ===== verification/World.thy ===== *)
theory World
  imports Schema
begin

section \<open>Requests, answers, transactions\<close>

text \<open>
  What a view returns and how its effects reach the world. A view is modelled as a function of
  the database that either raises or yields an \<open>outcome\<close>: the answer, the new database, the
  callbacks it registered with \<open>transaction.on_commit\<close> and the log lines it wrote.
  \<open>run_view\<close> is \<open>transaction.atomic()\<close> around it: an exception leaves the database as it was
  and drops the callbacks; otherwise the new database is committed and the callbacks run, in
  the order of their registration (\<open>w_fired\<close> is the list of the callbacks that ran).
\<close>

datatype body =
    Detail string
  | FieldErrors "field_error list"
  | POBody uuid uuid po_status "time option" "(uuid \<times> uuid \<times> int \<times> cents) list" "uuid option" time
  | SOBody uuid so_status "string option" "string option" "string option" "time option"
      "(uuid \<times> uuid \<times> int \<times> cents) list" "uuid option" time
  | ReturnBody uuid uuid uuid int string return_status "uuid option" "uuid option" time
  | TxnBody uuid uuid int txn_type "uuid option" "string option" "uuid option" time
  | NotificationBody uuid notification_type string "uuid option" bool time
  | UserBody uuid string string role_name bool time
  | CategoryBody uuid string "string option" bool time
  | SupplierBody uuid string string "string option" "string option" bool time
  | ProductBody uuid string string "string option" cents cents int int uuid uuid bool time
  | TaskAccepted uuid string
  | DashboardBody nat nat nat nat nat nat nat nat
  | ProductReportBody time "time option" "time option" nat
      "(uuid \<times> string \<times> string \<times> uuid \<times> uuid \<times> cents \<times> cents \<times> int \<times> int \<times> bool) list"
  | PurchaseReportBody time "time option" "time option" nat cents
      "(uuid \<times> uuid \<times> po_status \<times> time \<times> cents) list"
  | SalesReportBody time "time option" "time option" nat cents
      "(uuid \<times> so_status \<times> time \<times> string option \<times> cents) list"
  | InventoryReportBody time "time option" "time option" "int \<times> int \<times> int \<times> int"
      "(uuid \<times> uuid \<times> int \<times> txn_type \<times> uuid option \<times> string option \<times> time) list"
  | TokenBody "(string \<times> string) list"
  | TaskBody string string "string option" "string option"
  | HealthBody string string string string
  | NoContent

datatype response = Response (status_code: nat) (payload: body)

datatype hook =
    BumpVersion string
  | GenerateInvoice string uuid "string option"

datatype log_event =
    IdempotentReplay string string string role_name
  | StockMutation string string "string list" int string role_name

record outcome =
  rsp :: response
  odb :: db
  ohooks :: "hook list"
  olog :: "log_event list"

definition answer :: "response \<Rightarrow> db \<Rightarrow> outcome" where
  "answer r d = \<lparr>rsp = r, odb = d, ohooks = [], olog = []\<rparr>"

lemma answer_simps [simp]:
  "rsp (answer r d) = r" "odb (answer r d) = d" "ohooks (answer r d) = []" "olog (answer r d) = []"
  by (simp_all add: answer_def)

text \<open>
  The REST framework answers its own exceptions; any other one is a server error.
\<close>

fun error_response :: "exn \<Rightarrow> response" where
  "error_response (ValidationError es) = Response 400 (FieldErrors es)"
| "error_response Http404 = Response 404 (Detail ''Not found.'')"
| "error_response PermissionDenied
     = Response 403 (Detail ''You do not have permission to perform this action.'')"
| "error_response _ = Response 500 (Detail ''Server Error'')"

record world =
  w_db :: db
  w_fired :: "hook list"
  w_log :: "log_event list"

type_synonym view = "db \<Rightarrow> exn + outcome"

definition run_view :: "view \<Rightarrow> world \<Rightarrow> response \<times> world" where
  "run_view v w = (case v (w_db w) of
     Inl e \<Rightarrow> (error_response e, w)
   | Inr oc \<Rightarrow> (rsp oc, w\<lparr>w_db := odb oc, w_fired := w_fired w @ ohooks oc, w_log := w_log w @ olog oc\<rparr>))"

lemma run_view_Inl: "v (w_db w) = Inl e \<Longrightarrow> run_view v w = (error_response e, w)"
  by (simp add: run_view_def)

lemma run_view_Inr: "v (w_db w) = Inr oc \<Longrightarrow> run_view v w
   = (rsp oc, w\<lparr>w_db := odb oc, w_fired := w_fired w @ ohooks oc, w_log := w_log w @ olog oc\<rparr>)"
  by (simp add: run_view_def)

lemma error_response_code: "status_code (error_response e) \<in> {400, 403, 404, 500}"
  by (cases e rule: error_response.cases) auto

text \<open>
  A property of the database that every successful outcome of a view has, and the old database
  had, holds of the world after the view: the rollback case is the old database.
\<close>

lemma run_view_preserves:
  assumes "P (w_db w)" and "\<And>oc. v (w_db w) = Inr oc \<Longrightarrow> P (odb oc)"
  shows "P (w_db (snd (run_view v w)))"
  using assms by (auto simp: run_view_def split: sum.split)

text \<open>An insertion draws its primary key from \<open>uuid.uuid4\<close>.\<close>

definition draw_uuid :: "db \<Rightarrow> db" where
  "draw_uuid d = d\<lparr>next_uuid := Suc (next_uuid d)\<rparr>"

lemma draw_uuid_simps [simp]:
  "users (draw_uuid d) = users d" "categories (draw_uuid d) = categories d"
  "suppliers (draw_uuid d) = suppliers d" "products (draw_uuid d) = products d"
  "purchase_orders (draw_uuid d) = purchase_orders d" "po_items (draw_uuid d) = po_items d"
  "sales_orders (draw_uuid d) = sales_orders d" "so_items (draw_uuid d) = so_items d"
  "transactions (draw_uuid d) = transactions d"
  "return_requests (draw_uuid d) = return_requests d"
  "notifications (draw_uuid d) = notifications d" "next_uuid (draw_uuid d) = Suc (next_uuid d)"
  by (simp_all add: draw_uuid_def)

text \<open>
  The query parameters \<open>start_date\<close>, \<open>end_date\<close> and \<open>status\<close> of a request, an absent or empty
  one being \<open>None\<close>; the status filter has the type of the column it is compared with. \<open>in_date_range\<close> is the condition the date filters put on \<open>created_at\<close>.
\<close>

record 's query =
  q_start :: "time option"
  q_end :: "time option"
  q_status :: "'s option"

definition no_query :: "'s query" where
  "no_query = \<lparr>q_start = None, q_end = None, q_status = None\<rparr>"

definition in_date_range :: "time option \<Rightarrow> time option \<Rightarrow> time \<Rightarrow> bool" where
  "in_date_range start end' created \<longleftrightarrow>
     (case start of None \<Rightarrow> True | Some s \<Rightarrow> s \<le> created)
   \<and> (case end' of None \<Rightarrow> True | Some e \<Rightarrow> created \<le> e)"

definition filter_date_range :: "'s query \<Rightarrow> ('r \<Rightarrow> time) \<Rightarrow> 'r list \<Rightarrow> 'r list" where
  "filter_date_range q created t = filter (\<lambda>r. in_date_range (q_start q) (q_end q) (created r)) t"

lemma filter_date_range_none [simp]: "filter_date_range no_query c t = t"
  by (simp add: filter_date_range_def no_query_def in_date_range_def)

lemma get_row_filter_date_rangeD:
  assumes "distinct (map key t)" "get_row key k (filter_date_range q c t) = Some r"
  shows "get_row key k t = Some r"
proof -
  have "r \<in> set t" "key r = k"
    using get_row_SomeD [OF assms(2)] by (auto simp: filter_date_range_def)
  then show ?thesis using get_row_eqI [OF assms(1)] by auto
qed

subsection \<open>Sequences of requests\<close>

text \<open>
  Two contracts of a machine that serves one event after another: a property of the state that
  every allowed event keeps, and a log of the state that events only extend.
\<close>

locale guarded_machine =
  fixes step :: "'e \<Rightarrow> 's \<Rightarrow> 's"
    and allowed :: "'e \<Rightarrow> bool"
    and good :: "'s \<Rightarrow> bool"
  assumes step_good: "allowed e \<Longrightarrow> good s \<Longrightarrow> good (step e s)"
begin

lemma run_good: "list_all allowed es \<Longrightarrow> good s \<Longrightarrow> good (fold step es s)"
  by (induction es arbitrary: s) (simp_all add: step_good)

lemma always_good:
  assumes "list_all allowed es" "good s"
  shows "good (fold step (take k es) s)"
proof (rule run_good [OF _ assms(2)])
  show "list_all allowed (take k es)"
    using assms(1) by (auto simp: list_all_iff dest: in_set_takeD)
qed

end

locale appending_machine =
  fixes step :: "'e \<Rightarrow> 's \<Rightarrow> 's"
    and log :: "'s \<Rightarrow> 'x list"
  assumes step_appends: "\<exists>new. log (step e s) = log s @ new"
begin

lemma run_appends: "\<exists>new. log (fold step es s) = log s @ new"
proof (induction es arbitrary: s)
  case (Cons e es)
  from step_appends [of e s] Cons.IH [of "step e s"] show ?case by auto
qed simp

lemma run_keeps_entry:
  assumes "k < length (log s)"
  shows "log (fold step es s) ! k = log s ! k"
proof -
  from run_appends obtain new where "log (fold step es s) = log s @ new" by blast
  with assms show ?thesis by (simp add: nth_append)
qed

end

end
