(* ===== verification/Notifications.thy ===== *)
theory Notifications
  imports World
begin

section \<open>notifications\<close>

text \<open>
  \<open>apps/notifications\<close>: the two helpers the stock mutations and the periodic tasks call
  (\<open>services.py\<close>) and the per-user endpoints (\<open>views.py\<close>).
\<close>

named_theorems notify_frame \<open>what writing notifications leaves alone\<close>

subsection \<open>services.py\<close>

definition notify :: "uuid \<Rightarrow> notification_type \<Rightarrow> string \<Rightarrow> uuid option \<Rightarrow> time \<Rightarrow> db \<Rightarrow> db" where
  "notify user_id ntype message reference now d =
     draw_uuid (d\<lparr>notifications := notifications d @
       [\<lparr>n_id = next_uuid d, n_user = user_id, n_type = ntype, n_message = message,
         n_reference = reference, n_is_read = False, n_created_at = now\<rparr>]\<rparr>)"

definition admins_and_managers :: "db \<Rightarrow> uuid list" where
  "admins_and_managers d =
     map u_id (newest_first u_created_at (filter (\<lambda>u. u_is_active u \<and> u_role u \<in> {ADMIN, MANAGER}) (users d)))"

definition notify_admins_and_managers ::
  "notification_type \<Rightarrow> string \<Rightarrow> uuid option \<Rightarrow> time \<Rightarrow> db \<Rightarrow> db" where
  "notify_admins_and_managers ntype message reference now d =
     fold (\<lambda>uid. notify uid ntype message reference now) (admins_and_managers d) d"

lemma notify_simps [simp, notify_frame]:
  "users (notify u ty m r now d) = users d" "categories (notify u ty m r now d) = categories d"
  "suppliers (notify u ty m r now d) = suppliers d" "products (notify u ty m r now d) = products d"
  "purchase_orders (notify u ty m r now d) = purchase_orders d"
  "po_items (notify u ty m r now d) = po_items d"
  "sales_orders (notify u ty m r now d) = sales_orders d"
  "so_items (notify u ty m r now d) = so_items d"
  "transactions (notify u ty m r now d) = transactions d"
  "return_requests (notify u ty m r now d) = return_requests d"
  "next_uuid (notify u ty m r now d) = Suc (next_uuid d)"
  by (simp_all add: notify_def)

lemma notify_all_frame:
  "users (fold (\<lambda>uid. notify uid ty m r now) us d) = users d"
  "categories (fold (\<lambda>uid. notify uid ty m r now) us d) = categories d"
  "suppliers (fold (\<lambda>uid. notify uid ty m r now) us d) = suppliers d"
  "products (fold (\<lambda>uid. notify uid ty m r now) us d) = products d"
  "purchase_orders (fold (\<lambda>uid. notify uid ty m r now) us d) = purchase_orders d"
  "po_items (fold (\<lambda>uid. notify uid ty m r now) us d) = po_items d"
  "sales_orders (fold (\<lambda>uid. notify uid ty m r now) us d) = sales_orders d"
  "so_items (fold (\<lambda>uid. notify uid ty m r now) us d) = so_items d"
  "transactions (fold (\<lambda>uid. notify uid ty m r now) us d) = transactions d"
  "return_requests (fold (\<lambda>uid. notify uid ty m r now) us d) = return_requests d"
  "next_uuid (fold (\<lambda>uid. notify uid ty m r now) us d) = next_uuid d + length us"
  by (induction us arbitrary: d) simp_all

lemma notify_admins_simps [simp, notify_frame]:
  "users (notify_admins_and_managers ty m r now d) = users d"
  "categories (notify_admins_and_managers ty m r now d) = categories d"
  "suppliers (notify_admins_and_managers ty m r now d) = suppliers d"
  "products (notify_admins_and_managers ty m r now d) = products d"
  "purchase_orders (notify_admins_and_managers ty m r now d) = purchase_orders d"
  "po_items (notify_admins_and_managers ty m r now d) = po_items d"
  "sales_orders (notify_admins_and_managers ty m r now d) = sales_orders d"
  "so_items (notify_admins_and_managers ty m r now d) = so_items d"
  "transactions (notify_admins_and_managers ty m r now d) = transactions d"
  "return_requests (notify_admins_and_managers ty m r now d) = return_requests d"
  "next_uuid (notify_admins_and_managers ty m r now d) = next_uuid d + length (admins_and_managers d)"
  by (simp_all add: notify_admins_and_managers_def notify_all_frame)

lemma admins_and_managers_notify [simp]:
  "admins_and_managers (notify u ty m r now d) = admins_and_managers d"
  "admins_and_managers (notify_admins_and_managers ty' m' r' now' d) = admins_and_managers d"
  by (simp_all add: admins_and_managers_def)

text \<open>The rows written: one per recipient, in order, unread, appended to the table.\<close>

fun alert_rows :: "uuid \<Rightarrow> notification_type \<Rightarrow> string \<Rightarrow> uuid option \<Rightarrow> time \<Rightarrow> uuid list \<Rightarrow> notification list"
where
  "alert_rows i ty m r now [] = []"
| "alert_rows i ty m r now (u # us) =
     \<lparr>n_id = i, n_user = u, n_type = ty, n_message = m, n_reference = r, n_is_read = False,
      n_created_at = now\<rparr> # alert_rows (Suc i) ty m r now us"

lemma notify_all_rows:
  "notifications (fold (\<lambda>uid. notify uid ty m r now) us d)
     = notifications d @ alert_rows (next_uuid d) ty m r now us"
proof (induction us arbitrary: d)
  case (Cons u us)
  then show ?case by (simp add: notify_def)
qed simp

lemma notify_admins_rows:
  "notifications (notify_admins_and_managers ty m r now d)
     = notifications d @ alert_rows (next_uuid d) ty m r now (admins_and_managers d)"
  by (simp add: notify_admins_and_managers_def notify_all_rows)

lemma alert_rows_users: "map n_user (alert_rows i ty m r now us) = us"
  by (induction us arbitrary: i) simp_all

lemma alert_rows_fields:
  "x \<in> set (alert_rows i ty m r now us) \<Longrightarrow>
     n_type x = ty \<and> n_message x = m \<and> n_reference x = r \<and> \<not> n_is_read x \<and> n_user x \<in> set us"
  by (induction us arbitrary: i) auto

lemma alert_rows_Nil [simp]: "alert_rows i ty m r now us = [] \<longleftrightarrow> us = []"
  by (cases us) auto

subsection \<open>views.py\<close>

definition notification_body :: "notification \<Rightarrow> body" where
  "notification_body n =
     NotificationBody (n_id n) (n_type n) (n_message n) (n_reference n) (n_is_read n) (n_created_at n)"

text \<open>\<open>get_queryset\<close>: the rows of the requesting user, only the unread ones for \<open>?unread=true\<close>.\<close>

definition notification_queryset :: "user \<Rightarrow> string option \<Rightarrow> db \<Rightarrow> notification list" where
  "notification_queryset u unread d =
     (let qs = filter (\<lambda>n. n_user n = u_id u) (notifications d)
      in case unread of
           None \<Rightarrow> qs
         | Some v \<Rightarrow> if map lower_char v = ''true'' then filter (\<lambda>n. \<not> n_is_read n) qs else qs)"

definition mark_read :: "user \<Rightarrow> string option \<Rightarrow> uuid \<Rightarrow> view" where
  "mark_read u unread pk d =
     bindE (some_or Http404 (get_row n_id pk (notification_queryset u unread d))) (\<lambda>n.
       let n = n\<lparr>n_is_read := True\<rparr>;
           d = d\<lparr>notifications := update_row n_id (n_id n) (\<lambda>r. r\<lparr>n_is_read := n_is_read n\<rparr>) (notifications d)\<rparr>
       in Inr (answer (Response 200 (notification_body n)) d))"

end
