(* ===== verification/Stock.thy ===== *)
theory Stock
  imports Notifications
begin

section \<open>Stock and the ledger\<close>

text \<open>
  What the four stock mutations of \<open>apps/inventory/views.py\<close> share: saving
  \<open>current_stock\<close>, writing a ledger row, the stock alerts; the abstract view of the database as
  a stock level and a signed ledger total per product; and the contract \<open>stock_movement\<close> that
  every mutation step is shown to meet.
\<close>

subsection \<open>The statements shared by the mutations\<close>

text \<open>
  \<open>product.save(update_fields=["current_stock"])\<close> writes the one column of the row from the
  Python object, whatever the row holds by then.
\<close>

definition save_current_stock :: "product \<Rightarrow> db \<Rightarrow> exn + db" where
  "save_current_stock p d = bindE (check_integer (p_current_stock p)) (\<lambda>_.
     Inr (d\<lparr>products := update_row p_id (p_id p)
              (\<lambda>r. r\<lparr>p_current_stock := p_current_stock p\<rparr>) (products d)\<rparr>))"

definition create_transaction ::
  "uuid \<Rightarrow> int \<Rightarrow> txn_type \<Rightarrow> uuid option \<Rightarrow> string option \<Rightarrow> user \<Rightarrow> time \<Rightarrow> db
    \<Rightarrow> exn + inventory_transaction \<times> db" where
  "create_transaction pid quantity ty reference reason u now d =
     bindE (check_integer quantity) (\<lambda>_.
       let t = \<lparr>t_id = next_uuid d, t_product = pid, t_quantity = quantity, t_type = ty,
                t_reference = reference, t_reason = reason, t_created_at = now,
                t_created_by = Some (u_id u)\<rparr>
       in Inr (t, draw_uuid (d\<lparr>transactions := transactions d @ [t]\<rparr>)))"

definition out_of_stock_message :: "product \<Rightarrow> string" where
  "out_of_stock_message p = p_name p @ '' ('' @ p_sku p @ '') is out of stock''"

definition low_stock_message :: "product \<Rightarrow> string" where
  "low_stock_message p = p_name p @ '' ('' @ p_sku p @ '') is low on stock (''
     @ str_int (p_current_stock p) @ '' left)''"

definition check_and_notify_stock :: "product \<Rightarrow> time \<Rightarrow> db \<Rightarrow> db" where
  "check_and_notify_stock p now d =
     (if p_current_stock p \<le> 0 then
        notify_admins_and_managers OUT_OF_STOCK (out_of_stock_message p) (Some (p_id p)) now d
      else if p_current_stock p \<le> p_low_stock_threshold p then
        notify_admins_and_managers LOW_STOCK (low_stock_message p) (Some (p_id p)) now d
      else d)"

definition txn_body :: "inventory_transaction \<Rightarrow> body" where
  "txn_body t = TxnBody (t_id t) (t_product t) (t_quantity t) (t_type t) (t_reference t)
     (t_reason t) (t_created_by t) (t_created_at t)"

lemma check_and_notify_simps [simp, notify_frame]:
  "users (check_and_notify_stock p now d) = users d"
  "categories (check_and_notify_stock p now d) = categories d"
  "suppliers (check_and_notify_stock p now d) = suppliers d"
  "products (check_and_notify_stock p now d) = products d"
  "purchase_orders (check_and_notify_stock p now d) = purchase_orders d"
  "po_items (check_and_notify_stock p now d) = po_items d"
  "sales_orders (check_and_notify_stock p now d) = sales_orders d"
  "so_items (check_and_notify_stock p now d) = so_items d"
  "transactions (check_and_notify_stock p now d) = transactions d"
  "return_requests (check_and_notify_stock p now d) = return_requests d"
  by (simp_all add: check_and_notify_stock_def)

lemma check_and_notify_next: "next_uuid d \<le> next_uuid (check_and_notify_stock p now d)"
  by (simp add: check_and_notify_stock_def)

subsection \<open>The abstract view: a level and a ledger total per product\<close>

fun signed_quantity :: "inventory_transaction \<Rightarrow> int" where
  "signed_quantity t = (case t_type t of
     PURCHASE \<Rightarrow> t_quantity t | RETURN \<Rightarrow> t_quantity t
   | SALE \<Rightarrow> - t_quantity t | DAMAGE \<Rightarrow> - t_quantity t)"

declare signed_quantity.simps [simp del]

definition ledger_total :: "db \<Rightarrow> uuid \<Rightarrow> int" where
  "ledger_total d i = total signed_quantity (filter (\<lambda>t. t_product t = i) (transactions d))"

definition stock_of :: "db \<Rightarrow> uuid \<Rightarrow> int option" where
  "stock_of d i = map_option p_current_stock (get_product i d)"

text \<open>
  The ledger invariant of \<open>reconcile_ledger\<close>: every product's stock is the signed sum of its
  ledger rows. And stock is not negative.
\<close>

definition balanced :: "db \<Rightarrow> bool" where
  "balanced d \<longleftrightarrow> (\<forall>p \<in> set (products d). stock_of d (p_id p) = Some (ledger_total d (p_id p)))"

definition stock_nonneg :: "db \<Rightarrow> bool" where
  "stock_nonneg d \<longleftrightarrow> (\<forall>p \<in> set (products d). \<exists>n \<ge> 0. stock_of d (p_id p) = Some n)"

definition levels :: "db \<Rightarrow> (uuid \<Rightarrow> int option) \<times> (uuid \<Rightarrow> int)" where
  "levels d = (stock_of d, ledger_total d)"

lemma stock_of_iff: "(\<exists>n. stock_of d i = Some n) \<longleftrightarrow> i \<in> p_id ` set (products d)"
proof -
  have "stock_of d i = None \<longleftrightarrow> i \<notin> p_id ` set (products d)"
    by (simp add: stock_of_def get_row_None)
  then show ?thesis by (cases "stock_of d i") auto
qed

lemma balanced_iff: "balanced d \<longleftrightarrow> (\<forall>i n. stock_of d i = Some n \<longrightarrow> n = ledger_total d i)"
proof
  assume "balanced d"
  then show "\<forall>i n. stock_of d i = Some n \<longrightarrow> n = ledger_total d i"
    unfolding balanced_def by (metis image_iff option.inject stock_of_iff)
next
  assume "\<forall>i n. stock_of d i = Some n \<longrightarrow> n = ledger_total d i"
  then show "balanced d"
    unfolding balanced_def by (metis image_eqI stock_of_iff)
qed

lemma stock_nonneg_iff: "stock_nonneg d \<longleftrightarrow> (\<forall>i n. stock_of d i = Some n \<longrightarrow> 0 \<le> n)"
proof
  assume "stock_nonneg d"
  then show "\<forall>i n. stock_of d i = Some n \<longrightarrow> 0 \<le> n"
    unfolding stock_nonneg_def by (metis image_iff option.inject stock_of_iff)
next
  assume "\<forall>i n. stock_of d i = Some n \<longrightarrow> 0 \<le> n"
  then show "stock_nonneg d"
    unfolding stock_nonneg_def by (metis image_eqI stock_of_iff)
qed

lemma levels_cong:
  assumes "products d' = products d" "transactions d' = transactions d"
  shows "stock_of d' = stock_of d" "ledger_total d' = ledger_total d"
    "balanced d' = balanced d" "stock_nonneg d' = stock_nonneg d"
  using assms by (simp_all add: stock_of_def ledger_total_def balanced_def stock_nonneg_def fun_eq_iff)

subsection \<open>The contract of a stock movement\<close>

text \<open>
  A step of a mutation moves the stock of one product (\<open>target\<close>) by \<open>delta\<close> and books the same
  amount in the ledger. \<open>ready\<close> is what the step relies on: a step that reads the row itself
  is always ready, one that works on an object read earlier is ready while the object agrees
  with the row, and movements of other products leave it ready.
\<close>

locale stock_movement =
  fixes step :: "'m \<Rightarrow> db \<Rightarrow> exn + db"
    and target :: "'m \<Rightarrow> uuid"
    and delta :: "'m \<Rightarrow> int"
    and ready :: "'m \<Rightarrow> db \<Rightarrow> bool"
  assumes step_stock: "ready m d \<Longrightarrow> step m d = Inr d' \<Longrightarrow>
      stock_of d' i = (if i = target m then map_option (\<lambda>n. n + delta m) (stock_of d i) else stock_of d i)"
    and step_ledger: "ready m d \<Longrightarrow> step m d = Inr d' \<Longrightarrow>
      ledger_total d' i = (if i = target m then ledger_total d i + delta m else ledger_total d i)"
    and step_ready: "ready m d \<Longrightarrow> step m d = Inr d' \<Longrightarrow> target m' \<noteq> target m \<Longrightarrow>
      ready m' d \<Longrightarrow> ready m' d'"
begin

definition moved :: "'m list \<Rightarrow> uuid \<Rightarrow> int" where
  "moved ms i = total delta (filter (\<lambda>m. target m = i) ms)"

lemma moved_Nil [simp]: "moved [] i = 0"
  by (simp add: moved_def)

lemma moved_Cons: "moved (m # ms) i = (if target m = i then delta m else 0) + moved ms i"
  by (simp add: moved_def)

lemma step_balanced: "ready m d \<Longrightarrow> step m d = Inr d' \<Longrightarrow> balanced d \<Longrightarrow> balanced d'"
  by (auto simp: balanced_iff step_stock step_ledger split: if_splits)

lemma fold_levels:
  assumes "distinct (map target ms)" and "\<And>m. m \<in> set ms \<Longrightarrow> ready m d"
    and "foldE step ms d = Inr d'"
  shows "stock_of d' i = map_option (\<lambda>n. n + moved ms i) (stock_of d i)"
    and "ledger_total d' i = ledger_total d i + moved ms i"
proof -
  have "stock_of d' i = map_option (\<lambda>n. n + moved ms i) (stock_of d i)
      \<and> ledger_total d' i = ledger_total d i + moved ms i"
    using assms
  proof (induction ms arbitrary: d)
    case Nil
    then show ?case by (simp add: option.map_ident)
  next
    case (Cons m ms)
    then obtain t where t: "step m d = Inr t" "foldE step ms t = Inr d'"
      by (auto simp: bind_elims)
    have m: "ready m d" using Cons.prems(2) by simp
    have "ready m' t" if "m' \<in> set ms" for m'
    proof (rule step_ready [OF m t(1)])
      show "target m' \<noteq> target m" using Cons.prems(1) that by (metis distinct.simps(2) imageI list.map(2) list.set_map)
      show "ready m' d" using Cons.prems(2) that by simp
    qed
    then have "stock_of d' i = map_option (\<lambda>n. n + moved ms i) (stock_of t i)
        \<and> ledger_total d' i = ledger_total t i + moved ms i"
      using Cons.IH [OF _ _ t(2)] Cons.prems(1) by simp
    then show ?case
      using step_stock [OF m t(1), of i] step_ledger [OF m t(1), of i]
      by (auto simp: moved_Cons option.map_comp o_def algebra_simps)
  qed
  then show "stock_of d' i = map_option (\<lambda>n. n + moved ms i) (stock_of d i)"
    and "ledger_total d' i = ledger_total d i + moved ms i" by simp_all
qed

lemma fold_balanced:
  assumes "distinct (map target ms)" and "\<And>m. m \<in> set ms \<Longrightarrow> ready m d"
    and "foldE step ms d = Inr d'" and "balanced d"
  shows "balanced d'"
  using assms(4) fold_levels [OF assms(1,2,3)] by (auto simp: balanced_iff)

end

text \<open>A step that reads the row itself is ready in every state, so repeated targets are fine.\<close>

locale rereading_movement = stock_movement +
  assumes always_ready: "ready m d"
begin

lemma reread_levels:
  assumes "foldE step ms d = Inr d'"
  shows "stock_of d' i = map_option (\<lambda>n. n + moved ms i) (stock_of d i)"
    and "ledger_total d' i = ledger_total d i + moved ms i"
proof -
  have "stock_of d' i = map_option (\<lambda>n. n + moved ms i) (stock_of d i)
      \<and> ledger_total d' i = ledger_total d i + moved ms i"
    using assms
  proof (induction ms arbitrary: d)
    case Nil
    then show ?case by (simp add: option.map_ident)
  next
    case (Cons m ms)
    then obtain t where t: "step m d = Inr t" "foldE step ms t = Inr d'"
      by (auto simp: bind_elims)
    with Cons.IH [OF t(2)] step_stock [OF always_ready t(1), of i]
      step_ledger [OF always_ready t(1), of i]
    show ?case by (auto simp: moved_Cons option.map_comp o_def algebra_simps)
  qed
  then show "stock_of d' i = map_option (\<lambda>n. n + moved ms i) (stock_of d i)"
    and "ledger_total d' i = ledger_total d i + moved ms i" by simp_all
qed

lemma reread_balanced: "foldE step ms d = Inr d' \<Longrightarrow> balanced d \<Longrightarrow> balanced d'"
  using reread_levels by (auto simp: balanced_iff)

lemma reread_nonneg:
  assumes "foldE step ms d = Inr d'" and "stock_nonneg d" and "\<And>m. m \<in> set ms \<Longrightarrow> 0 \<le> delta m"
  shows "stock_nonneg d'"
proof -
  have "0 \<le> moved ms i" for i
    unfolding moved_def using assms(3) by (intro total_nonneg) auto
  then show ?thesis
    using reread_levels [OF assms(1)] assms(2) by (fastforce simp: stock_nonneg_iff)
qed

end

subsection \<open>The shared statements, against the abstract view\<close>

lemma save_current_stock_Inr [bind_elims]:
  "save_current_stock p d = Inr d' \<longleftrightarrow> fits_integer (p_current_stock p) \<and>
     d' = d\<lparr>products := update_row p_id (p_id p)
              (\<lambda>r. r\<lparr>p_current_stock := p_current_stock p\<rparr>) (products d)\<rparr>"
  by (auto simp: save_current_stock_def bind_elims)

lemma create_transaction_Inr [bind_elims]:
  "create_transaction pid q ty ref reason u now d = Inr (t, d') \<longleftrightarrow> fits_integer q \<and>
     t = \<lparr>t_id = next_uuid d, t_product = pid, t_quantity = q, t_type = ty, t_reference = ref,
          t_reason = reason, t_created_at = now, t_created_by = Some (u_id u)\<rparr> \<and>
     d' = draw_uuid (d\<lparr>transactions := transactions d @ [t]\<rparr>)"
  by (auto simp: create_transaction_def bind_elims Let_def)

lemma stock_of_save:
  "stock_of (d\<lparr>products := update_row p_id i (\<lambda>r. r\<lparr>p_current_stock := n\<rparr>) (products d)\<rparr>) j
     = (if j = i then map_option (\<lambda>_. n) (stock_of d j) else stock_of d j)"
  by (simp add: stock_of_def get_row_update option.map_comp o_def)

lemma ledger_total_snoc:
  "ledger_total (d\<lparr>transactions := transactions d @ [t]\<rparr>) i
     = ledger_total d i + (if t_product t = i then signed_quantity t else 0)"
  by (simp add: ledger_total_def)

end
