(* ===== verification/Inputs.thy ===== *)
theory Inputs
  imports Stock
begin

section \<open>Request data and its validation\<close>

text \<open>
  The write serializers of \<open>apps/inventory/serializers.py\<close>. A field of a request is absent, of
  the wrong form for its declared field class (\<open>Malformed\<close>), or a value of that class. In a
  partial update (PATCH) an absent field is skipped, also inside the nested items, instead of
  being reported as required.
\<close>

datatype 'a field = Absent | Malformed | Given 'a

definition field_get :: "string \<Rightarrow> 'a field \<Rightarrow> exn + 'a" where
  "field_get name f = (case f of Given x \<Rightarrow> Inr x | _ \<Rightarrow> Inl (KeyError name))"

lemma field_get_eq [bind_elims]: "field_get name f = Inr x \<longleftrightarrow> f = Given x"
  by (cases f) (simp_all add: field_get_def)

definition field_errors ::
  "bool \<Rightarrow> string \<Rightarrow> ('a \<Rightarrow> field_error list) \<Rightarrow> 'a field \<Rightarrow> field_error list" where
  "field_errors optional name check f = (case f of
     Absent \<Rightarrow> if optional then [] else [RequiredField name]
   | Malformed \<Rightarrow> [BadValue name]
   | Given x \<Rightarrow> check x)"

lemma field_errors_Nil:
  "field_errors b name check f = [] \<longleftrightarrow> (f = Absent \<and> b) \<or> (\<exists>x. f = Given x \<and> check x = [])"
  by (cases f) (simp_all add: field_errors_def)

definition min_value :: "int \<Rightarrow> string \<Rightarrow> int \<Rightarrow> field_error list" where
  "min_value m name n = (if n < m then [TooSmall name] else [])"

text \<open>\<open>DecimalField(max_digits=10, decimal_places=2, min_value=0)\<close>, in hundredths.\<close>

definition price_errors :: "string \<Rightarrow> cents \<Rightarrow> field_error list" where
  "price_errors name c = (if c < 0 then [TooSmall name] else if 10 ^ 10 \<le> c then [OutOfRange name] else [])"

subsection \<open>Purchase orders\<close>

record po_item_input =
  pii_product :: "uuid field"
  pii_quantity :: "int field"
  pii_unit_cost :: "cents field"

definition po_item_errors :: "bool \<Rightarrow> po_item_input \<Rightarrow> field_error list" where
  "po_item_errors partial it =
     field_errors partial ''product_id'' (\<lambda>_. []) (pii_product it)
   @ field_errors partial ''quantity'' (min_value 1 ''quantity'') (pii_quantity it)
   @ field_errors partial ''unit_cost'' (price_errors ''unit_cost'') (pii_unit_cost it)"

record po_input =
  poin_supplier :: "uuid field"
  poin_items :: "po_item_input list field"

definition validate_supplier_id :: "db \<Rightarrow> uuid \<Rightarrow> field_error list" where
  "validate_supplier_id d value =
     (if \<exists>s \<in> set (suppliers d). s_id s = value \<and> s_is_active s then [] else [SupplierMissing])"

definition missing_products :: "db \<Rightarrow> uuid list \<Rightarrow> uuid list" where
  "missing_products d ids =
     filter (\<lambda>i. \<not> (\<exists>p \<in> set (products d). p_id p = i \<and> p_is_active p)) (remdups ids)"

definition validate_items :: "db \<Rightarrow> ('i \<Rightarrow> uuid field) \<Rightarrow> 'i list \<Rightarrow> exn + field_error list" where
  "validate_items d product_of items =
     (if items = [] then Inr [NoItems]
      else bindE (mapE (\<lambda>it. field_get ''product_id'' (product_of it)) items) (\<lambda>ids.
        let missing = missing_products d ids in
        Inr (if missing = [] then [] else [ProductsMissing missing])))"

text \<open>
  The \<open>items\<close> field: the nested serializer first, then \<open>validate_items\<close> if no nested error was
  found. A \<open>KeyError\<close> raised there is not a validation error and leaves the serializer.
\<close>

definition items_errors ::
  "db \<Rightarrow> bool \<Rightarrow> ('i \<Rightarrow> field_error list) \<Rightarrow> ('i \<Rightarrow> uuid field) \<Rightarrow> 'i list field \<Rightarrow> exn + field_error list"
where
  "items_errors d partial item_errors product_of f = (case f of
     Given items \<Rightarrow>
       (let es = concat (map item_errors items)
        in if es \<noteq> [] then Inr es else validate_items d product_of items)
   | _ \<Rightarrow> Inr (field_errors partial ''items'' (\<lambda>_. []) f))"

definition po_validate :: "db \<Rightarrow> bool \<Rightarrow> po_input \<Rightarrow> exn + po_input" where
  "po_validate d partial data =
     (let es = field_errors partial ''supplier_id'' (validate_supplier_id d) (poin_supplier data)
      in bindE (items_errors d partial (po_item_errors partial) pii_product (poin_items data)) (\<lambda>fs.
         if es @ fs = [] then Inr data else Inl (ValidationError (es @ fs))))"

subsection \<open>Sales orders\<close>

record so_item_input =
  sii_product :: "uuid field"
  sii_quantity :: "int field"

definition so_item_errors :: "bool \<Rightarrow> so_item_input \<Rightarrow> field_error list" where
  "so_item_errors partial it =
     field_errors partial ''product_id'' (\<lambda>_. []) (sii_product it)
   @ field_errors partial ''quantity'' (min_value 1 ''quantity'') (sii_quantity it)"

text \<open>\<open>customer_name\<close> and \<open>customer_phone\<close>: not required, null allowed, blank refused.\<close>

record so_input =
  soin_customer_name :: "string option field"
  soin_customer_phone :: "string option field"
  soin_items :: "so_item_input list field"

definition blank_errors :: "string \<Rightarrow> string option \<Rightarrow> field_error list" where
  "blank_errors name v = (if v = Some [] then [BadValue name] else [])"

definition so_validate :: "db \<Rightarrow> bool \<Rightarrow> so_input \<Rightarrow> exn + so_input" where
  "so_validate d partial data =
     (let es = field_errors True ''customer_name'' (blank_errors ''customer_name'') (soin_customer_name data)
             @ field_errors True ''customer_phone'' (blank_errors ''customer_phone'') (soin_customer_phone data)
      in bindE (items_errors d partial (so_item_errors partial) sii_product (soin_items data)) (\<lambda>fs.
         if es @ fs = [] then Inr data else Inl (ValidationError (es @ fs))))"

subsection \<open>Damage write-offs\<close>

record damage_input =
  din_product :: "uuid field"
  din_quantity :: "int field"
  din_reason :: "string field"

definition reason_errors :: "string \<Rightarrow> field_error list" where
  "reason_errors r = (if length r < 1 then [BadValue ''reason'']
     else if 1000 < length r then [OutOfRange ''reason''] else [])"

definition damage_validate :: "damage_input \<Rightarrow> exn + damage_input" where
  "damage_validate data =
     (let es = field_errors False ''product_id'' (\<lambda>_. []) (din_product data)
             @ field_errors False ''quantity'' (min_value 1 ''quantity'') (din_quantity data)
             @ field_errors False ''reason'' reason_errors (din_reason data)
      in if es = [] then Inr data else Inl (ValidationError es))"

subsection \<open>What a validated request guarantees\<close>

lemma missing_products_Nil:
  "missing_products d ids = [] \<longleftrightarrow>
     (\<forall>i \<in> set ids. \<exists>p \<in> set (products d). p_id p = i \<and> p_is_active p)"
  by (auto simp: missing_products_def filter_empty_conv)

lemma items_errors_Nil:
  assumes "items_errors d partial ie pf f = Inr []"
  shows "(f = Absent \<and> partial) \<or> (\<exists>items. f = Given items \<and> items \<noteq> []
     \<and> (\<forall>it \<in> set items. ie it = [] \<and> (\<exists>i. pf it = Given i \<and> (\<exists>p \<in> set (products d). p_id p = i \<and> p_is_active p))))"
proof (cases f)
  case Absent
  with assms show ?thesis by (simp add: items_errors_def field_errors_def split: if_splits)
next
  case Malformed
  with assms show ?thesis by (simp add: items_errors_def field_errors_def)
next
  case (Given items)
  from assms Given have es: "\<forall>it \<in> set items. ie it = []"
    and v: "validate_items d pf items = Inr []"
    by (auto simp: items_errors_def Let_def split: if_splits)
  from v obtain ids where ne: "items \<noteq> []" and ids: "mapE (\<lambda>it. field_get ''product_id'' (pf it)) items = Inr ids"
    and act: "missing_products d ids = []"
    by (auto simp: validate_items_def Let_def bind_elims split: if_splits)
  have "\<exists>i \<in> set ids. pf it = Given i" if "it \<in> set items" for it
    using ids that by (auto simp: mapE_Inr bind_elims list_all2_conv_all_nth in_set_conv_nth)
  with act es ne Given show ?thesis by (auto simp: missing_products_Nil) metis
qed

lemma validated_quantity:
  "so_item_errors partial it = [] \<Longrightarrow> sii_quantity it = Given q \<Longrightarrow> 1 \<le> q"
  "po_item_errors partial pit = [] \<Longrightarrow> pii_quantity pit = Given q \<Longrightarrow> 1 \<le> q"
  by (auto simp: so_item_errors_def po_item_errors_def field_errors_Nil min_value_def split: if_splits)

lemma damage_validate_Inr:
  assumes "damage_validate data = Inr data'"
  shows "data' = data" "\<exists>i. din_product data = Given i"
    "\<exists>q. din_quantity data = Given q \<and> 1 \<le> q"
    "\<exists>r. din_reason data = Given r \<and> r \<noteq> [] \<and> length r \<le> 1000"
  using assms
  by (auto simp: damage_validate_def Let_def field_errors_Nil min_value_def reason_errors_def
      split: if_splits)

end
