(* ===== verification/Purchase.thy ===== *)
theory Purchase
  imports Inputs
begin

section \<open>Purchase orders\<close>

text \<open>
  \<open>PurchaseOrderViewSet\<close> of \<open>apps/inventory/views.py\<close>: create, update (PUT and PATCH),
  destroy and the \<open>receive\<close> action, and the answer body of \<open>PurchaseOrderReadSerializer\<close>.
\<close>

definition po_body :: "db \<Rightarrow> purchase_order \<Rightarrow> body" where
  "po_body d po = POBody (po_id po) (po_supplier po) (po_status po) (po_received_at po)
     (map (\<lambda>i. (poi_id i, poi_product i, poi_quantity i, poi_unit_cost i)) (items_of_po (po_id po) d))
     (po_created_by po) (po_created_at po)"

definition po_refreshed :: "nat \<Rightarrow> uuid \<Rightarrow> db \<Rightarrow> response" where
  "po_refreshed code pk d = (case get_po pk d of
     Some po \<Rightarrow> Response code (po_body d po)
   | None \<Rightarrow> error_response (DoesNotExist ''PurchaseOrder''))"

subsection \<open>create, update, destroy\<close>

definition insert_po_item :: "uuid \<Rightarrow> time \<Rightarrow> po_item_input \<Rightarrow> db \<Rightarrow> exn + db" where
  "insert_po_item oid now it d =
     bindE (field_get ''product_id'' (pii_product it)) (\<lambda>pid.
     bindE (field_get ''quantity'' (pii_quantity it)) (\<lambda>quantity.
     bindE (field_get ''unit_cost'' (pii_unit_cost it)) (\<lambda>cost.
     bindE (check_positive_integer quantity) (\<lambda>_.
       Inr (draw_uuid (d\<lparr>po_items := po_items d @
         [\<lparr>poi_id = next_uuid d, poi_order = oid, poi_product = pid, poi_quantity = quantity,
           poi_unit_cost = cost, poi_created_at = now\<rparr>]\<rparr>))))))"

definition new_po :: "user \<Rightarrow> time \<Rightarrow> uuid \<Rightarrow> db \<Rightarrow> purchase_order" where
  "new_po u now sid d = \<lparr>po_id = next_uuid d, po_supplier = sid, po_status = ORDERED,
     po_received_at = None, po_created_at = now, po_updated_at = now, po_created_by = Some (u_id u)\<rparr>"

definition po_create :: "user \<Rightarrow> time \<Rightarrow> po_input \<Rightarrow> view" where
  "po_create u now data d =
     bindE (po_validate d False data) (\<lambda>data.
     bindE (field_get ''supplier_id'' (poin_supplier data)) (\<lambda>sid.
     bindE (field_get ''items'' (poin_items data)) (\<lambda>items.
       let po = new_po u now sid d
       in bindE (foldE (insert_po_item (po_id po) now) items
                  (draw_uuid (d\<lparr>purchase_orders := purchase_orders d @ [po]\<rparr>))) (\<lambda>d.
         Inr (answer (Response 201 (po_body d po)) d)))))"

definition po_queryset :: "po_status query \<Rightarrow> db \<Rightarrow> purchase_order list" where
  "po_queryset q d = filter (\<lambda>po. case q_status q of None \<Rightarrow> True | Some s \<Rightarrow> po_status po = s)
     (filter_date_range q po_created_at (purchase_orders d))"

definition save_po_supplier :: "purchase_order \<Rightarrow> db \<Rightarrow> db" where
  "save_po_supplier po d = d\<lparr>purchase_orders :=
     update_row po_id (po_id po) (\<lambda>r. r\<lparr>po_supplier := po_supplier po\<rparr>) (purchase_orders d)\<rparr>"

definition po_write_supplier :: "po_input \<Rightarrow> purchase_order \<Rightarrow> db \<Rightarrow> db" where
  "po_write_supplier data po d = (case poin_supplier data of
     Given sid \<Rightarrow> save_po_supplier (po\<lparr>po_supplier := sid\<rparr>) d
   | _ \<Rightarrow> d)"

definition po_write_items :: "time \<Rightarrow> po_input \<Rightarrow> purchase_order \<Rightarrow> db \<Rightarrow> exn + db" where
  "po_write_items now data po d = (case poin_items data of
     Given items \<Rightarrow> foldE (insert_po_item (po_id po) now) items
       (d\<lparr>po_items := delete_rows (\<lambda>x. poi_order x = po_id po) (po_items d)\<rparr>)
   | _ \<Rightarrow> Inr d)"

definition po_update :: "user \<Rightarrow> time \<Rightarrow> bool \<Rightarrow> po_status query \<Rightarrow> uuid \<Rightarrow> po_input \<Rightarrow> view" where
  "po_update u now partial q pk data d =
     bindE (some_or Http404 (get_row po_id pk (po_queryset q d))) (\<lambda>po.
     if po_status po \<noteq> ORDERED then
       Inr (answer (Response 409 (Detail ''Purchase order can no longer be modified once received'')) d)
     else
       bindE (po_validate d partial data) (\<lambda>data.
       bindE (po_write_items now data po (po_write_supplier data po d)) (\<lambda>d.
         Inr (answer (po_refreshed 200 (po_id po) d) d))))"

text \<open>The default \<open>destroy\<close> of a model view set; the items go with the order (\<open>CASCADE\<close>).\<close>

definition po_destroy :: "po_status query \<Rightarrow> uuid \<Rightarrow> view" where
  "po_destroy q pk d =
     bindE (some_or Http404 (get_row po_id pk (po_queryset q d))) (\<lambda>po.
       Inr (answer (Response 204 NoContent)
         (d\<lparr>purchase_orders := delete_rows (\<lambda>x. po_id x = po_id po) (purchase_orders d),
            po_items := delete_rows (\<lambda>x. poi_order x = po_id po) (po_items d)\<rparr>)))"

subsection \<open>receive\<close>

definition receive_item :: "user \<Rightarrow> time \<Rightarrow> uuid \<Rightarrow> po_item \<Rightarrow> db \<Rightarrow> exn + db" where
  "receive_item u now oid item d =
     bindE (some_or (DoesNotExist ''Product'') (get_product (poi_product item) d)) (\<lambda>product.
       let product = product\<lparr>p_current_stock := p_current_stock product + poi_quantity item\<rparr> in
       bindE (save_current_stock product d) (\<lambda>d.
       bindE (create_transaction (p_id product) (poi_quantity item) PURCHASE (Some oid) None u now d) (\<lambda>(_, d).
         Inr (check_and_notify_stock product now d))))"

definition save_po_received :: "purchase_order \<Rightarrow> db \<Rightarrow> db" where
  "save_po_received po d = d\<lparr>purchase_orders := update_row po_id (po_id po)
     (\<lambda>r. r\<lparr>po_status := po_status po, po_received_at := po_received_at po\<rparr>) (purchase_orders d)\<rparr>"

definition finish_receive :: "time \<Rightarrow> purchase_order \<Rightarrow> db \<Rightarrow> db" where
  "finish_receive now po d =
     (let po = po\<lparr>po_status := RECEIVED, po_received_at := Some now\<rparr>;
          d = save_po_received po d
      in case po_created_by po of
           Some c \<Rightarrow> notify c PURCHASE_COMPLETED
             (''Purchase order '' @ str_uuid (po_id po) @ '' has been received'') (Some (po_id po)) now d
         | None \<Rightarrow> d)"

definition receive :: "user \<Rightarrow> time \<Rightarrow> uuid \<Rightarrow> view" where
  "receive u now pk d =
     bindE (some_or (DoesNotExist ''PurchaseOrder'') (get_po pk d)) (\<lambda>po.
     if po_status po = RECEIVED then
       Inr \<lparr>rsp = Response 409 (Detail ''Purchase order has already been received''), odb = d, ohooks = [],
            olog = [IdempotentReplay ''receive'' (str_uuid (po_id po)) (str_uuid (u_id u)) (u_role u)]\<rparr>
     else
       let items = sort_key poi_product (items_of_po (po_id po) d) in
       bindE (foldE (receive_item u now (po_id po)) items d) (\<lambda>d.
         let d = finish_receive now po d
         in Inr \<lparr>rsp = po_refreshed 200 (po_id po) d, odb = d, ohooks = [BumpVersion ''inventory''],
                 olog = [StockMutation ''receive'' (str_uuid (po_id po))
                   (map (\<lambda>i. str_uuid (poi_product i)) items) (total poi_quantity items)
                   (str_uuid (u_id u)) (u_role u)]\<rparr>))"

subsection \<open>A received line is a stock movement\<close>

lemma receive_item_Inr:
  "receive_item u now oid item d = Inr d' \<longleftrightarrow>
     (\<exists>p t d1. get_product (poi_product item) d = Some p
       \<and> fits_integer (p_current_stock p + poi_quantity item) \<and> fits_integer (poi_quantity item)
       \<and> d1 = d\<lparr>products := update_row p_id (p_id p)
             (\<lambda>r. r\<lparr>p_current_stock := p_current_stock p + poi_quantity item\<rparr>) (products d)\<rparr>
       \<and> t = \<lparr>t_id = next_uuid d, t_product = p_id p, t_quantity = poi_quantity item,
             t_type = PURCHASE, t_reference = Some oid, t_reason = None, t_created_at = now,
             t_created_by = Some (u_id u)\<rparr>
       \<and> d' = check_and_notify_stock (p\<lparr>p_current_stock := p_current_stock p + poi_quantity item\<rparr>) now
             (draw_uuid (d1\<lparr>transactions := transactions d @ [t]\<rparr>)))"
  by (auto simp: receive_item_def bind_elims Let_def)

lemma receive_item_levels:
  assumes "receive_item u now oid item d = Inr d'"
  shows "stock_of d' i = (if i = poi_product item
      then map_option (\<lambda>n. n + poi_quantity item) (stock_of d i) else stock_of d i)"
    and "ledger_total d' i = (if i = poi_product item
      then ledger_total d i + poi_quantity item else ledger_total d i)"
proof -
  from assms obtain p t d1 where p: "get_product (poi_product item) d = Some p"
    and d1: "d1 = d\<lparr>products := update_row p_id (p_id p)
             (\<lambda>r. r\<lparr>p_current_stock := p_current_stock p + poi_quantity item\<rparr>) (products d)\<rparr>"
    and t: "t_product t = p_id p" "t_type t = PURCHASE" "t_quantity t = poi_quantity item"
    and d': "products d' = products d1" "transactions d' = transactions d @ [t]"
    by (fastforce simp: receive_item_Inr)
  have id: "p_id p = poi_product item" using get_row_SomeD(2) [OF p] .
  have "stock_of d' i = stock_of d1 i" using d'(1) by (simp add: stock_of_def)
  also have "\<dots> = (if i = poi_product item
      then map_option (\<lambda>n. n + poi_quantity item) (stock_of d i) else stock_of d i)"
    using p id by (simp add: d1 stock_of_save) (simp add: stock_of_def)
  finally show "stock_of d' i = (if i = poi_product item
      then map_option (\<lambda>n. n + poi_quantity item) (stock_of d i) else stock_of d i)" .
  show "ledger_total d' i = (if i = poi_product item
      then ledger_total d i + poi_quantity item else ledger_total d i)"
    using d'(2) t id by (simp add: ledger_total_def signed_quantity.simps)
qed

interpretation receiving: rereading_movement "receive_item u now oid" poi_product poi_quantity
    "\<lambda>_ _. True" for u now oid
  by unfold_locales (simp_all add: receive_item_levels)

lemma receive_item_frame:
  assumes "receive_item u now oid item d = Inr d'"
  shows "users d' = users d" "suppliers d' = suppliers d" "categories d' = categories d"
    "purchase_orders d' = purchase_orders d" "po_items d' = po_items d"
    "sales_orders d' = sales_orders d" "so_items d' = so_items d"
    "return_requests d' = return_requests d" "map p_id (products d') = map p_id (products d)"
    "\<exists>t. transactions d' = transactions d @ [t] \<and> t_product t = poi_product item
       \<and> t_quantity t = poi_quantity item \<and> t_type t = PURCHASE \<and> t_reference t = Some oid"
  using assms by (auto simp: receive_item_Inr update_row_keys dest: get_row_SomeD)

lemma receive_items_frame:
  assumes "foldE (receive_item u now oid) items d = Inr d'"
  shows "purchase_orders d' = purchase_orders d" "po_items d' = po_items d"
    "sales_orders d' = sales_orders d" "so_items d' = so_items d"
    "return_requests d' = return_requests d" "map p_id (products d') = map p_id (products d)"
    "users d' = users d" "suppliers d' = suppliers d" "categories d' = categories d"
proof -
  let ?P = "\<lambda>e. purchase_orders e = purchase_orders d \<and> po_items e = po_items d
    \<and> sales_orders e = sales_orders d \<and> so_items e = so_items d
    \<and> return_requests e = return_requests d \<and> map p_id (products e) = map p_id (products d)
    \<and> users e = users d \<and> suppliers e = suppliers d \<and> categories e = categories d"
  have "?P d'"
    by (rule foldE_invariant [OF assms, of ?P]) (auto simp: receive_item_frame)
  then show "purchase_orders d' = purchase_orders d" "po_items d' = po_items d"
    "sales_orders d' = sales_orders d" "so_items d' = so_items d"
    "return_requests d' = return_requests d" "map p_id (products d') = map p_id (products d)"
    "users d' = users d" "suppliers d' = suppliers d" "categories d' = categories d" by simp_all
qed

lemma receive_items_ledger:
  assumes "foldE (receive_item u now oid) items d = Inr d'"
  shows "\<exists>ts. transactions d' = transactions d @ ts
    \<and> map (\<lambda>t. (t_product t, t_quantity t, t_type t, t_reference t)) ts
      = map (\<lambda>i. (poi_product i, poi_quantity i, PURCHASE, Some oid)) items"
  using assms
proof (induction items arbitrary: d)
  case (Cons item items)
  then obtain e where e: "receive_item u now oid item d = Inr e"
    "foldE (receive_item u now oid) items e = Inr d'"
    by (auto simp: bind_elims)
  from receive_item_frame(10) [OF e(1)] obtain t where t: "transactions e = transactions d @ [t]"
    "(t_product t, t_quantity t, t_type t, t_reference t)
      = (poi_product item, poi_quantity item, PURCHASE, Some oid)" by auto
  from Cons.IH [OF e(2)] obtain ts where "transactions d' = transactions e @ ts"
    "map (\<lambda>t. (t_product t, t_quantity t, t_type t, t_reference t)) ts
      = map (\<lambda>i. (poi_product i, poi_quantity i, PURCHASE, Some oid)) items" by blast
  with t show ?case by (intro exI [of _ "t # ts"]) simp
qed simp

subsection \<open>What a call of \<open>receive\<close> does\<close>

lemma finish_receive_simps [simp]:
  "users (finish_receive now po d) = users d" "suppliers (finish_receive now po d) = suppliers d"
  "categories (finish_receive now po d) = categories d" "products (finish_receive now po d) = products d"
  "po_items (finish_receive now po d) = po_items d" "sales_orders (finish_receive now po d) = sales_orders d"
  "so_items (finish_receive now po d) = so_items d" "transactions (finish_receive now po d) = transactions d"
  "return_requests (finish_receive now po d) = return_requests d"
  "purchase_orders (finish_receive now po d) = update_row po_id (po_id po)
     (\<lambda>r. r\<lparr>po_status := RECEIVED, po_received_at := Some now\<rparr>) (purchase_orders d)"
  by (simp_all add: finish_receive_def save_po_received_def Let_def split: option.split)

lemma receive_replay:
  "get_po pk d = Some po \<Longrightarrow> po_status po = RECEIVED \<Longrightarrow> receive u now pk d
     = Inr \<lparr>rsp = Response 409 (Detail ''Purchase order has already been received''), odb = d, ohooks = [],
            olog = [IdempotentReplay ''receive'' (str_uuid (po_id po)) (str_uuid (u_id u)) (u_role u)]\<rparr>"
  by (simp add: receive_def)

lemma receive_first:
  assumes "get_po pk d = Some po" "po_status po = ORDERED"
    and "foldE (receive_item u now pk) (sort_key poi_product (items_of_po pk d)) d = Inr d1"
  shows "receive u now pk d = Inr \<lparr>rsp = po_refreshed 200 pk (finish_receive now po d1),
     odb = finish_receive now po d1, ohooks = [BumpVersion ''inventory''],
     olog = [StockMutation ''receive'' (str_uuid pk)
       (map (\<lambda>i. str_uuid (poi_product i)) (sort_key poi_product (items_of_po pk d)))
       (total poi_quantity (items_of_po pk d)) (str_uuid (u_id u)) (u_role u)]\<rparr>"
  using assms get_row_SomeD(2) [OF assms(1)] by (simp add: receive_def Let_def)

lemma receive_cases:
  assumes "receive u now pk d = Inr oc"
  obtains (replay) po where "get_po pk d = Some po" "po_status po = RECEIVED" "odb oc = d"
      "status_code (rsp oc) = 409" "ohooks oc = []"
  | (first) po d1 where "get_po pk d = Some po" "po_id po = pk" "po_status po = ORDERED"
      "foldE (receive_item u now pk) (sort_key poi_product (items_of_po pk d)) d = Inr d1"
      "odb oc = finish_receive now po d1" "rsp oc = po_refreshed 200 pk (odb oc)"
      "ohooks oc = [BumpVersion ''inventory'']"
proof (cases "get_po pk d")
  case None
  with assms show thesis by (simp add: receive_def)
next
  case (Some po)
  have id: "po_id po = pk" using get_row_SomeD(2) [OF Some] .
  show thesis
  proof (cases "po_status po")
    case RECEIVED
    with Some assms receive_replay [OF Some RECEIVED] show thesis by (intro replay) auto
  next
    case ORDERED
    with Some assms id obtain d1 where d1:
      "foldE (receive_item u now pk) (sort_key poi_product (items_of_po pk d)) d = Inr d1"
      by (auto simp: receive_def bind_elims Let_def)
    from first [OF Some id ORDERED d1] receive_first [OF Some ORDERED d1] assms show thesis by simp
  qed
qed

end
