(* ===== verification/Sales.thy ===== *)
theory Sales
  imports Inputs
begin

section \<open>Sales orders\<close>

text \<open>
  \<open>SalesOrderViewSet\<close> of \<open>apps/inventory/views.py\<close>: create, update (PUT and PATCH), destroy,
  the \<open>complete\<close> action with its two loops (check every line, then deduct every line) and the
  \<open>invoice\<close> action. One request at a time here; \<open>Concurrency\<close> has the interleavings.
\<close>

definition so_body :: "db \<Rightarrow> sales_order \<Rightarrow> body" where
  "so_body d so = SOBody (so_id so) (so_status so) (so_customer_name so) (so_customer_phone so)
     (so_invoice_number so) (so_invoiced_at so)
     (map (\<lambda>i. (soi_id i, soi_product i, soi_quantity i, soi_unit_price i)) (items_of_so (so_id so) d))
     (so_created_by so) (so_created_at so)"

definition so_refreshed :: "nat \<Rightarrow> uuid \<Rightarrow> db \<Rightarrow> response" where
  "so_refreshed code pk d = (case get_so pk d of
     Some so \<Rightarrow> Response code (so_body d so)
   | None \<Rightarrow> error_response (DoesNotExist ''SalesOrder''))"

subsection \<open>create, update, destroy\<close>

text \<open>
  \<open>customer_name\<close> and \<open>customer_phone\<close> are \<open>varchar(255)\<close> and \<open>varchar(50)\<close> columns; the
  serializer puts no bound on them, so the database does.
\<close>

definition check_varchar :: "nat \<Rightarrow> string option \<Rightarrow> exn + unit" where
  "check_varchar n v = guardE (case v of None \<Rightarrow> True | Some s \<Rightarrow> length s \<le> n)
     (DataError ''value too long'')"

lemma check_varchar_eq [bind_elims]:
  "check_varchar n v = Inr u \<longleftrightarrow> (case v of None \<Rightarrow> True | Some s \<Rightarrow> length s \<le> n)"
  by (simp add: check_varchar_def bind_elims)

definition check_customer :: "sales_order \<Rightarrow> exn + unit" where
  "check_customer so = bindE (check_varchar 255 (so_customer_name so))
     (\<lambda>_. check_varchar 50 (so_customer_phone so))"

definition field_default :: "'a \<Rightarrow> 'a field \<Rightarrow> 'a" where
  "field_default x f = (case f of Given y \<Rightarrow> y | _ \<Rightarrow> x)"

text \<open>The line's price is the product's selling price at this moment.\<close>

definition insert_so_item :: "uuid \<Rightarrow> time \<Rightarrow> so_item_input \<Rightarrow> db \<Rightarrow> exn + db" where
  "insert_so_item oid now it d =
     bindE (field_get ''product_id'' (sii_product it)) (\<lambda>pid.
     bindE (field_get ''quantity'' (sii_quantity it)) (\<lambda>quantity.
     bindE (some_or (KeyError ''products'') (get_product pid d)) (\<lambda>product.
     bindE (check_positive_integer quantity) (\<lambda>_.
       Inr (draw_uuid (d\<lparr>so_items := so_items d @
         [\<lparr>soi_id = next_uuid d, soi_order = oid, soi_product = pid, soi_quantity = quantity,
           soi_unit_price = p_selling_price product, soi_created_at = now\<rparr>]\<rparr>))))))"

definition new_so :: "user \<Rightarrow> time \<Rightarrow> so_input \<Rightarrow> db \<Rightarrow> sales_order" where
  "new_so u now data d = \<lparr>so_id = next_uuid d, so_status = CREATED,
     so_customer_name = field_default None (soin_customer_name data),
     so_customer_phone = field_default None (soin_customer_phone data),
     so_invoice_number = None, so_invoiced_at = None, so_created_at = now,
     so_updated_at = now, so_created_by = Some (u_id u)\<rparr>"

definition so_create :: "user \<Rightarrow> time \<Rightarrow> so_input \<Rightarrow> view" where
  "so_create u now data d =
     bindE (so_validate d False data) (\<lambda>data.
     bindE (field_get ''items'' (soin_items data)) (\<lambda>items.
       let so = new_so u now data d
       in bindE (check_customer so) (\<lambda>_.
          bindE (foldE (insert_so_item (so_id so) now) items
                   (draw_uuid (d\<lparr>sales_orders := sales_orders d @ [so]\<rparr>))) (\<lambda>d.
            Inr (answer (Response 201 (so_body d so)) d)))))"

definition so_queryset :: "so_status query \<Rightarrow> db \<Rightarrow> sales_order list" where
  "so_queryset q d = filter (\<lambda>so. case q_status q of None \<Rightarrow> True | Some s \<Rightarrow> so_status so = s)
     (filter_date_range q so_created_at (sales_orders d))"

text \<open>\<open>so.save()\<close> without \<open>update_fields\<close> writes every column from the Python object.\<close>

definition save_so :: "time \<Rightarrow> sales_order \<Rightarrow> db \<Rightarrow> exn + db" where
  "save_so now so d = bindE (check_customer so) (\<lambda>_.
     Inr (d\<lparr>sales_orders :=
       update_row so_id (so_id so) (\<lambda>_. so\<lparr>so_updated_at := now\<rparr>) (sales_orders d)\<rparr>))"

definition so_write_customer :: "so_input \<Rightarrow> sales_order \<Rightarrow> sales_order" where
  "so_write_customer data so = so\<lparr>
     so_customer_name := field_default (so_customer_name so) (soin_customer_name data),
     so_customer_phone := field_default (so_customer_phone so) (soin_customer_phone data)\<rparr>"

definition so_write_items :: "time \<Rightarrow> so_input \<Rightarrow> sales_order \<Rightarrow> db \<Rightarrow> exn + db" where
  "so_write_items now data so d = (case soin_items data of
     Given items \<Rightarrow> foldE (insert_so_item (so_id so) now) items
       (d\<lparr>so_items := delete_rows (\<lambda>x. soi_order x = so_id so) (so_items d)\<rparr>)
   | _ \<Rightarrow> Inr d)"

definition so_update :: "user \<Rightarrow> time \<Rightarrow> bool \<Rightarrow> so_status query \<Rightarrow> uuid \<Rightarrow> so_input \<Rightarrow> view" where
  "so_update u now partial q pk data d =
     bindE (some_or Http404 (get_row so_id pk (so_queryset q d))) (\<lambda>so.
     if so_status so \<noteq> CREATED then
       Inr (answer (Response 409 (Detail ''Sales order can no longer be modified once completed'')) d)
     else
       bindE (so_validate d partial data) (\<lambda>data.
       bindE (save_so now (so_write_customer data so) d) (\<lambda>d.
       bindE (so_write_items now data so d) (\<lambda>d.
         Inr (answer (so_refreshed 200 (so_id so) d) d)))))"

text \<open>
  The default \<open>destroy\<close>: the lines go with the order (\<open>CASCADE\<close>), a return filed against it
  forbids it (\<open>PROTECT\<close>).
\<close>

definition so_destroy :: "so_status query \<Rightarrow> uuid \<Rightarrow> view" where
  "so_destroy q pk d =
     bindE (some_or Http404 (get_row so_id pk (so_queryset q d))) (\<lambda>so.
     bindE (guardE (\<forall>r \<in> set (return_requests d). r_order r \<noteq> so_id so) (ProtectedError ''Return.sales_order'')) (\<lambda>_.
       Inr (answer (Response 204 NoContent)
         (d\<lparr>sales_orders := delete_rows (\<lambda>x. so_id x = so_id so) (sales_orders d),
            so_items := delete_rows (\<lambda>x. soi_order x = so_id so) (so_items d)\<rparr>))))"

subsection \<open>complete\<close>

definition insufficient_stock :: "product \<Rightarrow> so_item \<Rightarrow> response" where
  "insufficient_stock product item = Response 409 (Detail
     (''Insufficient stock for '' @ [CHR 0x27] @ p_name product @ [CHR 0x27] @ '': available ''
      @ str_int (p_current_stock product) @ '', requested '' @ str_int (soi_quantity item)))"

text \<open>
  The first loop: an early answer (\<open>Inl\<close>), or the dictionary \<open>products_by_item\<close> from the id of
  a line to the product object read for it.
\<close>

fun check_lines :: "so_item list \<Rightarrow> db \<Rightarrow> (uuid \<Rightarrow> product option) \<Rightarrow> exn + (response + (uuid \<Rightarrow> product option))"
where
  "check_lines [] d by_item = Inr (Inr by_item)"
| "check_lines (item # items) d by_item =
     bindE (some_or (DoesNotExist ''Product'') (get_product (soi_product item) d)) (\<lambda>product.
       if p_current_stock product < soi_quantity item then Inr (Inl (insufficient_stock product item))
       else check_lines items d (by_item(soi_id item \<mapsto> product)))"

text \<open>The body of the second loop. It works on the object the first loop read for the line.\<close>

definition deduct_line ::
  "user \<Rightarrow> time \<Rightarrow> uuid \<Rightarrow> (uuid \<Rightarrow> product option) \<Rightarrow> so_item \<Rightarrow> db \<Rightarrow> exn + db" where
  "deduct_line u now oid by_item item d =
     bindE (some_or (KeyError ''products_by_item'') (by_item (soi_id item))) (\<lambda>product.
       let product = product\<lparr>p_current_stock := p_current_stock product - soi_quantity item\<rparr> in
       bindE (save_current_stock product d) (\<lambda>d.
       bindE (create_transaction (p_id product) (soi_quantity item) SALE (Some oid) None u now d) (\<lambda>(_, d).
         Inr (check_and_notify_stock product now d))))"

text \<open>\<open>f"INV-{uuid.uuid4().hex[:10].upper()}"\<close>, from the UUID drawn for it.\<close>

definition invoice_number_of :: "uuid \<Rightarrow> string" where
  "invoice_number_of i = ''INV-'' @ map upper_char (take 10 (uuid_hex i))"

definition finish_complete :: "time \<Rightarrow> uuid \<Rightarrow> sales_order \<Rightarrow> db \<Rightarrow> exn + db" where
  "finish_complete now drawn so d =
     bindE (guardE (\<forall>x \<in> set (sales_orders d). so_id x \<noteq> so_id so \<longrightarrow>
              so_invoice_number x \<noteq> Some (invoice_number_of drawn)) (IntegrityError ''invoice_number'')) (\<lambda>_.
       let d = d\<lparr>sales_orders := update_row so_id (so_id so) (\<lambda>r. r\<lparr>so_status := COMPLETED,
                 so_invoice_number := Some (invoice_number_of drawn), so_invoiced_at := Some now\<rparr>) (sales_orders d)\<rparr>
       in Inr (case so_created_by so of
            Some c \<Rightarrow> notify c SALE_COMPLETED
              (''Sales order '' @ str_uuid (so_id so) @ '' has been completed'') (Some (so_id so)) now d
          | None \<Rightarrow> d))"

definition complete :: "user \<Rightarrow> time \<Rightarrow> uuid \<Rightarrow> uuid \<Rightarrow> view" where
  "complete u now drawn pk d =
     bindE (some_or (DoesNotExist ''SalesOrder'') (get_so pk d)) (\<lambda>so.
     if so_status so = COMPLETED then
       Inr \<lparr>rsp = Response 409 (Detail ''Sales order has already been completed''), odb = d, ohooks = [],
            olog = [IdempotentReplay ''complete'' (str_uuid (so_id so)) (str_uuid (u_id u)) (u_role u)]\<rparr>
     else
       let items = sort_key soi_product (items_of_so (so_id so) d) in
       bindE (check_lines items d Map.empty) (\<lambda>checked. case checked of
         Inl early \<Rightarrow> Inr (answer early d)
       | Inr by_item \<Rightarrow>
           bindE (foldE (deduct_line u now (so_id so) by_item) items d) (\<lambda>d.
           bindE (finish_complete now drawn so d) (\<lambda>d.
             Inr \<lparr>rsp = so_refreshed 200 (so_id so) d, odb = d, ohooks = [BumpVersion ''inventory''],
                  olog = [StockMutation ''complete'' (str_uuid (so_id so))
                    (map (\<lambda>i. str_uuid (soi_product i)) items) (- total soi_quantity items)
                    (str_uuid (u_id u)) (u_role u)]\<rparr>))))"

subsection \<open>invoice\<close>

definition invoice :: "string option \<Rightarrow> uuid \<Rightarrow> so_status query \<Rightarrow> uuid \<Rightarrow> view" where
  "invoice request_id task_id q pk d =
     bindE (some_or Http404 (get_row so_id pk (so_queryset q d))) (\<lambda>so.
     if so_status so \<noteq> COMPLETED \<or> so_invoice_number so \<in> {None, Some []} then
       Inr (answer (Response 404 (Detail ''Invoice is not available until the sales order is completed'')) d)
     else
       Inr \<lparr>rsp = Response 202 (TaskAccepted task_id (''/tasks/'' @ str_uuid task_id @ ''/'')), odb = d,
            ohooks = [GenerateInvoice (str_uuid (so_id so)) task_id request_id], olog = []\<rparr>)"

subsection \<open>The check loop\<close>

lemma check_lines_all:
  assumes "check_lines items d acc = Inr (Inr by_item)"
  shows "item \<in> set items \<Longrightarrow> \<exists>p. get_product (soi_product item) d = Some p
    \<and> soi_quantity item \<le> p_current_stock p"
  using assms
proof (induction items arbitrary: acc)
  case (Cons x items)
  from Cons.prems(2) obtain p where p: "get_product (soi_product x) d = Some p"
    "\<not> p_current_stock p < soi_quantity x"
    "check_lines items d (acc(soi_id x \<mapsto> p)) = Inr (Inr by_item)"
    by (auto simp: bind_elims split: if_splits)
  show ?case
  proof (cases "item = x")
    case True
    with p(1,2) show ?thesis by auto
  next
    case False
    with Cons.prems(1) Cons.IH [OF _ p(3)] show ?thesis by simp
  qed
qed simp

lemma check_lines_by_item:
  assumes "check_lines items d acc = Inr (Inr by_item)" and "distinct (map soi_id items)"
  shows "by_item k = (case find (\<lambda>i. soi_id i = k) items of
     None \<Rightarrow> acc k | Some i \<Rightarrow> get_product (soi_product i) d)"
  using assms
proof (induction items arbitrary: acc)
  case (Cons x items)
  from Cons.prems(1) obtain p where p: "get_product (soi_product x) d = Some p"
    "check_lines items d (acc(soi_id x \<mapsto> p)) = Inr (Inr by_item)"
    by (auto simp: bind_elims split: if_splits)
  have "find (\<lambda>i. soi_id i = soi_id x) items = None"
    using Cons.prems(2) get_row_None [of soi_id "soi_id x" items] by (simp add: get_row_def)
  then show ?case using Cons.IH [OF p(2)] Cons.prems(2) p(1) by (auto split: option.splits)
qed simp

lemma check_lines_object:
  assumes "check_lines items d acc = Inr (Inr by_item)" and "distinct (map soi_id items)"
    and "item \<in> set items"
  shows "by_item (soi_id item) = get_product (soi_product item) d"
proof -
  have "find (\<lambda>i. soi_id i = soi_id item) items = Some item"
    using get_row_eqI [OF assms(2,3)] by (simp add: get_row_def)
  then show ?thesis using check_lines_by_item [OF assms(1,2), of "soi_id item"] by simp
qed

lemma check_lines_complete:
  assumes "\<And>item. item \<in> set items \<Longrightarrow> \<exists>p. get_product (soi_product item) d = Some p
    \<and> soi_quantity item \<le> p_current_stock p"
  shows "\<exists>by_item. check_lines items d acc = Inr (Inr by_item)"
  using assms
proof (induction items arbitrary: acc)
  case (Cons x items)
  then obtain p where "get_product (soi_product x) d = Some p" "soi_quantity x \<le> p_current_stock p"
    by fastforce
  with Cons show ?case by (auto simp: not_less)
qed simp

lemma check_lines_total:
  assumes "\<And>item. item \<in> set items \<Longrightarrow> \<exists>p. get_product (soi_product item) d = Some p"
  shows "\<exists>r. check_lines items d acc = Inr r"
  using assms
proof (induction items arbitrary: acc)
  case (Cons x items)
  then obtain p where "get_product (soi_product x) d = Some p" by fastforce
  with Cons show ?case by auto
qed simp

lemma check_lines_early:
  assumes "check_lines items d acc = Inr (Inl r)"
  shows "\<exists>item \<in> set items. \<exists>p. get_product (soi_product item) d = Some p
    \<and> p_current_stock p < soi_quantity item \<and> r = insufficient_stock p item"
  using assms
proof (induction items arbitrary: acc)
  case (Cons x items)
  then show ?case by (auto simp: bind_elims split: if_splits)
qed simp

subsection \<open>A deducted line\<close>

lemma deduct_line_Inr:
  "deduct_line u now oid by_item item d = Inr d' \<longleftrightarrow>
     (\<exists>p t d1. by_item (soi_id item) = Some p
       \<and> fits_integer (p_current_stock p - soi_quantity item) \<and> fits_integer (soi_quantity item)
       \<and> d1 = d\<lparr>products := update_row p_id (p_id p)
             (\<lambda>r. r\<lparr>p_current_stock := p_current_stock p - soi_quantity item\<rparr>) (products d)\<rparr>
       \<and> t = \<lparr>t_id = next_uuid d, t_product = p_id p, t_quantity = soi_quantity item,
             t_type = SALE, t_reference = Some oid, t_reason = None, t_created_at = now,
             t_created_by = Some (u_id u)\<rparr>
       \<and> d' = check_and_notify_stock (p\<lparr>p_current_stock := p_current_stock p - soi_quantity item\<rparr>) now
             (draw_uuid (d1\<lparr>transactions := transactions d @ [t]\<rparr>)))"
  by (auto simp: deduct_line_def bind_elims Let_def)

lemma deduct_line_levels:
  assumes "deduct_line u now oid by_item item d = Inr d'"
    and "by_item (soi_id item) = Some p" "p_id p = soi_product item"
  shows "stock_of d' i = (if i = soi_product item
      then map_option (\<lambda>_. p_current_stock p - soi_quantity item) (stock_of d i) else stock_of d i)"
    and "ledger_total d' i = (if i = soi_product item
      then ledger_total d i - soi_quantity item else ledger_total d i)"
proof -
  from assms obtain t d1 where
    d1: "d1 = d\<lparr>products := update_row p_id (p_id p)
             (\<lambda>r. r\<lparr>p_current_stock := p_current_stock p - soi_quantity item\<rparr>) (products d)\<rparr>"
    and t: "t_product t = p_id p" "t_type t = SALE" "t_quantity t = soi_quantity item"
    and d': "products d' = products d1" "transactions d' = transactions d @ [t]"
    by (fastforce simp: deduct_line_Inr)
  have "stock_of d' i = stock_of d1 i" using d'(1) by (simp add: stock_of_def)
  then show "stock_of d' i = (if i = soi_product item
      then map_option (\<lambda>_. p_current_stock p - soi_quantity item) (stock_of d i) else stock_of d i)"
    using assms(3) by (simp add: d1 stock_of_save)
  show "ledger_total d' i = (if i = soi_product item
      then ledger_total d i - soi_quantity item else ledger_total d i)"
    using d'(2) t assms(3) by (simp add: ledger_total_def signed_quantity.simps)
qed

definition fresh_object :: "(uuid \<Rightarrow> product option) \<Rightarrow> so_item \<Rightarrow> db \<Rightarrow> bool" where
  "fresh_object by_item item d \<longleftrightarrow> (\<exists>p. by_item (soi_id item) = Some p \<and> p_id p = soi_product item
     \<and> stock_of d (soi_product item) = Some (p_current_stock p))"

interpretation deducting: stock_movement "deduct_line u now oid by_item" soi_product
    "\<lambda>item. - soi_quantity item" "fresh_object by_item" for u now oid by_item
  by unfold_locales (auto simp: fresh_object_def deduct_line_levels)

lemma deduct_lines_frame:
  assumes "foldE (deduct_line u now oid by_item) items d = Inr d'"
  shows "purchase_orders d' = purchase_orders d" "po_items d' = po_items d"
    "sales_orders d' = sales_orders d" "so_items d' = so_items d"
    "return_requests d' = return_requests d" "map p_id (products d') = map p_id (products d)"
    "users d' = users d" "suppliers d' = suppliers d" "categories d' = categories d"
proof -
  let ?P = "\<lambda>e. purchase_orders e = purchase_orders d \<and> po_items e = po_items d
    \<and> sales_orders e = sales_orders d \<and> so_items e = so_items d
    \<and> return_requests e = return_requests d \<and> map p_id (products e) = map p_id (products d)
    \<and> users e = users d \<and> suppliers e = suppliers d \<and> categories e = categories d"
  have "?P d'"
    by (rule foldE_invariant [OF assms, of ?P]) (auto simp: deduct_line_Inr update_row_keys)
  then show "purchase_orders d' = purchase_orders d" "po_items d' = po_items d"
    "sales_orders d' = sales_orders d" "so_items d' = so_items d"
    "return_requests d' = return_requests d" "map p_id (products d') = map p_id (products d)"
    "users d' = users d" "suppliers d' = suppliers d" "categories d' = categories d" by simp_all
qed

lemma deduct_lines_ledger:
  assumes "foldE (deduct_line u now oid by_item) items d = Inr d'"
    and "\<And>item. item \<in> set items \<Longrightarrow> \<exists>p. by_item (soi_id item) = Some p \<and> p_id p = soi_product item"
  shows "\<exists>ts. transactions d' = transactions d @ ts
    \<and> map (\<lambda>t. (t_product t, t_quantity t, t_type t, t_reference t)) ts
      = map (\<lambda>i. (soi_product i, soi_quantity i, SALE, Some oid)) items"
  using assms
proof (induction items arbitrary: d)
  case (Cons item items)
  then obtain e where e: "deduct_line u now oid by_item item d = Inr e"
    "foldE (deduct_line u now oid by_item) items e = Inr d'"
    by (auto simp: bind_elims)
  obtain p where "by_item (soi_id item) = Some p" "p_id p = soi_product item"
    using Cons.prems(2) [of item] by auto
  with e(1) obtain t where t: "transactions e = transactions d @ [t]"
    "(t_product t, t_quantity t, t_type t, t_reference t)
      = (soi_product item, soi_quantity item, SALE, Some oid)" by (auto simp: deduct_line_Inr)
  from Cons.IH [OF e(2)] Cons.prems(2) obtain ts where "transactions d' = transactions e @ ts"
    "map (\<lambda>t. (t_product t, t_quantity t, t_type t, t_reference t)) ts
      = map (\<lambda>i. (soi_product i, soi_quantity i, SALE, Some oid)) items" by auto
  with t show ?case by (intro exI [of _ "t # ts"]) simp
qed simp

text \<open>
  What the second loop leaves when it works on objects that were all read before it (\<open>N\<close> is the
  stock they hold): every line books itself in the ledger, but the stock of a product is what
  its last line wrote.
\<close>

lemma deduct_lines_levels:
  assumes "foldE (deduct_line u now oid by_item) items d = Inr d'"
    and "\<And>item. item \<in> set items \<Longrightarrow> \<exists>p. by_item (soi_id item) = Some p
           \<and> p_id p = soi_product item \<and> p_current_stock p = N (soi_product item)"
  shows "stock_of d' i = (case filter (\<lambda>x. soi_product x = i) items of
      [] \<Rightarrow> stock_of d i
    | xs \<Rightarrow> map_option (\<lambda>_. N i - soi_quantity (last xs)) (stock_of d i))"
    and "ledger_total d' i = ledger_total d i - total soi_quantity (filter (\<lambda>x. soi_product x = i) items)"
proof -
  have "stock_of d' i = (case filter (\<lambda>x. soi_product x = i) items of
      [] \<Rightarrow> stock_of d i
    | xs \<Rightarrow> map_option (\<lambda>_. N i - soi_quantity (last xs)) (stock_of d i))
    \<and> ledger_total d' i = ledger_total d i - total soi_quantity (filter (\<lambda>x. soi_product x = i) items)"
    using assms
  proof (induction items arbitrary: d)
    case (Cons item items)
    then obtain e where e: "deduct_line u now oid by_item item d = Inr e"
      "foldE (deduct_line u now oid by_item) items e = Inr d'"
      by (auto simp: bind_elims)
    obtain p where p: "by_item (soi_id item) = Some p" "p_id p = soi_product item"
      "p_current_stock p = N (soi_product item)"
      using Cons.prems(2) [of item] by auto
    note ih = Cons.IH [OF e(2)]
    show ?case
      using ih Cons.prems(2) deduct_line_levels [OF e(1) p(1,2), of i] p(3)
      by (auto simp: option.map_comp o_def split: list.splits)
  qed simp
  then show "stock_of d' i = (case filter (\<lambda>x. soi_product x = i) items of
      [] \<Rightarrow> stock_of d i
    | xs \<Rightarrow> map_option (\<lambda>_. N i - soi_quantity (last xs)) (stock_of d i))"
    and "ledger_total d' i = ledger_total d i - total soi_quantity (filter (\<lambda>x. soi_product x = i) items)"
    by simp_all
qed

subsection \<open>What a call of \<open>complete\<close> does\<close>

lemma finish_complete_Inr:
  assumes "finish_complete now drawn so d = Inr d'"
  shows "users d' = users d" "suppliers d' = suppliers d" "categories d' = categories d"
    "products d' = products d" "purchase_orders d' = purchase_orders d" "po_items d' = po_items d"
    "so_items d' = so_items d" "transactions d' = transactions d" "return_requests d' = return_requests d"
    "sales_orders d' = update_row so_id (so_id so) (\<lambda>r. r\<lparr>so_status := COMPLETED,
       so_invoice_number := Some (invoice_number_of drawn), so_invoiced_at := Some now\<rparr>) (sales_orders d)"
  using assms by (auto simp: finish_complete_def bind_elims Let_def split: option.splits)

lemma complete_replay:
  "get_so pk d = Some so \<Longrightarrow> so_status so = COMPLETED \<Longrightarrow> complete u now drawn pk d
     = Inr \<lparr>rsp = Response 409 (Detail ''Sales order has already been completed''), odb = d, ohooks = [],
            olog = [IdempotentReplay ''complete'' (str_uuid (so_id so)) (str_uuid (u_id u)) (u_role u)]\<rparr>"
  by (simp add: complete_def)

lemma complete_cases:
  assumes "complete u now drawn pk d = Inr oc"
  obtains (replay) so where "get_so pk d = Some so" "so_status so = COMPLETED" "odb oc = d"
      "status_code (rsp oc) = 409" "ohooks oc = []"
  | (short) so r where "get_so pk d = Some so" "so_status so = CREATED" "odb oc = d"
      "check_lines (sort_key soi_product (items_of_so pk d)) d Map.empty = Inr (Inl r)"
      "rsp oc = r" "ohooks oc = []"
  | (sold) so by_item d1 where "get_so pk d = Some so" "so_id so = pk" "so_status so = CREATED"
      "check_lines (sort_key soi_product (items_of_so pk d)) d Map.empty = Inr (Inr by_item)"
      "foldE (deduct_line u now pk by_item) (sort_key soi_product (items_of_so pk d)) d = Inr d1"
      "finish_complete now drawn so d1 = Inr (odb oc)"
      "rsp oc = so_refreshed 200 pk (odb oc)" "ohooks oc = [BumpVersion ''inventory'']"
proof (cases "get_so pk d")
  case None
  with assms show thesis by (simp add: complete_def)
next
  case (Some so)
  have id: "so_id so = pk" using get_row_SomeD(2) [OF Some] .
  show thesis
  proof (cases "so_status so")
    case COMPLETED
    with Some assms complete_replay [OF Some COMPLETED] show thesis by (intro replay) auto
  next
    case CREATED
    let ?items = "sort_key soi_product (items_of_so pk d)"
    from assms Some CREATED id obtain checked where c: "check_lines ?items d Map.empty = Inr checked"
      by (auto simp: complete_def bind_elims Let_def)
    show thesis
    proof (cases checked)
      case (Inl r)
      with assms Some CREATED id c show thesis by (intro short) (auto simp: complete_def Let_def)
    next
      case (Inr by_item)
      with assms Some CREATED id c show thesis
        by (auto simp: complete_def Let_def bind_elims intro!: sold)
    qed
  qed
qed

text \<open>
  The effect of a completed sale on the abstract view, whatever its lines are: the ledger books
  every line, the stock of a product falls by the quantity of its last line.
\<close>

lemma complete_levels:
  assumes "get_so pk d = Some so" "so_id so = pk"
    and "check_lines (sort_key soi_product (items_of_so pk d)) d Map.empty = Inr (Inr by_item)"
    and "foldE (deduct_line u now pk by_item) (sort_key soi_product (items_of_so pk d)) d = Inr d1"
    and "finish_complete now drawn so d1 = Inr d2"
    and ids: "distinct (map soi_id (so_items d))"
  shows "stock_of d2 i = (case filter (\<lambda>x. soi_product x = i) (items_of_so pk d) of
      [] \<Rightarrow> stock_of d i
    | xs \<Rightarrow> map_option (\<lambda>n. n - soi_quantity (last xs)) (stock_of d i))"
    and "ledger_total d2 i = ledger_total d i
      - total soi_quantity (filter (\<lambda>x. soi_product x = i) (items_of_so pk d))"
    and "item \<in> set (items_of_so pk d) \<Longrightarrow>
      \<exists>n. stock_of d (soi_product item) = Some n \<and> soi_quantity item \<le> n"
proof -
  let ?items = "sort_key soi_product (items_of_so pk d)"
  define N where "N i = (case stock_of d i of None \<Rightarrow> 0 | Some n \<Rightarrow> n)" for i
  have dist: "distinct (map soi_id ?items)"
    using ids by (simp add: distinct_map_filter)
  have obj: "\<exists>p. by_item (soi_id item) = Some p \<and> p_id p = soi_product item
      \<and> p_current_stock p = N (soi_product item)" if "item \<in> set ?items" for item
    using check_lines_all [OF assms(3) that] check_lines_object [OF assms(3) dist that]
    by (auto simp: N_def stock_of_def dest: get_row_SomeD(2))
  note same = levels_cong(1,2) [OF finish_complete_Inr(4,8) [OF assms(5)]]
  have stable: "filter (\<lambda>x. soi_product x = i) ?items = filter (\<lambda>x. soi_product x = i) (items_of_so pk d)"
    by (rule sort_key_stable)
  note lv = deduct_lines_levels [OF assms(4) obj, of i, unfolded stable]
  show "stock_of d2 i = (case filter (\<lambda>x. soi_product x = i) (items_of_so pk d) of
      [] \<Rightarrow> stock_of d i
    | xs \<Rightarrow> map_option (\<lambda>n. n - soi_quantity (last xs)) (stock_of d i))"
    using lv(1) same(1) by (auto simp: N_def split: list.splits option.splits)
  show "ledger_total d2 i = ledger_total d i
      - total soi_quantity (filter (\<lambda>x. soi_product x = i) (items_of_so pk d))"
    using lv(2) same(2) by simp
  show "item \<in> set (items_of_so pk d) \<Longrightarrow>
      \<exists>n. stock_of d (soi_product item) = Some n \<and> soi_quantity item \<le> n"
    using check_lines_all [OF assms(3), of item] by (auto simp: stock_of_def)
qed

lemma lines_of_product:
  assumes "\<And>x. x \<in> set xs \<Longrightarrow> 1 \<le> soi_quantity x" and "xs \<noteq> []"
  shows "soi_quantity (last xs) \<le> total soi_quantity xs"
    and "soi_quantity (last xs) = total soi_quantity xs \<longleftrightarrow> length xs = 1"
proof -
  from assms(2) obtain ys y where xs: "xs = ys @ [y]" by (metis rev_exhaust)
  have "int (length ys) \<le> total soi_quantity ys"
    using assms(1) unfolding xs by (induction ys) (auto, fastforce)
  then show "soi_quantity (last xs) \<le> total soi_quantity xs"
    and "soi_quantity (last xs) = total soi_quantity xs \<longleftrightarrow> length xs = 1"
    using xs by auto
qed

lemma distinct_iff_filter:
  "distinct (map f xs) \<longleftrightarrow> (\<forall>i. length (filter (\<lambda>x. f x = i) xs) \<le> 1)"
proof (induction xs)
  case (Cons x xs)
  have "length (filter (\<lambda>y. f y = f x) xs) = 0 \<longleftrightarrow> f x \<notin> f ` set xs"
    by (auto simp: filter_empty_conv image_iff)
  with Cons show ?case by (auto simp: le_Suc_eq)
qed simp

end
