(* ===== verification/Returns.thy ===== *)
theory Returns
  imports Inputs
begin

section \<open>Returns and damage write-offs\<close>

text \<open>
  \<open>ReturnViewSet\<close> (create with its reservation check, approve, the default update and destroy)
  and \<open>DamageWriteOffView\<close> of \<open>apps/inventory/views.py\<close>.
\<close>

definition return_body :: "return_request \<Rightarrow> body" where
  "return_body r = ReturnBody (r_id r) (r_order r) (r_product r) (r_quantity r) (r_reason r)
     (r_status r) (r_approved_by r) (r_created_by r) (r_created_at r)"

subsection \<open>create\<close>

text \<open>
  This view reads \<open>request.data\<close> itself, no serializer checks it. A missing or null
  \<open>sales_order\<close> or \<open>product\<close> is \<open>None\<close>; \<open>Given n\<close> is a \<open>quantity\<close> that \<open>int()\<close> turns into
  \<open>n\<close>, \<open>Malformed\<close> one it refuses. A \<open>reason\<close> is missing (\<open>None\<close>), null (\<open>Some None\<close>), or stored as the text of
  whatever it is.
\<close>

record return_input =
  rin_sales_order :: "uuid option"
  rin_product :: "uuid option"
  rin_quantity :: "int field"
  rin_reason :: "string option option"

definition int_of_quantity :: "int field \<Rightarrow> exn + int" where
  "int_of_quantity f = (case f of
     Absent \<Rightarrow> Inr 0 | Malformed \<Rightarrow> Inl (ValueError ''int()'') | Given n \<Rightarrow> Inr n)"

definition reason_of :: "string option option \<Rightarrow> exn + string" where
  "reason_of f = (case f of
     None \<Rightarrow> Inr []
   | Some None \<Rightarrow> Inl (IntegrityError ''reason'')
   | Some (Some s) \<Rightarrow> bindE (guardE (length s \<le> 1000) (DataError ''value too long'')) (\<lambda>_. Inr s))"

definition sold_quantity :: "db \<Rightarrow> uuid \<Rightarrow> uuid \<Rightarrow> int" where
  "sold_quantity d oid pid =
     total soi_quantity (filter (\<lambda>i. soi_product i = pid) (items_of_so oid d))"

definition already_reserved :: "db \<Rightarrow> uuid \<Rightarrow> uuid \<Rightarrow> int" where
  "already_reserved d oid pid =
     total r_quantity (filter (\<lambda>r. r_order r = oid \<and> r_product r = pid \<and> r_status r \<in> {PENDING, APPROVED})
       (return_requests d))"

definition exceeds_remaining :: "int \<Rightarrow> response" where
  "exceeds_remaining remaining = Response 400 (Detail
     (''Return quantity exceeds remaining returnable quantity ('' @ str_int remaining @ '')''))"

definition return_create :: "user \<Rightarrow> time \<Rightarrow> return_input \<Rightarrow> view" where
  "return_create u now data d =
     bindE (some_or (DoesNotExist ''SalesOrder'')
              (case rin_sales_order data of None \<Rightarrow> None | Some i \<Rightarrow> get_so i d)) (\<lambda>so.
     if so_status so \<noteq> COMPLETED then
       Inr (answer (Response 400 (Detail ''Returns can only be filed against a completed sales order'')) d)
     else
       bindE (int_of_quantity (rin_quantity data)) (\<lambda>quantity.
       let sold = (case rin_product data of None \<Rightarrow> 0 | Some pid \<Rightarrow> sold_quantity d (so_id so) pid) in
       if sold = 0 then
         Inr (answer (Response 400 (Detail ''This product was not part of the original sales order'')) d)
       else
         bindE (some_or (IntegrityError ''product'') (rin_product data)) (\<lambda>pid.
         let remaining = sold - already_reserved d (so_id so) pid in
         if quantity > remaining then Inr (answer (exceeds_remaining remaining) d)
         else
           bindE (check_positive_integer quantity) (\<lambda>_.
           bindE (reason_of (rin_reason data)) (\<lambda>reason.
             let r = \<lparr>r_id = next_uuid d, r_order = so_id so, r_product = pid, r_quantity = quantity,
                      r_reason = reason, r_status = PENDING, r_approved_by = None, r_created_at = now,
                      r_created_by = Some (u_id u)\<rparr>
             in Inr (answer (Response 201 (return_body r))
                  (draw_uuid (d\<lparr>return_requests := return_requests d @ [r]\<rparr>))))))))"

subsection \<open>The query set, the default update and destroy\<close>

fun return_status_value :: "return_status \<Rightarrow> string" where
  "return_status_value PENDING = ''pending''"
| "return_status_value APPROVED = ''approved''"

definition return_queryset :: "string option \<Rightarrow> db \<Rightarrow> return_request list" where
  "return_queryset status_filter d = (case status_filter of
     None \<Rightarrow> return_requests d
   | Some s \<Rightarrow> if s = [] then return_requests d
       else filter (\<lambda>r. return_status_value (r_status r) = s) (return_requests d))"

text \<open>Every field of \<open>ReturnReadSerializer\<close> is read-only, so PUT and PATCH save the row as it is.\<close>

definition return_update :: "string option \<Rightarrow> uuid \<Rightarrow> view" where
  "return_update sf pk d =
     bindE (some_or Http404 (get_row r_id pk (return_queryset sf d))) (\<lambda>r.
       Inr (answer (Response 200 (return_body r))
         (d\<lparr>return_requests := update_row r_id (r_id r) (\<lambda>_. r) (return_requests d)\<rparr>)))"

definition return_destroy :: "string option \<Rightarrow> uuid \<Rightarrow> view" where
  "return_destroy sf pk d =
     bindE (some_or Http404 (get_row r_id pk (return_queryset sf d))) (\<lambda>r.
       Inr (answer (Response 204 NoContent)
         (d\<lparr>return_requests := delete_rows (\<lambda>x. r_id x = r_id r) (return_requests d)\<rparr>)))"

subsection \<open>approve\<close>

text \<open>The part of \<open>approve\<close> that moves stock, for a return that is not approved yet.\<close>

definition restock :: "user \<Rightarrow> time \<Rightarrow> return_request \<Rightarrow> db \<Rightarrow> exn + db" where
  "restock u now ret d =
     bindE (some_or (DoesNotExist ''Product'') (get_product (r_product ret) d)) (\<lambda>product.
       let product = product\<lparr>p_current_stock := p_current_stock product + r_quantity ret\<rparr> in
       bindE (save_current_stock product d) (\<lambda>d.
       bindE (create_transaction (p_id product) (r_quantity ret) RETURN (Some (r_id ret)) None u now d) (\<lambda>(_, d).
         Inr d)))"

definition save_return_approved :: "user \<Rightarrow> return_request \<Rightarrow> db \<Rightarrow> db" where
  "save_return_approved u ret d = d\<lparr>return_requests := update_row r_id (r_id ret)
     (\<lambda>r. r\<lparr>r_status := APPROVED, r_approved_by := Some (u_id u)\<rparr>) (return_requests d)\<rparr>"

definition return_refreshed :: "nat \<Rightarrow> uuid \<Rightarrow> db \<Rightarrow> response" where
  "return_refreshed code pk d = (case get_return pk d of
     Some r \<Rightarrow> Response code (return_body r)
   | None \<Rightarrow> error_response (DoesNotExist ''Return''))"

definition approve :: "user \<Rightarrow> time \<Rightarrow> uuid \<Rightarrow> view" where
  "approve u now pk d =
     bindE (some_or (DoesNotExist ''Return'') (get_return pk d)) (\<lambda>ret.
     if r_status ret = APPROVED then
       Inr \<lparr>rsp = Response 409 (Detail ''Return has already been approved''), odb = d, ohooks = [],
            olog = [IdempotentReplay ''approve'' (str_uuid (r_id ret)) (str_uuid (u_id u)) (u_role u)]\<rparr>
     else
       bindE (restock u now ret d) (\<lambda>d.
         let d = save_return_approved u ret d
         in Inr \<lparr>rsp = return_refreshed 200 (r_id ret) d, odb = d, ohooks = [BumpVersion ''inventory''],
                 olog = [StockMutation ''approve'' (str_uuid (r_id ret)) [str_uuid (r_product ret)]
                   (r_quantity ret) (str_uuid (u_id u)) (u_role u)]\<rparr>))"

subsection \<open>Damage write-offs\<close>

definition cannot_write_off :: "int \<Rightarrow> int \<Rightarrow> response" where
  "cannot_write_off quantity stock = Response 409 (Detail
     (''Cannot write off '' @ str_int quantity @ '' units - only '' @ str_int stock @ '' in stock''))"

text \<open>The stock movement of a write-off, on the locked product object.\<close>

definition write_off ::
  "user \<Rightarrow> time \<Rightarrow> string \<Rightarrow> product \<times> int \<Rightarrow> db \<Rightarrow> exn + inventory_transaction \<times> db" where
  "write_off u now reason pq d =
     (let product = (fst pq)\<lparr>p_current_stock := p_current_stock (fst pq) - snd pq\<rparr> in
       bindE (save_current_stock product d) (\<lambda>d.
       bindE (create_transaction (p_id product) (snd pq) DAMAGE None (Some reason) u now d) (\<lambda>(t, d).
         Inr (t, check_and_notify_stock product now d))))"

definition damage :: "user \<Rightarrow> time \<Rightarrow> damage_input \<Rightarrow> view" where
  "damage u now data d =
     bindE (damage_validate data) (\<lambda>data.
     bindE (field_get ''product_id'' (din_product data)) (\<lambda>pid.
     bindE (field_get ''quantity'' (din_quantity data)) (\<lambda>quantity.
     bindE (field_get ''reason'' (din_reason data)) (\<lambda>reason.
     case get_row p_id pid (filter p_is_active (products d)) of
       None \<Rightarrow> Inr (answer (Response 400 (Detail ''Product not found or inactive'')) d)
     | Some product \<Rightarrow>
         if p_current_stock product < quantity then
           Inr (answer (cannot_write_off quantity (p_current_stock product)) d)
         else
           bindE (write_off u now reason (product, quantity) d) (\<lambda>(t, d).
             Inr \<lparr>rsp = Response 201 (txn_body t), odb = d, ohooks = [BumpVersion ''inventory''],
                  olog = [StockMutation ''damage'' (str_uuid (t_id t)) [str_uuid (p_id product)]
                    (- quantity) (str_uuid (u_id u)) (u_role u)]\<rparr>)))))"

subsection \<open>Both are stock movements\<close>

lemma restock_Inr:
  "restock u now ret d = Inr d' \<longleftrightarrow>
     (\<exists>p t. get_product (r_product ret) d = Some p
       \<and> fits_integer (p_current_stock p + r_quantity ret) \<and> fits_integer (r_quantity ret)
       \<and> t = \<lparr>t_id = next_uuid d, t_product = p_id p, t_quantity = r_quantity ret,
             t_type = RETURN, t_reference = Some (r_id ret), t_reason = None, t_created_at = now,
             t_created_by = Some (u_id u)\<rparr>
       \<and> d' = draw_uuid (d\<lparr>products := update_row p_id (p_id p)
             (\<lambda>r. r\<lparr>p_current_stock := p_current_stock p + r_quantity ret\<rparr>) (products d),
             transactions := transactions d @ [t]\<rparr>))"
  by (auto simp: restock_def bind_elims Let_def)

lemma restock_levels:
  assumes "restock u now ret d = Inr d'"
  shows "stock_of d' i = (if i = r_product ret
      then map_option (\<lambda>n. n + r_quantity ret) (stock_of d i) else stock_of d i)"
    and "ledger_total d' i = (if i = r_product ret
      then ledger_total d i + r_quantity ret else ledger_total d i)"
proof -
  from assms obtain p t where p: "get_product (r_product ret) d = Some p"
    and t: "t_product t = p_id p" "t_type t = RETURN" "t_quantity t = r_quantity ret"
    and d': "products d' = update_row p_id (p_id p)
             (\<lambda>r. r\<lparr>p_current_stock := p_current_stock p + r_quantity ret\<rparr>) (products d)"
      "transactions d' = transactions d @ [t]"
    by (fastforce simp: restock_Inr)
  have id: "p_id p = r_product ret" using get_row_SomeD(2) [OF p] .
  show "stock_of d' i = (if i = r_product ret
      then map_option (\<lambda>n. n + r_quantity ret) (stock_of d i) else stock_of d i)"
    using p id d'(1) by (simp add: stock_of_def get_row_update)
  show "ledger_total d' i = (if i = r_product ret
      then ledger_total d i + r_quantity ret else ledger_total d i)"
    using d'(2) t id by (simp add: ledger_total_def signed_quantity.simps)
qed

interpretation restocking: rereading_movement "restock u now" r_product r_quantity "\<lambda>_ _. True"
    for u now
  by unfold_locales (simp_all add: restock_levels)

definition write_off_step :: "user \<Rightarrow> time \<Rightarrow> string \<Rightarrow> product \<times> int \<Rightarrow> db \<Rightarrow> exn + db" where
  "write_off_step u now reason pq d = bindE (write_off u now reason pq d) (\<lambda>(t, d). Inr d)"

lemma write_off_Inr:
  "write_off u now reason (p, q) d = Inr (t, d') \<longleftrightarrow>
     fits_integer (p_current_stock p - q) \<and> fits_integer q
       \<and> t = \<lparr>t_id = next_uuid d, t_product = p_id p, t_quantity = q,
             t_type = DAMAGE, t_reference = None, t_reason = Some reason, t_created_at = now,
             t_created_by = Some (u_id u)\<rparr>
       \<and> d' = check_and_notify_stock (p\<lparr>p_current_stock := p_current_stock p - q\<rparr>) now
             (draw_uuid (d\<lparr>products := update_row p_id (p_id p)
               (\<lambda>r. r\<lparr>p_current_stock := p_current_stock p - q\<rparr>) (products d),
               transactions := transactions d @ [t]\<rparr>))"
  by (auto simp: write_off_def bind_elims Let_def)

lemma write_off_levels:
  assumes "write_off u now reason (p, q) d = Inr (t, d')"
    and "stock_of d (p_id p) = Some (p_current_stock p)"
  shows "stock_of d' i = (if i = p_id p then map_option (\<lambda>n. n + (- q)) (stock_of d i) else stock_of d i)"
    and "ledger_total d' i = (if i = p_id p then ledger_total d i + (- q) else ledger_total d i)"
proof -
  from assms(1) have
    d': "products d' = update_row p_id (p_id p)
             (\<lambda>r. r\<lparr>p_current_stock := p_current_stock p - q\<rparr>) (products d)"
      "transactions d' = transactions d @ [t]"
    and t: "t_product t = p_id p" "t_type t = DAMAGE" "t_quantity t = q"
    by (auto simp: write_off_Inr)
  show "stock_of d' i = (if i = p_id p then map_option (\<lambda>n. n + (- q)) (stock_of d i) else stock_of d i)"
    using assms(2) d'(1) by (auto simp: stock_of_def get_row_update)
  show "ledger_total d' i = (if i = p_id p then ledger_total d i + (- q) else ledger_total d i)"
    using d'(2) t by (simp add: ledger_total_def signed_quantity.simps)
qed

interpretation writing_off: stock_movement "write_off_step u now reason" "\<lambda>(p, q). p_id p"
    "\<lambda>(p, q). - q" "\<lambda>(p, q) d. stock_of d (p_id p) = Some (p_current_stock p)" for u now reason
  by unfold_locales (auto simp: write_off_step_def bind_elims write_off_levels)

subsection \<open>What the calls do\<close>

lemma approve_replay:
  "get_return pk d = Some r \<Longrightarrow> r_status r = APPROVED \<Longrightarrow> approve u now pk d
     = Inr \<lparr>rsp = Response 409 (Detail ''Return has already been approved''), odb = d, ohooks = [],
            olog = [IdempotentReplay ''approve'' (str_uuid (r_id r)) (str_uuid (u_id u)) (u_role u)]\<rparr>"
  by (simp add: approve_def)

lemma approve_cases:
  assumes "approve u now pk d = Inr oc"
  obtains (replay) r where "get_return pk d = Some r" "r_status r = APPROVED" "odb oc = d"
      "status_code (rsp oc) = 409" "ohooks oc = []"
  | (first) r d1 where "get_return pk d = Some r" "r_id r = pk" "r_status r = PENDING"
      "restock u now r d = Inr d1" "odb oc = save_return_approved u r d1"
      "rsp oc = return_refreshed 200 pk (odb oc)" "ohooks oc = [BumpVersion ''inventory'']"
proof (cases "get_return pk d")
  case None
  with assms show thesis by (simp add: approve_def)
next
  case (Some r)
  have id: "r_id r = pk" using get_row_SomeD(2) [OF Some] .
  show thesis
  proof (cases "r_status r")
    case APPROVED
    with Some assms approve_replay [OF Some APPROVED] show thesis by (intro replay) auto
  next
    case PENDING
    with Some assms id show thesis
      by (auto simp: approve_def bind_elims Let_def intro!: first)
  qed
qed

lemma save_return_approved_simps [simp]:
  "users (save_return_approved u r d) = users d" "suppliers (save_return_approved u r d) = suppliers d"
  "categories (save_return_approved u r d) = categories d"
  "products (save_return_approved u r d) = products d"
  "purchase_orders (save_return_approved u r d) = purchase_orders d"
  "po_items (save_return_approved u r d) = po_items d"
  "sales_orders (save_return_approved u r d) = sales_orders d"
  "so_items (save_return_approved u r d) = so_items d"
  "transactions (save_return_approved u r d) = transactions d"
  by (simp_all add: save_return_approved_def)

lemma damage_cases:
  assumes "damage u now data d = Inr oc"
  obtains (refused) "odb oc = d" "status_code (rsp oc) \<in> {400, 409}" "ohooks oc = []"
  | (written) pid p q reason t where "din_product data = Given pid" "din_quantity data = Given q" "1 \<le> q"
      "get_row p_id pid (filter p_is_active (products d)) = Some p" "p_id p = pid"
      "p \<in> set (products d)" "p_is_active p" "q \<le> p_current_stock p"
      "write_off u now reason (p, q) d = Inr (t, odb oc)" "rsp oc = Response 201 (txn_body t)"
      "ohooks oc = [BumpVersion ''inventory'']"
proof -
  from assms have v: "damage_validate data = Inr data" using damage_validate_Inr(1)
    by (auto simp: damage_def bind_elims)
  obtain pid q reason where f: "din_product data = Given pid" "din_quantity data = Given q" "1 \<le> q"
    "din_reason data = Given reason"
    using damage_validate_Inr [OF v] by blast
  show thesis
  proof (cases "get_row p_id pid (filter p_is_active (products d))")
    case None
    with assms v f show thesis by (intro refused) (auto simp: damage_def field_get_def)
  next
    case (Some p)
    note p = get_row_SomeD [OF Some]
    show thesis
    proof (cases "p_current_stock p < q")
      case True
      with assms v f Some show thesis
        by (intro refused) (auto simp: damage_def field_get_def cannot_write_off_def)
    next
      case False
      with assms v f Some obtain t where "write_off u now reason (p, q) d = Inr (t, odb oc)"
        "rsp oc = Response 201 (txn_body t)" "ohooks oc = [BumpVersion ''inventory'']"
        by (auto simp: damage_def field_get_def bind_elims)
      with f Some p False show thesis by (intro written) auto
    qed
  qed
qed

end
