(* ===== verification/Inventory.thy ===== *)
theory Inventory
  imports Purchase Sales Returns
begin

section \<open>The inventory endpoints together\<close>

text \<open>
  Every write endpoint of \<open>apps/inventory\<close> as one request type, served by one function; the
  well-formedness of the tables, the ledger invariant, and the reservation invariant of returns,
  each preserved by every request.
\<close>

datatype request =
    CreatePO po_input
  | UpdatePO bool "po_status query" uuid po_input
  | DestroyPO "po_status query" uuid
  | Receive uuid
  | CreateSO so_input
  | UpdateSO bool "so_status query" uuid so_input
  | DestroySO "so_status query" uuid
  | Complete uuid uuid
  | Invoice "string option" uuid "so_status query" uuid
  | CreateReturn return_input
  | UpdateReturn "string option" uuid
  | DestroyReturn "string option" uuid
  | Approve uuid
  | WriteOff damage_input

fun view_of :: "user \<Rightarrow> time \<Rightarrow> request \<Rightarrow> view" where
  "view_of u now (CreatePO data) = po_create u now data"
| "view_of u now (UpdatePO partial q pk data) = po_update u now partial q pk data"
| "view_of u now (DestroyPO q pk) = po_destroy q pk"
| "view_of u now (Receive pk) = receive u now pk"
| "view_of u now (CreateSO data) = so_create u now data"
| "view_of u now (UpdateSO partial q pk data) = so_update u now partial q pk data"
| "view_of u now (DestroySO q pk) = so_destroy q pk"
| "view_of u now (Complete drawn pk) = complete u now drawn pk"
| "view_of u now (Invoice rid task q pk) = invoice rid task q pk"
| "view_of u now (CreateReturn data) = return_create u now data"
| "view_of u now (UpdateReturn sf pk) = return_update sf pk"
| "view_of u now (DestroyReturn sf pk) = return_destroy sf pk"
| "view_of u now (Approve pk) = approve u now pk"
| "view_of u now (WriteOff data) = damage u now data"

definition serve :: "user \<Rightarrow> time \<Rightarrow> request \<Rightarrow> world \<Rightarrow> response \<times> world" where
  "serve u now r w = run_view (view_of u now r) w"

text \<open>A request of a user at a time, and the world after a sequence of them.\<close>

type_synonym event = "user \<times> time \<times> request"

fun after :: "event \<Rightarrow> world \<Rightarrow> world" where
  "after (u, now, r) w = snd (serve u now r w)"

subsection \<open>Invariants\<close>

definition wf_products :: "db \<Rightarrow> bool" where
  "wf_products d \<longleftrightarrow> distinct (map p_id (products d))"

definition wf_purchases :: "db \<Rightarrow> bool" where
  "wf_purchases d \<longleftrightarrow> distinct (map po_id (purchase_orders d))
     \<and> (\<forall>i \<in> set (map po_id (purchase_orders d)). i < next_uuid d)
     \<and> (\<forall>x \<in> set (po_items d). poi_order x < next_uuid d \<and> 1 \<le> poi_quantity x)"

definition wf_sales :: "db \<Rightarrow> bool" where
  "wf_sales d \<longleftrightarrow> distinct (map so_id (sales_orders d))
     \<and> (\<forall>i \<in> set (map so_id (sales_orders d)). i < next_uuid d)
     \<and> distinct (map soi_id (so_items d))
     \<and> (\<forall>x \<in> set (so_items d). soi_id x < next_uuid d \<and> soi_order x < next_uuid d \<and> 1 \<le> soi_quantity x)"

definition wf_returns :: "db \<Rightarrow> bool" where
  "wf_returns d \<longleftrightarrow> distinct (map r_id (return_requests d))
     \<and> (\<forall>x \<in> set (return_requests d). r_id x < next_uuid d \<and> 0 \<le> r_quantity x)"

definition wf_tables :: "db \<Rightarrow> bool" where
  "wf_tables d \<longleftrightarrow> wf_products d \<and> wf_purchases d \<and> wf_sales d \<and> wf_returns d"

text \<open>No sales order has two lines for one product.\<close>

definition single_lines :: "db \<Rightarrow> bool" where
  "single_lines d \<longleftrightarrow> (\<forall>oid. distinct (map soi_product (items_of_so oid d)))"

text \<open>
  Returns are filed against completed orders, and what is pending or approved for a product of
  an order is at most what that order sold.
\<close>

definition returns_covered :: "db \<Rightarrow> bool" where
  "returns_covered d \<longleftrightarrow>
     (\<forall>r \<in> set (return_requests d). \<exists>so. get_so (r_order r) d = Some so \<and> so_status so = COMPLETED)
   \<and> (\<forall>oid pid. already_reserved d oid pid \<le> sold_quantity d oid pid)"

text \<open>The requests that keep \<open>single_lines\<close>: no two lines of the request name one product.\<close>

fun single_line_request :: "request \<Rightarrow> bool" where
  "single_line_request (CreateSO data) = (case soin_items data of Given its \<Rightarrow> distinct (map sii_product its) | _ \<Rightarrow> True)"
| "single_line_request (UpdateSO partial q pk data)
     = (case soin_items data of Given its \<Rightarrow> distinct (map sii_product its) | _ \<Rightarrow> True)"
| "single_line_request _ = True"

subsection \<open>Inserting lines\<close>

lemma insert_so_items:
  assumes "foldE (insert_so_item oid now) its d = Inr d'"
  shows "\<exists>new. so_items d' = so_items d @ new \<and> next_uuid d' = next_uuid d + length its
     \<and> map soi_id new = [next_uuid d..<next_uuid d'] \<and> (\<forall>x \<in> set new. soi_order x = oid)
     \<and> map (\<lambda>x. Given (soi_product x)) new = map sii_product its
     \<and> map (\<lambda>x. Given (soi_quantity x)) new = map sii_quantity its"
    and "users d' = users d \<and> suppliers d' = suppliers d \<and> categories d' = categories d
     \<and> products d' = products d \<and> purchase_orders d' = purchase_orders d \<and> po_items d' = po_items d
     \<and> sales_orders d' = sales_orders d \<and> transactions d' = transactions d
     \<and> return_requests d' = return_requests d"
proof -
  have "(\<exists>new. so_items d' = so_items d @ new \<and> next_uuid d' = next_uuid d + length its
     \<and> map soi_id new = [next_uuid d..<next_uuid d'] \<and> (\<forall>x \<in> set new. soi_order x = oid)
     \<and> map (\<lambda>x. Given (soi_product x)) new = map sii_product its
     \<and> map (\<lambda>x. Given (soi_quantity x)) new = map sii_quantity its)
     \<and> users d' = users d \<and> suppliers d' = suppliers d \<and> categories d' = categories d
     \<and> products d' = products d \<and> purchase_orders d' = purchase_orders d \<and> po_items d' = po_items d
     \<and> sales_orders d' = sales_orders d \<and> transactions d' = transactions d
     \<and> return_requests d' = return_requests d"
    using assms
  proof (induction its arbitrary: d)
    case (Cons it its)
    then obtain e where e: "insert_so_item oid now it d = Inr e"
      "foldE (insert_so_item oid now) its e = Inr d'" by (auto simp: bind_elims)
    from e(1) obtain x where x: "so_items e = so_items d @ [x]" "soi_id x = next_uuid d"
        "soi_order x = oid" "sii_product it = Given (soi_product x)" "sii_quantity it = Given (soi_quantity x)"
      and fr: "users e = users d" "suppliers e = suppliers d" "categories e = categories d"
        "products e = products d" "purchase_orders e = purchase_orders d" "po_items e = po_items d"
        "sales_orders e = sales_orders d" "transactions e = transactions d"
        "return_requests e = return_requests d" "next_uuid e = Suc (next_uuid d)"
      by (fastforce simp: insert_so_item_def bind_elims)
    from Cons.IH [OF e(2)] obtain new where new: "so_items d' = so_items e @ new"
      "next_uuid d' = next_uuid e + length its" "map soi_id new = [next_uuid e..<next_uuid d']"
      "\<forall>x \<in> set new. soi_order x = oid" "map (\<lambda>x. Given (soi_product x)) new = map sii_product its"
      "map (\<lambda>x. Given (soi_quantity x)) new = map sii_quantity its" by auto
    have "[next_uuid d..<next_uuid d'] = next_uuid d # [next_uuid e..<next_uuid d']"
    proof -
      have "next_uuid d < next_uuid d'" using new(2) fr(10) by linarith
      then show ?thesis unfolding fr(10) by (rule upt_conv_Cons)
    qed
    with new x have "\<exists>new. so_items d' = so_items d @ new \<and> next_uuid d' = next_uuid d + length (it # its)
       \<and> map soi_id new = [next_uuid d..<next_uuid d'] \<and> (\<forall>x \<in> set new. soi_order x = oid)
       \<and> map (\<lambda>x. Given (soi_product x)) new = map sii_product (it # its)
       \<and> map (\<lambda>x. Given (soi_quantity x)) new = map sii_quantity (it # its)"
      using fr(10) by (intro exI [of _ "x # new"]) simp
    with Cons.IH [OF e(2)] fr show ?case by simp
  qed simp
  then show "\<exists>new. so_items d' = so_items d @ new \<and> next_uuid d' = next_uuid d + length its
     \<and> map soi_id new = [next_uuid d..<next_uuid d'] \<and> (\<forall>x \<in> set new. soi_order x = oid)
     \<and> map (\<lambda>x. Given (soi_product x)) new = map sii_product its
     \<and> map (\<lambda>x. Given (soi_quantity x)) new = map sii_quantity its"
    and "users d' = users d \<and> suppliers d' = suppliers d \<and> categories d' = categories d
     \<and> products d' = products d \<and> purchase_orders d' = purchase_orders d \<and> po_items d' = po_items d
     \<and> sales_orders d' = sales_orders d \<and> transactions d' = transactions d
     \<and> return_requests d' = return_requests d" by simp_all
qed

lemma insert_po_items:
  assumes "foldE (insert_po_item oid now) its d = Inr d'"
  shows "\<exists>new. po_items d' = po_items d @ new \<and> (\<forall>x \<in> set new. poi_order x = oid)
     \<and> map (\<lambda>x. Given (poi_quantity x)) new = map pii_quantity its"
    and "next_uuid d \<le> next_uuid d' \<and> users d' = users d \<and> suppliers d' = suppliers d \<and> categories d' = categories d
     \<and> products d' = products d \<and> purchase_orders d' = purchase_orders d \<and> so_items d' = so_items d
     \<and> sales_orders d' = sales_orders d \<and> transactions d' = transactions d
     \<and> return_requests d' = return_requests d"
proof -
  have "(\<exists>new. po_items d' = po_items d @ new \<and> (\<forall>x \<in> set new. poi_order x = oid)
     \<and> map (\<lambda>x. Given (poi_quantity x)) new = map pii_quantity its)
     \<and> next_uuid d \<le> next_uuid d' \<and> users d' = users d \<and> suppliers d' = suppliers d \<and> categories d' = categories d
     \<and> products d' = products d \<and> purchase_orders d' = purchase_orders d \<and> so_items d' = so_items d
     \<and> sales_orders d' = sales_orders d \<and> transactions d' = transactions d
     \<and> return_requests d' = return_requests d"
    using assms
  proof (induction its arbitrary: d)
    case (Cons it its)
    then obtain e where e: "insert_po_item oid now it d = Inr e"
      "foldE (insert_po_item oid now) its e = Inr d'" by (auto simp: bind_elims)
    from e(1) obtain x where x: "po_items e = po_items d @ [x]" "poi_order x = oid"
        "pii_quantity it = Given (poi_quantity x)"
      and fr: "users e = users d" "suppliers e = suppliers d" "categories e = categories d"
        "products e = products d" "purchase_orders e = purchase_orders d" "so_items e = so_items d"
        "sales_orders e = sales_orders d" "transactions e = transactions d"
        "return_requests e = return_requests d" "next_uuid e = Suc (next_uuid d)"
      by (fastforce simp: insert_po_item_def bind_elims)
    from Cons.IH [OF e(2)] obtain new where new: "po_items d' = po_items e @ new"
      "\<forall>x \<in> set new. poi_order x = oid" "map (\<lambda>x. Given (poi_quantity x)) new = map pii_quantity its"
      by auto
    with x have "\<exists>new. po_items d' = po_items d @ new \<and> (\<forall>x \<in> set new. poi_order x = oid)
       \<and> map (\<lambda>x. Given (poi_quantity x)) new = map pii_quantity (it # its)"
      by (intro exI [of _ "x # new"]) simp
    with Cons.IH [OF e(2)] fr show ?case by simp
  qed simp
  then show "\<exists>new. po_items d' = po_items d @ new \<and> (\<forall>x \<in> set new. poi_order x = oid)
     \<and> map (\<lambda>x. Given (poi_quantity x)) new = map pii_quantity its"
    and "next_uuid d \<le> next_uuid d' \<and> users d' = users d \<and> suppliers d' = suppliers d \<and> categories d' = categories d
     \<and> products d' = products d \<and> purchase_orders d' = purchase_orders d \<and> so_items d' = so_items d
     \<and> sales_orders d' = sales_orders d \<and> transactions d' = transactions d
     \<and> return_requests d' = return_requests d" by simp_all
qed

subsection \<open>What leaves the invariants alone\<close>

lemma wf_products_cong: "map p_id (products d') = map p_id (products d) \<Longrightarrow> wf_products d' = wf_products d"
  by (simp add: wf_products_def)

lemma wf_purchases_mono:
  assumes "map po_id (purchase_orders d') = map po_id (purchase_orders d)" "po_items d' = po_items d"
    "next_uuid d \<le> next_uuid d'" "wf_purchases d"
  shows "wf_purchases d'"
  using assms(3,4) unfolding wf_purchases_def assms(1,2)
  by (auto intro: less_le_trans [OF _ assms(3)])

lemma wf_sales_mono:
  assumes "map so_id (sales_orders d') = map so_id (sales_orders d)" "so_items d' = so_items d"
    "next_uuid d \<le> next_uuid d'" "wf_sales d"
  shows "wf_sales d'"
  using assms(3,4) unfolding wf_sales_def assms(1,2)
  by (auto intro: less_le_trans [OF _ assms(3)])

lemma wf_returns_mono:
  "return_requests d' = return_requests d \<Longrightarrow> next_uuid d \<le> next_uuid d' \<Longrightarrow>
   wf_returns d \<Longrightarrow> wf_returns d'"
  by (auto simp: wf_returns_def intro: less_le_trans)

lemmas wf_monos = wf_purchases_mono wf_sales_mono wf_returns_mono

lemma single_lines_cong: "so_items d' = so_items d \<Longrightarrow> single_lines d' = single_lines d"
  by (simp add: single_lines_def)

lemma sold_quantity_cong: "so_items d' = so_items d \<Longrightarrow> sold_quantity d' = sold_quantity d"
  by (simp add: sold_quantity_def fun_eq_iff)

lemma already_reserved_cong:
  "return_requests d' = return_requests d \<Longrightarrow> already_reserved d' = already_reserved d"
  by (simp add: already_reserved_def fun_eq_iff)

lemma returns_covered_cong:
  "so_items d' = so_items d \<Longrightarrow> sales_orders d' = sales_orders d \<Longrightarrow>
   return_requests d' = return_requests d \<Longrightarrow> returns_covered d' = returns_covered d"
  by (simp add: returns_covered_def sold_quantity_def already_reserved_def)

text \<open>Everything the development keeps of the inventory tables.\<close>

definition inventory_inv :: "db \<Rightarrow> bool" where
  "inventory_inv d \<longleftrightarrow> wf_tables d \<and> single_lines d \<and> returns_covered d \<and> balanced d \<and> stock_nonneg d"

lemma inventory_invD:
  assumes "inventory_inv d"
  shows "wf_products d" "wf_purchases d" "wf_sales d" "wf_returns d" "single_lines d"
    "returns_covered d" "balanced d" "stock_nonneg d"
  using assms by (simp_all add: inventory_inv_def wf_tables_def)

lemma inventory_invI:
  assumes "wf_products d" "wf_purchases d" "wf_sales d" "wf_returns d" "single_lines d"
    "returns_covered d" "balanced d" "stock_nonneg d"
  shows "inventory_inv d"
  using assms by (simp add: inventory_inv_def wf_tables_def)

lemma inventory_inv_purchases:
  assumes "inventory_inv d" "wf_purchases d'" "next_uuid d \<le> next_uuid d'"
    "products d' = products d" "sales_orders d' = sales_orders d" "so_items d' = so_items d"
    "return_requests d' = return_requests d" "transactions d' = transactions d"
  shows "inventory_inv d'"
proof -
  note inv = inventory_invD [OF assms(1)]
  show ?thesis
  proof (rule inventory_invI)
    show "wf_products d'" using inv(1) assms(4) by (simp add: wf_products_def)
    show "wf_sales d'" by (rule wf_sales_mono [OF _ assms(6,3) inv(3)]) (simp add: assms(5))
    show "wf_returns d'" by (rule wf_returns_mono [OF assms(7,3) inv(4)])
    show "single_lines d'" using inv(5) single_lines_cong [OF assms(6)] by simp
    show "returns_covered d'" using inv(6) returns_covered_cong [OF assms(6,5,7)] by simp
    show "balanced d'" "stock_nonneg d'" using inv(7,8) levels_cong(3,4) [OF assms(4,8)] by simp_all
  qed (rule assms(2))
qed

text \<open>A stock movement: products keep their ids, levels move; orders and returns are as given.\<close>

lemma inventory_inv_levels:
  assumes "inventory_inv d" "next_uuid d \<le> next_uuid d'"
    "map p_id (products d') = map p_id (products d)"
    "map po_id (purchase_orders d') = map po_id (purchase_orders d)" "po_items d' = po_items d"
    "map so_id (sales_orders d') = map so_id (sales_orders d)" "so_items d' = so_items d"
    "wf_returns d'" "returns_covered d'" "balanced d'" "stock_nonneg d'"
  shows "inventory_inv d'"
proof -
  note inv = inventory_invD [OF assms(1)]
  show ?thesis
  proof (rule inventory_invI)
    show "wf_products d'" using inv(1) wf_products_cong [OF assms(3)] by simp
    show "wf_purchases d'" by (rule wf_purchases_mono [OF assms(4,5,2) inv(2)])
    show "wf_sales d'" by (rule wf_sales_mono [OF assms(6,7,2) inv(3)])
    show "single_lines d'" using inv(5) single_lines_cong [OF assms(7)] by simp
  qed (fact assms)+
qed

subsection \<open>Purchase orders keep them\<close>

lemma wf_purchases_delete:
  "wf_purchases d \<Longrightarrow> wf_purchases (d\<lparr>purchase_orders := delete_rows p (purchase_orders d),
     po_items := delete_rows q (po_items d)\<rparr>)"
  by (auto simp: wf_purchases_def delete_rows_def distinct_map_filter)

lemma wf_po_items_new:
  assumes "wf_purchases d" "foldE (insert_po_item oid now) its d = Inr d'" "oid < next_uuid d"
    "\<forall>it \<in> set its. po_item_errors partial it = []"
  shows "wf_purchases d'"
proof -
  obtain new where new: "po_items d' = po_items d @ new" "\<forall>x \<in> set new. poi_order x = oid"
    "map (\<lambda>x. Given (poi_quantity x)) new = map pii_quantity its"
    using insert_po_items(1) [OF assms(2)] by blast
  have fr: "next_uuid d \<le> next_uuid d'" "purchase_orders d' = purchase_orders d"
    using insert_po_items(2) [OF assms(2)] by simp_all
  have "1 \<le> poi_quantity x" if "x \<in> set new" for x
  proof -
    have "Given (poi_quantity x) \<in> set (map pii_quantity its)"
      using new(3) that by (metis (mono_tags, lifting) imageI list.set_map)
    with assms(4) show ?thesis by (auto intro: validated_quantity(2))
  qed
  with assms(1,3) new fr show ?thesis by (fastforce simp: wf_purchases_def)
qed

lemma po_validate_items:
  assumes "po_validate d partial data = Inr data'"
  shows "data' = data" "poin_items data = Given its \<Longrightarrow> \<forall>it \<in> set its. po_item_errors partial it = []"
  using assms items_errors_Nil [of d partial "po_item_errors partial" pii_product "poin_items data"]
  by (auto simp: po_validate_def bind_elims Let_def split: if_splits)

lemma po_create_inv:
  assumes "po_create u now data d = Inr oc" "inventory_inv d"
  shows "inventory_inv (odb oc)"
proof -
  from assms(1) obtain data' where v: "po_validate d False data = Inr data'"
    by (auto simp: po_create_def bind_elims)
  have "data' = data" using po_validate_items(1) [OF v] .
  with assms(1) v obtain sid its where its: "poin_items data = Given its" and
    f: "foldE (insert_po_item (po_id (new_po u now sid d)) now) its
      (draw_uuid (d\<lparr>purchase_orders := purchase_orders d @ [new_po u now sid d]\<rparr>)) = Inr (odb oc)"
    by (auto simp: po_create_def bind_elims Let_def)
  let ?d1 = "draw_uuid (d\<lparr>purchase_orders := purchase_orders d @ [new_po u now sid d]\<rparr>)"
  have "wf_purchases ?d1"
    using inventory_invD(2) [OF assms(2)] by (auto simp: wf_purchases_def less_SucI new_po_def)
  then have "wf_purchases (odb oc)"
    using wf_po_items_new [OF _ f] po_validate_items(2) [OF v its] by (auto simp: new_po_def)
  then show ?thesis
    using insert_po_items(2) [OF f] by (intro inventory_inv_purchases [OF assms(2)]) auto
qed

lemma po_queryset_get:
  assumes "wf_purchases d" "get_row po_id pk (po_queryset q d) = Some po"
  shows "get_po pk d = Some po" "po_id po = pk" "po \<in> set (purchase_orders d)"
proof -
  have "po \<in> set (purchase_orders d)" "po_id po = pk"
    using get_row_SomeD [OF assms(2)] by (auto simp: po_queryset_def filter_date_range_def)
  then show "get_po pk d = Some po" "po_id po = pk" "po \<in> set (purchase_orders d)"
    using assms(1) get_row_eqI by (fastforce simp: wf_purchases_def)+
qed

lemma po_update_inv:
  assumes "po_update u now partial q pk data d = Inr oc" "inventory_inv d"
  shows "inventory_inv (odb oc)"
proof -
  have wf: "wf_purchases d" using assms(2) by (simp add: inventory_inv_def wf_tables_def)
  from assms(1) obtain po where po: "get_row po_id pk (po_queryset q d) = Some po"
    by (auto simp: po_update_def bind_elims)
  note pk = po_queryset_get [OF wf po]
  show ?thesis
  proof (cases "po_status po = ORDERED")
    case False
    with assms po show ?thesis by (auto simp: po_update_def)
  next
    case True
    from assms(1) po True obtain data' where v: "po_validate d partial data = Inr data'"
      by (auto simp: po_update_def bind_elims)
    have "data' = data" using po_validate_items(1) [OF v] .
    define d1 where "d1 = po_write_supplier data po d"
    define d2 where "d2 = d1\<lparr>po_items := delete_rows (\<lambda>x. poi_order x = po_id po) (po_items d1)\<rparr>"
    from assms(1) po True v \<open>data' = data\<close> have run: "po_write_items now data po d1 = Inr (odb oc)"
      by (auto simp: po_update_def bind_elims d1_def)
    have d1: "map po_id (purchase_orders d1) = map po_id (purchase_orders d)" "po_items d1 = po_items d"
      "next_uuid d1 = next_uuid d" "products d1 = products d" "sales_orders d1 = sales_orders d"
      "so_items d1 = so_items d" "return_requests d1 = return_requests d" "transactions d1 = transactions d"
      by (auto simp: d1_def po_write_supplier_def save_po_supplier_def update_row_keys split: field.split)
    have wf1: "wf_purchases d1" using d1 wf by (auto intro: wf_purchases_mono)
    have wf2: "wf_purchases d2"
      using wf1 by (auto simp: d2_def wf_purchases_def delete_rows_def)
    show ?thesis
    proof (cases "poin_items data")
      case (Given its)
      with run have f: "foldE (insert_po_item (po_id po) now) its d2 = Inr (odb oc)"
        by (simp add: po_write_items_def d2_def)
      have "po_id po < next_uuid d2" using pk wf d1(3) by (auto simp: d2_def wf_purchases_def)
      then have "wf_purchases (odb oc)"
        using wf_po_items_new [OF wf2 f] po_validate_items(2) [OF v Given] by auto
      then show ?thesis
        using insert_po_items(2) [OF f] d1 by (intro inventory_inv_purchases [OF assms(2)]) (auto simp: d2_def)
    next
      case Absent
      with run wf1 d1 show ?thesis
        by (auto simp: po_write_items_def intro: inventory_inv_purchases [OF assms(2)])
    next
      case Malformed
      with run wf1 d1 show ?thesis
        by (auto simp: po_write_items_def intro: inventory_inv_purchases [OF assms(2)])
    qed
  qed
qed

lemma po_destroy_inv:
  assumes "po_destroy q pk d = Inr oc" "inventory_inv d"
  shows "inventory_inv (odb oc)"
proof -
  have wf: "wf_purchases d" using assms(2) by (simp add: inventory_inv_def wf_tables_def)
  from assms(1) show ?thesis
    by (auto simp: po_destroy_def bind_elims intro!: inventory_inv_purchases [OF assms(2)] wf_purchases_delete [OF wf])
qed

subsection \<open>Receiving keeps them\<close>

lemma receive_items_next:
  assumes "foldE (receive_item u now oid) items d = Inr d'"
  shows "next_uuid d \<le> next_uuid d'"
proof (rule foldE_invariant [OF assms, of "\<lambda>e. next_uuid d \<le> next_uuid e"])
  fix m s s' assume "receive_item u now oid m s = Inr s'" "next_uuid d \<le> next_uuid s"
  then show "next_uuid d \<le> next_uuid s'"
    by (auto simp: receive_item_Inr intro!: order_trans [OF _ check_and_notify_next])
qed simp

lemma finish_receive_next: "next_uuid d \<le> next_uuid (finish_receive now po d)"
  by (simp add: finish_receive_def save_po_received_def Let_def split: option.split)

lemma receive_inv:
  assumes "receive u now pk d = Inr oc" "inventory_inv d"
  shows "inventory_inv (odb oc)"
  using assms(1)
proof (cases rule: receive_cases)
  case replay
  with assms(2) show ?thesis by simp
next
  case (first po d1)
  note inv = inventory_invD [OF assms(2)] and fr = receive_items_frame [OF first(4)]
  let ?d = "finish_receive now po d1"
  have "\<forall>i \<in> set (sort_key poi_product (items_of_po pk d)). 0 \<le> poi_quantity i"
    using inv(2) by (fastforce simp: wf_purchases_def)
  then have lv: "balanced d1" "stock_nonneg d1"
    using receiving.reread_balanced [OF first(4) inv(7)] receiving.reread_nonneg [OF first(4) inv(8)]
    by auto
  have ge: "next_uuid d \<le> next_uuid ?d"
    using receive_items_next [OF first(4)] finish_receive_next [of d1 now po] by linarith
  have "inventory_inv ?d"
  proof (rule inventory_inv_levels [OF assms(2) ge])
    show "wf_returns ?d" using fr by (intro wf_returns_mono [OF _ ge inv(4)]) simp
    show "returns_covered ?d" using inv(6) returns_covered_cong [of ?d d] fr by simp
    show "balanced ?d" "stock_nonneg ?d" using lv levels_cong(3,4) [of ?d d1] by simp_all
  qed (use fr in \<open>simp_all add: update_row_keys del: map_map\<close>)
  with first(5) show ?thesis by simp
qed

subsection \<open>New lines\<close>

lemma filter_order_delete:
  "filter (\<lambda>x. soi_order x = o' \<and> P x) (delete_rows (\<lambda>x. soi_order x = oid) xs)
     = (if o' = oid then [] else filter (\<lambda>x. soi_order x = o' \<and> P x) xs)"
  by (auto simp: delete_rows_def filter_empty_conv intro!: filter_cong)

lemma replace_lines:
  assumes lines: "so_items d' = delete_rows (\<lambda>x. soi_order x = oid) (so_items d) @ new"
    and new: "\<forall>x \<in> set new. soi_order x = oid \<and> 1 \<le> soi_quantity x"
      "map soi_id new = [k..<next_uuid d']" "next_uuid d \<le> k" "k \<le> next_uuid d'" "oid < next_uuid d'"
      "distinct (map soi_product new)"
    and rets: "return_requests d' = return_requests d" "\<forall>r \<in> set (return_requests d). r_order r \<noteq> oid"
    and inv: "wf_sales d" "single_lines d" "\<forall>oid pid. already_reserved d oid pid \<le> sold_quantity d oid pid"
  shows "distinct (map soi_id (so_items d'))"
    and "\<forall>x \<in> set (so_items d'). soi_id x < next_uuid d' \<and> soi_order x < next_uuid d' \<and> 1 \<le> soi_quantity x"
    and "single_lines d'"
    and "already_reserved d' o' p \<le> sold_quantity d' o' p"
proof -
  have old: "\<forall>x \<in> set (so_items d). soi_id x < k \<and> soi_order x < next_uuid d' \<and> 1 \<le> soi_quantity x"
    using inv(1) new(3,4) by (fastforce simp: wf_sales_def)
  have newid: "k \<le> soi_id x \<and> soi_id x < next_uuid d'" if "x \<in> set new" for x
  proof -
    have "soi_id x \<in> set (map soi_id new)" using that by simp
    then show ?thesis unfolding new(2) by simp
  qed
  have "distinct (map soi_id new)" unfolding new(2) by simp
  moreover have "soi_id ` set (delete_rows (\<lambda>x. soi_order x = oid) (so_items d)) \<inter> soi_id ` set new = {}"
    using old newid by (fastforce simp: delete_rows_def)
  ultimately show "distinct (map soi_id (so_items d'))"
    using inv(1) by (simp add: lines wf_sales_def delete_rows_def distinct_map_filter)
  show "\<forall>x \<in> set (so_items d'). soi_id x < next_uuid d' \<and> soi_order x < next_uuid d' \<and> 1 \<le> soi_quantity x"
    using old newid new(1,4,5) by (fastforce simp: lines delete_rows_def)
  have others: "filter (\<lambda>x. soi_order x = j) (so_items d')
      = (if j = oid then new else items_of_so j d)" for j
    using filter_order_delete [of j "\<lambda>_. True" oid "so_items d"] new(1)
    by (auto simp: lines filter_id_conv filter_empty_conv)
  show "single_lines d'"
    using inv(2) new(6) by (simp add: single_lines_def others)
  show "already_reserved d' o' p \<le> sold_quantity d' o' p"
  proof (cases "o' = oid")
    case True
    have "already_reserved d' o' p = 0"
      using rets True by (simp add: already_reserved_def filter_empty_conv)
    moreover have "0 \<le> sold_quantity d' o' p"
      unfolding sold_quantity_def others using True new(1) by (fastforce intro!: total_nonneg)
    ultimately show ?thesis by simp
  next
    case False
    then have "sold_quantity d' o' p = sold_quantity d o' p"
      by (simp add: sold_quantity_def others)
    then show ?thesis using inv(3) rets(1) by (simp add: already_reserved_def)
  qed
qed

lemma so_validate_items:
  assumes "so_validate d partial data = Inr data'"
  shows "data' = data" "soin_items data = Given its \<Longrightarrow> \<forall>it \<in> set its. so_item_errors partial it = []"
  using assms items_errors_Nil [of d partial "so_item_errors partial" sii_product "soin_items data"]
  by (auto simp: so_validate_def bind_elims Let_def split: if_splits)

lemma new_lines_checked:
  assumes "map (\<lambda>x. Given (soi_quantity x)) new = map sii_quantity its"
    and "map (\<lambda>x. Given (soi_product x)) new = map sii_product its"
    and "\<forall>it \<in> set its. so_item_errors partial it = []" "distinct (map sii_product its)"
  shows "\<forall>x \<in> set new. 1 \<le> soi_quantity x" and "distinct (map soi_product new)"
proof -
  show "\<forall>x \<in> set new. 1 \<le> soi_quantity x"
  proof
    fix x assume "x \<in> set new"
    then have "Given (soi_quantity x) \<in> set (map sii_quantity its)"
      using assms(1) by (metis (mono_tags, lifting) imageI list.set_map)
    with assms(3) show "1 \<le> soi_quantity x" by (auto intro: validated_quantity(1))
  qed
  have "distinct (map Given (map soi_product new))"
    using assms(2,4) by (simp add: o_def)
  then show "distinct (map soi_product new)" by (auto simp: distinct_map inj_on_def)
qed

subsection \<open>Sales orders keep them\<close>

lemma so_create_inv:
  assumes "so_create u now data d = Inr oc" "inventory_inv d" "single_line_request (CreateSO data)"
  shows "inventory_inv (odb oc)"
proof -
  note inv = inventory_invD [OF assms(2)]
  from assms(1) obtain data' where v: "so_validate d False data = Inr data'"
    by (auto simp: so_create_def bind_elims)
  have "data' = data" using so_validate_items(1) [OF v] .
  let ?so = "new_so u now data d"
  let ?d1 = "draw_uuid (d\<lparr>sales_orders := sales_orders d @ [?so]\<rparr>)"
  from assms(1) v \<open>data' = data\<close> obtain its where its: "soin_items data = Given its"
    and f: "foldE (insert_so_item (so_id ?so) now) its ?d1 = Inr (odb oc)"
    by (auto simp: so_create_def bind_elims Let_def)
  let ?d = "odb oc"
  obtain new where n: "so_items ?d = so_items ?d1 @ new" "next_uuid ?d = next_uuid ?d1 + length its"
      "map soi_id new = [next_uuid ?d1..<next_uuid ?d]" "\<forall>x \<in> set new. soi_order x = so_id ?so"
      "map (\<lambda>x. Given (soi_product x)) new = map sii_product its"
      "map (\<lambda>x. Given (soi_quantity x)) new = map sii_quantity its"
    using insert_so_items(1) [OF f] by blast
  have new: "so_items ?d = so_items d @ new" "next_uuid ?d = Suc (next_uuid d) + length its"
      "map soi_id new = [Suc (next_uuid d)..<next_uuid ?d]" "\<forall>x \<in> set new. soi_order x = next_uuid d"
    using n(1) apply simp
    using n(2) apply simp
    using n(3) apply simp
    using n(4) by (simp add: new_so_def)
  note new = new n(5,6)
  have fr: "products ?d = products d" "purchase_orders ?d = purchase_orders d" "po_items ?d = po_items d"
      "sales_orders ?d = sales_orders d @ [?so]" "transactions ?d = transactions d"
      "return_requests ?d = return_requests d"
    using insert_so_items(2) [OF f] by auto
  have ge: "next_uuid d \<le> next_uuid ?d" using new(2) by simp
  note chk = new_lines_checked [OF new(6,5) so_validate_items(2) [OF v its]]
  have del: "delete_rows (\<lambda>x. soi_order x = next_uuid d) (so_items d) = so_items d"
    using inv(3) by (auto simp: delete_rows_def filter_id_conv wf_sales_def)
  have noret: "\<forall>r \<in> set (return_requests d). r_order r \<noteq> next_uuid d"
  proof
    fix r assume "r \<in> set (return_requests d)"
    then obtain so where "get_so (r_order r) d = Some so" using inv(6) by (auto simp: returns_covered_def)
    from get_row_mem [OF this] have "r_order r \<in> set (map so_id (sales_orders d))" by simp
    moreover have "\<forall>i \<in> set (map so_id (sales_orders d)). i < next_uuid d"
      using inv(3) unfolding wf_sales_def by (elim conjE)
    ultimately have "r_order r < next_uuid d" by (rule bspec [rotated])
    then show "r_order r \<noteq> next_uuid d" by simp
  qed
  have old: "so_items ?d = delete_rows (\<lambda>x. soi_order x = next_uuid d) (so_items d) @ new"
    using new(1) del by simp
  have "distinct (map sii_product its)" using assms(3) its by simp
  note chk = chk [OF this]
  have newq: "\<forall>x \<in> set new. soi_order x = next_uuid d \<and> 1 \<le> soi_quantity x" using new(4) chk(1) by blast
  have cov: "\<forall>oid pid. already_reserved d oid pid \<le> sold_quantity d oid pid"
    using inv(6) by (simp add: returns_covered_def)
  have bounds: "next_uuid d \<le> Suc (next_uuid d)" "Suc (next_uuid d) \<le> next_uuid ?d" "next_uuid d < next_uuid ?d"
    using new(2) by simp_all
  note rl = replace_lines [OF old newq new(3) bounds chk(2) fr(6) noret inv(3,5) cov]
  show ?thesis
  proof (rule inventory_invI)
    show "wf_products ?d" using inv(1) fr by (simp add: wf_products_def)
    show "wf_purchases ?d" by (rule wf_purchases_mono [OF _ fr(3) ge inv(2)]) (simp add: fr)
    show "wf_returns ?d" by (rule wf_returns_mono [OF fr(6) ge inv(4)])
    show "wf_sales ?d" using inv(3) rl(1,2) bounds(3)
      by (auto simp: wf_sales_def fr(4) new_so_def intro: less_le_trans [OF _ ge])
    show "single_lines ?d" by (rule rl(3))
    show "returns_covered ?d"
      using inv(6) rl(4) by (fastforce simp: returns_covered_def fr get_row_append)
    show "balanced ?d" "stock_nonneg ?d" using inv(7,8) levels_cong(3,4) [OF fr(1,5)] by simp_all
  qed
qed

lemma so_queryset_get:
  assumes "wf_sales d" "get_row so_id pk (so_queryset q d) = Some so"
  shows "get_so pk d = Some so" "so_id so = pk" "so \<in> set (sales_orders d)"
proof -
  have "so \<in> set (sales_orders d)" "so_id so = pk"
    using get_row_SomeD [OF assms(2)] by (auto simp: so_queryset_def filter_date_range_def)
  then show "get_so pk d = Some so" "so_id so = pk" "so \<in> set (sales_orders d)"
    using assms(1) get_row_eqI by (fastforce simp: wf_sales_def)+
qed

lemma created_no_returns:
  assumes "returns_covered d" "get_so pk d = Some so" "so_status so = CREATED"
  shows "\<forall>r \<in> set (return_requests d). r_order r \<noteq> pk"
  using assms by (fastforce simp: returns_covered_def)

lemma so_update_inv:
  assumes "so_update u now partial q pk data d = Inr oc" "inventory_inv d"
    "single_line_request (UpdateSO partial q pk data)"
  shows "inventory_inv (odb oc)"
proof -
  note inv = inventory_invD [OF assms(2)]
  from assms(1) obtain so where so: "get_row so_id pk (so_queryset q d) = Some so"
    by (auto simp: so_update_def bind_elims)
  note pk = so_queryset_get [OF inv(3) so]
  show ?thesis
  proof (cases "so_status so = CREATED")
    case False
    with assms so show ?thesis by (auto simp: so_update_def)
  next
    case True
    from assms(1) so True obtain data' where v: "so_validate d partial data = Inr data'"
      by (auto simp: so_update_def bind_elims)
    have "data' = data" using so_validate_items(1) [OF v] .
    let ?row = "(so_write_customer data so)\<lparr>so_updated_at := now\<rparr>"
    define d1 where "d1 = d\<lparr>sales_orders := update_row so_id pk (\<lambda>_. ?row) (sales_orders d)\<rparr>"
    let ?d = "odb oc"
    have "so_id (so_write_customer data so) = pk" using pk(2) by (simp add: so_write_customer_def)
    with assms(1) so True v \<open>data' = data\<close> have run: "so_write_items now data so d1 = Inr ?d"
      by (auto simp: so_update_def save_so_def bind_elims d1_def)
    have row: "so_id ?row = pk" "so_status ?row = CREATED"
      using pk(2) True by (simp_all add: so_write_customer_def)
    have ids: "map so_id (sales_orders d1) = map so_id (sales_orders d)"
      using row(1) by (auto simp: d1_def update_row_def)
    have kept: "get_so i d1 = (if i = pk then Some ?row else get_so i d)" for i
      using pk(1) get_row_replace [of so_id ?row pk i "sales_orders d", OF row(1)] by (simp add: d1_def)
    note noret = created_no_returns [OF inv(6) pk(1) True]
    have "inventory_inv d1"
    proof (rule inventory_inv_levels [OF assms(2)])
      show "wf_returns d1" using inv(4) by (simp add: d1_def wf_returns_def)
      show "returns_covered d1"
        using inv(6) noret kept
        by (auto simp: returns_covered_def sold_quantity_def already_reserved_def d1_def)
      show "balanced d1" "stock_nonneg d1"
        using inv(7,8) levels_cong(3,4) [of d1 d] by (simp_all add: d1_def)
    qed (use ids in \<open>simp_all add: d1_def\<close>)
    note inv1 = inventory_invD [OF this]
    show ?thesis
    proof (cases "soin_items data")
      case Absent
      with run \<open>inventory_inv d1\<close> show ?thesis by (simp add: so_write_items_def)
    next
      case Malformed
      with run \<open>inventory_inv d1\<close> show ?thesis by (simp add: so_write_items_def)
    next
      case (Given its)
      define d2 where "d2 = d1\<lparr>so_items := delete_rows (\<lambda>x. soi_order x = pk) (so_items d1)\<rparr>"
      from run Given pk(2) have f: "foldE (insert_so_item pk now) its d2 = Inr ?d"
        by (simp add: so_write_items_def d2_def)
      obtain new where new: "so_items ?d = so_items d2 @ new" "next_uuid ?d = next_uuid d2 + length its"
          "map soi_id new = [next_uuid d2..<next_uuid ?d]" "\<forall>x \<in> set new. soi_order x = pk"
          "map (\<lambda>x. Given (soi_product x)) new = map sii_product its"
          "map (\<lambda>x. Given (soi_quantity x)) new = map sii_quantity its"
        using insert_so_items(1) [OF f] by blast
      have fr: "products ?d = products d1" "purchase_orders ?d = purchase_orders d1" "po_items ?d = po_items d1"
          "sales_orders ?d = sales_orders d1" "transactions ?d = transactions d1"
          "return_requests ?d = return_requests d1"
        using insert_so_items(2) [OF f] by (auto simp: d2_def)
      have ge: "next_uuid d1 \<le> next_uuid ?d" using new(2) by (simp add: d2_def)
      have "distinct (map sii_product its)" using assms(3) Given by simp
      note chk = new_lines_checked [OF new(6,5) so_validate_items(2) [OF v Given] this]
      have old: "so_items ?d = delete_rows (\<lambda>x. soi_order x = pk) (so_items d1) @ new"
        using new(1) by (simp add: d2_def)
      have newq: "\<forall>x \<in> set new. soi_order x = pk \<and> 1 \<le> soi_quantity x" using new(4) chk(1) by blast
      have "pk < next_uuid d1" using inv1(3) pk(2,3) ids unfolding wf_sales_def by (metis image_eqI list.set_map)
      then have bounds: "next_uuid d1 \<le> next_uuid d2" "next_uuid d2 \<le> next_uuid ?d" "pk < next_uuid ?d"
        using new(2) by (simp_all add: d2_def)
      have noret1: "\<forall>r \<in> set (return_requests d1). r_order r \<noteq> pk" using noret by (simp add: d1_def)
      have cov: "\<forall>oid pid. already_reserved d1 oid pid \<le> sold_quantity d1 oid pid"
        using inv1(6) by (simp add: returns_covered_def)
      note rl = replace_lines [OF old newq new(3) bounds chk(2) fr(6) noret1 inv1(3,5) cov]
      show ?thesis
      proof (rule inventory_invI)
        show "wf_products ?d" using inv1(1) fr by (simp add: wf_products_def)
        show "wf_purchases ?d" by (rule wf_purchases_mono [OF _ fr(3) ge inv1(2)]) (simp add: fr)
        show "wf_returns ?d" by (rule wf_returns_mono [OF fr(6) ge inv1(4)])
        show "wf_sales ?d" using inv1(3) rl(1,2)
          by (auto simp: wf_sales_def fr(4) intro: less_le_trans [OF _ ge])
        show "single_lines ?d" by (rule rl(3))
        show "returns_covered ?d" using inv1(6) rl(4) by (simp add: returns_covered_def fr)
        show "balanced ?d" "stock_nonneg ?d" using inv1(7,8) levels_cong(3,4) [OF fr(1,5)] by simp_all
      qed
    qed
  qed
qed

lemma so_destroy_inv:
  assumes "so_destroy q pk d = Inr oc" "inventory_inv d"
  shows "inventory_inv (odb oc)"
proof -
  note inv = inventory_invD [OF assms(2)]
  from assms(1) obtain so where so: "get_row so_id pk (so_queryset q d) = Some so"
    by (auto simp: so_destroy_def bind_elims)
  note pk = so_queryset_get [OF inv(3) so]
  let ?d = "d\<lparr>sales_orders := delete_rows (\<lambda>x. so_id x = pk) (sales_orders d),
              so_items := delete_rows (\<lambda>x. soi_order x = pk) (so_items d)\<rparr>"
  from assms(1) so pk(2) have d: "odb oc = ?d" and noret: "\<forall>r \<in> set (return_requests d). r_order r \<noteq> pk"
    by (auto simp: so_destroy_def bind_elims)
  have items: "items_of_so j ?d = (if j = pk then [] else items_of_so j d)" for j
    using filter_order_delete [of j "\<lambda>_. True" pk "so_items d"] by simp
  have get: "get_so j ?d = (if j = pk then None else get_so j d)" for j
    using get_row_delete [of so_id "sales_orders d" j "\<lambda>x. so_id x = pk"] inv(3)
    by (auto simp: wf_sales_def dest: get_row_SomeD(2) split: option.splits)
  have "inventory_inv ?d"
  proof (rule inventory_invI)
    show "wf_products ?d" using inv(1) by (simp add: wf_products_def)
    show "wf_purchases ?d" using inv(2) by (simp add: wf_purchases_def)
    show "wf_sales ?d" using inv(3) by (auto simp: wf_sales_def delete_rows_def distinct_map_filter)
    show "wf_returns ?d" using inv(4) by (simp add: wf_returns_def)
    show "single_lines ?d" unfolding single_lines_def items using inv(5) by (simp add: single_lines_def)
    have "already_reserved ?d j p \<le> sold_quantity ?d j p" for j p
    proof (cases "j = pk")
      case True
      then have "already_reserved ?d j p = 0"
        using noret by (simp add: already_reserved_def filter_empty_conv)
      with True show ?thesis unfolding sold_quantity_def items by simp
    next
      case False
      then have "sold_quantity ?d j p = sold_quantity d j p" unfolding sold_quantity_def items by simp
      with inv(6) show ?thesis by (simp add: returns_covered_def already_reserved_def)
    qed
    then show "returns_covered ?d"
      using inv(6) noret unfolding returns_covered_def get by auto
    show "balanced ?d" "stock_nonneg ?d" using inv(7,8) levels_cong(3,4) [of ?d d] by simp_all
  qed
  then show ?thesis using d by simp
qed

lemma deduct_lines_next:
  assumes "foldE (deduct_line u now oid by_item) items d = Inr d'"
  shows "next_uuid d \<le> next_uuid d'"
proof (rule foldE_invariant [OF assms, of "\<lambda>e. next_uuid d \<le> next_uuid e"])
  fix m s s' assume "deduct_line u now oid by_item m s = Inr s'" "next_uuid d \<le> next_uuid s"
  then show "next_uuid d \<le> next_uuid s'"
    by (auto simp: deduct_line_Inr intro!: order_trans [OF _ check_and_notify_next])
qed simp

lemma finish_complete_next:
  "finish_complete now drawn so d = Inr d' \<Longrightarrow> next_uuid d \<le> next_uuid d'"
  by (auto simp: finish_complete_def bind_elims Let_def split: option.splits)

text \<open>With no two lines for one product a completed sale keeps the ledger; stock stays
  non-negative whatever the lines are.\<close>

lemma single_filter: "distinct (map f xs) \<Longrightarrow> length (filter (\<lambda>x. f x = i) xs) \<le> 1"
  using distinct_iff_filter [of f xs] by simp

lemma complete_sold_levels:
  assumes "get_so pk d = Some so" "so_id so = pk"
    and "check_lines (sort_key soi_product (items_of_so pk d)) d Map.empty = Inr (Inr by_item)"
    and "foldE (deduct_line u now pk by_item) (sort_key soi_product (items_of_so pk d)) d = Inr d1"
    and "finish_complete now drawn so d1 = Inr d2"
    and "wf_sales d" "stock_nonneg d"
  shows "stock_nonneg d2"
    and "balanced d \<Longrightarrow> distinct (map soi_product (items_of_so pk d)) \<Longrightarrow> balanced d2"
proof -
  have ids: "distinct (map soi_id (so_items d))" using assms(6) by (simp add: wf_sales_def)
  note lv = complete_levels [OF assms(1-5) ids]
  show "stock_nonneg d2"
    unfolding stock_nonneg_iff
  proof (intro allI impI)
    fix i n assume n: "stock_of d2 i = Some n"
    show "0 \<le> n"
    proof (cases "filter (\<lambda>x. soi_product x = i) (items_of_so pk d)")
      case Nil
      with n lv(1) [of i] assms(7) show ?thesis by (auto simp: stock_nonneg_iff)
    next
      case (Cons a as)
      let ?xs = "filter (\<lambda>x. soi_product x = i) (items_of_so pk d)"
      have "last ?xs \<in> set ?xs" using Cons by (metis last_in_set list.discI)
      then have "last ?xs \<in> set (items_of_so pk d)" "soi_product (last ?xs) = i" by auto
      from lv(3) [OF this(1)] this(2) n lv(1) [of i] Cons show ?thesis by (auto split: if_splits)
    qed
  qed
  show "balanced d2" if "balanced d" "distinct (map soi_product (items_of_so pk d))"
    unfolding balanced_iff
  proof (intro allI impI)
    fix i n assume n: "stock_of d2 i = Some n"
    let ?xs = "filter (\<lambda>x. soi_product x = i) (items_of_so pk d)"
    have "length ?xs \<le> 1" using that(2) by (rule single_filter)
    then consider "?xs = []" | x where "?xs = [x]" by (cases ?xs) auto
    then show "n = ledger_total d2 i"
      using n lv(1,2) [of i] that(1) by cases (auto simp: balanced_iff)
  qed
qed

lemma get_so_completed:
  "get_row so_id j (update_row so_id pk (\<lambda>r. r\<lparr>so_status := COMPLETED, so_invoice_number := a,
      so_invoiced_at := b\<rparr>) (sales_orders d))
   = (if j = pk then map_option (\<lambda>r. r\<lparr>so_status := COMPLETED, so_invoice_number := a,
      so_invoiced_at := b\<rparr>) (get_so j d) else get_so j d)"
  by (simp add: get_row_update)

lemma complete_inv:
  assumes "complete u now drawn pk d = Inr oc" "inventory_inv d"
  shows "inventory_inv (odb oc)"
  using assms(1)
proof (cases rule: complete_cases)
  case (sold so by_item d1)
  note inv = inventory_invD [OF assms(2)]
  note f1 = deduct_lines_frame [OF sold(5)] and f2 = finish_complete_Inr [OF sold(6)]
  note lv = complete_sold_levels [OF sold(1,2,4,5,6) inv(3,8)]
  have ge: "next_uuid d \<le> next_uuid (odb oc)"
    using deduct_lines_next [OF sold(5)] finish_complete_next [OF sold(6)] by linarith
  have rr: "return_requests (odb oc) = return_requests d" and si: "so_items (odb oc) = so_items d"
    using f1 f2 by simp_all
  have "\<exists>so. get_so (r_order r) (odb oc) = Some so \<and> so_status so = COMPLETED"
    if "r \<in> set (return_requests d)" for r
  proof -
    from inv(6) that obtain so' where "get_so (r_order r) d = Some so'" "so_status so' = COMPLETED"
      unfolding returns_covered_def by blast
    then show ?thesis unfolding f2(10) f1(3) get_so_completed by auto
  qed
  then have cov: "returns_covered (odb oc)"
    using inv(6) rr si by (simp add: returns_covered_def already_reserved_def sold_quantity_def)
  show ?thesis
  proof (rule inventory_inv_levels [OF assms(2) ge])
    show "wf_returns (odb oc)" by (rule wf_returns_mono [OF rr ge inv(4)])
    show "balanced (odb oc)" using lv(2) inv(5,7) by (simp add: single_lines_def)
    show "map so_id (sales_orders (odb oc)) = map so_id (sales_orders d)"
      unfolding f2(10) f1(3) by (simp add: update_row_keys del: map_map)
  qed (use f1 f2 cov lv(1) in \<open>simp_all del: map_map\<close>)
qed (use assms(2) in simp_all)

subsection \<open>Returns and write-offs keep them\<close>

lemma already_reserved_snoc:
  "already_reserved (d\<lparr>return_requests := return_requests d @ [r]\<rparr>) oid pid
     = already_reserved d oid pid + (if r_order r = oid \<and> r_product r = pid then r_quantity r else 0)"
  by (cases "r_status r") (simp_all add: already_reserved_def)

lemma return_create_cases:
  assumes "return_create u now data d = Inr oc"
  obtains (refused) "odb oc = d" "status_code (rsp oc) = 400"
  | (filed) oid so pid q r where "rin_sales_order data = Some oid" "get_so oid d = Some so"
      "so_id so = oid" "so_status so = COMPLETED" "rin_product data = Some pid"
      "int_of_quantity (rin_quantity data) = Inr q" "0 \<le> q"
      "q \<le> sold_quantity d oid pid - already_reserved d oid pid"
      "r_id r = next_uuid d" "r_order r = oid" "r_product r = pid" "r_quantity r = q" "r_status r = PENDING"
      "odb oc = draw_uuid (d\<lparr>return_requests := return_requests d @ [r]\<rparr>)"
      "rsp oc = Response 201 (return_body r)" "ohooks oc = []"
proof -
  from assms obtain oid so where so: "rin_sales_order data = Some oid" "get_so oid d = Some so"
    by (auto simp: return_create_def bind_elims split: option.splits)
  have id: "so_id so = oid" using get_row_SomeD(2) [OF so(2)] .
  show thesis
  proof (cases "so_status so = COMPLETED")
    case False
    with assms so show thesis by (intro refused) (auto simp: return_create_def)
  next
    case True
    with assms so obtain q where q: "int_of_quantity (rin_quantity data) = Inr q"
      by (auto simp: return_create_def bind_elims)
    show thesis
    proof (cases "rin_product data")
      case None
      with assms so True q show thesis by (intro refused) (auto simp: return_create_def)
    next
      case (Some pid)
      show thesis
      proof (cases "sold_quantity d oid pid = 0 \<or> q > sold_quantity d oid pid - already_reserved d oid pid")
        case True
        with assms so \<open>so_status so = COMPLETED\<close> q Some id show thesis
          by (intro refused) (auto simp: return_create_def exceeds_remaining_def Let_def split: if_splits)
      next
        case False
        with assms so \<open>so_status so = COMPLETED\<close> q Some id show thesis
          by (auto simp: return_create_def bind_elims Let_def not_less intro!: filed)
      qed
    qed
  qed
qed

lemma return_create_inv:
  assumes "return_create u now data d = Inr oc" "inventory_inv d"
  shows "inventory_inv (odb oc)"
  using assms(1)
proof (cases rule: return_create_cases)
  case refused
  with assms(2) show ?thesis by simp
next
  case (filed oid so pid q r)
  note inv = inventory_invD [OF assms(2)]
  let ?d = "draw_uuid (d\<lparr>return_requests := return_requests d @ [r]\<rparr>)"
  have "already_reserved ?d o' p \<le> sold_quantity ?d o' p" for o' p
  proof -
    have "already_reserved ?d o' p = already_reserved (d\<lparr>return_requests := return_requests d @ [r]\<rparr>) o' p"
      by (simp add: already_reserved_def)
    moreover have "sold_quantity ?d o' p = sold_quantity d o' p" by (simp add: sold_quantity_def)
    ultimately show ?thesis
      using inv(6) filed(8,10,11,12) by (auto simp: already_reserved_snoc returns_covered_def)
  qed
  then have cov: "returns_covered ?d"
    using inv(6) filed(2,4,10) by (simp add: returns_covered_def)
  have "\<forall>x \<in> set (return_requests d). r_id x < next_uuid d" using inv(4) by (simp add: wf_returns_def)
  then have wfr: "wf_returns ?d"
    using inv(4) filed(7,9,12) by (auto simp: wf_returns_def less_SucI)
  have "inventory_inv ?d"
    using inv(7,8) levels_cong(3,4) [of ?d d]
    by (intro inventory_inv_levels [OF assms(2)] wfr cov) simp_all
  with filed(14) show ?thesis by simp
qed

text \<open>Dropping returns, or changing only their approval, keeps the reservations covered.\<close>

lemma returns_covered_sublist:
  assumes "returns_covered d" "\<forall>r \<in> set (return_requests d). 0 \<le> r_quantity r"
  shows "returns_covered (d\<lparr>return_requests := filter p (return_requests d)\<rparr>)"
proof -
  have le: "already_reserved (d\<lparr>return_requests := filter p (return_requests d)\<rparr>) o' i \<le> already_reserved d o' i"
    for o' i
    unfolding already_reserved_def using assms(2)
    by (simp add: total_filter) (intro total_mono, auto)
  have "sold_quantity (d\<lparr>return_requests := filter p (return_requests d)\<rparr>) = sold_quantity d"
    by (rule sold_quantity_cong) simp
  then show ?thesis
    using assms(1) unfolding returns_covered_def by (auto intro: order_trans [OF le])
qed

lemma return_queryset_get:
  assumes "wf_returns d" "get_row r_id pk (return_queryset sf d) = Some r"
  shows "get_return pk d = Some r" "r_id r = pk"
proof -
  have "r \<in> set (return_requests d)" "r_id r = pk"
    using get_row_SomeD [OF assms(2)]
    by (auto simp: return_queryset_def split: option.splits if_splits)
  then show "get_return pk d = Some r" "r_id r = pk"
    using assms(1) get_row_eqI by (fastforce simp: wf_returns_def)+
qed

lemma return_destroy_inv:
  assumes "return_destroy sf pk d = Inr oc" "inventory_inv d"
  shows "inventory_inv (odb oc)"
proof -
  note inv = inventory_invD [OF assms(2)]
  from assms(1) obtain p where d: "odb oc = d\<lparr>return_requests := filter p (return_requests d)\<rparr>"
    by (auto simp: return_destroy_def bind_elims delete_rows_def)
  let ?d = "d\<lparr>return_requests := filter p (return_requests d)\<rparr>"
  have wfr: "wf_returns ?d" using inv(4) by (auto simp: wf_returns_def distinct_map_filter)
  have cov: "returns_covered ?d" using inv(4,6) by (intro returns_covered_sublist) (auto simp: wf_returns_def)
  have "inventory_inv ?d"
    using inv(7,8) levels_cong(3,4) [of ?d d]
    by (intro inventory_inv_levels [OF assms(2)] wfr cov) simp_all
  with d show ?thesis by simp
qed

lemma update_row_same:
  assumes "distinct (map key t)" "get_row key k t = Some r"
  shows "update_row key k (\<lambda>_. r) t = t"
  using assms
proof (induction t)
  case (Cons x t)
  show ?case
  proof (cases "key x = k")
    case True
    with Cons.prems have "x = r" "k \<notin> key ` set t" by (auto simp: get_row_Cons)
    with True show ?thesis by (simp add: update_row_Cons update_row_absent)
  next
    case False
    with Cons show ?thesis by (simp add: get_row_Cons update_row_Cons)
  qed
qed simp

lemma return_update_same:
  assumes "return_update sf pk d = Inr oc" "wf_returns d"
  shows "odb oc = d"
proof -
  from assms(1) obtain r where r: "get_row r_id pk (return_queryset sf d) = Some r"
    by (auto simp: return_update_def bind_elims)
  note g = return_queryset_get [OF assms(2) r]
  have "update_row r_id pk (\<lambda>_. r) (return_requests d) = return_requests d"
    using assms(2) g by (intro update_row_same) (auto simp: wf_returns_def)
  with assms(1) r g(2) show ?thesis by (auto simp: return_update_def)
qed

lemma already_reserved_approved:
  "already_reserved (d\<lparr>return_requests := update_row r_id k
     (\<lambda>r. r\<lparr>r_status := APPROVED, r_approved_by := a\<rparr>) (return_requests d)\<rparr>) = already_reserved d"
proof (intro ext)
  fix oid pid
  have all: "(r_status r \<in> {PENDING, APPROVED}) = True" for r by (cases "r_status r") auto
  have "total r_quantity (filter (\<lambda>r. r_order r = oid \<and> r_product r = pid) (update_row r_id k
     (\<lambda>r. r\<lparr>r_status := APPROVED, r_approved_by := a\<rparr>) t))
     = total r_quantity (filter (\<lambda>r. r_order r = oid \<and> r_product r = pid) t)" for t
    by (induction t) (auto simp: update_row_Cons)
  then show "already_reserved (d\<lparr>return_requests := update_row r_id k
     (\<lambda>r. r\<lparr>r_status := APPROVED, r_approved_by := a\<rparr>) (return_requests d)\<rparr>) oid pid
     = already_reserved d oid pid"
    unfolding already_reserved_def all by simp
qed

lemma approve_inv:
  assumes "approve u now pk d = Inr oc" "inventory_inv d"
  shows "inventory_inv (odb oc)"
  using assms(1)
proof (cases rule: approve_cases)
  case replay
  with assms(2) show ?thesis by simp
next
  case (first r d1)
  note inv = inventory_invD [OF assms(2)]
  have r: "0 \<le> r_quantity r"
    using inv(4) get_row_SomeD(1) [OF first(1)] by (auto simp: wf_returns_def)
  have run: "foldE (restock u now) [r] d = Inr d1" using first(4) by simp
  have lv: "balanced d1" "stock_nonneg d1"
    using restocking.reread_balanced [OF run inv(7)] restocking.reread_nonneg [OF run inv(8)] r by simp_all
  have fr: "purchase_orders d1 = purchase_orders d" "po_items d1 = po_items d"
      "sales_orders d1 = sales_orders d" "so_items d1 = so_items d" "return_requests d1 = return_requests d"
      "map p_id (products d1) = map p_id (products d)" "next_uuid d \<le> next_uuid d1"
    using first(4) by (auto simp: restock_Inr update_row_keys)
  let ?d = "save_return_approved u r d1"
  have rets: "return_requests ?d = update_row r_id pk
      (\<lambda>r. r\<lparr>r_status := APPROVED, r_approved_by := Some (u_id u)\<rparr>) (return_requests d)"
    using first(2) fr by (simp add: save_return_approved_def)
  have ge: "next_uuid d \<le> next_uuid ?d" using fr by (simp add: save_return_approved_def)
  have "already_reserved ?d = already_reserved d"
    using already_reserved_approved [where d = d and k = pk and a = "Some (u_id u)"] rets by (simp add: already_reserved_def fun_eq_iff)
  moreover have "\<exists>so. get_so (r_order x) ?d = Some so \<and> so_status so = COMPLETED"
    if "x \<in> set (return_requests ?d)" for x
  proof -
    from that rets obtain y where "y \<in> set (return_requests d)" "r_order x = r_order y"
      by (auto dest!: set_update_rowD split: if_splits)
    with inv(6) fr show ?thesis by (auto simp: returns_covered_def)
  qed
  ultimately have cov: "returns_covered ?d"
    using inv(6) fr by (simp add: returns_covered_def sold_quantity_def)
  have wfr: "wf_returns ?d"
    unfolding wf_returns_def
  proof
    show "distinct (map r_id (return_requests ?d))"
      using inv(4) unfolding rets by (simp add: update_row_keys wf_returns_def del: map_map)
    show "\<forall>x \<in> set (return_requests ?d). r_id x < next_uuid ?d \<and> 0 \<le> r_quantity x"
      using inv(4) ge unfolding rets wf_returns_def
      by (auto dest!: set_update_rowD split: if_splits intro: less_le_trans [OF _ ge])
  qed
  have "inventory_inv ?d"
    using fr lv levels_cong(3,4) [of ?d d1]
    by (intro inventory_inv_levels [OF assms(2) ge] wfr cov) simp_all
  with first(5) show ?thesis by simp
qed

lemma damage_inv:
  assumes "damage u now data d = Inr oc" "inventory_inv d"
  shows "inventory_inv (odb oc)"
  using assms(1)
proof (cases rule: damage_cases)
  case refused
  with assms(2) show ?thesis by simp
next
  case (written pid p q reason t)
  note inv = inventory_invD [OF assms(2)]
  have st: "stock_of d (p_id p) = Some (p_current_stock p)"
    using get_row_eqI [of p_id "products d" p] inv(1) written(6) by (simp add: stock_of_def wf_products_def)
  note lv = write_off_levels [OF written(9) st]
  have fr: "purchase_orders (odb oc) = purchase_orders d" "po_items (odb oc) = po_items d"
      "sales_orders (odb oc) = sales_orders d" "so_items (odb oc) = so_items d"
      "return_requests (odb oc) = return_requests d"
      "map p_id (products (odb oc)) = map p_id (products d)"
    using written(9) by (auto simp: write_off_Inr update_row_keys)
  have ge: "next_uuid d \<le> next_uuid (odb oc)"
    using written(9) by (auto simp: write_off_Inr intro!: order_trans [OF _ check_and_notify_next])
  have bal: "balanced (odb oc)" using inv(7) lv by (auto simp: balanced_iff split: if_splits)
  have nn: "stock_nonneg (odb oc)"
    using inv(8) lv(1) st written(8) by (auto simp: stock_nonneg_iff split: if_splits)
  have "inventory_inv (odb oc)"
    using fr inv(6) bal nn returns_covered_cong [of "odb oc" d]
    by (intro inventory_inv_levels [OF assms(2) ge] wf_returns_mono [OF _ ge inv(4)]) simp_all
  then show ?thesis .
qed

subsection \<open>Every request\<close>

lemma return_update_inv:
  assumes "return_update sf pk d = Inr oc" "inventory_inv d"
  shows "inventory_inv (odb oc)"
  using return_update_same [OF assms(1)] inventory_invD(4) [OF assms(2)] assms(2) by simp

lemma invoice_same: "invoice rid task q pk d = Inr oc \<Longrightarrow> odb oc = d"
  by (auto simp: invoice_def bind_elims split: if_splits)

lemmas request_invs = po_create_inv po_update_inv po_destroy_inv receive_inv so_create_inv
  so_update_inv so_destroy_inv complete_inv return_create_inv return_update_inv return_destroy_inv
  approve_inv damage_inv

lemma request_inv:
  assumes "view_of u now r d = Inr oc" "inventory_inv d" "single_line_request r"
  shows "inventory_inv (odb oc)"
proof (cases r)
  case (Invoice rid task q pk)
  with assms invoice_same [of rid task q pk d oc] show ?thesis by simp
next
  case (CreateSO data)
  with assms so_create_inv [of u now data d oc] show ?thesis by simp
next
  case (UpdateSO partial q pk data)
  with assms so_update_inv [of u now partial q pk data d oc] show ?thesis by simp
qed (use assms(1,2) in \<open>simp_all add: request_invs\<close>)

subsection \<open>Only stock mutations write the ledger, and they only append\<close>

lemma receive_items_append:
  assumes "foldE (receive_item u now oid) items d = Inr d'"
  shows "\<exists>ts. transactions d' = transactions d @ ts"
  using receive_items_ledger [OF assms] by blast

lemma deduct_lines_append:
  assumes "foldE (deduct_line u now oid by_item) items d = Inr d'"
  shows "\<exists>ts. transactions d' = transactions d @ ts"
  by (rule foldE_invariant [OF assms, of "\<lambda>e. \<exists>ts. transactions e = transactions d @ ts"])
    (auto simp: deduct_line_Inr)

lemma written_items_keep_ledger:
  "po_write_items now pdata po d = Inr d' \<Longrightarrow> transactions d' = transactions d"
  "so_write_items now sdata so d = Inr d' \<Longrightarrow> transactions d' = transactions d"
  by (cases "poin_items pdata"; auto simp: po_write_items_def dest!: insert_po_items(2))
    (cases "soin_items sdata"; auto simp: so_write_items_def dest!: insert_so_items(2))

lemma saved_orders_keep_ledger:
  "transactions (po_write_supplier pdata po d) = transactions d"
  "save_so now so d = Inr d' \<Longrightarrow> transactions d' = transactions d"
  by (auto simp: po_write_supplier_def save_po_supplier_def save_so_def bind_elims split: field.split)

lemma order_writes_keep_ledger:
  "po_create u now pdata d = Inr oc \<Longrightarrow> transactions (odb oc) = transactions d"
  "po_update u now partial pq pk pdata d = Inr oc \<Longrightarrow> transactions (odb oc) = transactions d"
  "so_create u now sdata d = Inr oc \<Longrightarrow> transactions (odb oc) = transactions d"
  "so_update u now partial sq pk sdata d = Inr oc \<Longrightarrow> transactions (odb oc) = transactions d"
  by (auto simp: po_create_def po_update_def so_create_def so_update_def bind_elims Let_def
      saved_orders_keep_ledger
      dest!: written_items_keep_ledger insert_po_items(2) insert_so_items(2) split: if_splits)

lemma order_deletes_keep_ledger:
  "po_destroy pq pk d = Inr oc \<Longrightarrow> transactions (odb oc) = transactions d"
  "so_destroy sq pk d = Inr oc \<Longrightarrow> transactions (odb oc) = transactions d"
  "return_create u now rdata d = Inr oc \<Longrightarrow> transactions (odb oc) = transactions d"
  "return_update sf pk d = Inr oc \<Longrightarrow> transactions (odb oc) = transactions d"
  "return_destroy sf pk d = Inr oc \<Longrightarrow> transactions (odb oc) = transactions d"
  by (auto simp: po_destroy_def so_destroy_def return_update_def return_destroy_def bind_elims
      elim: return_create_cases)

lemma stock_mutations_append:
  "receive u now pk d = Inr oc \<Longrightarrow> \<exists>ts. transactions (odb oc) = transactions d @ ts"
  "complete u now drawn pk d = Inr oc \<Longrightarrow> \<exists>ts. transactions (odb oc) = transactions d @ ts"
  "approve u now pk d = Inr oc \<Longrightarrow> \<exists>ts. transactions (odb oc) = transactions d @ ts"
  "damage u now ddata d = Inr oc \<Longrightarrow> \<exists>ts. transactions (odb oc) = transactions d @ ts"
proof -
  show "\<exists>ts. transactions (odb oc) = transactions d @ ts" if "receive u now pk d = Inr oc"
    using that by (cases rule: receive_cases) (auto dest: receive_items_append)
  show "\<exists>ts. transactions (odb oc) = transactions d @ ts" if "complete u now drawn pk d = Inr oc"
    using that
  proof (cases rule: complete_cases)
    case (sold so by_item d1)
    show ?thesis using deduct_lines_append [OF sold(5)] finish_complete_Inr(8) [OF sold(6)] by simp
  qed auto
  show "\<exists>ts. transactions (odb oc) = transactions d @ ts" if "approve u now pk d = Inr oc"
    using that by (cases rule: approve_cases) (auto simp: restock_Inr)
  show "\<exists>ts. transactions (odb oc) = transactions d @ ts" if "damage u now ddata d = Inr oc"
    using that by (cases rule: damage_cases) (auto simp: write_off_Inr)
qed

lemma unchanged_appends: "xs = ys \<Longrightarrow> \<exists>ts. xs = ys @ ts"
  by simp

lemmas request_ledgers = stock_mutations_append
  order_writes_keep_ledger [THEN unchanged_appends] order_deletes_keep_ledger [THEN unchanged_appends]

lemma invoice_appends:
  "invoice rid task q pk d = Inr oc \<Longrightarrow> \<exists>ts. transactions (odb oc) = transactions d @ ts"
  using invoice_same [of rid task q pk d oc] by simp

lemma request_appends:
  "view_of u now r d = Inr oc \<Longrightarrow> \<exists>ts. transactions (odb oc) = transactions d @ ts"
  by (cases r; simp only: view_of.simps; erule request_ledgers invoice_appends)

subsection \<open>The server as a machine\<close>

lemma after_good:
  "single_line_request (snd (snd e)) \<Longrightarrow> inventory_inv (w_db w) \<Longrightarrow> inventory_inv (w_db (after e w))"
proof (cases e)
  case (fields u now r)
  assume "single_line_request (snd (snd e))" and "inventory_inv (w_db w)"
  with fields have "inventory_inv (w_db (snd (run_view (view_of u now r) w)))"
    by (intro run_view_preserves [where P = inventory_inv]) (simp_all add: request_inv)
  with fields show ?thesis by (simp add: serve_def)
qed

interpretation server: guarded_machine after "\<lambda>e. single_line_request (snd (snd e))"
    "\<lambda>w. inventory_inv (w_db w)"
  by unfold_locales (rule after_good)

lemma after_appends: "\<exists>ts. transactions (w_db (after e w)) = transactions (w_db w) @ ts"
proof (cases e)
  case (fields u now r)
  let ?run = "run_view (view_of u now r) w"
  have "\<exists>ts. transactions (w_db (snd ?run)) = transactions (w_db w) @ ts"
    by (rule run_view_preserves [where P = "\<lambda>d. \<exists>ts. transactions d = transactions (w_db w) @ ts"])
      (simp, rule request_appends)
  with fields show ?thesis by (simp add: serve_def)
qed

interpretation ledger: appending_machine after "\<lambda>w. transactions (w_db w)"
  by unfold_locales (rule after_appends)

interpretation callbacks: appending_machine after w_fired
  by unfold_locales (auto simp: serve_def run_view_def split: sum.split)

end
