(* ===== verification/Sample.thy ===== *)
theory Sample
  imports World
begin

section \<open>A small shop\<close>

text \<open>
  One concrete database, for evaluating the operations: three users, two products, a purchase
  order with two lines for one product, an open and a completed sales order, a pending return.
\<close>

definition sample_user :: "uuid \<Rightarrow> role_name \<Rightarrow> user" where
  "sample_user i r = \<lparr>u_id = i, u_email = ''user@inventra.local'', u_password = ''x'', u_last_login = None, u_full_name = ''User'',
     u_role = r, u_is_active = True, u_is_staff = False, u_is_superuser = False,
     u_created_at = 0, u_updated_at = 0, u_created_by = None\<rparr>"

abbreviation sample_admin :: user where "sample_admin \<equiv> sample_user 1 ADMIN"
abbreviation sample_manager :: user where "sample_manager \<equiv> sample_user 2 MANAGER"
abbreviation sample_employee :: user where "sample_employee \<equiv> sample_user 3 EMPLOYEE"

definition sample_product :: "uuid \<Rightarrow> string \<Rightarrow> int \<Rightarrow> product" where
  "sample_product i sku n = \<lparr>p_id = i, p_sku = sku, p_name = ''Widget'', p_description = None,
     p_cost_price = 300, p_selling_price = 500, p_current_stock = n, p_low_stock_threshold = 2,
     p_category = 11, p_supplier = 10, p_is_active = True, p_created_at = 0, p_updated_at = 0,
     p_created_by = Some 1\<rparr>"

definition sample_txn :: "uuid \<Rightarrow> uuid \<Rightarrow> int \<Rightarrow> txn_type \<Rightarrow> inventory_transaction" where
  "sample_txn i p q ty = \<lparr>t_id = i, t_product = p, t_quantity = q, t_type = ty, t_reference = None,
     t_reason = None, t_created_at = 0, t_created_by = Some 1\<rparr>"

definition sample_so :: "uuid \<Rightarrow> so_status \<Rightarrow> string option \<Rightarrow> sales_order" where
  "sample_so i st inv_no = \<lparr>so_id = i, so_status = st, so_customer_name = None, so_customer_phone = None,
     so_invoice_number = inv_no, so_invoiced_at = None, so_created_at = 0, so_updated_at = 0,
     so_created_by = Some 3\<rparr>"

definition sample_so_item :: "uuid \<Rightarrow> uuid \<Rightarrow> uuid \<Rightarrow> int \<Rightarrow> so_item" where
  "sample_so_item i oid p q = \<lparr>soi_id = i, soi_order = oid, soi_product = p, soi_quantity = q,
     soi_unit_price = 500, soi_created_at = 0\<rparr>"

definition sample_po :: "uuid \<Rightarrow> purchase_order" where
  "sample_po i = \<lparr>po_id = i, po_supplier = 10, po_status = ORDERED, po_received_at = None,
     po_created_at = 0, po_updated_at = 0, po_created_by = Some 2\<rparr>"

definition sample_po_item :: "uuid \<Rightarrow> uuid \<Rightarrow> uuid \<Rightarrow> int \<Rightarrow> po_item" where
  "sample_po_item i oid p q = \<lparr>poi_id = i, poi_order = oid, poi_product = p, poi_quantity = q,
     poi_unit_cost = 300, poi_created_at = 0\<rparr>"

definition sample_return :: "uuid \<Rightarrow> uuid \<Rightarrow> uuid \<Rightarrow> int \<Rightarrow> return_request" where
  "sample_return i oid p q = \<lparr>r_id = i, r_order = oid, r_product = p, r_quantity = q,
     r_reason = ''damaged'', r_status = PENDING, r_approved_by = None, r_created_at = 0,
     r_created_by = Some 3\<rparr>"

definition sample_supplier :: supplier where
  "sample_supplier = \<lparr>s_id = 10, s_name = ''Acme'', s_email = ''acme@example.com'', s_phone = None,
     s_address = None, s_is_active = True, s_created_at = 0, s_updated_at = 0, s_created_by = Some 1\<rparr>"

definition sample_category :: category where
  "sample_category = \<lparr>c_id = 11, c_name = ''Parts'', c_description = None, c_is_active = True,
     c_created_at = 0, c_updated_at = 0, c_created_by = Some 1\<rparr>"

definition sample_db :: db where
  "sample_db = \<lparr>users = [sample_admin, sample_manager, sample_employee],
     categories = [sample_category], suppliers = [sample_supplier],
     products = [sample_product 20 ''W-1'' 10, sample_product 21 ''W-2'' 3],
     purchase_orders = [sample_po 40],
     po_items = [sample_po_item 41 40 20 5, sample_po_item 42 40 20 2],
     sales_orders = [sample_so 50 CREATED None, sample_so 70 COMPLETED (Some ''INV-0'')],
     so_items = [sample_so_item 51 50 20 4, sample_so_item 52 50 21 1, sample_so_item 71 70 21 2],
     transactions = [sample_txn 30 20 10 PURCHASE, sample_txn 31 21 5 PURCHASE, sample_txn 32 21 2 SALE],
     return_requests = [sample_return 80 70 21 1],
     notifications = [], next_uuid = 100\<rparr>"

text \<open>The same shop with an open order that has two lines for one product.\<close>

definition double_line_db :: db where
  "double_line_db = sample_db\<lparr>so_items := [sample_so_item 51 50 20 4, sample_so_item 52 50 20 3,
     sample_so_item 71 70 21 2]\<rparr>"

text \<open>The same shop with less stock than the open order needs.\<close>

definition short_db :: db where
  "short_db = sample_db\<lparr>products := [sample_product 20 ''W-1'' 3, sample_product 21 ''W-2'' 3]\<rparr>"

definition sample_world :: "db \<Rightarrow> world" where
  "sample_world d = \<lparr>w_db = d, w_fired = [], w_log = []\<rparr>"

lemmas sample_rows = sample_user_def sample_product_def sample_txn_def sample_so_def
  sample_so_item_def sample_po_def sample_po_item_def sample_return_def sample_supplier_def
  sample_category_def

lemmas sample_defs = sample_rows sample_db_def double_line_db_def short_db_def

end
