(* ===== verification/Movements.thy ===== *)
theory Movements
  imports Inventory Sample
begin

section \<open>Receipts, returns, write-offs\<close>

text \<open>
  The properties of \<open>receive\<close>, of the return workflow (filing, approval, deletion) and of the
  damage write-off.
\<close>

subsection \<open>The small shop is sound\<close>

lemma sample_single_lines: "single_lines sample_db"
  by (simp add: single_lines_def sample_defs)

lemma sample_returns_covered: "returns_covered sample_db"
  unfolding returns_covered_def
proof (intro conjI allI)
  show "\<forall>r \<in> set (return_requests sample_db). \<exists>so. get_so (r_order r) sample_db = Some so \<and> so_status so = COMPLETED"
    by (simp add: sample_defs get_row_def)
  fix oid pid
  show "already_reserved sample_db oid pid \<le> sold_quantity sample_db oid pid"
    by (auto simp: already_reserved_def sold_quantity_def sample_defs)
qed

lemma sample_inventory_inv: "inventory_inv sample_db"
proof (rule inventory_invI)
  show "wf_products sample_db" "wf_purchases sample_db" "wf_sales sample_db" "wf_returns sample_db"
    "balanced sample_db" by code_simp+
  have "\<forall>p \<in> set (products sample_db). case stock_of sample_db (p_id p) of None \<Rightarrow> False | Some n \<Rightarrow> 0 \<le> n"
    by code_simp
  then show "stock_nonneg sample_db" by (auto simp: stock_nonneg_def split: option.splits)
qed (rule sample_single_lines sample_returns_covered)+

subsection \<open>receive\<close>

lemma received_order:
  assumes "get_po pk d = Some po"
  shows "get_po pk (finish_receive now po d)
    = Some (po\<lparr>po_status := RECEIVED, po_received_at := Some now\<rparr>)"
  using assms get_row_SomeD(2) [OF assms] by (simp add: get_row_update)

lemma receive_ok:
  assumes "receive u now pk d = Inr oc" "status_code (rsp oc) = 200"
  obtains po d1 where "get_po pk d = Some po" "po_id po = pk" "po_status po = ORDERED"
      "foldE (receive_item u now pk) (sort_key poi_product (items_of_po pk d)) d = Inr d1"
      "odb oc = finish_receive now po d1" "ohooks oc = [BumpVersion ''inventory'']"
  using assms(1)
proof (cases rule: receive_cases)
  case (first po d1)
  then show thesis by (intro that) auto
qed (use assms(2) in auto)

lemma receive_effect_facts:
  assumes "receive u now pk d = Inr oc" "status_code (rsp oc) = 200"
  shows "stock_of (odb oc) i = map_option (\<lambda>n. n +
      total poi_quantity (filter (\<lambda>x. poi_product x = i) (items_of_po pk d))) (stock_of d i)"
    and "\<exists>ts. transactions (odb oc) = transactions d @ ts
      \<and> map (\<lambda>t. (t_product t, t_quantity t, t_type t, t_reference t)) ts
        = map (\<lambda>x. (poi_product x, poi_quantity x, PURCHASE, Some pk)) (sort_key poi_product (items_of_po pk d))"
    and "\<exists>po. get_po pk (odb oc) = Some po \<and> po_status po = RECEIVED \<and> po_received_at po = Some now"
    and "balanced d \<Longrightarrow> balanced (odb oc)"
    and "ohooks oc = [BumpVersion ''inventory'']"
proof -
  from assms obtain po d1 where r: "get_po pk d = Some po" "po_id po = pk"
      "foldE (receive_item u now pk) (sort_key poi_product (items_of_po pk d)) d = Inr d1"
      "odb oc = finish_receive now po d1"
    by (rule receive_ok)
  have same: "products (odb oc) = products d1" "transactions (odb oc) = transactions d1"
    using r(4) by simp_all
  have stable: "filter (\<lambda>x. poi_product x = i) (sort_key poi_product (items_of_po pk d))
      = filter (\<lambda>x. poi_product x = i) (items_of_po pk d)"
    by (rule sort_key_stable)
  show "stock_of (odb oc) i = map_option (\<lambda>n. n +
      total poi_quantity (filter (\<lambda>x. poi_product x = i) (items_of_po pk d))) (stock_of d i)"
    using receiving.reread_levels(1) [OF r(3), of i] levels_cong(1) [OF same]
    unfolding receiving.moved_def stable by simp
  show "\<exists>ts. transactions (odb oc) = transactions d @ ts
      \<and> map (\<lambda>t. (t_product t, t_quantity t, t_type t, t_reference t)) ts
        = map (\<lambda>x. (poi_product x, poi_quantity x, PURCHASE, Some pk)) (sort_key poi_product (items_of_po pk d))"
    using receive_items_ledger [OF r(3)] same(2) by simp
  have "get_po pk d1 = Some po" using receive_items_frame(1) [OF r(3)] r(1) by simp
  from received_order [OF this] r(4)
  show "\<exists>po. get_po pk (odb oc) = Some po \<and> po_status po = RECEIVED \<and> po_received_at po = Some now"
    by simp
  show "balanced (odb oc)" if "balanced d"
    using receiving.reread_balanced [OF r(3) that] levels_cong(3) [OF same] by simp
  show "ohooks oc = [BumpVersion ''inventory'']" using assms by (rule receive_ok)
qed

text \<open>C13. Receiving a purchase order raises every product's stock by all the order has of it, also
  when several lines name one product (each line reads the row anew), books one PURCHASE row
  per line in product order, marks the order received at the time of the call, and keeps stock
  and ledger in agreement.\<close>
theorem receive_effect:
  assumes "receive u now pk d = Inr oc" "status_code (rsp oc) = 200"
  shows "(\<forall>i. stock_of (odb oc) i = map_option (\<lambda>n. n +
      total poi_quantity (filter (\<lambda>x. poi_product x = i) (items_of_po pk d))) (stock_of d i))
    \<and> (\<exists>ts. transactions (odb oc) = transactions d @ ts
      \<and> map (\<lambda>t. (t_product t, t_quantity t, t_type t, t_reference t)) ts
        = map (\<lambda>x. (poi_product x, poi_quantity x, PURCHASE, Some pk)) (sort_key poi_product (items_of_po pk d)))
    \<and> (\<exists>po. get_po pk (odb oc) = Some po \<and> po_status po = RECEIVED \<and> po_received_at po = Some now)
    \<and> (balanced d \<longrightarrow> balanced (odb oc)) \<and> ohooks oc = [BumpVersion ''inventory'']"
  by (intro conjI allI impI receive_effect_facts [OF assms])

lemma sample_receive:
  obtains oc where "receive sample_manager 5 40 sample_db = Inr oc" "status_code (rsp oc) = 200"
proof -
  let ?run = "receive sample_manager 5 40 sample_db"
  obtain oc where oc: "?run = Inr oc" by (cases ?run) (simp_all, code_simp)
  have "case ?run of Inr oc \<Rightarrow> status_code (rsp oc) = 200 | _ \<Rightarrow> False" by code_simp
  with oc that show thesis by simp
qed

theorem receive_effect_witness:
  "\<exists>oc. receive sample_manager 5 40 sample_db = Inr oc \<and> stock_of (odb oc) 20 = Some 17 \<and> balanced (odb oc)"
proof -
  obtain oc where oc: "receive sample_manager 5 40 sample_db = Inr oc" "status_code (rsp oc) = 200"
    by (rule sample_receive)
  have "stock_of sample_db 20 = Some 10" "balanced sample_db"
    "total poi_quantity (filter (\<lambda>x. poi_product x = 20) (items_of_po 40 sample_db)) = 7" by code_simp+
  with oc(1) receive_effect [OF oc] show ?thesis by auto
qed

text \<open>A purchase order is received once: after a successful call every further call answers
  409 and changes nothing.\<close>
theorem receive_once:
  assumes "receive u now pk d = Inr oc" "status_code (rsp oc) = 200"
  shows "\<exists>oc'. receive u' now' pk (odb oc) = Inr oc' \<and> status_code (rsp oc') = 409
    \<and> odb oc' = odb oc \<and> ohooks oc' = []"
proof -
  from assms obtain po d1 where r: "get_po pk d = Some po"
      "foldE (receive_item u now pk) (sort_key poi_product (items_of_po pk d)) d = Inr d1"
      "odb oc = finish_receive now po d1"
    by (rule receive_ok)
  have "get_po pk d1 = Some po" using receive_items_frame(1) [OF r(2)] r(1) by simp
  from receive_replay [OF received_order [OF this]] r(3) show ?thesis by simp
qed

theorem receive_once_witness:
  "\<exists>oc oc'. receive sample_manager 5 40 sample_db = Inr oc
     \<and> receive sample_admin 6 40 (odb oc) = Inr oc' \<and> odb oc' = odb oc"
proof -
  obtain oc where oc: "receive sample_manager 5 40 sample_db = Inr oc" "status_code (rsp oc) = 200"
    by (rule sample_receive)
  from receive_once [OF oc, of sample_admin 6] oc(1) show ?thesis by blast
qed

text \<open>An open order can always be received while its totals fit the stock column.\<close>

definition room_for :: "po_item list \<Rightarrow> db \<Rightarrow> bool" where
  "room_for items d \<longleftrightarrow> (\<forall>x \<in> set items. 0 \<le> poi_quantity x \<and> (\<exists>n. stock_of d (poi_product x) = Some n
     \<and> 0 \<le> n \<and> n + total poi_quantity (filter (\<lambda>y. poi_product y = poi_product x) items) \<le> max_int32))"

lemma receive_item_succeeds:
  assumes "room_for (x # items) d"
  shows "\<exists>d'. receive_item u now oid x d = Inr d' \<and> room_for items d'"
proof -
  from assms obtain n where n: "stock_of d (poi_product x) = Some n" "0 \<le> n" "0 \<le> poi_quantity x"
    "n + (poi_quantity x + total poi_quantity (filter (\<lambda>y. poi_product y = poi_product x) items)) \<le> max_int32"
    by (auto simp: room_for_def)
  have rest: "0 \<le> total poi_quantity (filter (\<lambda>y. poi_product y = poi_product x) items)"
    using assms by (intro total_nonneg) (auto simp: room_for_def)
  from n(1) obtain p where p: "get_product (poi_product x) d = Some p" "p_current_stock p = n"
    by (auto simp: stock_of_def)
  have "fits_integer (n + poi_quantity x)" "fits_integer (poi_quantity x)"
    using n rest by (auto simp: fits_integer_def max_int32_def)
  then obtain d' where d': "receive_item u now oid x d = Inr d'"
    using p by (auto simp: receive_item_Inr)
  have "room_for items d'"
    unfolding room_for_def
  proof
    fix y assume y: "y \<in> set items"
    with assms obtain k where k: "stock_of d (poi_product y) = Some k" "0 \<le> k"
      "k + total poi_quantity (filter (\<lambda>z. poi_product z = poi_product y) (x # items)) \<le> max_int32"
      and q: "0 \<le> poi_quantity y" by (auto simp: room_for_def)
    show "0 \<le> poi_quantity y \<and> (\<exists>n. stock_of d' (poi_product y) = Some n \<and> 0 \<le> n
        \<and> n + total poi_quantity (filter (\<lambda>z. poi_product z = poi_product y) items) \<le> max_int32)"
      using k q n(1,3) receive_item_levels(1) [OF d', of "poi_product y"]
      by (cases "poi_product y = poi_product x") (auto simp: algebra_simps)
  qed
  with d' show ?thesis by blast
qed

lemma receive_items_succeed:
  "room_for items d \<Longrightarrow> \<exists>d'. foldE (receive_item u now oid) items d = Inr d'"
proof (induction items arbitrary: d)
  case (Cons x items)
  from receive_item_succeeds [OF Cons.prems] obtain e where
    "receive_item u now oid x d = Inr e" "room_for items e" by blast
  with Cons.IH show ?case by simp
qed simp

text \<open>Receiving an open order succeeds whenever its products exist and the levels it leads to
  fit the stock column: nothing else can make the call fail.\<close>
theorem receive_succeeds:
  assumes "get_po pk d = Some po" "po_status po = ORDERED" "room_for (items_of_po pk d) d"
  shows "\<exists>oc. receive u now pk d = Inr oc \<and> status_code (rsp oc) = 200"
proof -
  have "room_for (sort_key poi_product (items_of_po pk d)) d"
    using assms(3) sort_key_stable [of poi_product _ "items_of_po pk d"] by (simp add: room_for_def)
  then have "\<exists>d1. foldE (receive_item u now pk) (sort_key poi_product (items_of_po pk d)) d = Inr d1"
    by (rule receive_items_succeed)
  then obtain d1 where d1: "foldE (receive_item u now pk) (sort_key poi_product (items_of_po pk d)) d = Inr d1"
    by blast
  have "get_po pk d1 = Some po" using receive_items_frame(1) [OF d1] assms(1) by simp
  from receive_first [OF assms(1,2) d1] received_order [OF this]
  show ?thesis by (simp add: po_refreshed_def)
qed

theorem receive_succeeds_witness:
  "\<exists>oc. receive sample_manager 5 40 sample_db = Inr oc \<and> status_code (rsp oc) = 200"
proof (rule receive_succeeds)
  show "get_po 40 sample_db = Some (sample_po 40)" by code_simp
  show "po_status (sample_po 40) = ORDERED" by code_simp
  have "items_of_po 40 sample_db = [sample_po_item 41 40 20 5, sample_po_item 42 40 20 2]" by code_simp
  moreover have "stock_of sample_db 20 = Some 10" by code_simp
  ultimately show "room_for (items_of_po 40 sample_db) sample_db"
    by (simp add: room_for_def sample_po_item_def max_int32_def)
qed

subsection \<open>Returns\<close>

lemma approve_ok:
  assumes "approve u now pk d = Inr oc" "status_code (rsp oc) = 200"
  obtains r d1 where "get_return pk d = Some r" "r_id r = pk" "r_status r = PENDING"
      "restock u now r d = Inr d1" "odb oc = save_return_approved u r d1" "ohooks oc = [BumpVersion ''inventory'']"
  using assms(1)
proof (cases rule: approve_cases)
  case (first r d1)
  then show thesis by (intro that) auto
qed (use assms(2) in auto)

lemma approved_return:
  assumes "get_return pk d = Some r"
  shows "get_return pk (save_return_approved u r d)
    = Some (r\<lparr>r_status := APPROVED, r_approved_by := Some (u_id u)\<rparr>)"
  using assms get_row_SomeD(2) [OF assms] by (simp add: save_return_approved_def get_row_update)

lemma restock_keeps_returns: "restock u now r d = Inr d' \<Longrightarrow> return_requests d' = return_requests d"
  by (auto simp: restock_Inr)

lemma approve_effect_facts:
  assumes "approve u now pk d = Inr oc" "status_code (rsp oc) = 200"
  shows "\<exists>r t. get_return pk d = Some r \<and> r_status r = PENDING
      \<and> (\<forall>i. stock_of (odb oc) i = (if i = r_product r
           then map_option (\<lambda>n. n + r_quantity r) (stock_of d i) else stock_of d i))
      \<and> transactions (odb oc) = transactions d @ [t]
      \<and> (t_product t, t_quantity t, t_type t, t_reference t) = (r_product r, r_quantity r, RETURN, Some pk)
      \<and> get_return pk (odb oc) = Some (r\<lparr>r_status := APPROVED, r_approved_by := Some (u_id u)\<rparr>)"
    and "\<exists>oc'. approve u' now' pk (odb oc) = Inr oc' \<and> status_code (rsp oc') = 409 \<and> odb oc' = odb oc"
proof -
  from assms obtain r d1 where r: "get_return pk d = Some r" "r_id r = pk" "r_status r = PENDING"
      "restock u now r d = Inr d1" "odb oc = save_return_approved u r d1"
    by (rule approve_ok)
  have same: "products (odb oc) = products d1" "transactions (odb oc) = transactions d1"
    using r(5) by simp_all
  have lv: "stock_of (odb oc) i = (if i = r_product r
      then map_option (\<lambda>n. n + r_quantity r) (stock_of d i) else stock_of d i)" for i
    using restock_levels(1) [OF r(4)] levels_cong(1) [OF same] by simp
  from r(4) obtain t where t: "transactions d1 = transactions d @ [t]"
    "(t_product t, t_quantity t, t_type t, t_reference t) = (r_product r, r_quantity r, RETURN, Some (r_id r))"
    by (auto simp: restock_Inr dest: get_row_SomeD(2))
  have "get_return pk d1 = Some r" using restock_keeps_returns [OF r(4)] r(1) by simp
  note row = approved_return [OF this, of u]
  show "\<exists>r t. get_return pk d = Some r \<and> r_status r = PENDING
      \<and> (\<forall>i. stock_of (odb oc) i = (if i = r_product r
           then map_option (\<lambda>n. n + r_quantity r) (stock_of d i) else stock_of d i))
      \<and> transactions (odb oc) = transactions d @ [t]
      \<and> (t_product t, t_quantity t, t_type t, t_reference t) = (r_product r, r_quantity r, RETURN, Some pk)
      \<and> get_return pk (odb oc) = Some (r\<lparr>r_status := APPROVED, r_approved_by := Some (u_id u)\<rparr>)"
    using r lv t row same(2) by (intro exI [of _ r] exI [of _ t]) simp
  show "\<exists>oc'. approve u' now' pk (odb oc) = Inr oc' \<and> status_code (rsp oc') = 409 \<and> odb oc' = odb oc"
    using approve_replay [of pk "odb oc"] row r(5) by simp
qed

text \<open>C33. Approving a pending return puts exactly its quantity back in stock, books one RETURN row
  that refers to it, records who approved it, and works once: every further call answers 409
  and changes nothing.\<close>
theorem approve_effect:
  assumes "approve u now pk d = Inr oc" "status_code (rsp oc) = 200"
  shows "(\<exists>r t. get_return pk d = Some r \<and> r_status r = PENDING
      \<and> (\<forall>i. stock_of (odb oc) i = (if i = r_product r
           then map_option (\<lambda>n. n + r_quantity r) (stock_of d i) else stock_of d i))
      \<and> transactions (odb oc) = transactions d @ [t]
      \<and> (t_product t, t_quantity t, t_type t, t_reference t) = (r_product r, r_quantity r, RETURN, Some pk)
      \<and> get_return pk (odb oc) = Some (r\<lparr>r_status := APPROVED, r_approved_by := Some (u_id u)\<rparr>))
    \<and> (\<exists>oc'. approve u' now' pk (odb oc) = Inr oc' \<and> status_code (rsp oc') = 409 \<and> odb oc' = odb oc)"
  by (intro conjI approve_effect_facts [OF assms])

theorem approve_effect_witness:
  "\<exists>oc oc'. approve sample_manager 5 80 sample_db = Inr oc \<and> stock_of (odb oc) 21 = Some 4
     \<and> approve sample_admin 6 80 (odb oc) = Inr oc' \<and> odb oc' = odb oc"
proof -
  let ?run = "approve sample_manager 5 80 sample_db"
  obtain oc where oc: "?run = Inr oc" by (cases ?run) (simp_all, code_simp)
  have "case ?run of Inr oc \<Rightarrow> status_code (rsp oc) = 200 | _ \<Rightarrow> False" by code_simp
  with oc have ok: "status_code (rsp oc) = 200" by simp
  have d: "get_return 80 sample_db = Some (sample_return 80 70 21 1)" "stock_of sample_db 21 = Some 3"
    "r_product (sample_return 80 70 21 1) = 21" "r_quantity (sample_return 80 70 21 1) = 1" by code_simp+
  show ?thesis
    using approve_effect [OF oc ok, of sample_admin 6] oc d by auto
qed

text \<open>The row a filed return becomes.\<close>

definition filed_return :: "user \<Rightarrow> time \<Rightarrow> uuid \<Rightarrow> uuid \<Rightarrow> int \<Rightarrow> string \<Rightarrow> db \<Rightarrow> return_request" where
  "filed_return u now oid pid q reason d = \<lparr>r_id = next_uuid d, r_order = oid, r_product = pid, r_quantity = q,
     r_reason = reason, r_status = PENDING, r_approved_by = None, r_created_at = now, r_created_by = Some (u_id u)\<rparr>"

definition with_return :: "return_request \<Rightarrow> db \<Rightarrow> db" where
  "with_return r d = draw_uuid (d\<lparr>return_requests := return_requests d @ [r]\<rparr>)"

lemma stored_quantity: "0 \<le> q \<Longrightarrow> q \<le> max_int32 \<Longrightarrow> check_positive_integer q = Inr ()"
  by (simp add: check_positive_integer_eq)

lemma return_create_eq:
  assumes "rin_sales_order data = Some oid" "get_so oid d = Some so" "so_status so = COMPLETED"
    and "rin_product data = Some pid" "0 < sold_quantity d oid pid"
  shows "return_create u now data d = bindE (int_of_quantity (rin_quantity data)) (\<lambda>q.
    if q > sold_quantity d oid pid - already_reserved d oid pid
    then Inr (answer (exceeds_remaining (sold_quantity d oid pid - already_reserved d oid pid)) d)
    else bindE (check_positive_integer q) (\<lambda>_. bindE (reason_of (rin_reason data)) (\<lambda>reason.
      let r = filed_return u now oid pid q reason d in Inr (answer (Response 201 (return_body r)) (with_return r d)))))"
proof -
  have "so_id so = oid" using get_row_SomeD(2) [OF assms(2)] .
  moreover have "sold_quantity d oid pid \<noteq> 0" using assms(5) by simp
  ultimately show ?thesis
    using assms by (simp add: return_create_def Let_def filed_return_def with_return_def cong: if_cong)
qed

text \<open>C32. Filing a return for a product of a completed order, whatever else the request says, is accepted
  (201, one pending return of the given quantity and reason) exactly when the quantity can be read,
  is not negative, fits its column and is no more than what the order sold of the product and no
  pending or approved return holds yet, and the reason, if there is one, is not null and not longer
  than its column; a missing quantity counts as zero, a missing reason as empty. A quantity above
  what is left is refused with the remaining quantity, and nothing else changes the data.\<close>
theorem return_create_accepts:
  assumes "rin_sales_order data = Some oid" "get_so oid d = Some so" "so_status so = COMPLETED"
    and "rin_product data = Some pid" "0 < sold_quantity d oid pid"
    and "remaining = sold_quantity d oid pid - already_reserved d oid pid"
  shows "((\<exists>oc. return_create u now data d = Inr oc \<and> status_code (rsp oc) = 201) \<longleftrightarrow>
      (\<exists>q. int_of_quantity (rin_quantity data) = Inr q \<and> 0 \<le> q \<and> q \<le> max_int32 \<and> q \<le> remaining)
      \<and> (case rin_reason data of None \<Rightarrow> True | Some None \<Rightarrow> False | Some (Some s) \<Rightarrow> length s \<le> 1000))
    \<and> (\<forall>oc. return_create u now data d = Inr oc \<longrightarrow>
        (if status_code (rsp oc) = 201
         then \<exists>q reason. int_of_quantity (rin_quantity data) = Inr q \<and> reason_of (rin_reason data) = Inr reason
           \<and> odb oc = with_return (filed_return u now oid pid q reason d) d
         else odb oc = d))
    \<and> (\<forall>q. int_of_quantity (rin_quantity data) = Inr q \<and> remaining < q \<longrightarrow>
        return_create u now data d = Inr (answer (exceeds_remaining remaining) d))"
proof -
  have reason: "(\<exists>reason. reason_of (rin_reason data) = Inr reason)
      \<longleftrightarrow> (case rin_reason data of None \<Rightarrow> True | Some None \<Rightarrow> False | Some (Some s) \<Rightarrow> length s \<le> 1000)"
    by (auto simp: reason_of_def bind_elims split: option.splits)
  note eq = return_create_eq [OF assms(1-5), of u now, folded assms(6)]
  have refused: "status_code (exceeds_remaining remaining) \<noteq> 201" by (simp add: exceeds_remaining_def)
  have accepted: "return_create u now data d = Inr (answer (Response 201 (return_body (filed_return u now oid pid q reason d)))
      (with_return (filed_return u now oid pid q reason d) d))"
    if "int_of_quantity (rin_quantity data) = Inr q" "reason_of (rin_reason data) = Inr reason" "0 \<le> q" "q \<le> max_int32" "q \<le> remaining"
    for q reason
    using that by (simp add: eq stored_quantity Let_def not_less)
  have only: "(status_code (rsp oc) = 201 \<and> (\<exists>q reason. int_of_quantity (rin_quantity data) = Inr q \<and> reason_of (rin_reason data) = Inr reason
        \<and> 0 \<le> q \<and> q \<le> max_int32 \<and> q \<le> remaining \<and> odb oc = with_return (filed_return u now oid pid q reason d) d))
      \<or> (status_code (rsp oc) \<noteq> 201 \<and> odb oc = d)" if "return_create u now data d = Inr oc" for oc
    using that refused by (auto simp: eq bind_elims check_positive_integer_eq Let_def not_less split: if_splits)
  have more: "return_create u now data d = Inr (answer (exceeds_remaining remaining) d)"
    if "int_of_quantity (rin_quantity data) = Inr q" "remaining < q" for q
    using that by (simp add: eq)
  show ?thesis
    unfolding reason [symmetric]
  proof (intro conjI iffI allI impI)
    fix oc assume "return_create u now data d = Inr oc"
    from only [OF this] show "if status_code (rsp oc) = 201
         then \<exists>q reason. int_of_quantity (rin_quantity data) = Inr q \<and> reason_of (rin_reason data) = Inr reason
           \<and> odb oc = with_return (filed_return u now oid pid q reason d) d
         else odb oc = d" by auto
  next
    assume "(\<exists>q. int_of_quantity (rin_quantity data) = Inr q \<and> 0 \<le> q \<and> q \<le> max_int32 \<and> q \<le> remaining)
      \<and> (\<exists>reason. reason_of (rin_reason data) = Inr reason)"
    then show "\<exists>oc. return_create u now data d = Inr oc \<and> status_code (rsp oc) = 201" using accepted by fastforce
  qed (use only more in blast)+
qed

definition sample_return_input :: "int \<Rightarrow> return_input" where
  "sample_return_input q = \<lparr>rin_sales_order = Some 70, rin_product = Some 21,
     rin_quantity = Given q, rin_reason = Some (Some ''broken'')\<rparr>"

theorem return_create_accepts_witness:
  "return_create sample_manager 5 (sample_return_input 2) sample_db = Inr (answer (exceeds_remaining 1) sample_db)
   \<and> (\<exists>oc. return_create sample_manager 5 (sample_return_input 1) sample_db = Inr oc \<and> status_code (rsp oc) = 201
        \<and> odb oc = with_return (filed_return sample_manager 5 70 21 1 ''broken'' sample_db) sample_db)"
proof -
  have d: "get_so 70 sample_db = Some (sample_so 70 COMPLETED (Some ''INV-0''))"
    "so_status (sample_so 70 COMPLETED (Some ''INV-0'')) = COMPLETED"
    "0 < sold_quantity sample_db 70 21" "1 = sold_quantity sample_db 70 21 - already_reserved sample_db 70 21" by code_simp+
  have i: "rin_sales_order (sample_return_input q) = Some 70" "rin_product (sample_return_input q) = Some 21"
    "int_of_quantity (rin_quantity (sample_return_input q)) = Inr q" "rin_reason (sample_return_input q) = Some (Some ''broken'')"
    "reason_of (rin_reason (sample_return_input q)) = Inr ''broken''" for q
    by (simp_all add: sample_return_input_def int_of_quantity_def reason_of_def)
  have broken: "reason_of (Some (Some ''broken'')) = Inr ''broken''" by (simp add: reason_of_def)
  note accepts = return_create_accepts [OF i(1) d(1,2) i(2) d(3,4), of sample_manager 5]
  have "\<exists>oc. return_create sample_manager 5 (sample_return_input 1) sample_db = Inr oc \<and> status_code (rsp oc) = 201"
    using accepts [of 1] by (simp add: i max_int32_def)
  then obtain oc where oc: "return_create sample_manager 5 (sample_return_input 1) sample_db = Inr oc" "status_code (rsp oc) = 201" by blast
  with accepts [of 1] have "\<exists>q reason. Inr 1 = (Inr q :: exn + int) \<and> Inr ''broken'' = (Inr reason :: exn + string)
      \<and> odb oc = with_return (filed_return sample_manager 5 70 21 q reason sample_db) sample_db"
    unfolding i broken by (metis (no_types, lifting))
  with oc have "\<exists>oc. return_create sample_manager 5 (sample_return_input 1) sample_db = Inr oc \<and> status_code (rsp oc) = 201
      \<and> odb oc = with_return (filed_return sample_manager 5 70 21 1 ''broken'' sample_db) sample_db" by auto
  moreover have "return_create sample_manager 5 (sample_return_input 2) sample_db = Inr (answer (exceeds_remaining 1) sample_db)"
    using accepts [of 2] unfolding i by simp
  ultimately show ?thesis by blast
qed

subsection \<open>Deleting an approved return\<close>

text \<open>A return of \<open>q\<close> units that has been approved, with \<open>n\<close> units in stock.\<close>

definition restocked :: "uuid \<Rightarrow> uuid \<Rightarrow> int \<Rightarrow> int \<Rightarrow> uuid \<Rightarrow> db \<Rightarrow> bool" where
  "restocked oid pid q n pk d \<longleftrightarrow> inventory_inv d \<and> stock_of d pid = Some n
     \<and> (\<exists>r. get_return pk d = Some r \<and> (r_order r, r_product r, r_quantity r, r_status r) = (oid, pid, q, APPROVED))"

definition again :: "uuid \<Rightarrow> uuid \<Rightarrow> int \<Rightarrow> return_input" where
  "again oid pid q = \<lparr>rin_sales_order = Some oid, rin_product = Some pid, rin_quantity = Given q, rin_reason = None\<rparr>"

text \<open>Delete the return, file it anew, approve it.\<close>

definition recycle :: "user \<Rightarrow> time \<Rightarrow> uuid \<Rightarrow> uuid \<Rightarrow> int \<Rightarrow> uuid \<Rightarrow> uuid \<Rightarrow> event list" where
  "recycle u now oid pid q pk fresh = [(u, now, DestroyReturn None pk), (u, now, CreateReturn (again oid pid q)), (u, now, Approve fresh)]"

lemma after_view: "view_of u now r (w_db w) = Inr oc \<Longrightarrow> w_db (after (u, now, r) w) = odb oc"
  by (simp add: serve_def run_view_Inr)

lemma total_delete_row:
  "distinct (map r_id rs) \<Longrightarrow> r \<in> set rs \<Longrightarrow> P r \<Longrightarrow>
   total r_quantity (filter P (delete_rows (\<lambda>x. r_id x = r_id r) rs)) = total r_quantity (filter P rs) - r_quantity r"
proof (induction rs)
  case (Cons x rs)
  show ?case
  proof (cases "x = r")
    case True
    with Cons.prems(1) have "delete_rows (\<lambda>x. r_id x = r_id r) rs = rs"
      by (auto simp: delete_rows_def filter_id_conv image_iff)
    with True Cons.prems(3) show ?thesis by (simp add: delete_rows_def)
  next
    case False
    with Cons.prems have "r_id x \<noteq> r_id r" "r \<in> set rs" by auto
    with Cons show ?thesis by (simp add: delete_rows_def)
  qed
qed simp

lemma recycle_round:
  assumes "restocked oid pid q n pk (w_db w)" "0 < q" "n + q \<le> max_int32"
    and "w' = fold after (recycle u now oid pid q pk (next_uuid (w_db w))) w"
  shows "restocked oid pid q (n + q) (next_uuid (w_db w)) (w_db w') \<and> sold_quantity (w_db w') oid pid = sold_quantity (w_db w) oid pid"
proof -
  let ?d = "w_db w"
  from assms(1) obtain r where r: "get_return pk ?d = Some r" "r_order r = oid" "r_product r = pid" "r_quantity r = q" "r_status r = APPROVED"
    and inv: "inventory_inv ?d" and n: "stock_of ?d pid = Some n" by (auto simp: restocked_def)
  note D = inventory_invD [OF inv]
  have nonneg: "0 \<le> n"
  proof -
    from n obtain p where "get_product pid ?d = Some p" by (auto simp: stock_of_def)
    from get_row_SomeD [OF this] D(8) n show ?thesis by (fastforce simp: stock_nonneg_def)
  qed
  have mem: "r \<in> set (return_requests ?d)" "r_id r = pk" using get_row_SomeD [OF r(1)] by simp_all
  from D(6) mem(1) r(2) obtain so where so: "get_so oid ?d = Some so" "so_status so = COMPLETED" by (auto simp: returns_covered_def)
  define d1 where "d1 = ?d\<lparr>return_requests := delete_rows (\<lambda>x. r_id x = r_id r) (return_requests ?d)\<rparr>"
  define r' where "r' = filed_return u now oid pid q [] d1"
  define d2 where "d2 = with_return r' d1"
  have "already_reserved d1 oid pid = already_reserved ?d oid pid - r_quantity r"
    unfolding already_reserved_def d1_def using D(4) mem(1) r(2,3,5)
    by (simp add: total_delete_row wf_returns_def)
  moreover have "already_reserved ?d oid pid \<le> sold_quantity ?d oid pid" using D(6) by (simp add: returns_covered_def)
  moreover have "0 \<le> already_reserved d1 oid pid"
    unfolding already_reserved_def d1_def using D(4) by (intro total_nonneg) (auto simp: wf_returns_def delete_rows_def)
  ultimately have sold: "q \<le> sold_quantity ?d oid pid - already_reserved d1 oid pid" "0 < sold_quantity ?d oid pid"
    using r(4) assms(2) by linarith+
  have v1: "view_of u now (DestroyReturn None pk) ?d = Inr (answer (Response 204 NoContent) d1)"
    using r(1) mem(2) by (simp add: return_destroy_def return_queryset_def d1_def)
  have f1: "next_uuid d1 = next_uuid ?d" "sold_quantity d1 = sold_quantity ?d" "get_so oid d1 = Some so"
    using so by (simp_all add: d1_def sold_quantity_def fun_eq_iff)
  have "0 < sold_quantity d1 oid pid" using sold(2) f1(2) by simp
  from return_create_eq [of "again oid pid q" oid d1 so pid u now, OF _ f1(3) so(2) _ this] sold(1) assms(2,3) nonneg
  have v2: "view_of u now (CreateReturn (again oid pid q)) d1 = Inr (answer (Response 201 (return_body r')) d2)"
    by (simp add: again_def int_of_quantity_def reason_of_def stored_quantity Let_def f1(2) r'_def d2_def)
  have "get_return (next_uuid ?d) d1 = None"
    using D(4) by (auto simp: get_row_None wf_returns_def d1_def delete_rows_def)
  then have g: "get_return (next_uuid ?d) d2 = Some r'"
    by (simp add: d2_def with_return_def r'_def filed_return_def get_row_append get_row_Cons f1(1))
  have r': "r_id r' = next_uuid ?d" "r_order r' = oid" "r_product r' = pid" "r_quantity r' = q" "r_status r' = PENDING"
    by (simp_all add: r'_def filed_return_def f1(1))
  have "stock_of d2 pid = Some n" using n by (simp add: d2_def d1_def with_return_def stock_of_def)
  then obtain p where p: "get_product pid d2 = Some p" "p_current_stock p = n" by (auto simp: stock_of_def)
  have "fits_integer (n + q)" "fits_integer q" using nonneg assms(2,3) by (auto simp: fits_integer_def max_int32_def)
  with p r' obtain d3 where d3: "restock u now r' d2 = Inr d3" by (auto simp: restock_Inr)
  have "\<exists>oc. view_of u now (Approve (next_uuid ?d)) d2 = Inr oc \<and> odb oc = save_return_approved u r' d3"
    using g r'(5) d3 by (simp add: approve_def Let_def)
  then obtain oc where v3: "view_of u now (Approve (next_uuid ?d)) d2 = Inr oc" "odb oc = save_return_approved u r' d3" by blast
  have w': "w_db w' = save_return_approved u r' d3"
  proof -
    let ?w1 = "after (u, now, DestroyReturn None pk) w"
    let ?w2 = "after (u, now, CreateReturn (again oid pid q)) ?w1"
    have "w_db ?w1 = d1" using after_view [OF v1] by simp
    with v2 have "view_of u now (CreateReturn (again oid pid q)) (w_db ?w1) = Inr (answer (Response 201 (return_body r')) d2)"
      by (simp only:)
    from after_view [OF this] have "w_db ?w2 = d2" by (simp only: answer_simps)
    with v3(1) have "view_of u now (Approve (next_uuid ?d)) (w_db ?w2) = Inr oc" by (simp only:)
    from after_view [OF this] show ?thesis
      unfolding assms(4) recycle_def v3(2) [symmetric] by (simp del: after.simps)
  qed
  have inv1: "inventory_inv d1" using request_inv [OF v1 inv] by simp
  have inv2: "inventory_inv d2" using request_inv [OF v2 inv1] by simp
  have "inventory_inv (w_db w')" using request_inv [OF v3(1) inv2] by (simp add: w' v3(2))
  moreover have "stock_of (w_db w') pid = Some (n + q)"
    using restock_levels(1) [OF d3, of pid] \<open>stock_of d2 pid = Some n\<close> r' by (simp add: w' save_return_approved_def stock_of_def)
  moreover have "get_return (next_uuid ?d) (w_db w') = Some (r'\<lparr>r_status := APPROVED, r_approved_by := Some (u_id u)\<rparr>)"
    unfolding w' using approved_return [of "next_uuid ?d" d3 r' u] g restock_keeps_returns [OF d3] by simp
  moreover have "sold_quantity (w_db w') oid pid = sold_quantity ?d oid pid"
    using f1(2) d3 by (auto simp: w' restock_Inr save_return_approved_def sold_quantity_def d2_def with_return_def fun_eq_iff)
  ultimately show ?thesis using r' by (simp add: restocked_def)
qed

text \<open>C39. Deleting an approved return frees its reservation although the goods are already back in
  stock, and nothing bounds what follows: on a sound database, whoever may send these requests can
  delete an approved return, file it anew and have it approved as often as they like, and each round
  puts the same units into stock once more, up to the width of the column. The order has still sold
  what it sold, and the books balance all the while.\<close>
theorem deleting_an_approved_return_over_restocks:
  assumes "inventory_inv (w_db w)" "get_return pk (w_db w) = Some r" "r_status r = APPROVED" "0 < r_quantity r"
    and "stock_of (w_db w) (r_product r) = Some n" "n + int k * r_quantity r \<le> max_int32"
  shows "\<exists>es. length es = 3 * k
    \<and> list_all (\<lambda>(u', now', x). u' = u \<and> (\<exists>i. x = DestroyReturn None i \<or> x = Approve i
         \<or> x = CreateReturn (again (r_order r) (r_product r) (r_quantity r)))) es
    \<and> stock_of (w_db (fold after es w)) (r_product r) = Some (n + int k * r_quantity r)
    \<and> sold_quantity (w_db (fold after es w)) (r_order r) (r_product r) = sold_quantity (w_db w) (r_order r) (r_product r)
    \<and> inventory_inv (w_db (fold after es w))"
proof -
  let ?oid = "r_order r" and ?pid = "r_product r" and ?q = "r_quantity r"
  let ?ok = "\<lambda>(u' :: user, now' :: time, x). u' = u \<and> (\<exists>i. x = DestroyReturn None i \<or> x = Approve i \<or> x = CreateReturn (again ?oid ?pid ?q))"
  have "restocked ?oid ?pid ?q n pk (w_db w)" using assms(1-3,5) by (simp add: restocked_def)
  moreover have "restocked ?oid ?pid ?q n pk (w_db w) \<Longrightarrow> n + int k * ?q \<le> max_int32 \<Longrightarrow>
    \<exists>es i. length es = 3 * k \<and> list_all ?ok es \<and> restocked ?oid ?pid ?q (n + int k * ?q) i (w_db (fold after es w))
      \<and> sold_quantity (w_db (fold after es w)) ?oid ?pid = sold_quantity (w_db w) ?oid ?pid"
  proof (induction k arbitrary: n pk w)
    case 0
    then show ?case by (intro exI [of _ "[]"] exI [of _ pk]) simp
  next
    case (Suc k)
    let ?es = "recycle u 0 ?oid ?pid ?q pk (next_uuid (w_db w))"
    have "0 \<le> int k * ?q" using assms(4) by simp
    then have fits: "n + ?q \<le> max_int32" "n + ?q + int k * ?q \<le> max_int32" using Suc.prems(2) by (simp_all add: algebra_simps)
    from recycle_round [OF Suc.prems(1) assms(4) fits(1) refl]
    have r: "restocked ?oid ?pid ?q (n + ?q) (next_uuid (w_db w)) (w_db (fold after ?es w))"
      "sold_quantity (w_db (fold after ?es w)) ?oid ?pid = sold_quantity (w_db w) ?oid ?pid" by blast+
    from Suc.IH [OF r(1) fits(2)] obtain es i where es: "length es = 3 * k" "list_all ?ok es"
      "restocked ?oid ?pid ?q (n + ?q + int k * ?q) i (w_db (fold after es (fold after ?es w)))"
      "sold_quantity (w_db (fold after es (fold after ?es w))) ?oid ?pid = sold_quantity (w_db w) ?oid ?pid"
      using r(2) by auto
    moreover have "length ?es = 3" "list_all ?ok ?es" by (simp_all add: recycle_def)
    moreover have "n + ?q + int k * ?q = n + int (Suc k) * ?q" by (simp add: algebra_simps)
    ultimately show ?case by (intro exI [of _ "?es @ es"] exI [of _ i]) (simp del: after.simps)
  qed
  ultimately show ?thesis using assms(6) unfolding restocked_def by blast
qed

theorem deleting_an_approved_return_over_restocks_witness:
  "\<exists>es. length es = 6 \<and> stock_of (w_db (after (sample_manager, 5, Approve 80) (sample_world sample_db))) 21 = Some 4
     \<and> stock_of (w_db (fold after es (after (sample_manager, 5, Approve 80) (sample_world sample_db)))) 21 = Some 6
     \<and> sold_quantity (w_db (fold after es (after (sample_manager, 5, Approve 80) (sample_world sample_db)))) 70 21 = 2"
proof -
  let ?w = "after (sample_manager, 5, Approve 80) (sample_world sample_db)"
  let ?r = "(sample_return 80 70 21 1)\<lparr>r_status := APPROVED, r_approved_by := Some 2\<rparr>"
  obtain oc where oc: "view_of sample_manager 5 (Approve 80) sample_db = Inr oc"
    by (cases "view_of sample_manager 5 (Approve 80) sample_db") (simp_all, code_simp)
  have "w_db (sample_world sample_db) = sample_db" by (simp add: sample_world_def)
  then have "w_db ?w = odb oc" using after_view [of sample_manager 5 "Approve 80" "sample_world sample_db" oc] oc by simp
  then have inv: "inventory_inv (w_db ?w)" using request_inv [OF oc sample_inventory_inv] by simp
  have g: "get_return 80 (w_db ?w) = Some ?r" by code_simp
  have r: "r_status ?r = APPROVED" "0 < r_quantity ?r" "r_order ?r = 70" "r_product ?r = 21" "r_quantity ?r = 1"
    by (simp_all add: sample_return_def)
  have n: "stock_of (w_db ?w) (r_product ?r) = Some 4" "sold_quantity (w_db ?w) 70 21 = 2" by code_simp+
  have "(4::int) + int 2 * r_quantity ?r \<le> max_int32" by (simp add: r max_int32_def)
  from deleting_an_approved_return_over_restocks [OF inv g r(1,2) n(1) this, of sample_manager] n r show ?thesis by auto
qed

subsection \<open>Damage write-offs\<close>

text \<open>A valid damage write-off of an active product is refused with 409 when it asks for more
  than is in stock, and otherwise takes exactly the quantity off the stock, books one DAMAGE row
  with the reason and no reference, and leaves the stock not negative.\<close>
theorem damage_effect:
  assumes "damage_validate data = Inr data" "din_product data = Given pid" "din_quantity data = Given q"
    and "din_reason data = Given reason" "get_product pid d = Some p" "p_is_active p" "wf_products d"
    and "fits_integer (p_current_stock p)"
  shows "if p_current_stock p < q
    then damage u now data d = Inr (answer (cannot_write_off q (p_current_stock p)) d)
    else \<exists>oc t. damage u now data d = Inr oc \<and> status_code (rsp oc) = 201
      \<and> (\<forall>i. stock_of (odb oc) i = (if i = pid then Some (p_current_stock p - q) else stock_of d i))
      \<and> transactions (odb oc) = transactions d @ [t]
      \<and> (t_product t, t_quantity t, t_type t, t_reference t, t_reason t) = (pid, q, DAMAGE, None, Some reason)
      \<and> 0 \<le> p_current_stock p - q"
proof -
  have id: "p_id p = pid" "p \<in> set (products d)" using get_row_SomeD [OF assms(5)] by auto
  have "distinct (map p_id (filter p_is_active (products d)))"
    using assms(7) by (simp add: wf_products_def distinct_map_filter)
  from get_row_eqI [OF this] id assms(6) have row: "get_row p_id pid (filter p_is_active (products d)) = Some p"
    by auto
  show ?thesis
  proof (cases "p_current_stock p < q")
    case True
    with assms row show ?thesis by (simp add: damage_def field_get_def)
  next
    case False
    have "1 \<le> q" using damage_validate_Inr(3) [OF assms(1)] assms(3) by auto
    with False assms(8) have fits: "fits_integer (p_current_stock p - q)" "fits_integer q"
      by (auto simp: fits_integer_def)
    then obtain t d' where w: "write_off u now reason (p, q) d = Inr (t, d')"
      by (simp add: write_off_Inr)
    have "stock_of d (p_id p) = Some (p_current_stock p)" using assms(5) id by (simp add: stock_of_def)
    note lv = write_off_levels(1) [OF w this]
    have lv: "stock_of d' i = (if i = pid then Some (p_current_stock p - q) else stock_of d i)" for i
      using lv [of i] assms(5) id by (simp add: stock_of_def)
    have "transactions d' = transactions d @ [t]"
      "(t_product t, t_quantity t, t_type t, t_reference t, t_reason t) = (pid, q, DAMAGE, None, Some reason)"
      using w id by (auto simp: write_off_Inr)
    with assms row False w lv show ?thesis by (simp add: damage_def field_get_def)
  qed
qed

definition sample_damage :: "int \<Rightarrow> damage_input" where
  "sample_damage q = \<lparr>din_product = Given 20, din_quantity = Given q, din_reason = Given ''wet''\<rparr>"

theorem damage_effect_witness:
  "damage sample_manager 5 (sample_damage 11) sample_db = Inr (answer (cannot_write_off 11 10) sample_db)
   \<and> (\<exists>oc. damage sample_manager 5 (sample_damage 4) sample_db = Inr oc \<and> stock_of (odb oc) 20 = Some 6)"
proof -
  have d: "get_product 20 sample_db = Some (sample_product 20 ''W-1'' 10)"
    "p_is_active (sample_product 20 ''W-1'' 10)" "wf_products sample_db"
    "fits_integer (p_current_stock (sample_product 20 ''W-1'' 10))"
    "p_current_stock (sample_product 20 ''W-1'' 10) = 10" by code_simp+
  have i: "din_product (sample_damage q) = Given 20" "din_quantity (sample_damage q) = Given q"
    "din_reason (sample_damage q) = Given ''wet''" for q by (simp_all add: sample_damage_def)
  have v: "damage_validate (sample_damage 11) = Inr (sample_damage 11)"
    "damage_validate (sample_damage 4) = Inr (sample_damage 4)" by code_simp+
  show ?thesis
    using damage_effect [OF v(1) i d(1-4), of sample_manager 5]
      damage_effect [OF v(2) i d(1-4), of sample_manager 5] d(5) by auto
qed

end
