(* ===== verification/Orders.thy ===== *)
theory Orders
  imports Inventory Sample
begin

section \<open>Orders once they are received or completed\<close>

text \<open>
  What the requests leave of the order tables: an order that has been received or completed is
  never changed again, its lines included; replacing the items of an open order replaces exactly
  its own lines; a line's price is the product's selling price at the time it is written.
\<close>

subsection \<open>Requests that leave the sales tables alone\<close>

definition same_sales :: "db \<Rightarrow> db \<Rightarrow> bool" where
  "same_sales d d' \<longleftrightarrow> sales_orders d' = sales_orders d \<and> so_items d' = so_items d"

lemma same_sales_refl [simp]: "same_sales d d"
  by (simp add: same_sales_def)

lemma written_po_keep_sales:
  "po_write_items now pdata po d = Inr d' \<Longrightarrow> same_sales d d'"
  "same_sales d (po_write_supplier pdata po d)"
  by (cases "poin_items pdata"; auto simp: po_write_items_def same_sales_def dest!: insert_po_items(2))
    (cases "poin_supplier pdata"; simp add: po_write_supplier_def save_po_supplier_def same_sales_def)

lemma same_sales_trans: "same_sales d e \<Longrightarrow> same_sales e d' \<Longrightarrow> same_sales d d'"
  by (simp add: same_sales_def)

lemma po_requests_keep_sales:
  "po_create u now pdata d = Inr oc \<Longrightarrow> same_sales d (odb oc)"
  "po_destroy pq pk d = Inr oc \<Longrightarrow> same_sales d (odb oc)"
  "receive u now pk d = Inr oc \<Longrightarrow> same_sales d (odb oc)"
proof -
  show "same_sales d (odb oc)" if "po_create u now pdata d = Inr oc"
    using that by (auto simp: po_create_def bind_elims Let_def same_sales_def dest!: insert_po_items(2))
  show "same_sales d (odb oc)" if "po_destroy pq pk d = Inr oc"
    using that by (auto simp: po_destroy_def bind_elims same_sales_def)
  show "same_sales d (odb oc)" if "receive u now pk d = Inr oc"
    using that by (cases rule: receive_cases) (simp_all add: same_sales_def receive_items_frame)
qed

lemma po_update_keeps_sales:
  assumes "po_update u now partial pq pk pdata d = Inr oc"
  shows "same_sales d (odb oc)"
proof -
  from assms obtain po where po: "get_row po_id pk (po_queryset pq d) = Some po"
    by (auto simp: po_update_def bind_elims)
  show ?thesis
  proof (cases "po_status po = ORDERED")
    case False
    with assms po show ?thesis by (auto simp: po_update_def)
  next
    case True
    with assms po obtain data' where
      "po_write_items now data' po (po_write_supplier data' po d) = Inr (odb oc)"
      by (auto simp: po_update_def bind_elims)
    then show ?thesis by (rule same_sales_trans [OF written_po_keep_sales(2) written_po_keep_sales(1)])
  qed
qed

lemma return_requests_keep_sales:
  "return_create u now rdata d = Inr oc \<Longrightarrow> same_sales d (odb oc)"
  "return_update sf pk d = Inr oc \<Longrightarrow> same_sales d (odb oc)"
  "return_destroy sf pk d = Inr oc \<Longrightarrow> same_sales d (odb oc)"
  "approve u now pk d = Inr oc \<Longrightarrow> same_sales d (odb oc)"
  "damage u now ddata d = Inr oc \<Longrightarrow> same_sales d (odb oc)"
proof -
  show "same_sales d (odb oc)" if "return_create u now rdata d = Inr oc"
    using that by (cases rule: return_create_cases) (simp_all add: same_sales_def)
  show "same_sales d (odb oc)" if "return_update sf pk d = Inr oc"
    using that by (auto simp: return_update_def bind_elims same_sales_def)
  show "same_sales d (odb oc)" if "return_destroy sf pk d = Inr oc"
    using that by (auto simp: return_destroy_def bind_elims same_sales_def)
  show "same_sales d (odb oc)" if "approve u now pk d = Inr oc"
    using that by (cases rule: approve_cases) (auto simp: same_sales_def restock_Inr)
  show "same_sales d (odb oc)" if "damage u now ddata d = Inr oc"
    using that by (cases rule: damage_cases) (auto simp: same_sales_def write_off_Inr)
qed

lemma invoice_keeps_sales: "invoice rid task q pk d = Inr oc \<Longrightarrow> same_sales d (odb oc)"
  using invoice_same [of rid task q pk d oc] by simp

subsection \<open>Requests on one order leave the other orders alone\<close>

definition same_order :: "uuid \<Rightarrow> db \<Rightarrow> db \<Rightarrow> bool" where
  "same_order k d d' \<longleftrightarrow> get_so k d' = get_so k d \<and> items_of_so k d' = items_of_so k d"

lemma same_sales_order: "same_sales d d' \<Longrightarrow> same_order k d d'"
  by (simp add: same_sales_def same_order_def)

lemma inserted_lines_of_others:
  assumes "foldE (insert_so_item oid now) its d = Inr d'" "k \<noteq> oid"
  shows "items_of_so k d' = items_of_so k d"
proof -
  obtain new where "so_items d' = so_items d @ new" "\<forall>x \<in> set new. soi_order x = oid"
    using insert_so_items(1) [OF assms(1)] by blast
  with assms(2) show ?thesis by (auto simp: filter_empty_conv)
qed

lemma so_create_others:
  assumes "so_create u now data d = Inr oc" "get_so k d = Some so" "wf_sales d"
  shows "same_order k d (odb oc)"
proof -
  have "k \<in> set (map so_id (sales_orders d))" using get_row_mem [OF assms(2)] by simp
  moreover have "\<forall>i \<in> set (map so_id (sales_orders d)). i < next_uuid d"
    using assms(3) unfolding wf_sales_def by (elim conjE)
  ultimately have k: "k < next_uuid d" by (rule bspec [rotated])
  from assms(1) obtain data' its where f: "foldE (insert_so_item (so_id (new_so u now data' d)) now) its
      (draw_uuid (d\<lparr>sales_orders := sales_orders d @ [new_so u now data' d]\<rparr>)) = Inr (odb oc)"
    by (auto simp: so_create_def bind_elims Let_def)
  have "k \<noteq> so_id (new_so u now data' d)" using k by (simp add: new_so_def)
  from inserted_lines_of_others [OF f this] insert_so_items(2) [OF f] assms(2)
  show ?thesis by (simp add: same_order_def get_row_append)
qed

lemma so_write_items_others:
  assumes "so_write_items now data so d = Inr d'" "k \<noteq> so_id so"
  shows "same_order k d d'"
proof (cases "soin_items data")
  case (Given its)
  with assms(1) have f: "foldE (insert_so_item (so_id so) now) its
      (d\<lparr>so_items := delete_rows (\<lambda>x. soi_order x = so_id so) (so_items d)\<rparr>) = Inr d'"
    by (simp add: so_write_items_def)
  show ?thesis
    using inserted_lines_of_others [OF f assms(2)] insert_so_items(2) [OF f] assms(2)
      filter_order_delete [of k "\<lambda>_. True" "so_id so" "so_items d"]
    by (simp add: same_order_def)
qed (use assms(1) in \<open>simp_all add: so_write_items_def same_order_def\<close>)

lemma so_update_others:
  assumes "so_update u now partial q pk data d = Inr oc" "get_so k d = Some so" "wf_sales d"
    "pk = k \<Longrightarrow> so_status so = COMPLETED"
  shows "same_order k d (odb oc)"
proof -
  from assms(1) obtain so' where so': "get_row so_id pk (so_queryset q d) = Some so'"
    by (auto simp: so_update_def bind_elims)
  note pk = so_queryset_get [OF assms(3) so']
  show ?thesis
  proof (cases "so_status so' = CREATED")
    case False
    with assms(1) so' show ?thesis by (auto simp: so_update_def same_order_def)
  next
    case True
    with assms(2,4) pk(1) have ne: "k \<noteq> so_id so'" using pk(2) by auto
    from assms(1) so' True obtain data' e where e: "save_so now (so_write_customer data' so') d = Inr e"
      "so_write_items now data' so' e = Inr (odb oc)"
      by (auto simp: so_update_def bind_elims)
    have id: "so_id (so_write_customer data' so') = so_id so'" by (simp add: so_write_customer_def)
    have "same_order k d e"
      using e(1) ne id get_row_replace [of so_id "(so_write_customer data' so')\<lparr>so_updated_at := now\<rparr>"
        "so_id so'" k "sales_orders d"]
      by (auto simp: save_so_def bind_elims same_order_def)
    with so_write_items_others [OF e(2) ne] show ?thesis by (simp add: same_order_def)
  qed
qed

lemma so_destroy_others:
  assumes "so_destroy q pk d = Inr oc" "pk \<noteq> k" "wf_sales d"
  shows "same_order k d (odb oc)"
proof -
  from assms(1) obtain so where so: "get_row so_id pk (so_queryset q d) = Some so"
    by (auto simp: so_destroy_def bind_elims)
  have id: "so_id so = pk" by (rule so_queryset_get(2) [OF assms(3) so])
  have "get_row so_id k (delete_rows (\<lambda>x. so_id x = pk) (sales_orders d)) = get_so k d"
    using get_row_delete [of so_id "sales_orders d" k "\<lambda>x. so_id x = pk"] assms(2,3)
    by (auto simp: wf_sales_def dest: get_row_SomeD(2) split: option.splits)
  with assms(1,2) so id filter_order_delete [of k "\<lambda>_. True" pk "so_items d"]
  show ?thesis by (auto simp: so_destroy_def bind_elims same_order_def)
qed

lemma complete_others:
  assumes "complete u now drawn pk d = Inr oc" "get_so k d = Some so" "pk = k \<Longrightarrow> so_status so = COMPLETED"
  shows "same_order k d (odb oc)"
  using assms(1)
proof (cases rule: complete_cases)
  case (sold so' by_item d1)
  with assms(2,3) have "pk \<noteq> k" by auto
  with finish_complete_Inr(7,10) [OF sold(6)] deduct_lines_frame(3,4) [OF sold(5)] sold(2)
  show ?thesis by (simp add: same_order_def get_row_update)
qed (simp_all add: same_order_def)

lemma completed_order_is_final_facts:
  assumes "view_of u now r d = Inr oc" "wf_sales d" "get_so k d = Some so" "so_status so = COMPLETED"
    and "\<And>q. r \<noteq> DestroySO q k"
  shows "get_so k (odb oc) = Some so" and "items_of_so k (odb oc) = items_of_so k d"
proof -
  have "same_order k d (odb oc)"
  proof (cases r)
    case (CreateSO data)
    with assms show ?thesis using so_create_others [of u now data d oc k so] by simp
  next
    case (UpdateSO partial q pk data)
    with assms show ?thesis using so_update_others [of u now partial q pk data d oc k so] by simp
  next
    case (DestroySO q pk)
    with assms show ?thesis using so_destroy_others [of q pk d oc k] by auto
  next
    case (Complete drawn pk)
    with assms show ?thesis using complete_others [of u now drawn pk d oc k so] by simp
  qed (use assms(1) in \<open>auto intro: same_sales_order po_requests_keep_sales po_update_keeps_sales
        return_requests_keep_sales invoice_keeps_sales\<close>)
  with assms(3) show "get_so k (odb oc) = Some so" "items_of_so k (odb oc) = items_of_so k d"
    by (simp_all add: same_order_def)
qed

text \<open>C14. A completed sales order is final: whatever the request, other than its deletion, the row
  of a completed order and its lines (products, quantities, prices) are the same after it.\<close>
theorem completed_order_is_final:
  assumes "view_of u now r d = Inr oc" "wf_sales d" "get_so k d = Some so" "so_status so = COMPLETED"
    and "\<And>q. r \<noteq> DestroySO q k"
  shows "get_so k (odb oc) = Some so \<and> items_of_so k (odb oc) = items_of_so k d"
  using completed_order_is_final_facts [OF assms] by simp

theorem completed_order_is_final_witness:
  "\<exists>oc. view_of sample_employee 5 (Complete 200 50) sample_db = Inr oc
     \<and> get_so 70 (odb oc) = get_so 70 sample_db \<and> items_of_so 70 (odb oc) = [sample_so_item 71 70 21 2]"
proof -
  obtain oc where oc: "view_of sample_employee 5 (Complete 200 50) sample_db = Inr oc"
    by (cases "view_of sample_employee 5 (Complete 200 50) sample_db") (simp_all, code_simp)
  have so: "get_so 70 sample_db = Some (sample_so 70 COMPLETED (Some ''INV-0''))"
    "so_status (sample_so 70 COMPLETED (Some ''INV-0'')) = COMPLETED"
    "items_of_so 70 sample_db = [sample_so_item 71 70 21 2]" "wf_sales sample_db" by code_simp+
  from completed_order_is_final [OF oc so(4,1,2)] oc so(1,3) show ?thesis by simp
qed

subsection \<open>The lines an order is given\<close>

definition priced_lines :: "db \<Rightarrow> so_item_input list \<Rightarrow> so_item list \<Rightarrow> bool" where
  "priced_lines d its lines \<longleftrightarrow>
     map (\<lambda>x. (Given (soi_product x), Given (soi_quantity x))) lines = map (\<lambda>it. (sii_product it, sii_quantity it)) its
   \<and> (\<forall>x \<in> set lines. \<exists>p. get_product (soi_product x) d = Some p \<and> soi_unit_price x = p_selling_price p)"

lemma insert_priced_lines:
  assumes "foldE (insert_so_item oid now) its d = Inr d'"
  shows "\<exists>new. so_items d' = so_items d @ new \<and> priced_lines d its new \<and> (\<forall>x \<in> set new. soi_order x = oid)"
  using assms
proof (induction its arbitrary: d)
  case Nil
  then show ?case by (simp add: priced_lines_def)
next
  case (Cons it its)
  then obtain e where e: "insert_so_item oid now it d = Inr e"
    "foldE (insert_so_item oid now) its e = Inr d'" by (auto simp: bind_elims)
  from e(1) obtain x p where x: "so_items e = so_items d @ [x]" "soi_order x = oid" "products e = products d"
    "sii_product it = Given (soi_product x)" "sii_quantity it = Given (soi_quantity x)"
    "get_product (soi_product x) d = Some p" "soi_unit_price x = p_selling_price p"
    by (fastforce simp: insert_so_item_def bind_elims)
  from Cons.IH [OF e(2)] obtain new where "so_items d' = so_items e @ new" "priced_lines e its new"
    "\<forall>x \<in> set new. soi_order x = oid" by blast
  with x show ?case by (intro exI [of _ "x # new"]) (simp add: priced_lines_def)
qed

lemma so_update_written:
  assumes "so_update u now partial q pk data d = Inr oc" "status_code (rsp oc) = 200" "wf_sales d"
  obtains so e where "get_so pk d = Some so" "so_id so = pk" "so_status so = CREATED" "so_validate d partial data = Inr data"
    "save_so now (so_write_customer data so) d = Inr e" "so_write_items now data so e = Inr (odb oc)"
proof -
  from assms(1) obtain so where so: "get_row so_id pk (so_queryset q d) = Some so"
    by (auto simp: so_update_def bind_elims)
  note pk = so_queryset_get [OF assms(3) so]
  have st: "so_status so = CREATED"
    using assms(1,2) so by (auto simp: so_update_def split: if_splits)
  with assms(1) so obtain data' e where v: "so_validate d partial data = Inr data'"
    "save_so now (so_write_customer data' so) d = Inr e" "so_write_items now data' so e = Inr (odb oc)"
    by (auto simp: so_update_def bind_elims)
  have "data' = data" by (rule so_validate_items(1) [OF v(1)])
  with that [OF pk(1,2) st] v show thesis by simp
qed

text \<open>An accepted update that carries items replaces the lines of its order by exactly the
  items of the request, in their order, each priced at its product's selling price of the
  moment; an update without items keeps the lines.\<close>
theorem so_update_replaces_lines:
  assumes "so_update u now partial q pk data d = Inr oc" "status_code (rsp oc) = 200" "wf_sales d"
  shows "case soin_items data of Given its \<Rightarrow> priced_lines d its (items_of_so pk (odb oc))
    | _ \<Rightarrow> items_of_so pk (odb oc) = items_of_so pk d"
proof -
  obtain so e where w: "get_so pk d = Some so" "so_id so = pk"
    "save_so now (so_write_customer data so) d = Inr e" "so_write_items now data so e = Inr (odb oc)"
    by (rule so_update_written [OF assms])
  have e: "so_items e = so_items d" "products e = products d"
    using w(3) by (auto simp: save_so_def bind_elims)
  show ?thesis
  proof (cases "soin_items data")
    case (Given its)
    let ?e = "e\<lparr>so_items := delete_rows (\<lambda>x. soi_order x = pk) (so_items e)\<rparr>"
    from w Given have f: "foldE (insert_so_item pk now) its ?e = Inr (odb oc)"
      by (simp add: so_write_items_def)
    from insert_priced_lines [OF f] obtain new where new: "so_items (odb oc) = so_items ?e @ new"
      "priced_lines ?e its new" "\<forall>x \<in> set new. soi_order x = pk" by blast
    have "items_of_so pk (odb oc) = new"
      using new(1,3) filter_order_delete [of pk "\<lambda>_. True" pk "so_items e"] by (simp add: filter_id_conv)
    with new(2) Given e show ?thesis by (simp add: priced_lines_def)
  qed (use w(4) e in \<open>simp_all add: so_write_items_def\<close>)
qed

definition sample_order_input :: so_input where
  "sample_order_input = \<lparr>soin_customer_name = Given (Some ''Ann''), soin_customer_phone = Absent,
     soin_items = Given [\<lparr>sii_product = Given 21, sii_quantity = Given 2\<rparr>]\<rparr>"

theorem so_update_replaces_lines_witness:
  "\<exists>oc. so_update sample_employee 5 True no_query 50 sample_order_input sample_db = Inr oc
     \<and> priced_lines sample_db [\<lparr>sii_product = Given 21, sii_quantity = Given 2\<rparr>] (items_of_so 50 (odb oc))"
proof -
  let ?run = "so_update sample_employee 5 True no_query 50 sample_order_input sample_db"
  obtain oc where oc: "?run = Inr oc" by (cases ?run) (simp_all, code_simp)
  have "case ?run of Inr oc \<Rightarrow> status_code (rsp oc) = 200 | _ \<Rightarrow> False" by code_simp
  with oc have ok: "status_code (rsp oc) = 200" by simp
  have wf: "wf_sales sample_db" by code_simp
  from so_update_replaces_lines [OF oc ok wf] oc show ?thesis by (simp add: sample_order_input_def)
qed

text \<open>A PATCH of an open sales order whose items pass the nested serializer, but one of them
  leaves out \<open>product_id\<close>, is answered by a server error: the partial nested serializer does
  not report the missing field and \<open>validate_items\<close> looks it up by key.\<close>
theorem patch_without_product_is_a_server_error:
  assumes "get_row so_id pk (so_queryset q (w_db w)) = Some so" "so_status so = CREATED"
    and "soin_items data = Given its" "\<forall>it \<in> set its. so_item_errors True it = []"
    and "it \<in> set its" "sii_product it = Absent"
  shows "serve u now (UpdateSO True q pk data) w = (Response 500 (Detail ''Server Error''), w)"
proof -
  have given: "sii_product x = Absent \<or> (\<exists>i. sii_product x = Given i)" if "x \<in> set its" for x
    using that assms(4) by (auto simp: so_item_errors_def field_errors_Nil)
  have "mapE (\<lambda>x. field_get ''product_id'' (sii_product x)) xs = Inl (KeyError ''product_id'')"
    if "it \<in> set xs" "set xs \<subseteq> set its" for xs
    using that
  proof (induction xs)
    case (Cons x xs)
    then have "x \<in> set its" by simp
    from given [OF this] show ?case
    proof
      assume "sii_product x = Absent"
      then show ?thesis by (simp add: field_get_def)
    next
      assume "\<exists>i. sii_product x = Given i"
      with Cons assms(6) show ?thesis by (auto simp: field_get_def)
    qed
  qed simp
  from this [of its] assms(5) have "validate_items (w_db w) sii_product its = Inl (KeyError ''product_id'')"
    by (auto simp: validate_items_def)
  with assms(3,4) have "so_validate (w_db w) True data = Inl (KeyError ''product_id'')"
    by (simp add: so_validate_def items_errors_def Let_def)
  with assms(1,2) show ?thesis by (simp add: serve_def run_view_def so_update_def)
qed

theorem patch_without_product_is_a_server_error_witness:
  "serve sample_employee 5 (UpdateSO True no_query 50
     (sample_order_input\<lparr>soin_items := Given [\<lparr>sii_product = Absent, sii_quantity = Given 2\<rparr>]\<rparr>)) (sample_world sample_db)
   = (Response 500 (Detail ''Server Error''), sample_world sample_db)"
proof -
  let ?it = "\<lparr>sii_product = Absent, sii_quantity = Given 2\<rparr>"
  have so: "get_row so_id 50 (so_queryset no_query (w_db (sample_world sample_db))) = Some (sample_so 50 CREATED None)"
    "so_status (sample_so 50 CREATED None) = CREATED" by code_simp+
  have it: "\<forall>it \<in> set [?it]. so_item_errors True it = []" "?it \<in> set [?it]" "sii_product ?it = Absent"
    by code_simp+
  have data: "soin_items (sample_order_input\<lparr>soin_items := Given [?it]\<rparr>) = Given [?it]" by simp
  show ?thesis by (rule patch_without_product_is_a_server_error [OF so data it])
qed

lemma so_create_effect_facts:
  assumes "so_create u now data d = Inr oc" "soin_items data = Given its" "wf_sales d"
  shows "\<exists>so. get_so (next_uuid d) (odb oc) = Some so \<and> so_status so = CREATED
       \<and> so_created_by so = Some (u_id u) \<and> so_invoice_number so = None"
    and "priced_lines d its (items_of_so (next_uuid d) (odb oc))"
    and "levels (odb oc) = levels d"
proof -
  from assms(1) obtain data' its' where v: "so_validate d False data = Inr data'" "soin_items data' = Given its'"
    and f: "foldE (insert_so_item (so_id (new_so u now data' d)) now) its'
      (draw_uuid (d\<lparr>sales_orders := sales_orders d @ [new_so u now data' d]\<rparr>)) = Inr (odb oc)"
    by (auto simp: so_create_def bind_elims Let_def)
  have same: "data' = data" "its' = its" using so_validate_items(1) [OF v(1)] v(2) assms(2) by simp_all
  let ?e = "draw_uuid (d\<lparr>sales_orders := sales_orders d @ [new_so u now data d]\<rparr>)"
  have f: "foldE (insert_so_item (next_uuid d) now) its ?e = Inr (odb oc)"
    using f same by (simp add: new_so_def)
  have "\<forall>i \<in> set (map so_id (sales_orders d)). i < next_uuid d"
    using assms(3) unfolding wf_sales_def by (elim conjE)
  then have "get_so (next_uuid d) d = None" by (auto simp: get_row_None)
  then show "\<exists>so. get_so (next_uuid d) (odb oc) = Some so \<and> so_status so = CREATED
       \<and> so_created_by so = Some (u_id u) \<and> so_invoice_number so = None"
    using insert_so_items(2) [OF f] by (simp add: get_row_append get_row_Cons new_so_def)
  from insert_priced_lines [OF f] obtain new where new: "so_items (odb oc) = so_items d @ new"
    "priced_lines ?e its new" "\<forall>x \<in> set new. soi_order x = next_uuid d" by auto
  have "items_of_so (next_uuid d) d = []" using assms(3) by (auto simp: wf_sales_def filter_empty_conv)
  with new show "priced_lines d its (items_of_so (next_uuid d) (odb oc))"
    by (simp add: filter_id_conv priced_lines_def)
  show "levels (odb oc) = levels d"
    using levels_cong(1,2) [of "odb oc" d] insert_so_items(2) [OF f] by (simp add: levels_def)
qed

text \<open>A new sales order is open, belongs to the user who sent it, has exactly the items of the
  request as its lines at the products' selling prices of the moment, and creating it moves no
  stock.\<close>
theorem so_create_effect:
  assumes "so_create u now data d = Inr oc" "soin_items data = Given its" "wf_sales d"
  shows "(\<exists>so. get_so (next_uuid d) (odb oc) = Some so \<and> so_status so = CREATED
       \<and> so_created_by so = Some (u_id u) \<and> so_invoice_number so = None)
    \<and> priced_lines d its (items_of_so (next_uuid d) (odb oc)) \<and> levels (odb oc) = levels d"
  by (intro conjI so_create_effect_facts [OF assms])

theorem so_create_effect_witness:
  "\<exists>oc. so_create sample_employee 5 sample_order_input sample_db = Inr oc
     \<and> priced_lines sample_db [\<lparr>sii_product = Given 21, sii_quantity = Given 2\<rparr>] (items_of_so 100 (odb oc))
     \<and> levels (odb oc) = levels sample_db"
proof -
  let ?run = "so_create sample_employee 5 sample_order_input sample_db"
  obtain oc where oc: "?run = Inr oc" by (cases ?run) (simp_all, code_simp)
  have its: "soin_items sample_order_input = Given [\<lparr>sii_product = Given 21, sii_quantity = Given 2\<rparr>]"
    by (simp add: sample_order_input_def)
  have d: "wf_sales sample_db" "next_uuid sample_db = 100" by code_simp+
  from so_create_effect [OF oc its d(1)] oc d(2) show ?thesis by simp
qed

end
