(* ===== verification/Accounts.thy ===== *)
theory Accounts
  imports Inputs Sample
begin

section \<open>Accounts\<close>

text \<open>
  \<open>apps/accounts\<close>: the user manager, the serializers' checks, the views that register, create,
  change, promote, disable and enable users, and the gate of permission classes in front of
  them. Django's password hashing and validation and its e-mail normalisation are not part of
  the repository, nor are the tokens of SimpleJWT: they are the fields of a \<open>password_rules\<close> record the
  operations take. \<open>identify\<close> finds the active user an address and a password belong to; \<open>issue_tokens\<close> makes
  the refresh and access token of a login, \<open>rotate_token\<close> those a refresh token is exchanged for, if it is
  good at that moment, and \<open>revoke_token\<close> tells whether it is when it is handed in.
\<close>

subsection \<open>Roles\<close>

text \<open>The roles in the order of their rights.\<close>

instantiation role_name :: linorder
begin

fun rank :: "role_name \<Rightarrow> nat" where
  "rank EMPLOYEE = 0"
| "rank MANAGER = 1"
| "rank ADMIN = 2"

definition less_eq_role_name :: "role_name \<Rightarrow> role_name \<Rightarrow> bool" where
  "less_eq_role_name a b \<longleftrightarrow> rank a \<le> rank b"

definition less_role_name :: "role_name \<Rightarrow> role_name \<Rightarrow> bool" where
  "less_role_name a b \<longleftrightarrow> rank a < rank b"

instance
proof
  show "a = b" if "a \<le> b" "b \<le> a" for a b :: role_name
    using that by (cases a; cases b) (simp_all add: less_eq_role_name_def)
qed (auto simp: less_eq_role_name_def less_role_name_def)

end

subsection \<open>Permission classes\<close>

datatype permission = AllowAny | IsAuthenticated | IsAdmin | IsManagerOrAdmin | IsAnyRole

text \<open>\<open>request.user\<close>: \<open>None\<close> is the anonymous user, \<open>Some u\<close> an authenticated one.\<close>

fun has_permission :: "permission \<Rightarrow> user option \<Rightarrow> bool" where
  "has_permission AllowAny _ = True"
| "has_permission _ None = False"
| "has_permission IsAuthenticated (Some u) = True"
| "has_permission IsAdmin (Some u) = (u_role u = ADMIN)"
| "has_permission IsManagerOrAdmin (Some u) = (u_role u \<in> {ADMIN, MANAGER})"
| "has_permission IsAnyRole (Some u) = True"

lemma has_permission_mono:
  "has_permission p (Some u) \<Longrightarrow> u_role u \<le> u_role v \<Longrightarrow> has_permission p (Some v)"
  by (cases p; cases "u_role u"; cases "u_role v") (simp_all add: less_eq_role_name_def)

text \<open>The answer to a request whose permission check fails.\<close>

definition denied :: "user option \<Rightarrow> response" where
  "denied who = (case who of
     None \<Rightarrow> Response 401 (Detail ''Authentication credentials were not provided.'')
   | Some _ \<Rightarrow> error_response PermissionDenied)"

subsection \<open>The user manager\<close>

record password_rules =
  hash_password :: "string \<Rightarrow> string"
  password_errors :: "string \<Rightarrow> field_error list"
  normalize_email :: "string \<Rightarrow> string"
  identify :: "string \<Rightarrow> string \<Rightarrow> db \<Rightarrow> uuid option"
  issue_tokens :: "uuid \<Rightarrow> time \<Rightarrow> string \<times> string"
  rotate_token :: "string \<Rightarrow> time \<Rightarrow> (string \<times> string) option"
  revoke_token :: "string \<Rightarrow> time \<Rightarrow> bool"

record user_fields =
  uf_full_name :: string
  uf_role :: role_name
  uf_is_staff :: bool
  uf_is_superuser :: bool
  uf_created_by :: "uuid option"

text \<open>The model's defaults, as far as the caller does not override them.\<close>

definition default_fields :: "string \<Rightarrow> user_fields" where
  "default_fields full_name = \<lparr>uf_full_name = full_name, uf_role = EMPLOYEE, uf_is_staff = False,
     uf_is_superuser = False, uf_created_by = None\<rparr>"

definition email_taken :: "string \<Rightarrow> db \<Rightarrow> bool" where
  "email_taken email d \<longleftrightarrow> (\<exists>u \<in> set (users d). u_email u = email)"

definition create_user ::
  "password_rules \<Rightarrow> time \<Rightarrow> string \<Rightarrow> string \<Rightarrow> user_fields \<Rightarrow> db \<Rightarrow> exn + user \<times> db" where
  "create_user rules now email password f d =
     (if email = [] then Inl (ValueError ''Users must have an email address'')
      else
        let email = normalize_email rules email;
            u = \<lparr>u_id = next_uuid d, u_email = email, u_password = hash_password rules password,
                 u_last_login = None, u_full_name = uf_full_name f, u_role = uf_role f, u_is_active = True,
                 u_is_staff = uf_is_staff f, u_is_superuser = uf_is_superuser f,
                 u_created_at = now, u_updated_at = now, u_created_by = uf_created_by f\<rparr>
        in bindE (guardE (\<not> email_taken email d) (IntegrityError ''email'')) (\<lambda>_.
             Inr (u, draw_uuid (d\<lparr>users := users d @ [u]\<rparr>))))"

text \<open>\<open>create_superuser\<close>: the extra fields the caller gives, over these defaults.\<close>

record superuser_options =
  su_role :: "role_name option"
  su_is_staff :: "bool option"
  su_is_superuser :: "bool option"
  su_full_name :: "string option"

definition or_default :: "'a \<Rightarrow> 'a option \<Rightarrow> 'a" where
  "or_default x v = (case v of None \<Rightarrow> x | Some y \<Rightarrow> y)"

definition create_superuser ::
  "password_rules \<Rightarrow> time \<Rightarrow> string \<Rightarrow> string \<Rightarrow> superuser_options \<Rightarrow> db \<Rightarrow> exn + user \<times> db" where
  "create_superuser rules now email password extra d =
     create_user rules now email password
       \<lparr>uf_full_name = or_default ''Admin'' (su_full_name extra), uf_role = or_default ADMIN (su_role extra),
        uf_is_staff = or_default True (su_is_staff extra), uf_is_superuser = or_default True (su_is_superuser extra),
        uf_created_by = None\<rparr> d"

subsection \<open>Serializers\<close>

definition user_body :: "user \<Rightarrow> body" where
  "user_body u = UserBody (u_id u) (u_email u) (u_full_name u) (u_role u) (u_is_active u) (u_created_at u)"

text \<open>
  \<open>EmailField(unique=True)\<close>: the uniqueness check compares the text of the request with the
  stored addresses (for an update, those of the other users). \<open>Malformed\<close> covers text that is
  no address.
\<close>

definition email_errors :: "uuid option \<Rightarrow> db \<Rightarrow> string \<Rightarrow> field_error list" where
  "email_errors self d email =
     (if email = [] then [BadValue ''email'']
      else (if length email > 254 then [OutOfRange ''email''] else [])
         @ (if \<exists>u \<in> set (users d). u_email u = email \<and> Some (u_id u) \<noteq> self then [NotUnique ''email''] else []))"

definition full_name_errors :: "string \<Rightarrow> field_error list" where
  "full_name_errors s = (if s = [] then [BadValue ''full_name''] else if length s > 255 then [OutOfRange ''full_name''] else [])"

definition new_password_errors :: "password_rules \<Rightarrow> string \<Rightarrow> field_error list" where
  "new_password_errors rules s =
     (if s = [] then [BadValue ''password'']
      else (if length s < 8 then [TooSmall ''password''] else []) @ password_errors rules s)"

record register_input =
  rg_email :: "string field"
  rg_password :: "string field"
  rg_full_name :: "string field"

record user_create_input = register_input +
  uc_role :: "role_name field"

record user_update_input =
  uu_full_name :: "string field"
  uu_email :: "string field"

definition register_errors :: "password_rules \<Rightarrow> db \<Rightarrow> 'a register_input_scheme \<Rightarrow> field_error list" where
  "register_errors rules d data =
     field_errors False ''email'' (email_errors None d) (rg_email data)
   @ field_errors False ''password'' (new_password_errors rules) (rg_password data)
   @ field_errors False ''full_name'' full_name_errors (rg_full_name data)"

definition user_update_errors :: "bool \<Rightarrow> uuid \<Rightarrow> db \<Rightarrow> user_update_input \<Rightarrow> field_error list" where
  "user_update_errors partial pk d data =
     field_errors partial ''full_name'' full_name_errors (uu_full_name data)
   @ field_errors partial ''email'' (email_errors (Some pk) d) (uu_email data)"

definition checked :: "field_error list \<Rightarrow> exn + unit" where
  "checked es = guardE (es = []) (ValidationError es)"

lemma checked_eq [bind_elims]: "checked es = Inr u \<longleftrightarrow> es = []"
  by (simp add: checked_def bind_elims)

subsection \<open>Views\<close>

definition register :: "password_rules \<Rightarrow> time \<Rightarrow> register_input \<Rightarrow> view" where
  "register rules now data d =
     bindE (checked (register_errors rules d data)) (\<lambda>_.
     bindE (field_get ''email'' (rg_email data)) (\<lambda>email.
     bindE (field_get ''password'' (rg_password data)) (\<lambda>password.
     bindE (field_get ''full_name'' (rg_full_name data)) (\<lambda>full_name.
     bindE (create_user rules now email password ((default_fields full_name)\<lparr>uf_role := EMPLOYEE\<rparr>) d) (\<lambda>(u, d).
       Inr (answer (Response 201 (user_body u)) d))))))"

definition user_create :: "password_rules \<Rightarrow> time \<Rightarrow> user \<Rightarrow> user_create_input \<Rightarrow> view" where
  "user_create rules now requester data d =
     bindE (checked (register_errors rules d data @ field_errors True ''role'' (\<lambda>_. []) (uc_role data))) (\<lambda>_.
     bindE (field_get ''email'' (rg_email data)) (\<lambda>email.
     bindE (field_get ''password'' (rg_password data)) (\<lambda>password.
     bindE (field_get ''full_name'' (rg_full_name data)) (\<lambda>full_name.
     let f = (default_fields full_name)\<lparr>uf_created_by := Some (u_id requester)\<rparr>;
         f = (case uc_role data of Given r \<Rightarrow> f\<lparr>uf_role := r\<rparr> | _ \<Rightarrow> f)
     in bindE (create_user rules now email password f d) (\<lambda>(u, d).
       Inr (answer (Response 201 (user_body u)) d))))))"

definition write_user :: "user \<Rightarrow> db \<Rightarrow> db" where
  "write_user u d = d\<lparr>users := update_row u_id (u_id u) (\<lambda>_. u) (users d)\<rparr>"

text \<open>The default update of the serializer saves every column of the instance.\<close>

definition user_update :: "time \<Rightarrow> bool \<Rightarrow> uuid \<Rightarrow> user_update_input \<Rightarrow> view" where
  "user_update now partial pk data d =
     bindE (some_or Http404 (get_user pk d)) (\<lambda>u.
     bindE (checked (user_update_errors partial pk d data)) (\<lambda>_.
       let u = (case uu_full_name data of Given s \<Rightarrow> u\<lparr>u_full_name := s\<rparr> | _ \<Rightarrow> u);
           u = (case uu_email data of Given s \<Rightarrow> u\<lparr>u_email := s\<rparr> | _ \<Rightarrow> u);
           u = u\<lparr>u_updated_at := now\<rparr>
       in Inr (answer (Response 200 (user_body u)) (write_user u d))))"

definition assign_role :: "uuid \<Rightarrow> role_name field \<Rightarrow> view" where
  "assign_role pk role d =
     bindE (some_or Http404 (get_user pk d)) (\<lambda>u.
     bindE (checked (field_errors False ''role'' (\<lambda>_. []) role)) (\<lambda>_.
     bindE (field_get ''role'' role) (\<lambda>r.
       let u = u\<lparr>u_role := r\<rparr>
       in Inr (answer (Response 200 (user_body u))
            (d\<lparr>users := update_row u_id (u_id u) (\<lambda>x. x\<lparr>u_role := r\<rparr>) (users d)\<rparr>)))))"

definition reset_password :: "password_rules \<Rightarrow> uuid \<Rightarrow> string field \<Rightarrow> view" where
  "reset_password rules pk new_password d =
     bindE (some_or Http404 (get_user pk d)) (\<lambda>u.
     bindE (checked (field_errors False ''new_password'' (new_password_errors rules) new_password)) (\<lambda>_.
     bindE (field_get ''new_password'' new_password) (\<lambda>s.
       Inr (answer (Response 200 (user_body u))
         (d\<lparr>users := update_row u_id (u_id u) (\<lambda>x. x\<lparr>u_password := hash_password rules s\<rparr>) (users d)\<rparr>)))))"

definition set_active :: "bool \<Rightarrow> uuid \<Rightarrow> view" where
  "set_active b pk d =
     bindE (some_or Http404 (get_user pk d)) (\<lambda>u.
       let u = u\<lparr>u_is_active := b\<rparr>
       in Inr (answer (Response 200 (user_body u))
            (d\<lparr>users := update_row u_id (u_id u) (\<lambda>x. x\<lparr>u_is_active := b\<rparr>) (users d)\<rparr>)))"

definition enable :: "uuid \<Rightarrow> view" where
  "enable pk = set_active True pk"

definition user_destroy :: "uuid \<Rightarrow> view" where
  "user_destroy pk = set_active False pk"

definition me :: "user \<Rightarrow> view" where
  "me u d = Inr (answer (Response 200 (user_body u)) d)"

subsection \<open>The requests of the component, behind their permission checks\<close>

datatype account_request =
    Register register_input
  | Me
  | CreateUser user_create_input
  | UpdateUser bool uuid user_update_input
  | AssignRole uuid "role_name field"
  | ResetPassword uuid "string field"
  | Enable uuid
  | DisableUser uuid

fun account_permission :: "account_request \<Rightarrow> permission" where
  "account_permission (Register _) = AllowAny"
| "account_permission Me = IsAuthenticated"
| "account_permission _ = IsAdmin"

fun account_view :: "password_rules \<Rightarrow> time \<Rightarrow> user option \<Rightarrow> account_request \<Rightarrow> view" where
  "account_view rules now who (Register data) = register rules now data"
| "account_view rules now (Some u) Me = me u"
| "account_view rules now (Some u) (CreateUser data) = user_create rules now u data"
| "account_view rules now who (UpdateUser partial pk data) = user_update now partial pk data"
| "account_view rules now who (AssignRole pk role) = assign_role pk role"
| "account_view rules now who (ResetPassword pk pw) = reset_password rules pk pw"
| "account_view rules now who (Enable pk) = enable pk"
| "account_view rules now who (DisableUser pk) = user_destroy pk"
| "account_view rules now None _ = (\<lambda>d. Inl PermissionDenied)"

definition serve_account ::
  "password_rules \<Rightarrow> time \<Rightarrow> user option \<Rightarrow> account_request \<Rightarrow> world \<Rightarrow> response \<times> world" where
  "serve_account rules now who r w =
     (if has_permission (account_permission r) who then run_view (account_view rules now who r) w
      else (denied who, w))"

subsection \<open>Unique users\<close>

definition wf_users :: "db \<Rightarrow> bool" where
  "wf_users d \<longleftrightarrow> distinct (map u_id (users d)) \<and> (\<forall>u \<in> set (users d). u_id u < next_uuid d)
     \<and> distinct (map u_email (users d))"

lemma create_user_Inr:
  "create_user rules now email password f d = Inr (u, d') \<longleftrightarrow> email \<noteq> []
     \<and> \<not> email_taken (normalize_email rules email) d
     \<and> u = \<lparr>u_id = next_uuid d, u_email = normalize_email rules email, u_password = hash_password rules password,
                 u_last_login = None, u_full_name = uf_full_name f, u_role = uf_role f, u_is_active = True,
                 u_is_staff = uf_is_staff f, u_is_superuser = uf_is_superuser f,
                 u_created_at = now, u_updated_at = now, u_created_by = uf_created_by f\<rparr>
     \<and> d' = draw_uuid (d\<lparr>users := users d @ [u]\<rparr>)"
  by (auto simp: create_user_def bind_elims Let_def split: if_splits)

lemma create_user_wf:
  "create_user rules now email password f d = Inr (u, d') \<Longrightarrow> wf_users d \<Longrightarrow> wf_users d'"
  by (auto simp: create_user_Inr wf_users_def email_taken_def less_SucI)

text \<open>A write of one user that keeps the key and does not take another user's address.\<close>

lemma update_user_wf:
  assumes "wf_users d" "\<And>x. u_id (f x) = u_id x"
    and "\<And>x. x \<in> set (users d) \<Longrightarrow> u_id x = pk \<Longrightarrow> u_email (f x) = u_email x
      \<or> (\<forall>y \<in> set (users d). u_email y = u_email (f x) \<longrightarrow> u_id y = pk)"
  shows "wf_users (d\<lparr>users := update_row u_id pk f (users d)\<rparr>)"
proof -
  have ids: "map u_id (update_row u_id pk f (users d)) = map u_id (users d)"
    using assms(2) by (rule update_row_keys)
  have "distinct (map u_id xs) \<Longrightarrow> distinct (map u_email xs) \<Longrightarrow> set xs \<subseteq> set (users d) \<Longrightarrow>
      distinct (map u_email (update_row u_id pk f xs))" for xs
  proof (induction xs)
    case (Cons x xs)
    have tail: "y \<in> set xs \<Longrightarrow> u_id y \<noteq> u_id x" "y \<in> set xs \<Longrightarrow> u_email y \<noteq> u_email x" for y
      using Cons.prems(1,2) by (auto simp: image_iff)
    show ?case
    proof (cases "u_id x = pk")
      case True
      with Cons.prems(1) have "pk \<notin> u_id ` set xs" by simp
      then have "update_row u_id pk f xs = xs" by (rule update_row_absent)
      moreover have "u_email (f x) \<notin> u_email ` set xs"
      proof
        assume "u_email (f x) \<in> u_email ` set xs"
        then obtain y where y: "y \<in> set xs" "u_email y = u_email (f x)" by auto
        with assms(3) [of x] True Cons.prems(3) have "u_email (f x) = u_email x \<or> u_id y = pk" by auto
        with y tail(1) [OF y(1)] tail(2) [OF y(1)] True show False by auto
      qed
      ultimately show ?thesis using True Cons.prems(2) by (simp add: update_row_Cons)
    next
      case False
      have "u_email x \<notin> u_email ` set (update_row u_id pk f xs)"
      proof
        assume "u_email x \<in> u_email ` set (update_row u_id pk f xs)"
        then obtain y where y: "y \<in> set xs" "u_email x = u_email (if u_id y = pk then f y else y)"
          by (auto dest!: set_update_rowD)
        with tail(2) have "u_id y = pk" "u_email x = u_email (f y)" by (auto split: if_splits)
        from y(1) Cons.prems(3) have "y \<in> set (users d)" "x \<in> set (users d)" by auto
        with assms(3) [of y] \<open>u_id y = pk\<close> \<open>u_email x = u_email (f y)\<close> tail(2) [OF y(1)] False
        show False by metis
      qed
      with False Cons show ?thesis by (simp add: update_row_Cons)
    qed
  qed simp
  from this [of "users d"] have "distinct (map u_email (update_row u_id pk f (users d)))"
    using assms(1) by (simp add: wf_users_def)
  moreover have "\<forall>u \<in> set (update_row u_id pk f (users d)). u_id u < next_uuid d"
    using assms(1,2) by (auto simp: wf_users_def dest!: set_update_rowD)
  ultimately show ?thesis using assms(1) ids by (simp add: wf_users_def del: map_map)
qed

lemma update_column_wf:
  "wf_users d \<Longrightarrow> (\<And>x. u_id (f x) = u_id x) \<Longrightarrow> (\<And>x. u_email (f x) = u_email x) \<Longrightarrow>
   wf_users (d\<lparr>users := update_row u_id pk f (users d)\<rparr>)"
  by (rule update_user_wf) simp_all

lemma user_update_wf:
  assumes "user_update now partial pk data d = Inr oc" "wf_users d"
  shows "wf_users (odb oc)"
proof -
  from assms(1) obtain u where u: "get_user pk d = Some u" and ok: "user_update_errors partial pk d data = []"
    by (auto simp: user_update_def bind_elims)
  have id: "u_id u = pk" "u \<in> set (users d)" using get_row_SomeD [OF u] by simp_all
  let ?u = "(case uu_full_name data of Given s \<Rightarrow> u\<lparr>u_full_name := s\<rparr> | _ \<Rightarrow> u)"
  let ?v = "(case uu_email data of Given s \<Rightarrow> ?u\<lparr>u_email := s\<rparr> | _ \<Rightarrow> ?u)\<lparr>u_updated_at := now\<rparr>"
  have v: "u_id ?v = pk" "u_email ?v = (case uu_email data of Given s \<Rightarrow> s | _ \<Rightarrow> u_email u)"
    using id by (auto split: field.split)
  have "\<forall>y \<in> set (users d). u_email y = u_email ?v \<longrightarrow> u_id y = pk"
  proof (cases "uu_email data")
    case (Given s)
    with ok have "\<forall>y \<in> set (users d). u_email y = s \<longrightarrow> u_id y = pk"
      by (auto simp: user_update_errors_def field_errors_def email_errors_def split: if_splits)
    with v Given show ?thesis by simp
  next
    case Absent
    have "distinct (map u_email (users d))" using assms(2) by (simp add: wf_users_def)
    with v id Absent show ?thesis by (auto simp: distinct_map inj_on_def)
  next
    case Malformed
    have "distinct (map u_email (users d))" using assms(2) by (simp add: wf_users_def)
    with v id Malformed show ?thesis by (auto simp: distinct_map inj_on_def)
  qed
  note taken = this
  have same: "update_row u_id pk (\<lambda>_. ?v) (users d) = update_row u_id pk (\<lambda>x. if u_id x = pk then ?v else x) (users d)"
    by (simp add: update_row_def)
  have "wf_users (d\<lparr>users := update_row u_id pk (\<lambda>x. if u_id x = pk then ?v else x) (users d)\<rparr>)"
  proof (rule update_user_wf [OF assms(2)])
    show "u_id (if u_id x = pk then ?v else x) = u_id x" for x using v(1) by simp
    show "u_email (if u_id x = pk then ?v else x) = u_email x
        \<or> (\<forall>y \<in> set (users d). u_email y = u_email (if u_id x = pk then ?v else x) \<longrightarrow> u_id y = pk)"
      if "x \<in> set (users d)" "u_id x = pk" for x using taken that(2) by simp
  qed
  moreover have "odb oc = d\<lparr>users := update_row u_id pk (\<lambda>_. ?v) (users d)\<rparr>"
    using assms(1) u ok v(1) by (auto simp: user_update_def bind_elims write_user_def Let_def)
  ultimately show ?thesis by (simp add: same)
qed

lemma account_view_wf:
  assumes "account_view rules now who r d = Inr oc" "wf_users d"
  shows "wf_users (odb oc)"
  using assms
proof (cases "(rules, now, who, r)" rule: account_view.cases)
  case (4 rules' now' who' partial pk data)
  with assms user_update_wf show ?thesis by simp
qed (auto simp: register_def user_create_def me_def assign_role_def reset_password_def enable_def
    user_destroy_def set_active_def bind_elims Let_def intro: create_user_wf intro!: update_column_wf)

subsection \<open>The account endpoints as a machine\<close>

type_synonym account_event = "user option \<times> time \<times> account_request"

fun account_after :: "password_rules \<Rightarrow> account_event \<Rightarrow> world \<Rightarrow> world" where
  "account_after rules (who, now, r) w = snd (serve_account rules now who r w)"

lemma account_after_wf: "wf_users (w_db w) \<Longrightarrow> wf_users (w_db (account_after rules e w))"
proof (cases e)
  case (fields who now r)
  assume "wf_users (w_db w)"
  then have "wf_users (w_db (snd (run_view (account_view rules now who r) w)))"
    by (rule run_view_preserves [where P = wf_users]) (erule account_view_wf, fact)
  with fields \<open>wf_users (w_db w)\<close> show ?thesis by (simp add: serve_account_def)
qed

interpretation accounts: guarded_machine "account_after rules" "\<lambda>_. True" "\<lambda>w. wf_users (w_db w)" for rules
  by unfold_locales (rule account_after_wf)

text \<open>User ids and e-mail addresses stay unique through any sequence of account requests by
  anyone, whatever the password and address rules are.\<close>
theorem users_stay_unique:
  assumes "wf_users (w_db w)"
  shows "wf_users (w_db (fold (account_after rules) es w))"
  by (rule accounts.run_good [OF _ assms]) (simp add: list_all_iff)

definition sample_rules :: password_rules where
  "sample_rules = \<lparr>hash_password = (\<lambda>s. CHR ''#'' # s), password_errors = (\<lambda>_. []),
     normalize_email = map lower_char,
     identify = (\<lambda>email password d. map_option u_id (get_row u_email email (filter u_is_active (users d)))),
     issue_tokens = (\<lambda>i now. (''refresh'', ''access'')), rotate_token = (\<lambda>s now. Some (s, ''access'')), revoke_token = (\<lambda>s now. True)\<rparr>"

definition unique_db :: db where
  "unique_db = sample_db\<lparr>users := [sample_admin\<lparr>u_email := ''ann@inventra.io''\<rparr>, sample_employee\<lparr>u_email := ''eve@inventra.io''\<rparr>]\<rparr>"

definition sample_registration :: "string \<Rightarrow> register_input" where
  "sample_registration email = \<lparr>rg_email = Given email, rg_password = Given ''s3cretpass'', rg_full_name = Given ''Bob''\<rparr>"

theorem users_stay_unique_witness:
  "wf_users (w_db (fold (account_after sample_rules) [(None, 5, Register (sample_registration ''bob@inventra.io'')),
     (Some sample_admin, 6, AssignRole 100 (Given MANAGER))] (sample_world unique_db)))"
proof (rule users_stay_unique)
  have "wf_users unique_db" by code_simp
  then show "wf_users (w_db (sample_world unique_db))" by (simp add: sample_world_def)
qed

subsection \<open>Rights\<close>

lemma create_user_append:
  "create_user rules now email password f d = Inr (u, d') \<Longrightarrow>
   users d' = users d @ [u] \<and> u_role u = uf_role f \<and> u_is_staff u = uf_is_staff f \<and> u_is_superuser u = uf_is_superuser f"
  by (auto simp: create_user_Inr)

lemma non_admin_view:
  assumes "has_permission (account_permission r) who" "account_view rules now who r d = Inr oc"
    and "\<not> (\<exists>u. who = Some u \<and> u_role u = ADMIN)"
  shows "\<exists>new. users (odb oc) = users d @ new
    \<and> (\<forall>u \<in> set new. u_role u = EMPLOYEE \<and> \<not> u_is_staff u \<and> \<not> u_is_superuser u)"
proof (cases r)
  case (Register data)
  with assms(2) obtain email password full_name u d' where
    "create_user rules now email password ((default_fields full_name)\<lparr>uf_role := EMPLOYEE\<rparr>) d = Inr (u, d')"
    "odb oc = d'"
    by (auto simp: register_def bind_elims)
  from create_user_append [OF this(1)] this(2) show ?thesis by (auto simp: default_fields_def)
next
  case Me
  with assms(2) show ?thesis by (cases who) (auto simp: me_def)
qed (use assms(1,3) in \<open>cases who; auto\<close>)+

text \<open>No one but an administrator changes an account: a request by an anonymous user, an
  employee or a manager leaves every existing user row as it is (role, password, staff flag and
  activation included), and an account that registers itself is an employee without staff or
  superuser rights.\<close>
theorem only_admins_change_accounts:
  assumes "\<not> (\<exists>u. who = Some u \<and> u_role u = ADMIN)"
  shows "\<exists>new. users (w_db (snd (serve_account rules now who r w))) = users (w_db w) @ new
    \<and> (\<forall>u \<in> set new. u_role u = EMPLOYEE \<and> \<not> u_is_staff u \<and> \<not> u_is_superuser u)"
proof (cases "has_permission (account_permission r) who")
  case True
  show ?thesis
  proof (cases "account_view rules now who r (w_db w)")
    case (Inl e)
    with True show ?thesis by (simp add: serve_account_def run_view_def)
  next
    case (Inr oc)
    from non_admin_view [OF True Inr assms] True Inr show ?thesis
      by (simp add: serve_account_def run_view_def)
  qed
qed (simp add: serve_account_def)

theorem only_admins_change_accounts_witness:
  "\<exists>new. users (w_db (snd (serve_account sample_rules 5 (Some sample_manager) (AssignRole 3 (Given ADMIN)) (sample_world unique_db))))
     = users unique_db @ new"
proof -
  have "\<not> (\<exists>u. Some sample_manager = Some u \<and> u_role u = ADMIN)" by (simp add: sample_user_def)
  from only_admins_change_accounts [OF this, of sample_rules 5 "AssignRole 3 (Given ADMIN)" "sample_world unique_db"]
  show ?thesis by (auto simp: sample_world_def)
qed

text \<open>The uniqueness check of the registration compares the address as it was typed, but the
  manager stores it normalised: an address whose normal form belongs to a user while its own
  spelling does not passes the serializer and is answered by a server error instead of a 400.\<close>
theorem registering_a_variant_of_a_taken_address:
  assumes "register_errors rules (w_db w) data = []" "rg_email data = Given email" "email \<noteq> []"
    and "email_taken (normalize_email rules email) (w_db w)"
  shows "serve_account rules now who (Register data) w = (Response 500 (Detail ''Server Error''), w)"
proof -
  have "(\<exists>p. rg_password data = Given p) \<and> (\<exists>n. rg_full_name data = Given n)"
    using assms(1) by (auto simp: register_errors_def field_errors_Nil)
  then obtain p n where "rg_password data = Given p" "rg_full_name data = Given n" by blast
  with assms show ?thesis
    by (simp add: serve_account_def run_view_def register_def checked_def field_get_def create_user_def Let_def)
qed

theorem registering_a_variant_of_a_taken_address_witness:
  "serve_account sample_rules 5 None (Register (sample_registration ''ann@INVENTRA.io'')) (sample_world unique_db)
     = (Response 500 (Detail ''Server Error''), sample_world unique_db)"
proof (rule registering_a_variant_of_a_taken_address [where email = "''ann@INVENTRA.io''"])
  show "register_errors sample_rules (w_db (sample_world unique_db)) (sample_registration ''ann@INVENTRA.io'') = []"
    "email_taken (normalize_email sample_rules ''ann@INVENTRA.io'') (w_db (sample_world unique_db))" by code_simp+
qed (simp_all add: sample_registration_def)

text \<open>Disabling a user and enabling them again restores the database: the soft delete loses
  nothing.\<close>
theorem disable_enable_roundtrip:
  assumes "wf_users d" "get_user pk d = Some u" "u_is_active u" "user_destroy pk d = Inr oc"
  shows "\<exists>oc'. enable pk (odb oc) = Inr oc' \<and> odb oc' = d \<and> payload (rsp oc') = user_body u"
proof -
  have id: "u_id u = pk" using get_row_SomeD(2) [OF assms(2)] .
  from assms(2,4) id have d: "odb oc = d\<lparr>users := update_row u_id pk (\<lambda>x. x\<lparr>u_is_active := False\<rparr>) (users d)\<rparr>"
    by (auto simp: user_destroy_def set_active_def bind_elims Let_def)
  have g: "get_user pk (odb oc) = Some (u\<lparr>u_is_active := False\<rparr>)"
    using assms(2) by (simp add: d get_row_update)
  have "update_row u_id pk (\<lambda>x. x\<lparr>u_is_active := True\<rparr>)
      (update_row u_id pk (\<lambda>x. x\<lparr>u_is_active := False\<rparr>) (users d)) = users d"
  proof -
    have "x\<lparr>u_is_active := True\<rparr> = x" if "x \<in> set (users d)" "u_id x = pk" for x
    proof -
      have "distinct (map u_id (users d))" using assms(1) by (simp add: wf_users_def)
      from get_row_eqI [OF this that(1)] that(2) assms(2) have "x = u" by simp
      with assms(3) show ?thesis by simp
    qed
    then show ?thesis by (auto simp: update_row_def intro!: map_idI)
  qed
  with g id assms(3) d show ?thesis
    by (simp add: enable_def set_active_def bind_elims user_body_def)
qed

theorem disable_enable_roundtrip_witness:
  "\<exists>oc oc'. user_destroy 3 unique_db = Inr oc \<and> enable 3 (odb oc) = Inr oc' \<and> odb oc' = unique_db"
proof -
  obtain oc where oc: "user_destroy 3 unique_db = Inr oc"
    by (cases "user_destroy 3 unique_db") (simp_all, code_simp)
  have wf: "wf_users unique_db" by code_simp
  have u: "get_user 3 unique_db = Some (sample_employee\<lparr>u_email := ''eve@inventra.io''\<rparr>)"
    "u_is_active (sample_employee\<lparr>u_email := ''eve@inventra.io''\<rparr>)" by code_simp+
  from disable_enable_roundtrip [OF wf u oc] oc show ?thesis by blast
qed

end
