(* ===== verification/Cache.thy ===== *)
theory Cache
  imports Accounts
begin

section \<open>The response cache\<close>

text \<open>
  \<open>apps/core/cache.py\<close>: the version counter of a namespace, the key of a response, the
  decorator that caches the reports, and what the counter protocol guarantees when readers and
  writers interleave.

  The cache server is not part of the repository: the operations the code calls are the fields
  of a \<open>cache_api\<close> every definition takes, and what the code relies on are the \<open>assumes\<close> of the
  locale \<open>cache_server\<close>. The model is run on a table without eviction, which is shown to be
  such a server. SHA-256 is a parameter as well: \<open>digest\<close> is the first 16 hexadecimal digits of
  the hash of a text.
\<close>

subsection \<open>The server\<close>

datatype cached = Number nat | Answer response

text \<open>\<open>cache.incr\<close> raises \<open>ValueError\<close> (here \<open>None\<close>) when the key does not exist.\<close>

record 'c cache_api =
  cache_get :: "string \<Rightarrow> 'c \<Rightarrow> cached option"
  cache_set :: "string \<Rightarrow> cached \<Rightarrow> 'c \<Rightarrow> 'c"
  cache_incr :: "string \<Rightarrow> 'c \<Rightarrow> 'c option"

subsection \<open>The version counter\<close>

definition version_key :: "string \<Rightarrow> string" where
  "version_key namespace = ''cache:version:'' @ namespace"

definition get_version :: "'c cache_api \<Rightarrow> string \<Rightarrow> 'c \<Rightarrow> nat \<times> 'c" where
  "get_version api namespace c = (case cache_get api (version_key namespace) c of
     Some (Number n) \<Rightarrow> (n, c)
   | _ \<Rightarrow> (1, cache_set api (version_key namespace) (Number 1) c))"

definition bump_version :: "'c cache_api \<Rightarrow> string \<Rightarrow> 'c \<Rightarrow> 'c" where
  "bump_version api namespace c = (case cache_incr api (version_key namespace) c of
     Some c' \<Rightarrow> c'
   | None \<Rightarrow> cache_set api (version_key namespace) (Number 2) c)"

subsection \<open>Keys\<close>

text \<open>What a request puts into its key: the user, the role and the encoded query string.\<close>

record cache_request =
  cr_user :: uuid
  cr_role :: role_name
  cr_params :: string

definition scope_text :: "cache_request \<Rightarrow> string" where
  "scope_text r = str_uuid (cr_user r) @ '':'' @ role_value (cr_role r) @ '':'' @ cr_params r"

definition versioned_key :: "(string \<Rightarrow> string) \<Rightarrow> string \<Rightarrow> nat \<Rightarrow> string \<Rightarrow> cache_request \<Rightarrow> string" where
  "versioned_key digest namespace version endpoint r =
     namespace @ '':v'' @ str_nat version @ '':'' @ endpoint @ '':'' @ digest (scope_text r)"

definition cache_key ::
  "'c cache_api \<Rightarrow> (string \<Rightarrow> string) \<Rightarrow> string \<Rightarrow> string \<Rightarrow> cache_request \<Rightarrow> 'c \<Rightarrow> string \<times> 'c" where
  "cache_key api digest namespace endpoint r c =
     (let (version, c) = get_version api namespace c
      in (versioned_key digest namespace version endpoint r, c))"

subsection \<open>The decorator\<close>

text \<open>The answer, whether it was a hit, and the cache afterwards; \<open>response\<close> is what the decorated
  method answers if it is called.\<close>

definition cached_response ::
  "'c cache_api \<Rightarrow> (string \<Rightarrow> string) \<Rightarrow> string \<Rightarrow> string \<Rightarrow> cache_request \<Rightarrow> response \<Rightarrow> 'c
     \<Rightarrow> (response \<times> bool) \<times> 'c" where
  "cached_response api digest namespace endpoint r response c =
     (let (key, c) = cache_key api digest namespace endpoint r c
      in case cache_get api key c of
           Some (Answer stored) \<Rightarrow> ((stored, True), c)
         | _ \<Rightarrow>
             let c = (if 200 \<le> status_code response \<and> status_code response < 300
                      then cache_set api key (Answer response) c else c)
             in ((response, False), c))"

subsection \<open>Keys keep users, roles and versions apart\<close>

lemma role_value_inj: "role_value a @ '':'' @ s = role_value b @ '':'' @ t \<Longrightarrow> a = b \<and> s = t"
  by (cases a; cases b) auto

lemma append_sep_inj:
  assumes "c \<notin> set xs" "c \<notin> set ys" "xs @ c # s = ys @ c # t"
  shows "xs = ys \<and> s = t"
  using assms
proof (induction xs arbitrary: ys)
  case Nil
  then show ?case by (cases ys) auto
next
  case (Cons x xs)
  then show ?case by (cases ys) auto
qed

lemma str_uuid_plain: "CHR '':'' \<notin> set (str_uuid u)"
proof
  assume "CHR '':'' \<in> set (str_uuid u)"
  then have "CHR '':'' \<in> set (uuid_hex u)"
    by (auto simp: str_uuid_def Let_def dest: in_set_takeD in_set_dropD)
  then obtain e where "e \<in> set (replicate (32 - length (digits_of 16 u)) 0 @ digits_of 16 u)" "CHR '':'' = digit_char e"
    by (auto simp: uuid_hex_def Let_def)
  then have "e < 16" using digits_of_bound [of 16 e u] by auto
  with digit_char_plain [of e] \<open>CHR '':'' = digit_char e\<close> show False by auto
qed

lemma scope_text_inj: "scope_text r = scope_text r' \<Longrightarrow>
    cr_user r = cr_user r' \<and> cr_role r = cr_role r' \<and> cr_params r = cr_params r'"
proof -
  assume "scope_text r = scope_text r'"
  then have "str_uuid (cr_user r) @ CHR '':'' # (role_value (cr_role r) @ '':'' @ cr_params r)
      = str_uuid (cr_user r') @ CHR '':'' # (role_value (cr_role r') @ '':'' @ cr_params r')"
    by (simp add: scope_text_def)
  from append_sep_inj [OF str_uuid_plain str_uuid_plain this]
  have "str_uuid (cr_user r) = str_uuid (cr_user r')"
    "role_value (cr_role r) @ '':'' @ cr_params r = role_value (cr_role r') @ '':'' @ cr_params r'" by simp_all
  from str_uuid_inj [OF this(1)] role_value_inj [OF this(2)] show ?thesis by simp
qed

lemma str_nat_colon: "CHR '':'' \<notin> set (str_nat n)"
  using str_nat_plain by blast

lemma versioned_key_version:
  "versioned_key digest ns v endpoint r = versioned_key digest' ns v' endpoint' r' \<Longrightarrow> v = v'"
proof -
  assume "versioned_key digest ns v endpoint r = versioned_key digest' ns v' endpoint' r'"
  then have "str_nat v @ CHR '':'' # (endpoint @ '':'' @ digest (scope_text r))
      = str_nat v' @ CHR '':'' # (endpoint' @ '':'' @ digest' (scope_text r'))"
    by (simp add: versioned_key_def)
  from append_sep_inj [OF str_nat_colon str_nat_colon this] show "v = v'" by (auto intro: str_nat_inj)
qed

text \<open>No answer reaches another user: as long as the truncated hash tells the scopes of two
  requests apart, they share a key of an endpoint only if they agree in version, user, role and
  query parameters.\<close>
theorem keys_separate_users:
  assumes "scope_text r \<noteq> scope_text r' \<Longrightarrow> digest (scope_text r) \<noteq> digest (scope_text r')"
    and "versioned_key digest namespace v endpoint r = versioned_key digest namespace v' endpoint r'"
  shows "v = v' \<and> cr_user r = cr_user r' \<and> cr_role r = cr_role r' \<and> cr_params r = cr_params r'"
proof -
  have v: "v = v'" by (rule versioned_key_version [OF assms(2)])
  with assms(2) have "digest (scope_text r) = digest (scope_text r')" by (simp add: versioned_key_def)
  with assms(1) have "scope_text r = scope_text r'" by blast
  with v scope_text_inj [OF this] show ?thesis by simp
qed

theorem keys_separate_users_witness:
  "versioned_key (\<lambda>s. s) ''inventory'' 1 ''DashboardView'' \<lparr>cr_user = 1, cr_role = ADMIN, cr_params = []\<rparr>
     \<noteq> versioned_key (\<lambda>s. s) ''inventory'' 1 ''DashboardView'' \<lparr>cr_user = 2, cr_role = ADMIN, cr_params = []\<rparr>"
proof
  assume "versioned_key (\<lambda>s. s) ''inventory'' 1 ''DashboardView'' \<lparr>cr_user = 1, cr_role = ADMIN, cr_params = []\<rparr>
     = versioned_key (\<lambda>s. s) ''inventory'' 1 ''DashboardView'' \<lparr>cr_user = 2, cr_role = ADMIN, cr_params = []\<rparr>"
  from keys_separate_users [OF _ this] show False by simp
qed

subsection \<open>A bump orphans everything cached before\<close>

text \<open>What the code relies on, and what follows from it for one client at a time.\<close>

locale cache_server =
  fixes api :: "'c cache_api"
  assumes get_set: "cache_get api k (cache_set api k' v c) = (if k = k' then Some v else cache_get api k c)"
    and incr_absent: "cache_get api k c = None \<Longrightarrow> cache_incr api k c = None"
    and incr_present: "cache_get api k c = Some (Number n) \<Longrightarrow>
      \<exists>c'. cache_incr api k c = Some c' \<and> cache_get api k c' = Some (Number (Suc n))
        \<and> (\<forall>k'. k' \<noteq> k \<longrightarrow> cache_get api k' c' = cache_get api k' c)"
begin

definition version_now :: "string \<Rightarrow> 'c \<Rightarrow> nat" where
  "version_now ns c = fst (get_version api ns c)"

text \<open>The counter holds a number if it is there, and no key of a later version is in the cache.\<close>

definition sound :: "string \<Rightarrow> 'c \<Rightarrow> bool" where
  "sound ns c \<longleftrightarrow> (\<forall>a. cache_get api (version_key ns) c \<noteq> Some (Answer a))
     \<and> (\<forall>digest v endpoint r. cache_get api (versioned_key digest ns v endpoint r) c \<noteq> None
          \<longrightarrow> v \<le> version_now ns c)"

lemma get_version_cases:
  assumes "sound ns c"
  obtains (counting) n where "cache_get api (version_key ns) c = Some (Number n)" "get_version api ns c = (n, c)"
  | (first) "cache_get api (version_key ns) c = None"
      "get_version api ns c = (1, cache_set api (version_key ns) (Number 1) c)"
proof (cases "cache_get api (version_key ns) c")
  case None
  then show thesis by (intro first) (simp_all add: get_version_def)
next
  case (Some x)
  with assms show thesis
    by (cases x) (auto simp: sound_def get_version_def intro: counting)
qed

lemma version_after_bump:
  assumes "sound ns c"
  shows "version_now ns (bump_version api ns c) = Suc (version_now ns c)
    \<and> (\<forall>k. k \<noteq> version_key ns \<longrightarrow> cache_get api k (bump_version api ns c) = cache_get api k c)
    \<and> (\<exists>n. cache_get api (version_key ns) (bump_version api ns c) = Some (Number n))"
  using assms
proof (cases rule: get_version_cases)
  case (counting n)
  from incr_present [OF counting(1)] obtain c' where "cache_incr api (version_key ns) c = Some c'"
    "cache_get api (version_key ns) c' = Some (Number (Suc n))"
    "\<forall>k'. k' \<noteq> version_key ns \<longrightarrow> cache_get api k' c' = cache_get api k' c" by blast
  with counting show ?thesis by (simp add: version_now_def bump_version_def get_version_def)
next
  case first
  with incr_absent [OF first(1)] show ?thesis
    by (simp add: version_now_def bump_version_def get_version_def get_set)
qed

lemma get_version_keeps:
  assumes "sound ns c" "get_version api ns c = (v, c')"
  shows "v = version_now ns c \<and> version_now ns c' = v \<and> (\<forall>a. cache_get api (version_key ns) c' \<noteq> Some (Answer a))
    \<and> (\<forall>k. k \<noteq> version_key ns \<longrightarrow> cache_get api k c' = cache_get api k c)"
  using assms(1)
proof (cases rule: get_version_cases)
  case (counting n)
  with assms(2) show ?thesis by (auto simp: version_now_def)
next
  case first
  with assms(2) have c': "v = 1" "c' = cache_set api (version_key ns) (Number 1) c" by auto
  with first show ?thesis by (simp add: version_now_def get_set) (simp add: get_version_def get_set)
qed

lemma sound_empty:
  "(\<And>k. cache_get api k c = None) \<Longrightarrow> sound ns c"
  by (simp add: sound_def)

lemma sound_bump:
  assumes "sound ns c" "hd ns \<noteq> CHR ''c''" "ns \<noteq> []"
  shows "sound ns (bump_version api ns c)"
proof -
  note b = version_after_bump [OF assms(1)]
  have ne: "versioned_key digest ns v endpoint r \<noteq> version_key ns" for digest v endpoint r
    using assms(2,3) by (cases ns) (auto simp: versioned_key_def version_key_def)
  from b assms(1) ne show ?thesis by (fastforce simp: sound_def le_SucI)
qed

lemma cached_response_version:
  assumes "sound ns c" "hd ns \<noteq> CHR ''c''" "ns \<noteq> []"
    and "cached_response api digest ns endpoint r response c = (res, c')"
  shows "sound ns c'" and "version_now ns c' = version_now ns c"
    and "cache_get api (versioned_key digest ns (version_now ns c) endpoint r) c = None \<Longrightarrow> res = (response, False)"
proof -
  obtain v c1 where v: "get_version api ns c = (v, c1)" by (cases "get_version api ns c")
  note g = get_version_keeps [OF assms(1) v]
  have ne: "versioned_key digest' ns v' endpoint' r' \<noteq> version_key ns" for digest' v' endpoint' r'
    using assms(2,3) by (cases ns) (auto simp: versioned_key_def version_key_def)
  let ?key = "versioned_key digest ns v endpoint r"
  from assms(4) v have c': "c' = c1 \<or> (\<exists>x. c' = cache_set api ?key (Answer x) c1)"
    by (auto simp: cached_response_def cache_key_def Let_def split: option.splits cached.splits if_splits)
  then have same: "cache_get api (version_key ns) c' = cache_get api (version_key ns) c1"
    using ne [of digest v endpoint r] by (auto simp: get_set)
  then have now: "version_now ns c' = version_now ns c1"
    by (simp add: version_now_def get_version_def split: option.split cached.split)
  with g show vn: "version_now ns c' = version_now ns c" by simp
  have "v' \<le> version_now ns c'" if "cache_get api (versioned_key digest' ns v' endpoint' r') c' \<noteq> None"
    for digest' v' endpoint' r'
  proof (cases "versioned_key digest' ns v' endpoint' r' = ?key")
    case True
    then have "v' = v" by (rule versioned_key_version)
    with g vn show ?thesis by simp
  next
    case False
    with c' that have "cache_get api (versioned_key digest' ns v' endpoint' r') c1 \<noteq> None" by (auto simp: get_set)
    with g ne have "cache_get api (versioned_key digest' ns v' endpoint' r') c \<noteq> None" by simp
    then have "v' \<le> version_now ns c" using assms(1) unfolding sound_def by blast
    with vn show ?thesis by simp
  qed
  with same g show "sound ns c'" by (simp add: sound_def)
  assume "cache_get api (versioned_key digest ns (version_now ns c) endpoint r) c = None"
  with g ne have "cache_get api ?key c1 = None" by simp
  with assms(4) v show "res = (response, False)"
    by (auto simp: cached_response_def cache_key_def Let_def split: if_splits)
qed

lemma miss_after_bump:
  assumes "sound ns c" "hd ns \<noteq> CHR ''c''" "ns \<noteq> []"
  shows "fst (cached_response api digest ns endpoint r response (bump_version api ns c)) = (response, False)"
proof -
  note b = version_after_bump [OF assms(1)]
  have ne: "versioned_key digest ns v endpoint r \<noteq> version_key ns" for v
    using assms(2,3) by (cases ns) (auto simp: versioned_key_def version_key_def)
  let ?key = "versioned_key digest ns (Suc (version_now ns c)) endpoint r"
  have "cache_get api ?key c = None"
  proof (rule ccontr)
    assume "cache_get api ?key c \<noteq> None"
    with assms(1) have "Suc (version_now ns c) \<le> version_now ns c" unfolding sound_def by blast
    then show False by simp
  qed
  with b ne have "cache_get api (versioned_key digest ns (version_now ns (bump_version api ns c)) endpoint r)
      (bump_version api ns c) = None" by simp
  moreover obtain res c' where
    "cached_response api digest ns endpoint r response (bump_version api ns c) = (res, c')"
    by (cases "cached_response api digest ns endpoint r response (bump_version api ns c)")
  ultimately show ?thesis
    using cached_response_version(3) [OF sound_bump [OF assms] assms(2,3)] by simp
qed

end

text \<open>The table without eviction is such a server.\<close>

definition table_api :: "(string \<times> cached) list cache_api" where
  "table_api = \<lparr>cache_get = (\<lambda>k c. map_of c k), cache_set = (\<lambda>k v c. (k, v) # c),
     cache_incr = (\<lambda>k c. case map_of c k of Some (Number n) \<Rightarrow> Some ((k, Number (Suc n)) # c) | _ \<Rightarrow> None)\<rparr>"

interpretation table: cache_server table_api
  by unfold_locales (simp_all add: table_api_def)

text \<open>What reaches the cache one after another: a cached endpoint that is read, or a bump.\<close>

datatype cache_op = ReadCached string cache_request response | Bump

fun cache_step :: "'c cache_api \<Rightarrow> (string \<Rightarrow> string) \<Rightarrow> string \<Rightarrow> cache_op \<Rightarrow> 'c \<Rightarrow> 'c" where
  "cache_step api digest ns (ReadCached endpoint r response) c = snd (cached_response api digest ns endpoint r response c)"
| "cache_step api digest ns Bump c = bump_version api ns c"

lemma cache_steps_sound:
  assumes "cache_server api" "hd ns \<noteq> CHR ''c''" "ns \<noteq> []" "cache_server.sound api ns c"
  shows "cache_server.sound api ns (fold (cache_step api digest ns) ops c)"
  using assms(4)
proof (induction ops arbitrary: c)
  case (Cons op ops)
  have "cache_server.sound api ns (cache_step api digest ns op c)"
  proof (cases op)
    case (ReadCached endpoint r response)
    obtain res c' where "cached_response api digest ns endpoint r response c = (res, c')"
      by (cases "cached_response api digest ns endpoint r response c")
    with cache_server.cached_response_version(1) [OF assms(1) Cons.prems assms(2,3) this] ReadCached
    show ?thesis by simp
  next
    case Bump
    with cache_server.sound_bump [OF assms(1) Cons.prems assms(2,3)] show ?thesis by simp
  qed
  with Cons.IH show ?case by simp
qed simp

text \<open>One client at a time, a bump invalidates everything: on a cache server that keeps its
  keys, whatever was read, cached and bumped before starting from an empty cache, the first read
  of any endpoint by any user after a bump calls the view and returns what it answers.\<close>
theorem bump_invalidates_everything:
  assumes "cache_server api" "\<And>k. cache_get api k c = None"
  shows "fst (cached_response api digest ''inventory'' endpoint r response
      (bump_version api ''inventory'' (fold (cache_step api digest ''inventory'') ops c))) = (response, False)"
proof -
  have "cache_server.sound api ''inventory'' (fold (cache_step api digest ''inventory'') ops c)"
    by (rule cache_steps_sound [OF assms(1)]) (simp_all add: cache_server.sound_empty [OF assms(1)] assms(2))
  from cache_server.miss_after_bump [OF assms(1) this] show ?thesis by simp
qed

theorem bump_invalidates_everything_witness:
  "fst (cached_response table_api (\<lambda>s. s) ''inventory'' ''DashboardView''
     \<lparr>cr_user = 1, cr_role = ADMIN, cr_params = []\<rparr> (Response 200 NoContent)
     (bump_version table_api ''inventory'' (fold (cache_step table_api (\<lambda>s. s) ''inventory'')
        [ReadCached ''DashboardView'' \<lparr>cr_user = 1, cr_role = ADMIN, cr_params = []\<rparr> (Response 200 (Detail ''old''))] [])))
   = (Response 200 NoContent, False)"
  by (rule bump_invalidates_everything [OF table.cache_server_axioms]) (simp add: table_api_def)

end
