(* ===== verification/Cache_Protocol.thy ===== *)
theory Cache_Protocol
  imports Cache
begin

section \<open>The version counter under concurrency\<close>

text \<open>
  Readers and writers interleave between the single operations on the cache server and the
  database. The state is one namespace and one cached endpoint of one user: the database is the
  number of stock mutations that have committed, an answer is the database it was computed
  from, and every mutation registers one callback that bumps the counter some time after its
  commit. A reader carries, for the statement only, the number of callbacks that had run when
  it looked up the version.
\<close>

datatype reader =
    Idle
  | SawNone nat
  | HasVersion nat nat
  | Missed nat nat
  | HasAnswer nat nat nat
  | Hit nat nat

record protocol =
  commits :: nat
  callbacks :: nat
  counter :: "nat option"
  entries :: "nat \<Rightarrow> nat option"
  readers :: "nat \<Rightarrow> reader"

definition bumped :: "protocol \<Rightarrow> nat" where
  "bumped s = commits s - callbacks s"

abbreviation set_reader :: "protocol \<Rightarrow> nat \<Rightarrow> reader \<Rightarrow> protocol" where
  "set_reader s t p \<equiv> s\<lparr>readers := (readers s)(t := p)\<rparr>"

text \<open>
  \<open>look\<close>, \<open>look_none\<close> and \<open>set_one\<close> are the operations of \<open>get_version\<close>, \<open>incr\<close> and \<open>set_two\<close>
  those of \<open>bump_version\<close>, and \<open>hit\<close>, \<open>miss\<close>, \<open>run\<close>, \<open>store\<close> those of the decorator.
\<close>

inductive protocol_step :: "protocol \<Rightarrow> protocol \<Rightarrow> bool" where
  commit: "protocol_step s (s\<lparr>commits := Suc (commits s), callbacks := Suc (callbacks s)\<rparr>)"
| incr: "counter s = Some v \<Longrightarrow> callbacks s = Suc k \<Longrightarrow>
    protocol_step s (s\<lparr>counter := Some (Suc v), callbacks := k\<rparr>)"
| set_two: "counter s = None \<Longrightarrow> callbacks s = Suc k \<Longrightarrow>
    protocol_step s (s\<lparr>counter := Some 2, callbacks := k\<rparr>)"
| look: "readers s t = Idle \<Longrightarrow> counter s = Some v \<Longrightarrow>
    protocol_step s (set_reader s t (HasVersion v (bumped s)))"
| look_none: "readers s t = Idle \<Longrightarrow> counter s = None \<Longrightarrow>
    protocol_step s (set_reader s t (SawNone (bumped s)))"
| set_one: "readers s t = SawNone b \<Longrightarrow>
    protocol_step s (set_reader (s\<lparr>counter := Some 1\<rparr>) t (HasVersion 1 b))"
| hit: "readers s t = HasVersion v b \<Longrightarrow> entries s v = Some n \<Longrightarrow> protocol_step s (set_reader s t (Hit b n))"
| miss: "readers s t = HasVersion v b \<Longrightarrow> entries s v = None \<Longrightarrow> protocol_step s (set_reader s t (Missed v b))"
| run: "readers s t = Missed v b \<Longrightarrow> protocol_step s (set_reader s t (HasAnswer v b (commits s)))"
| store: "readers s t = HasAnswer v b n \<Longrightarrow>
    protocol_step s (set_reader (s\<lparr>entries := (entries s)(v \<mapsto> n)\<rparr>) t Idle)"
| rest: "readers s t = Hit b n \<Longrightarrow> protocol_step s (set_reader s t Idle)"

inductive protocol_reachable :: "nat option \<Rightarrow> protocol \<Rightarrow> bool" for c :: "nat option" where
  start: "protocol_reachable c \<lparr>commits = 0, callbacks = 0, counter = c, entries = (\<lambda>_. None), readers = (\<lambda>_. Idle)\<rparr>"
| step: "protocol_reachable c s \<Longrightarrow> protocol_step s s' \<Longrightarrow> protocol_reachable c s'"

inductive protocol_run :: "protocol \<Rightarrow> protocol \<Rightarrow> bool" for s0 :: protocol where
  begin_run: "protocol_run s0 s0"
| run_on: "protocol_run s0 s \<Longrightarrow> protocol_step s s' \<Longrightarrow> protocol_run s0 s'"

inductive_cases protocol_stepE: "protocol_step s s'"

subsection \<open>With the counter in the cache\<close>

text \<open>
  What a reader under way may hold: the version the counter had when the \<open>b\<close> callbacks it has seen had
  run, which is \<open>base + b\<close>. A reader that is about to set the counter may not be under way.
\<close>

fun reader_ok :: "nat \<Rightarrow> nat \<Rightarrow> reader \<Rightarrow> bool" where
  "reader_ok base b' Idle = True"
| "reader_ok base b' (SawNone b) = False"
| "reader_ok base b' (HasVersion v b) = (v = base + b \<and> b \<le> b')"
| "reader_ok base b' (Missed v b) = (v = base + b \<and> b \<le> b')"
| "reader_ok base b' (HasAnswer v b n) = (v = base + b \<and> b \<le> n \<and> b \<le> b')"
| "reader_ok base b' (Hit b n) = (b \<le> n)"

text \<open>
  The counter is in the cache and counts the callbacks from \<open>base\<close>, no answer is older than the version
  it is stored under, and the readers under way are in order.
\<close>

definition warm :: "nat \<Rightarrow> protocol \<Rightarrow> bool" where
  "warm base s \<longleftrightarrow> callbacks s \<le> commits s \<and> counter s = Some (base + bumped s)
     \<and> (\<forall>v n. entries s v = Some n \<longrightarrow> v \<le> base + n) \<and> (\<forall>t. reader_ok base (bumped s) (readers s t))"

lemma reader_ok_mono: "reader_ok base b p \<Longrightarrow> b \<le> b' \<Longrightarrow> reader_ok base b' p"
  by (cases p) auto

lemma warm_reader: "warm base s \<Longrightarrow> readers s t = p \<Longrightarrow> reader_ok base (bumped s) p"
  by (auto simp: warm_def)

lemma bumped_simps [simp]:
  "bumped (set_reader s t p) = bumped s" "bumped (s\<lparr>entries := e\<rparr>) = bumped s" "bumped (s\<lparr>counter := c\<rparr>) = bumped s"
  by (simp_all add: bumped_def)

lemma warm_set_reader: "warm base s \<Longrightarrow> reader_ok base (bumped s) p \<Longrightarrow> warm base (set_reader s t p)"
  by (auto simp: warm_def bumped_def)

lemma warm_step:
  assumes "protocol_step s s'" "warm base s"
  shows "warm base s'"
  using assms
proof (cases rule: protocol_step.cases)
  case commit
  with assms(2) show ?thesis by (auto simp: warm_def bumped_def)
next
  case (incr v k)
  have b: "bumped s' = Suc (bumped s)" using incr assms(2) by (auto simp: warm_def bumped_def)
  with incr assms(2) show ?thesis
    by (auto simp: warm_def b intro: reader_ok_mono)
next
  case (store t v b n)
  have "warm base (s\<lparr>entries := (entries s)(v \<mapsto> n)\<rparr>)"
    using warm_reader [OF assms(2) store(2)] assms(2) by (auto simp: warm_def bumped_def)
  from warm_set_reader [OF this, of Idle t] store show ?thesis by simp
next
  case (hit t v b n)
  have "v \<le> base + n" using hit(3) assms(2) unfolding warm_def by blast
  with warm_reader [OF assms(2) hit(2)] have "b \<le> n" by simp
  with hit show ?thesis by (auto intro: warm_set_reader [OF assms(2)])
next
  case (run t v b)
  have "b \<le> commits s" using warm_reader [OF assms(2) run(2)] by (auto simp: bumped_def)
  with run warm_reader [OF assms(2) run(2)] show ?thesis
    by (auto intro: warm_set_reader [OF assms(2)])
next
  case (look t v)
  with assms(2) show ?thesis by (auto intro: warm_set_reader [OF assms(2)] simp: warm_def)
next
  case (miss t v b)
  with warm_reader [OF assms(2) miss(2)] show ?thesis
    by (auto intro: warm_set_reader [OF assms(2)])
next
  case (set_one t b)
  with warm_reader [OF assms(2) set_one(2)] show ?thesis by simp
qed (auto simp: warm_def)

lemma warm_run: "protocol_run s0 s \<Longrightarrow> warm base s0 \<Longrightarrow> warm base s"
  by (induction rule: protocol_run.induct) (auto intro: warm_step)

text \<open>C35. Once the counter is in the cache and no reader that found it missing is still about to set it,
  a hit never misses a mutation whose callback has run. Start from any moment at which, in addition,
  no entry is older than the version it is stored under and every reader under way holds the version
  of the callbacks it has seen and an answer, if any, that is no older (an empty cache with the counter set and all readers idle is such a
  moment). Then, however readers, commits and callbacks interleave from there, the answer a reader
  takes from the cache was computed from a database that contains at least every mutation whose
  bump had happened when the reader looked up the version, and the counter counts exactly the bumps.\<close>
theorem hits_are_fresh:
  assumes "protocol_run s0 s" "warm base s0"
  shows "(readers s t = Hit b n \<longrightarrow> b \<le> n) \<and> counter s = Some (base + bumped s)"
  using warm_run [OF assms] warm_reader [of base s t "Hit b n"] by (auto simp: warm_def)

text \<open>One reader has missed under version 1; then a mutation commits and bumps, a second reader stores its
  answer under version 2 and a third one hits it.\<close>

definition missed_start :: protocol where
  "missed_start = \<lparr>commits = 0, callbacks = 0, counter = Some 1, entries = (\<lambda>_. None), readers = (\<lambda>_. Idle)(0 := Missed 1 0)\<rparr>"

theorem hits_are_fresh_witness:
  "\<exists>s n. protocol_run missed_start s \<and> bumped s = 1 \<and> counter s = Some 2 \<and> readers s 2 = Hit 1 n \<and> 1 \<le> n"
proof -
  define s1 where "s1 = missed_start\<lparr>commits := 1, callbacks := 1\<rparr>"
  define s2 where "s2 = s1\<lparr>counter := Some 2, callbacks := 0\<rparr>"
  define s3 where "s3 = set_reader s2 1 (HasVersion 2 1)"
  define s4 where "s4 = set_reader s3 1 (Missed 2 1)"
  define s5 where "s5 = set_reader s4 1 (HasAnswer 2 1 1)"
  define s6 where "s6 = set_reader (s5\<lparr>entries := (entries s5)(2 \<mapsto> 1)\<rparr>) 1 Idle"
  define s7 where "s7 = set_reader s6 2 (HasVersion 2 1)"
  define s8 where "s8 = set_reader s7 2 (Hit 1 1)"
  note defs = missed_start_def s1_def s2_def s3_def s4_def s5_def s6_def s7_def s8_def
  have "protocol_run missed_start missed_start" by (rule protocol_run.begin_run)
  moreover have "protocol_step missed_start s1" using commit [of missed_start] by (simp add: defs)
  moreover have "protocol_step s1 s2" using incr [of s1 1 0] by (simp add: defs numeral_2_eq_2)
  moreover have "protocol_step s2 s3" using look [of s2 1 2] by (simp add: defs bumped_def)
  moreover have "protocol_step s3 s4" using miss [of s3 1 2 1] by (simp add: defs)
  moreover have "protocol_step s4 s5" using run [of s4 1 2 1] by (simp add: defs)
  moreover have "protocol_step s5 s6" using store [of s5 1 2 1 1] by (simp add: defs)
  moreover have "protocol_step s6 s7" using look [of s6 2 2] by (simp add: defs bumped_def)
  moreover have "protocol_step s7 s8" using hit [of s7 2 2 1 1] by (simp add: defs)
  ultimately have r: "protocol_run missed_start s8" using protocol_run.run_on by blast
  have w: "warm 1 missed_start" by (auto simp: warm_def missed_start_def bumped_def)
  have "bumped s8 = 1" "readers s8 2 = Hit 1 1" by (simp_all add: defs bumped_def)
  with hits_are_fresh [OF r w, of 2 1 1] r show ?thesis by (auto simp: numeral_2_eq_2)
qed

subsection \<open>Without it\<close>

text \<open>A schedule: three readers and one mutation, from an empty cache.\<close>

abbreviation cold :: protocol where
  "cold \<equiv> \<lparr>commits = 0, callbacks = 0, counter = None, entries = (\<lambda>_. None), readers = (\<lambda>_. Idle)\<rparr>"

text \<open>C36. On a cold cache the counter can run backwards: a reader that found no counter sets it to 1
  after a writer has already moved it to 2, and a third reader is then served, from the cache, an
  answer older than a mutation whose callback had run before it asked.\<close>
theorem cold_start_serves_stale_answers:
  "\<exists>s t b n. protocol_reachable None s \<and> readers s t = Hit b n \<and> n < b \<and> counter s = Some 1 \<and> bumped s = 1"
proof -
  define s1 where "s1 = set_reader cold 0 (SawNone 0)"
  define s2 where "s2 = set_reader s1 1 (SawNone 0)"
  define s3 where "s3 = set_reader (s2\<lparr>counter := Some 1\<rparr>) 1 (HasVersion 1 0)"
  define s4 where "s4 = set_reader s3 1 (Missed 1 0)"
  define s5 where "s5 = set_reader s4 1 (HasAnswer 1 0 0)"
  define s6 where "s6 = s5\<lparr>commits := 1, callbacks := 1\<rparr>"
  define s7 where "s7 = s6\<lparr>counter := Some 2, callbacks := 0\<rparr>"
  define s8 where "s8 = set_reader (s7\<lparr>counter := Some 1\<rparr>) 0 (HasVersion 1 0)"
  define s9 where "s9 = set_reader (s8\<lparr>entries := (entries s8)(1 \<mapsto> 0)\<rparr>) 1 Idle"
  define s10 where "s10 = set_reader s9 2 (HasVersion 1 1)"
  define s11 where "s11 = set_reader s10 2 (Hit 1 0)"
  note defs = s1_def s2_def s3_def s4_def s5_def s6_def s7_def s8_def s9_def s10_def s11_def
  have r0: "protocol_reachable None cold" by (rule protocol_reachable.start)
  have "protocol_step cold s1" using look_none [of cold 0] by (simp add: s1_def bumped_def)
  moreover have "protocol_step s1 s2" using look_none [of s1 1] by (simp add: s1_def s2_def bumped_def)
  moreover have "protocol_step s2 s3" using set_one [of s2 1 0] by (simp add: s1_def s2_def s3_def)
  moreover have "protocol_step s3 s4" using miss [of s3 1 1 0] by (simp add: defs)
  moreover have "protocol_step s4 s5" using run [of s4 1 1 0] by (simp add: defs)
  moreover have "protocol_step s5 s6" using commit [of s5] by (simp add: defs)
  moreover have "protocol_step s6 s7" using incr [of s6 1 0] by (simp add: defs numeral_2_eq_2)
  moreover have "protocol_step s7 s8" using set_one [of s7 0 0] by (simp add: defs)
  moreover have "protocol_step s8 s9" using store [of s8 1 1 0 0] by (simp add: defs)
  moreover have "protocol_step s9 s10" using look [of s9 2 1] by (simp add: defs bumped_def)
  moreover have "protocol_step s10 s11" using hit [of s10 2 1 1 0] by (simp add: defs)
  ultimately have "protocol_reachable None s11" using r0 protocol_reachable.step by blast
  moreover have "readers s11 2 = Hit 1 0" "counter s11 = Some 1" "bumped s11 = 1"
    by (simp_all add: defs bumped_def)
  ultimately show ?thesis by (intro exI [of _ s11] exI [of _ 2] exI [of _ 1] exI [of _ 0]) simp
qed

end
