(* ===== verification/Catalog.thy ===== *)
theory Catalog
  imports Inventory Sample
begin

section \<open>Catalog\<close>

text \<open>
  \<open>apps/catalog\<close>: categories, suppliers and products. The query sets see the active rows only
  and the default destroy is a soft delete; the serializers are the framework's model
  serializers over the declared columns, so every column but \<open>id\<close> and \<open>created_at\<close> is
  writable, \<open>is_active\<close> and \<open>current_stock\<close> included.
\<close>

subsection \<open>Field checks of the model serializers\<close>

definition text_errors :: "string \<Rightarrow> nat \<Rightarrow> string \<Rightarrow> field_error list" where
  "text_errors name n s = (if s = [] then [BadValue name] else if length s > n then [OutOfRange name] else [])"

text \<open>A nullable column with \<open>blank=True\<close>.\<close>

definition optional_text_errors :: "string \<Rightarrow> nat \<Rightarrow> string option \<Rightarrow> field_error list" where
  "optional_text_errors name n v = (case v of None \<Rightarrow> [] | Some s \<Rightarrow> if length s > n then [OutOfRange name] else [])"

text \<open>\<open>DecimalField(max_digits=10, decimal_places=2)\<close>, no lower bound.\<close>

definition decimal_errors :: "string \<Rightarrow> cents \<Rightarrow> field_error list" where
  "decimal_errors name c = (if 10 ^ 10 \<le> \<bar>c\<bar> then [OutOfRange name] else [])"

definition integer_errors :: "string \<Rightarrow> int \<Rightarrow> field_error list" where
  "integer_errors name n = (if fits_integer n then [] else [OutOfRange name])"

definition unique_errors :: "string \<Rightarrow> ('r \<Rightarrow> bool) \<Rightarrow> 'r list \<Rightarrow> field_error list" where
  "unique_errors name clash t = (if \<exists>r \<in> set t. clash r then [NotUnique name] else [])"

definition field_or :: "'a \<Rightarrow> 'a field \<Rightarrow> 'a" where
  "field_or x f = (case f of Given y \<Rightarrow> y | _ \<Rightarrow> x)"

definition validated :: "field_error list \<Rightarrow> exn + unit" where
  "validated es = guardE (es = []) (ValidationError es)"

lemma validated_eq [bind_elims]: "validated es = Inr u \<longleftrightarrow> es = []"
  by (simp add: validated_def bind_elims)

subsection \<open>Categories and suppliers\<close>

record category_input =
  ci_name :: "string field"
  ci_description :: "string option field"
  ci_is_active :: "bool field"

definition category_errors :: "bool \<Rightarrow> uuid option \<Rightarrow> db \<Rightarrow> category_input \<Rightarrow> field_error list" where
  "category_errors partial self d data =
     field_errors partial ''name'' (\<lambda>s. text_errors ''name'' 255 s
       @ unique_errors ''name'' (\<lambda>c. c_name c = s \<and> Some (c_id c) \<noteq> self) (categories d)) (ci_name data)
   @ field_errors True ''description'' (optional_text_errors ''description'' 1000) (ci_description data)
   @ field_errors True ''is_active'' (\<lambda>_. []) (ci_is_active data)"

definition category_body :: "category \<Rightarrow> body" where
  "category_body c = CategoryBody (c_id c) (c_name c) (c_description c) (c_is_active c) (c_created_at c)"

definition category_create :: "time \<Rightarrow> category_input \<Rightarrow> view" where
  "category_create now data d =
     bindE (validated (category_errors False None d data)) (\<lambda>_.
     bindE (field_get ''name'' (ci_name data)) (\<lambda>name.
       let c = \<lparr>c_id = next_uuid d, c_name = name, c_description = field_or None (ci_description data),
                c_is_active = field_or True (ci_is_active data), c_created_at = now, c_updated_at = now,
                c_created_by = None\<rparr>
       in Inr (answer (Response 201 (category_body c)) (draw_uuid (d\<lparr>categories := categories d @ [c]\<rparr>)))))"

definition category_queryset :: "db \<Rightarrow> category list" where
  "category_queryset d = filter c_is_active (categories d)"

definition category_update :: "time \<Rightarrow> bool \<Rightarrow> uuid \<Rightarrow> category_input \<Rightarrow> view" where
  "category_update now partial pk data d =
     bindE (some_or Http404 (get_row c_id pk (category_queryset d))) (\<lambda>c.
     bindE (validated (category_errors partial (Some pk) d data)) (\<lambda>_.
       let c = c\<lparr>c_name := field_or (c_name c) (ci_name data),
                 c_description := field_or (c_description c) (ci_description data),
                 c_is_active := field_or (c_is_active c) (ci_is_active data), c_updated_at := now\<rparr>
       in Inr (answer (Response 200 (category_body c))
            (d\<lparr>categories := update_row c_id pk (\<lambda>_. c) (categories d)\<rparr>))))"

definition category_destroy :: "uuid \<Rightarrow> view" where
  "category_destroy pk d =
     bindE (some_or Http404 (get_row c_id pk (category_queryset d))) (\<lambda>c.
       Inr (answer (Response 204 NoContent)
         (d\<lparr>categories := update_row c_id pk (\<lambda>r. r\<lparr>c_is_active := False\<rparr>) (categories d)\<rparr>)))"

record supplier_input =
  sp_name :: "string field"
  sp_email :: "string field"
  sp_phone :: "string option field"
  sp_address :: "string option field"
  sp_is_active :: "bool field"

definition supplier_errors :: "bool \<Rightarrow> uuid option \<Rightarrow> db \<Rightarrow> supplier_input \<Rightarrow> field_error list" where
  "supplier_errors partial self d data =
     field_errors partial ''name'' (text_errors ''name'' 255) (sp_name data)
   @ field_errors partial ''email'' (\<lambda>s. text_errors ''email'' 254 s
       @ unique_errors ''email'' (\<lambda>x. s_email x = s \<and> Some (s_id x) \<noteq> self) (suppliers d)) (sp_email data)
   @ field_errors True ''phone'' (optional_text_errors ''phone'' 50) (sp_phone data)
   @ field_errors True ''address'' (optional_text_errors ''address'' 1000) (sp_address data)
   @ field_errors True ''is_active'' (\<lambda>_. []) (sp_is_active data)"

definition supplier_body :: "supplier \<Rightarrow> body" where
  "supplier_body s = SupplierBody (s_id s) (s_name s) (s_email s) (s_phone s) (s_address s) (s_is_active s)
     (s_created_at s)"

definition supplier_create :: "time \<Rightarrow> supplier_input \<Rightarrow> view" where
  "supplier_create now data d =
     bindE (validated (supplier_errors False None d data)) (\<lambda>_.
     bindE (field_get ''name'' (sp_name data)) (\<lambda>name.
     bindE (field_get ''email'' (sp_email data)) (\<lambda>email.
       let s = \<lparr>s_id = next_uuid d, s_name = name, s_email = email, s_phone = field_or None (sp_phone data),
                s_address = field_or None (sp_address data), s_is_active = field_or True (sp_is_active data),
                s_created_at = now, s_updated_at = now, s_created_by = None\<rparr>
       in Inr (answer (Response 201 (supplier_body s)) (draw_uuid (d\<lparr>suppliers := suppliers d @ [s]\<rparr>))))))"

definition supplier_queryset :: "db \<Rightarrow> supplier list" where
  "supplier_queryset d = filter s_is_active (suppliers d)"

definition supplier_update :: "time \<Rightarrow> bool \<Rightarrow> uuid \<Rightarrow> supplier_input \<Rightarrow> view" where
  "supplier_update now partial pk data d =
     bindE (some_or Http404 (get_row s_id pk (supplier_queryset d))) (\<lambda>s.
     bindE (validated (supplier_errors partial (Some pk) d data)) (\<lambda>_.
       let s = s\<lparr>s_name := field_or (s_name s) (sp_name data), s_email := field_or (s_email s) (sp_email data),
                 s_phone := field_or (s_phone s) (sp_phone data), s_address := field_or (s_address s) (sp_address data),
                 s_is_active := field_or (s_is_active s) (sp_is_active data), s_updated_at := now\<rparr>
       in Inr (answer (Response 200 (supplier_body s))
            (d\<lparr>suppliers := update_row s_id pk (\<lambda>_. s) (suppliers d)\<rparr>))))"

definition supplier_destroy :: "uuid \<Rightarrow> view" where
  "supplier_destroy pk d =
     bindE (some_or Http404 (get_row s_id pk (supplier_queryset d))) (\<lambda>s.
       Inr (answer (Response 204 NoContent)
         (d\<lparr>suppliers := update_row s_id pk (\<lambda>r. r\<lparr>s_is_active := False\<rparr>) (suppliers d)\<rparr>)))"

subsection \<open>Products\<close>

record product_input =
  pi_sku :: "string field"
  pi_name :: "string field"
  pi_description :: "string option field"
  pi_cost_price :: "cents field"
  pi_selling_price :: "cents field"
  pi_current_stock :: "int field"
  pi_low_stock_threshold :: "int field"
  pi_category :: "uuid field"
  pi_supplier :: "uuid field"
  pi_is_active :: "bool field"

text \<open>A related field accepts the key of any row, active or not.\<close>

definition related_errors :: "string \<Rightarrow> uuid list \<Rightarrow> uuid \<Rightarrow> field_error list" where
  "related_errors name ids i = (if i \<in> set ids then [] else [BadValue name])"

definition product_errors :: "bool \<Rightarrow> uuid option \<Rightarrow> db \<Rightarrow> product_input \<Rightarrow> field_error list" where
  "product_errors partial self d data =
     field_errors partial ''sku'' (\<lambda>s. text_errors ''sku'' 100 s
       @ unique_errors ''sku'' (\<lambda>p. p_sku p = s \<and> Some (p_id p) \<noteq> self) (products d)) (pi_sku data)
   @ field_errors partial ''name'' (text_errors ''name'' 255) (pi_name data)
   @ field_errors True ''description'' (optional_text_errors ''description'' 2000) (pi_description data)
   @ field_errors partial ''cost_price'' (decimal_errors ''cost_price'') (pi_cost_price data)
   @ field_errors partial ''selling_price'' (decimal_errors ''selling_price'') (pi_selling_price data)
   @ field_errors True ''current_stock'' (integer_errors ''current_stock'') (pi_current_stock data)
   @ field_errors True ''low_stock_threshold'' (integer_errors ''low_stock_threshold'') (pi_low_stock_threshold data)
   @ field_errors partial ''category'' (related_errors ''category'' (map c_id (categories d))) (pi_category data)
   @ field_errors partial ''supplier'' (related_errors ''supplier'' (map s_id (suppliers d))) (pi_supplier data)
   @ field_errors True ''is_active'' (\<lambda>_. []) (pi_is_active data)"

definition product_body :: "product \<Rightarrow> body" where
  "product_body p = ProductBody (p_id p) (p_sku p) (p_name p) (p_description p) (p_cost_price p)
     (p_selling_price p) (p_current_stock p) (p_low_stock_threshold p) (p_category p) (p_supplier p)
     (p_is_active p) (p_created_at p)"

definition product_create :: "time \<Rightarrow> product_input \<Rightarrow> view" where
  "product_create now data d =
     bindE (validated (product_errors False None d data)) (\<lambda>_.
     bindE (field_get ''sku'' (pi_sku data)) (\<lambda>sku.
     bindE (field_get ''name'' (pi_name data)) (\<lambda>name.
     bindE (field_get ''cost_price'' (pi_cost_price data)) (\<lambda>cost.
     bindE (field_get ''selling_price'' (pi_selling_price data)) (\<lambda>price.
     bindE (field_get ''category'' (pi_category data)) (\<lambda>cat.
     bindE (field_get ''supplier'' (pi_supplier data)) (\<lambda>sup.
       let p = \<lparr>p_id = next_uuid d, p_sku = sku, p_name = name, p_description = field_or None (pi_description data),
                p_cost_price = cost, p_selling_price = price, p_current_stock = field_or 0 (pi_current_stock data),
                p_low_stock_threshold = field_or 0 (pi_low_stock_threshold data), p_category = cat, p_supplier = sup,
                p_is_active = field_or True (pi_is_active data), p_created_at = now, p_updated_at = now,
                p_created_by = None\<rparr>
       in Inr (answer (Response 201 (product_body p)) (draw_uuid (d\<lparr>products := products d @ [p]\<rparr>))))))))))"

definition product_queryset :: "db \<Rightarrow> product list" where
  "product_queryset d = filter p_is_active (products d)"

text \<open>The instance as the serializer changes it.\<close>

definition product_apply :: "time \<Rightarrow> product_input \<Rightarrow> product \<Rightarrow> product" where
  "product_apply now data p = p\<lparr>
     p_sku := field_or (p_sku p) (pi_sku data), p_name := field_or (p_name p) (pi_name data),
     p_description := field_or (p_description p) (pi_description data),
     p_cost_price := field_or (p_cost_price p) (pi_cost_price data),
     p_selling_price := field_or (p_selling_price p) (pi_selling_price data),
     p_current_stock := field_or (p_current_stock p) (pi_current_stock data),
     p_low_stock_threshold := field_or (p_low_stock_threshold p) (pi_low_stock_threshold data),
     p_category := field_or (p_category p) (pi_category data),
     p_supplier := field_or (p_supplier p) (pi_supplier data),
     p_is_active := field_or (p_is_active p) (pi_is_active data), p_updated_at := now\<rparr>"

definition product_update :: "time \<Rightarrow> bool \<Rightarrow> uuid \<Rightarrow> product_input \<Rightarrow> view" where
  "product_update now partial pk data d =
     bindE (some_or Http404 (get_row p_id pk (product_queryset d))) (\<lambda>p.
     bindE (validated (product_errors partial (Some pk) d data)) (\<lambda>_.
       let p = product_apply now data p
       in Inr (answer (Response 200 (product_body p))
            (d\<lparr>products := update_row p_id pk (\<lambda>_. p) (products d)\<rparr>))))"

definition product_destroy :: "uuid \<Rightarrow> view" where
  "product_destroy pk d =
     bindE (some_or Http404 (get_row p_id pk (product_queryset d))) (\<lambda>p.
       Inr (answer (Response 204 NoContent)
         (d\<lparr>products := update_row p_id pk (\<lambda>r. r\<lparr>p_is_active := False\<rparr>) (products d)\<rparr>)))"

definition product_retrieve :: "uuid \<Rightarrow> view" where
  "product_retrieve pk d =
     bindE (some_or Http404 (get_row p_id pk (product_queryset d))) (\<lambda>p.
       Inr (answer (Response 200 (product_body p)) d))"

subsection \<open>The product filter\<close>

definition filter_stock_status :: "string \<Rightarrow> product list \<Rightarrow> product list" where
  "filter_stock_status v qs =
     (if v = ''out_of_stock'' then filter (\<lambda>p. p_current_stock p \<le> 0) qs
      else if v = ''low_stock'' then filter (\<lambda>p. 0 < p_current_stock p \<and> p_current_stock p \<le> p_low_stock_threshold p) qs
      else if v = ''in_stock'' then filter (\<lambda>p. \<not> p_current_stock p \<le> p_low_stock_threshold p) qs
      else qs)"

text \<open>The three parameters of \<open>ProductFilter\<close>; an absent or empty one filters nothing.\<close>

definition product_filter :: "uuid option \<Rightarrow> uuid option \<Rightarrow> string \<Rightarrow> product list \<Rightarrow> product list" where
  "product_filter category_id supplier_id stock_status qs =
     (let qs = (case category_id of None \<Rightarrow> qs | Some c \<Rightarrow> filter (\<lambda>p. p_category p = c) qs);
          qs = (case supplier_id of None \<Rightarrow> qs | Some s \<Rightarrow> filter (\<lambda>p. p_supplier p = s) qs)
      in if stock_status = [] then qs else filter_stock_status stock_status qs)"

text \<open>The three stock statuses split the active products, each in exactly one of them, when no
  threshold is negative; a product with stock at or below zero but above a negative threshold is
  listed both as out of stock and as in stock.\<close>
theorem stock_statuses_partition:
  assumes "p \<in> set qs"
  shows "(0 \<le> p_low_stock_threshold p \<longrightarrow>
      length (filter (\<lambda>v. p \<in> set (filter_stock_status v qs)) [''out_of_stock'', ''low_stock'', ''in_stock'']) = 1)
    \<and> (p \<in> set (filter_stock_status ''out_of_stock'' qs) \<and> p \<in> set (filter_stock_status ''in_stock'' qs)
        \<longleftrightarrow> p_low_stock_threshold p < p_current_stock p \<and> p_current_stock p \<le> 0)"
  using assms by (auto simp: filter_stock_status_def)

theorem stock_statuses_partition_witness:
  "\<exists>p. p \<in> set (filter_stock_status ''out_of_stock'' [p]) \<and> p \<in> set (filter_stock_status ''in_stock'' [p])"
proof -
  let ?p = "(sample_product 20 ''W-1'' 0)\<lparr>p_low_stock_threshold := - 1\<rparr>"
  have "?p \<in> set [?p]" by simp
  from stock_statuses_partition [OF this] show ?thesis by (auto simp: sample_product_def)
qed

subsection \<open>Soft deletion\<close>

text \<open>Deleting a product hides it and loses nothing: its row stays with every other column as it
  was, it is gone from the query set (a second delete or a retrieve is a 404), and every level,
  ledger total and order line is unchanged, so orders that name it can still be completed.\<close>
theorem product_soft_delete:
  assumes "product_destroy pk d = Inr oc" "wf_products d"
  shows "levels (odb oc) = levels d
    \<and> (\<exists>p. get_product pk d = Some p \<and> get_product pk (odb oc) = Some (p\<lparr>p_is_active := False\<rparr>))
    \<and> product_destroy pk (odb oc) = Inl Http404 \<and> product_retrieve pk (odb oc) = Inl Http404
    \<and> so_items (odb oc) = so_items d \<and> po_items (odb oc) = po_items d"
proof -
  from assms(1) obtain p where p: "get_row p_id pk (product_queryset d) = Some p"
    and d: "odb oc = d\<lparr>products := update_row p_id pk (\<lambda>r. r\<lparr>p_is_active := False\<rparr>) (products d)\<rparr>"
    by (auto simp: product_destroy_def bind_elims)
  have "p \<in> set (products d)" "p_id p = pk"
    using get_row_SomeD [OF p] by (auto simp: product_queryset_def)
  then have g: "get_product pk d = Some p"
    using assms(2) get_row_eqI [of p_id "products d" p] by (simp add: wf_products_def)
  have lv: "levels (odb oc) = levels d"
    by (simp add: levels_def d stock_of_def ledger_total_def get_row_update option.map_comp o_def fun_eq_iff)
  have "\<forall>x \<in> set (product_queryset (odb oc)). p_id x \<noteq> pk"
  proof
    fix x assume "x \<in> set (product_queryset (odb oc))"
    then have x: "x \<in> set (update_row p_id pk (\<lambda>r. r\<lparr>p_is_active := False\<rparr>) (products d))" "p_is_active x"
      by (simp_all add: d product_queryset_def)
    from set_update_rowD [OF x(1)] obtain r where
      r: "x = (if p_id r = pk then r\<lparr>p_is_active := False\<rparr> else r)" by blast
    show "p_id x \<noteq> pk"
    proof (cases "p_id r = pk")
      case True
      with r x(2) show ?thesis by simp
    next
      case False
      with r show ?thesis by simp
    qed
  qed
  then have "get_row p_id pk (product_queryset (odb oc)) = None"
    unfolding get_row_None by auto
  with lv g d show ?thesis
    by (simp add: product_destroy_def product_retrieve_def get_row_update)
qed

theorem product_soft_delete_witness:
  "\<exists>oc. product_destroy 20 sample_db = Inr oc \<and> levels (odb oc) = levels sample_db
     \<and> product_retrieve 20 (odb oc) = Inl Http404"
proof -
  obtain oc where oc: "product_destroy 20 sample_db = Inr oc"
    by (cases "product_destroy 20 sample_db") (simp_all, code_simp)
  have "wf_products sample_db" by code_simp
  from product_soft_delete [OF oc this] oc show ?thesis by blast
qed

subsection \<open>Product writes and the ledger\<close>

text \<open>A product update that is accepted keeps stock and ledger in agreement exactly when it does
  not carry a new \<open>current_stock\<close>: the serializer lets a manager overwrite the stock without a
  ledger row, and no cache version is bumped.\<close>
theorem product_update_breaks_the_ledger:
  assumes "product_update now partial pk data d = Inr oc" "wf_products d" "balanced d"
  shows "(balanced (odb oc) \<longleftrightarrow> (\<exists>p. get_product pk d = Some p
      \<and> field_or (p_current_stock p) (pi_current_stock data) = p_current_stock p)) \<and> ohooks oc = []"
proof -
  from assms(1) obtain p where p: "get_row p_id pk (product_queryset d) = Some p"
    and d: "odb oc = d\<lparr>products := update_row p_id pk (\<lambda>_. product_apply now data p) (products d)\<rparr>"
      "ohooks oc = []"
    by (auto simp: product_update_def bind_elims Let_def)
  have mem: "p \<in> set (products d)" "p_id p = pk"
    using get_row_SomeD [OF p] by (auto simp: product_queryset_def)
  then have g: "get_product pk d = Some p"
    using assms(2) get_row_eqI [of p_id "products d" p] by (simp add: wf_products_def)
  have id: "p_id (product_apply now data p) = pk" using mem(2) by (simp add: product_apply_def)
  have lv: "stock_of (odb oc) i = (if i = pk
      then Some (field_or (p_current_stock p) (pi_current_stock data)) else stock_of d i)" for i
    using g id get_row_replace [where key = p_id and r = "product_apply now data p" and k = pk and j = i
      and t = "products d"]
    by (simp add: d stock_of_def) (simp add: product_apply_def)
  have lt: "ledger_total (odb oc) = ledger_total d" by (simp add: d ledger_total_def fun_eq_iff)
  have "stock_of d pk = Some (p_current_stock p)" using g by (simp add: stock_of_def)
  with assms(3) have "ledger_total d pk = p_current_stock p" by (auto simp: balanced_iff)
  with g d(2) assms(3) show ?thesis by (auto simp: balanced_iff lv lt)
qed

definition stock_input :: "int field \<Rightarrow> product_input" where
  "stock_input f = \<lparr>pi_sku = Absent, pi_name = Absent, pi_description = Absent, pi_cost_price = Absent,
     pi_selling_price = Given 700, pi_current_stock = f, pi_low_stock_threshold = Absent,
     pi_category = Absent, pi_supplier = Absent, pi_is_active = Absent\<rparr>"

theorem product_update_breaks_the_ledger_witness:
  "(\<exists>oc. product_update 5 True 20 (stock_input Absent) sample_db = Inr oc \<and> balanced (odb oc))
   \<and> (\<exists>oc. product_update 5 True 20 (stock_input (Given 99)) sample_db = Inr oc \<and> \<not> balanced (odb oc))"
proof -
  obtain oc oc' where oc: "product_update 5 True 20 (stock_input Absent) sample_db = Inr oc"
      "product_update 5 True 20 (stock_input (Given 99)) sample_db = Inr oc'"
    by (cases "product_update 5 True 20 (stock_input Absent) sample_db";
        cases "product_update 5 True 20 (stock_input (Given 99)) sample_db") (simp_all, code_simp+)
  have d: "wf_products sample_db" "balanced sample_db"
    "get_product 20 sample_db = Some (sample_product 20 ''W-1'' 10)" by code_simp+
  have n: "p_current_stock (sample_product 20 ''W-1'' 10) = 10" by (simp add: sample_product_def)
  show ?thesis
    using product_update_breaks_the_ledger [OF oc(1) d(1,2)] product_update_breaks_the_ledger [OF oc(2) d(1,2)]
      oc d(3) n by (auto simp: stock_input_def field_or_def)
qed

end
