(* ===== verification/Sales_Properties.thy ===== *)
theory Sales_Properties
  imports Inventory Sample
begin

section \<open>What completing a sale guarantees\<close>

text \<open>
  The properties of \<open>SalesOrderViewSet.complete\<close>, of sales order creation, update and deletion
  and of the invoice action.
\<close>

subsection \<open>Reading an order back\<close>

lemma insufficient_stock_code [simp]: "status_code (insufficient_stock p item) = 409"
  by (simp add: insufficient_stock_def)

lemma complete_ok:
  assumes "complete u now drawn pk d = Inr oc" "status_code (rsp oc) = 200"
  obtains so by_item d1 where "get_so pk d = Some so" "so_id so = pk" "so_status so = CREATED"
      "check_lines (sort_key soi_product (items_of_so pk d)) d Map.empty = Inr (Inr by_item)"
      "foldE (deduct_line u now pk by_item) (sort_key soi_product (items_of_so pk d)) d = Inr d1"
      "finish_complete now drawn so d1 = Inr (odb oc)" "ohooks oc = [BumpVersion ''inventory'']"
  using assms(1)
proof (cases rule: complete_cases)
  case (short so r)
  with assms(2) check_lines_early [OF short(4)] show thesis by auto
next
  case (sold so by_item d1)
  then show thesis by (intro that) auto
qed (use assms(2) in auto)

lemma completed_order:
  assumes "finish_complete now drawn so d = Inr d'" "so_id so = pk" "get_so pk d = Some so"
  shows "get_so pk d' = Some (so\<lparr>so_status := COMPLETED,
    so_invoice_number := Some (invoice_number_of drawn), so_invoiced_at := Some now\<rparr>)"
  using finish_complete_Inr(10) [OF assms(1)] assms(2,3) by (simp add: get_row_update)

subsection \<open>complete\<close>

text \<open>C2. A completed sale leaves the stock equal to the ledger exactly when no two lines of the
  order name the same product: with two such lines the second line's \<open>save\<close> writes over the
  first line's deduction, while the ledger books both.\<close>
theorem complete_balanced_iff:
  assumes "complete u now drawn pk d = Inr oc" "status_code (rsp oc) = 200"
    and "wf_sales d" "balanced d"
  shows "balanced (odb oc) \<longleftrightarrow> distinct (map soi_product (items_of_so pk d))"
proof -
  from assms(1,2) obtain so by_item d1 where c: "get_so pk d = Some so" "so_id so = pk"
      "check_lines (sort_key soi_product (items_of_so pk d)) d Map.empty = Inr (Inr by_item)"
      "foldE (deduct_line u now pk by_item) (sort_key soi_product (items_of_so pk d)) d = Inr d1"
      "finish_complete now drawn so d1 = Inr (odb oc)"
    by (rule complete_ok)
  have ids: "distinct (map soi_id (so_items d))" using assms(3) by (simp add: wf_sales_def)
  note lv = complete_levels [OF c ids]
  let ?of = "\<lambda>i. filter (\<lambda>x. soi_product x = i) (items_of_so pk d)"
  have q: "1 \<le> soi_quantity x" if "x \<in> set (?of i)" for x i
    using assms(3) that by (auto simp: wf_sales_def)
  have level: "(\<forall>n. stock_of (odb oc) i = Some n \<longrightarrow> n = ledger_total (odb oc) i)
      \<longleftrightarrow> length (?of i) \<le> 1" for i
  proof (cases "?of i = []")
    case True
    then show ?thesis using lv(1,2) [of i] assms(4) by (auto simp: balanced_iff)
  next
    case False
    then have "hd (?of i) \<in> set (?of i)" by (rule hd_in_set)
    then obtain n where n: "stock_of d i = Some n" using lv(3) [of "hd (?of i)"] by auto
    with assms(4) have "n = ledger_total d i" by (simp add: balanced_iff)
    moreover have "stock_of (odb oc) i = Some (n - soi_quantity (last (?of i)))"
      using lv(1) [of i] n False by (auto split: list.splits)
    moreover have "length (?of i) \<le> 1 \<longleftrightarrow> length (?of i) = 1"
      using False by (cases "?of i") auto
    ultimately show ?thesis using lv(2) [of i] lines_of_product(2) [OF q False] by simp
  qed
  show ?thesis unfolding balanced_iff distinct_iff_filter using level by blast
qed

theorem complete_balanced_iff_witness:
  "balanced sample_db \<and> distinct (map soi_product (items_of_so 50 sample_db))
   \<and> (\<exists>oc. complete sample_employee 5 200 50 sample_db = Inr oc \<and> balanced (odb oc))
   \<and> balanced double_line_db \<and> \<not> distinct (map soi_product (items_of_so 50 double_line_db))
   \<and> (\<exists>oc. complete sample_employee 5 200 50 double_line_db = Inr oc \<and> \<not> balanced (odb oc))"
proof -
  obtain oc where oc: "complete sample_employee 5 200 50 sample_db = Inr oc"
    by (cases "complete sample_employee 5 200 50 sample_db") (simp_all, code_simp)
  have "case complete sample_employee 5 200 50 sample_db of Inr oc \<Rightarrow> status_code (rsp oc) = 200 | _ \<Rightarrow> False"
    by code_simp
  with oc have ok: "status_code (rsp oc) = 200" by simp
  obtain oc' where oc': "complete sample_employee 5 200 50 double_line_db = Inr oc'"
    by (cases "complete sample_employee 5 200 50 double_line_db") (simp_all, code_simp)
  have "case complete sample_employee 5 200 50 double_line_db of Inr oc \<Rightarrow> status_code (rsp oc) = 200 | _ \<Rightarrow> False"
    by code_simp
  with oc' have ok': "status_code (rsp oc') = 200" by simp
  have d: "wf_sales sample_db" "balanced sample_db" "distinct (map soi_product (items_of_so 50 sample_db))"
    by code_simp+
  have d': "wf_sales double_line_db" "balanced double_line_db"
      "\<not> distinct (map soi_product (items_of_so 50 double_line_db))"
    by code_simp+
  show ?thesis
    using oc oc' d d' complete_balanced_iff [OF oc ok d(1,2)] complete_balanced_iff [OF oc' ok' d'(1,2)]
    by simp
qed

lemma complete_effect_facts:
  assumes "complete u now drawn pk d = Inr oc" "status_code (rsp oc) = 200"
    and "wf_sales d" "distinct (map soi_product (items_of_so pk d))"
  shows "stock_of (odb oc) i = map_option (\<lambda>n. n - sold_quantity d pk i) (stock_of d i)"
    and "\<exists>ts. transactions (odb oc) = transactions d @ ts
      \<and> map (\<lambda>t. (t_product t, t_quantity t, t_type t, t_reference t)) ts
        = map (\<lambda>x. (soi_product x, soi_quantity x, SALE, Some pk)) (sort_key soi_product (items_of_so pk d))"
    and "\<exists>so. get_so pk (odb oc) = Some so \<and> so_status so = COMPLETED
      \<and> so_invoice_number so = Some (invoice_number_of drawn) \<and> so_invoiced_at so = Some now"
    and "ohooks oc = [BumpVersion ''inventory'']"
proof -
  from assms(1,2) obtain so by_item d1 where c: "get_so pk d = Some so" "so_id so = pk"
      "check_lines (sort_key soi_product (items_of_so pk d)) d Map.empty = Inr (Inr by_item)"
      "foldE (deduct_line u now pk by_item) (sort_key soi_product (items_of_so pk d)) d = Inr d1"
      "finish_complete now drawn so d1 = Inr (odb oc)" and h: "ohooks oc = [BumpVersion ''inventory'']"
    by (rule complete_ok)
  have ids: "distinct (map soi_id (so_items d))" using assms(3) by (simp add: wf_sales_def)
  let ?items = "sort_key soi_product (items_of_so pk d)"
  let ?xs = "filter (\<lambda>x. soi_product x = i) (items_of_so pk d)"
  have "length ?xs \<le> 1" using assms(4) by (rule single_filter)
  then consider "?xs = []" | x where "?xs = [x]" by (cases ?xs) auto
  then show "stock_of (odb oc) i = map_option (\<lambda>n. n - sold_quantity d pk i) (stock_of d i)"
    using complete_levels(1) [OF c ids, of i]
    by cases (simp_all add: sold_quantity_def option.map_ident)
  have obj: "\<exists>p. by_item (soi_id item) = Some p \<and> p_id p = soi_product item" if "item \<in> set ?items" for item
    using check_lines_all [OF c(3) that] check_lines_object [OF c(3) _ that] ids
    by (auto simp: distinct_map_filter dest: get_row_SomeD(2))
  show "\<exists>ts. transactions (odb oc) = transactions d @ ts
      \<and> map (\<lambda>t. (t_product t, t_quantity t, t_type t, t_reference t)) ts
        = map (\<lambda>x. (soi_product x, soi_quantity x, SALE, Some pk)) ?items"
    using deduct_lines_ledger [OF c(4) obj] finish_complete_Inr(8) [OF c(5)] by simp
  have "get_so pk d1 = Some so" using deduct_lines_frame(3) [OF c(4)] c(1) by simp
  from completed_order [OF c(5,2) this]
  show "\<exists>so. get_so pk (odb oc) = Some so \<and> so_status so = COMPLETED
      \<and> so_invoice_number so = Some (invoice_number_of drawn) \<and> so_invoiced_at so = Some now"
    by simp
qed (rule complete_ok [OF assms(1,2)])

text \<open>C9. What a completed sale does when its lines name different products: every product's
  stock falls by the quantity the order sells of it, the ledger gains one SALE row per line in
  the order of the product ids, each referring to the order, the order is completed with the
  invoice number drawn for it, and the inventory cache is bumped after the commit.\<close>
theorem complete_effect:
  assumes "complete u now drawn pk d = Inr oc" "status_code (rsp oc) = 200"
    and "wf_sales d" "distinct (map soi_product (items_of_so pk d))"
  shows "(\<forall>i. stock_of (odb oc) i = map_option (\<lambda>n. n - sold_quantity d pk i) (stock_of d i))
    \<and> (\<exists>ts. transactions (odb oc) = transactions d @ ts
      \<and> map (\<lambda>t. (t_product t, t_quantity t, t_type t, t_reference t)) ts
        = map (\<lambda>x. (soi_product x, soi_quantity x, SALE, Some pk)) (sort_key soi_product (items_of_so pk d)))
    \<and> (\<exists>so. get_so pk (odb oc) = Some so \<and> so_status so = COMPLETED
      \<and> so_invoice_number so = Some (invoice_number_of drawn) \<and> so_invoiced_at so = Some now)
    \<and> ohooks oc = [BumpVersion ''inventory'']"
  by (intro conjI allI complete_effect_facts [OF assms])

lemma sample_complete:
  obtains oc where "complete sample_employee 5 200 50 sample_db = Inr oc" "status_code (rsp oc) = 200"
    "wf_sales sample_db" "distinct (map soi_product (items_of_so 50 sample_db))" "balanced sample_db"
proof -
  obtain oc where oc: "complete sample_employee 5 200 50 sample_db = Inr oc"
    by (cases "complete sample_employee 5 200 50 sample_db") (simp_all, code_simp)
  have "case complete sample_employee 5 200 50 sample_db of Inr oc \<Rightarrow> status_code (rsp oc) = 200 | _ \<Rightarrow> False"
    by code_simp
  moreover have "wf_sales sample_db" "distinct (map soi_product (items_of_so 50 sample_db))" "balanced sample_db"
    by code_simp+
  ultimately show thesis using oc that by simp
qed

theorem complete_effect_witness:
  "\<exists>oc. complete sample_employee 5 200 50 sample_db = Inr oc \<and> stock_of (odb oc) 20 = Some 6
     \<and> ohooks oc = [BumpVersion ''inventory'']"
proof -
  obtain oc where oc: "complete sample_employee 5 200 50 sample_db = Inr oc" "status_code (rsp oc) = 200"
    "wf_sales sample_db" "distinct (map soi_product (items_of_so 50 sample_db))" by (rule sample_complete)
  have "stock_of sample_db 20 = Some 10" "sold_quantity sample_db 50 20 = 4" by code_simp+
  with oc(1) complete_effect [OF oc] show ?thesis by auto
qed

text \<open>C11. Completing a sale is all or nothing: on an open order whose products exist, whose stock
  is an \<open>integer\<close> column's value and whose invoice number is new, the call answers 200 exactly
  when every line finds its quantity in stock; otherwise it answers 409 naming a line that does
  not, and writes nothing.\<close>
theorem complete_all_or_nothing:
  assumes "get_so pk d = Some so" "so_status so = CREATED" "wf_sales d"
    and "\<forall>x \<in> set (sales_orders d). so_invoice_number x \<noteq> Some (invoice_number_of drawn)"
    and "\<forall>item \<in> set (items_of_so pk d). \<exists>p. get_product (soi_product item) d = Some p
           \<and> fits_integer (p_current_stock p)"
  shows "if \<forall>item \<in> set (items_of_so pk d). \<exists>p. get_product (soi_product item) d = Some p
              \<and> soi_quantity item \<le> p_current_stock p
         then \<exists>oc. complete u now drawn pk d = Inr oc \<and> status_code (rsp oc) = 200
         else \<exists>item \<in> set (items_of_so pk d). \<exists>p. get_product (soi_product item) d = Some p
              \<and> p_current_stock p < soi_quantity item
              \<and> complete u now drawn pk d = Inr (answer (insufficient_stock p item) d)"
proof -
  let ?items = "sort_key soi_product (items_of_so pk d)"
  have id: "so_id so = pk" using get_row_SomeD(2) [OF assms(1)] .
  have ids: "distinct (map soi_id ?items)"
    using assms(3) by (simp add: wf_sales_def distinct_map_filter)
  show ?thesis
  proof (cases "\<forall>item \<in> set (items_of_so pk d). \<exists>p. get_product (soi_product item) d = Some p
              \<and> soi_quantity item \<le> p_current_stock p")
    case True
    obtain by_item where c: "check_lines ?items d Map.empty = Inr (Inr by_item)"
      using check_lines_complete [of ?items d Map.empty] True by auto
    have "\<exists>d'. deduct_line u now pk by_item item e = Inr d'" if "item \<in> set ?items" for item e
    proof -
      from that True obtain p where p: "get_product (soi_product item) d = Some p"
        "soi_quantity item \<le> p_current_stock p" by auto
      moreover have "1 \<le> soi_quantity item" using that assms(3) by (auto simp: wf_sales_def)
      moreover have "fits_integer (p_current_stock p)" using that assms(5) p(1) by auto
      ultimately have "fits_integer (p_current_stock p - soi_quantity item)" "fits_integer (soi_quantity item)"
        by (auto simp: fits_integer_def)
      then show ?thesis using check_lines_object [OF c ids that] p(1) by (simp add: deduct_line_Inr)
    qed
    then obtain d1 where d1: "foldE (deduct_line u now pk by_item) ?items d = Inr d1"
      using foldE_total [of ?items "deduct_line u now pk by_item" d] by blast
    have so1: "sales_orders d1 = sales_orders d" by (rule deduct_lines_frame(3) [OF d1])
    then obtain d2 where d2: "finish_complete now drawn so d1 = Inr d2"
      using assms(4) by (simp add: finish_complete_def Let_def)
    have "get_so pk d1 = Some so" using so1 assms(1) by simp
    from completed_order [OF d2 id this]
    have "status_code (so_refreshed 200 pk d2) = 200" by (simp add: so_refreshed_def)
    with True assms(1,2) c d1 d2 id show ?thesis by (simp add: complete_def Let_def)
  next
    case False
    have "\<exists>r. check_lines ?items d Map.empty = Inr r"
      by (rule check_lines_total) (use assms(5) in auto)
    then obtain r where r: "check_lines ?items d Map.empty = Inr r" by blast
    from False check_lines_all [of ?items d Map.empty] r obtain e where e: "r = Inl e"
      by (cases r) auto
    from check_lines_early r e obtain item p where "item \<in> set (items_of_so pk d)"
      "get_product (soi_product item) d = Some p" "p_current_stock p < soi_quantity item"
      "e = insufficient_stock p item" by fastforce
    with False assms(1,2) r e id show ?thesis by (auto simp: complete_def Let_def)
  qed
qed

theorem complete_all_or_nothing_witness:
  "(\<exists>oc. complete sample_employee 5 200 50 sample_db = Inr oc \<and> status_code (rsp oc) = 200)
   \<and> (\<exists>item \<in> set (items_of_so 50 short_db). \<exists>p. get_product (soi_product item) short_db = Some p
      \<and> complete sample_employee 5 200 50 short_db = Inr (answer (insufficient_stock p item) short_db))"
proof -
  have so: "get_so 50 sample_db = Some (sample_so 50 CREATED None)"
    "get_so 50 short_db = Some (sample_so 50 CREATED None)" by code_simp+
  have "invoice_number_of 200 \<noteq> ''INV-0''" by code_simp
  then have fresh: "\<forall>x \<in> set (sales_orders sample_db). so_invoice_number x \<noteq> Some (invoice_number_of 200)"
    "\<forall>x \<in> set (sales_orders short_db). so_invoice_number x \<noteq> Some (invoice_number_of 200)"
    by (auto simp: sample_defs)
  have lines: "items_of_so 50 sample_db = [sample_so_item 51 50 20 4, sample_so_item 52 50 21 1]"
    "items_of_so 50 short_db = [sample_so_item 51 50 20 4, sample_so_item 52 50 21 1]" by code_simp+
  have fits: "\<forall>item \<in> set (items_of_so 50 sample_db). \<exists>p. get_product (soi_product item) sample_db = Some p
      \<and> fits_integer (p_current_stock p)"
    "\<forall>item \<in> set (items_of_so 50 short_db). \<exists>p. get_product (soi_product item) short_db = Some p
      \<and> fits_integer (p_current_stock p)"
    unfolding lines by (simp_all add: sample_defs get_row_def fits_integer_def max_int32_def)
  have enough: "\<forall>item \<in> set (items_of_so 50 sample_db). \<exists>p. get_product (soi_product item) sample_db = Some p
      \<and> soi_quantity item \<le> p_current_stock p"
    "\<not> (\<forall>item \<in> set (items_of_so 50 short_db). \<exists>p. get_product (soi_product item) short_db = Some p
      \<and> soi_quantity item \<le> p_current_stock p)"
    unfolding lines by (simp_all add: sample_defs get_row_def)
  have wf: "wf_sales sample_db" "wf_sales short_db" by code_simp+
  have st: "so_status (sample_so 50 CREATED None) = CREATED" by (simp add: sample_defs)
  show ?thesis
    using complete_all_or_nothing [OF so(1) st wf(1) fresh(1) fits(1), of sample_employee 5] enough(1)
      complete_all_or_nothing [OF so(2) st wf(2) fresh(2) fits(2), of sample_employee 5]
    unfolding if_not_P [OF enough(2)] by auto
qed

text \<open>A sale is completed once: after a successful call every further call on the same order,
  by whoever and whenever, answers 409 and changes nothing.\<close>
theorem complete_once:
  assumes "complete u now drawn pk d = Inr oc" "status_code (rsp oc) = 200"
  shows "\<exists>oc'. complete u' now' drawn' pk (odb oc) = Inr oc' \<and> status_code (rsp oc') = 409
    \<and> odb oc' = odb oc \<and> ohooks oc' = []"
proof -
  from assms obtain so by_item d1 where c: "get_so pk d = Some so" "so_id so = pk"
      "foldE (deduct_line u now pk by_item) (sort_key soi_product (items_of_so pk d)) d = Inr d1"
      "finish_complete now drawn so d1 = Inr (odb oc)"
    by (rule complete_ok)
  have "get_so pk d1 = Some so" using deduct_lines_frame(3) [OF c(3)] c(1) by simp
  from complete_replay [OF completed_order [OF c(4,2) this]] show ?thesis by simp
qed

theorem complete_once_witness:
  "\<exists>oc oc'. complete sample_employee 5 200 50 sample_db = Inr oc
     \<and> complete sample_manager 6 201 50 (odb oc) = Inr oc' \<and> odb oc' = odb oc"
proof -
  obtain oc where oc: "complete sample_employee 5 200 50 sample_db = Inr oc" "status_code (rsp oc) = 200"
    by (rule sample_complete)
  from complete_once [OF oc, of sample_manager 6 201] oc(1) show ?thesis by blast
qed

end
