(* ===== verification/Server.thy ===== *)
theory Server
  imports Orders Movements Sales_Properties
begin

section \<open>Every request at once\<close>

text \<open>
  What holds of all the inventory endpoints together: refused requests change nothing, whatever
  moves stock or the ledger bumps the inventory cache, ledger rows are never changed or removed,
  and any sequence of requests keeps stock, ledger and return reservations consistent as long as
  no order names a product in two of its lines.
\<close>

subsection \<open>Refusals\<close>

definition refused :: "outcome \<Rightarrow> bool" where
  "refused oc \<longleftrightarrow> 400 \<le> status_code (rsp oc)"

lemma po_refreshed_found: "pk \<in> po_id ` set (purchase_orders d) \<Longrightarrow> status_code (po_refreshed 200 pk d) = 200"
  using get_row_None [of po_id pk "purchase_orders d"] by (cases "get_po pk d") (auto simp: po_refreshed_def)

lemma so_refreshed_found: "pk \<in> so_id ` set (sales_orders d) \<Longrightarrow> status_code (so_refreshed 200 pk d) = 200"
  using get_row_None [of so_id pk "sales_orders d"] by (cases "get_so pk d") (auto simp: so_refreshed_def)

lemma po_written_ids:
  "po_write_items now pdata po d = Inr d' \<Longrightarrow> purchase_orders d' = purchase_orders d"
  "po_id ` set (purchase_orders (po_write_supplier pdata po d)) = po_id ` set (purchase_orders d)"
proof -
  show "purchase_orders d' = purchase_orders d" if "po_write_items now pdata po d = Inr d'"
    using that by (cases "poin_items pdata") (auto simp: po_write_items_def dest!: insert_po_items(2))
  have "map po_id (purchase_orders (po_write_supplier pdata po d)) = map po_id (purchase_orders d)"
    by (cases "poin_supplier pdata")
      (simp_all add: po_write_supplier_def save_po_supplier_def update_row_keys del: map_map)
  then show "po_id ` set (purchase_orders (po_write_supplier pdata po d)) = po_id ` set (purchase_orders d)"
    by (metis list.set_map)
qed

lemma so_written_ids:
  "so_write_items now sdata so d = Inr d' \<Longrightarrow> sales_orders d' = sales_orders d"
  "save_so now so d = Inr d' \<Longrightarrow> so_id ` set (sales_orders d') = so_id ` set (sales_orders d)"
proof -
  show "sales_orders d' = sales_orders d" if "so_write_items now sdata so d = Inr d'"
    using that by (cases "soin_items sdata") (auto simp: so_write_items_def dest!: insert_so_items(2))
  show "so_id ` set (sales_orders d') = so_id ` set (sales_orders d)" if "save_so now so d = Inr d'"
  proof -
    have "map so_id (update_row so_id (so_id so) (\<lambda>_. so\<lparr>so_updated_at := now\<rparr>) (sales_orders d))
        = map so_id (sales_orders d)" by (auto simp: update_row_def)
    moreover have "sales_orders d' = update_row so_id (so_id so) (\<lambda>_. so\<lparr>so_updated_at := now\<rparr>) (sales_orders d)"
      using that by (auto simp: save_so_def bind_elims)
    ultimately have "set (map so_id (sales_orders d')) = set (map so_id (sales_orders d))"
      by (simp only:)
    then show ?thesis by simp
  qed
qed

lemma po_update_refused:
  assumes "po_update u now partial q pk data d = Inr oc" "refused oc"
  shows "odb oc = d \<and> ohooks oc = []"
proof -
  from assms(1) obtain po where po: "get_row po_id pk (po_queryset q d) = Some po"
    by (auto simp: po_update_def bind_elims)
  have mem: "po_id po \<in> po_id ` set (purchase_orders d)"
    using get_row_SomeD(1) [OF po] by (auto simp: po_queryset_def filter_date_range_def)
  show ?thesis
  proof (cases "po_status po = ORDERED")
    case True
    with assms(1) po obtain data' where w: "po_write_items now data' po (po_write_supplier data' po d) = Inr (odb oc)"
      "rsp oc = po_refreshed 200 (po_id po) (odb oc)" by (auto simp: po_update_def bind_elims)
    have "po_id po \<in> po_id ` set (purchase_orders (odb oc))"
      using po_written_ids(1) [OF w(1)] po_written_ids(2) mem by simp
    with w(2) assms(2) show ?thesis by (simp add: po_refreshed_found refused_def)
  qed (use assms(1) po in \<open>auto simp: po_update_def\<close>)
qed

lemma so_update_refused:
  assumes "so_update u now partial q pk data d = Inr oc" "refused oc"
  shows "odb oc = d \<and> ohooks oc = []"
proof -
  from assms(1) obtain so where so: "get_row so_id pk (so_queryset q d) = Some so"
    by (auto simp: so_update_def bind_elims)
  have mem: "so_id so \<in> so_id ` set (sales_orders d)"
    using get_row_SomeD(1) [OF so] by (auto simp: so_queryset_def filter_date_range_def)
  show ?thesis
  proof (cases "so_status so = CREATED")
    case True
    with assms(1) so obtain data' e where w: "save_so now (so_write_customer data' so) d = Inr e"
      "so_write_items now data' so e = Inr (odb oc)"
      "rsp oc = so_refreshed 200 (so_id so) (odb oc)" by (auto simp: so_update_def bind_elims)
    have "so_id so \<in> so_id ` set (sales_orders (odb oc))"
      using so_written_ids(1) [OF w(2)] so_written_ids(2) [OF w(1)] mem by simp
    with w(3) assms(2) show ?thesis by (simp add: so_refreshed_found refused_def)
  qed (use assms(1) so in \<open>auto simp: so_update_def\<close>)
qed

lemma receive_refused: "receive u now pk d = Inr oc \<Longrightarrow> refused oc \<Longrightarrow> odb oc = d \<and> ohooks oc = []"
proof (erule receive_cases)
  fix po d1
  assume po: "get_po pk d = Some po" and run: "foldE (receive_item u now pk) (sort_key poi_product (items_of_po pk d)) d = Inr d1"
    and oc: "odb oc = finish_receive now po d1" "rsp oc = po_refreshed 200 pk (odb oc)" and ref: "refused oc"
  have "get_po pk d1 = Some po" using receive_items_frame(1) [OF run] po by simp
  from received_order [OF this] oc have "status_code (rsp oc) = 200" by (simp add: po_refreshed_def)
  with ref show ?thesis by (simp add: refused_def)
qed simp

lemma complete_refused: "complete u now drawn pk d = Inr oc \<Longrightarrow> refused oc \<Longrightarrow> odb oc = d \<and> ohooks oc = []"
proof (erule complete_cases)
  fix so by_item d1
  assume so: "get_so pk d = Some so" "so_id so = pk"
    and run: "foldE (deduct_line u now pk by_item) (sort_key soi_product (items_of_so pk d)) d = Inr d1"
    and fin: "finish_complete now drawn so d1 = Inr (odb oc)"
    and oc: "rsp oc = so_refreshed 200 pk (odb oc)" and ref: "refused oc"
  have "get_so pk d1 = Some so" using deduct_lines_frame(3) [OF run] so by simp
  from completed_order [OF fin so(2) this] oc have "status_code (rsp oc) = 200" by (simp add: so_refreshed_def)
  with ref show ?thesis by (simp add: refused_def)
qed simp_all

lemma approve_refused: "approve u now pk d = Inr oc \<Longrightarrow> refused oc \<Longrightarrow> odb oc = d \<and> ohooks oc = []"
proof (erule approve_cases)
  fix r d1
  assume r: "get_return pk d = Some r" and run: "restock u now r d = Inr d1"
    and oc: "odb oc = save_return_approved u r d1" "rsp oc = return_refreshed 200 pk (odb oc)" and ref: "refused oc"
  have "get_return pk d1 = Some r" using restock_keeps_returns [OF run] r by simp
  from approved_return [OF this] oc have "status_code (rsp oc) = 200" by (simp add: return_refreshed_def)
  with ref show ?thesis by (simp add: refused_def)
qed simp

lemma creates_refused:
  "po_create u now pdata d = Inr oc \<Longrightarrow> refused oc \<Longrightarrow> odb oc = d \<and> ohooks oc = []"
  "so_create u now sdata d = Inr oc \<Longrightarrow> refused oc \<Longrightarrow> odb oc = d \<and> ohooks oc = []"
  "po_destroy pq pk d = Inr oc \<Longrightarrow> refused oc \<Longrightarrow> odb oc = d \<and> ohooks oc = []"
  "so_destroy sq pk d = Inr oc \<Longrightarrow> refused oc \<Longrightarrow> odb oc = d \<and> ohooks oc = []"
  "return_update sf pk d = Inr oc \<Longrightarrow> refused oc \<Longrightarrow> odb oc = d \<and> ohooks oc = []"
  "return_destroy sf pk d = Inr oc \<Longrightarrow> refused oc \<Longrightarrow> odb oc = d \<and> ohooks oc = []"
  by (auto simp: po_create_def so_create_def po_destroy_def so_destroy_def return_update_def
      return_destroy_def bind_elims Let_def refused_def)

lemma returns_refused:
  "damage u now ddata d = Inr oc \<Longrightarrow> refused oc \<Longrightarrow> odb oc = d \<and> ohooks oc = []"
proof (erule damage_cases)
  fix t assume "rsp oc = Response 201 (txn_body t)" "refused oc"
  then show ?thesis by (simp add: refused_def)
qed simp

lemma return_create_refused:
  "return_create u now rdata d = Inr oc \<Longrightarrow> refused oc \<Longrightarrow> odb oc = d \<and> ohooks oc = []"
  by (auto simp: return_create_def bind_elims Let_def refused_def split: if_splits)

lemma invoice_refused:
  "invoice rid task q pk d = Inr oc \<Longrightarrow> refused oc \<Longrightarrow> odb oc = d \<and> ohooks oc = []"
  by (auto simp: invoice_def bind_elims refused_def split: if_splits)

lemmas refusals = creates_refused po_update_refused so_update_refused receive_refused complete_refused
  approve_refused returns_refused return_create_refused invoice_refused

lemma request_refused: "view_of u now r d = Inr oc \<Longrightarrow> refused oc \<Longrightarrow> odb oc = d \<and> ohooks oc = []"
  by (cases r; simp only: view_of.simps; erule (1) refusals)

text \<open>C12. A refused request leaves no trace in the data: whenever an inventory endpoint answers with
  a 4xx or 5xx status, be it by an early return or by an exception half way through its
  writes, the database is what it was before and no commit callback has run.\<close>
theorem refused_requests_change_nothing:
  assumes "400 \<le> status_code (fst (serve u now r w))"
  shows "w_db (snd (serve u now r w)) = w_db w \<and> w_fired (snd (serve u now r w)) = w_fired w"
proof (cases "view_of u now r (w_db w)")
  case (Inl e)
  then show ?thesis by (simp add: serve_def run_view_def)
next
  case (Inr oc)
  with assms have "refused oc" by (simp add: serve_def run_view_def refused_def)
  with Inr request_refused [of u now r "w_db w" oc] show ?thesis by (simp add: serve_def run_view_def)
qed

theorem refused_requests_change_nothing_witness:
  "w_db (snd (serve sample_employee 5 (Complete 200 50) (sample_world short_db))) = short_db"
proof -
  have "400 \<le> status_code (fst (serve sample_employee 5 (Complete 200 50) (sample_world short_db)))" by code_simp
  from refused_requests_change_nothing [OF this] show ?thesis by (simp add: sample_world_def)
qed

subsection \<open>Cache invalidation\<close>

definition moves_stock :: "db \<Rightarrow> db \<Rightarrow> bool" where
  "moves_stock d d' \<longleftrightarrow> products d' \<noteq> products d \<or> transactions d' \<noteq> transactions d"

lemma written_items_keep_products:
  "po_write_items now pdata po d = Inr d' \<Longrightarrow> products d' = products d"
  "so_write_items now sdata so d = Inr d' \<Longrightarrow> products d' = products d"
  "products (po_write_supplier pdata po d) = products d"
  "save_so now so d = Inr d' \<Longrightarrow> products d' = products d"
  subgoal by (cases "poin_items pdata") (auto simp: po_write_items_def dest!: insert_po_items(2))
  subgoal by (cases "soin_items sdata") (auto simp: so_write_items_def dest!: insert_so_items(2))
  subgoal by (simp add: po_write_supplier_def save_po_supplier_def split: field.split)
  subgoal by (auto simp: save_so_def bind_elims)
  done

lemma order_writes_keep_products:
  "po_create u now pdata d = Inr oc \<Longrightarrow> products (odb oc) = products d"
  "po_update u now partial pq pk pdata d = Inr oc \<Longrightarrow> products (odb oc) = products d"
  "so_create u now sdata d = Inr oc \<Longrightarrow> products (odb oc) = products d"
  "so_update u now partial sq pk sdata d = Inr oc \<Longrightarrow> products (odb oc) = products d"
  "po_destroy pq pk d = Inr oc \<Longrightarrow> products (odb oc) = products d"
  "so_destroy sq pk d = Inr oc \<Longrightarrow> products (odb oc) = products d"
  "return_create u now rdata d = Inr oc \<Longrightarrow> products (odb oc) = products d"
  "return_update sf pk d = Inr oc \<Longrightarrow> products (odb oc) = products d"
  "return_destroy sf pk d = Inr oc \<Longrightarrow> products (odb oc) = products d"
  by (auto simp: po_create_def po_update_def so_create_def so_update_def bind_elims Let_def
      po_destroy_def so_destroy_def return_update_def return_destroy_def
      written_items_keep_products(3) dest!: written_items_keep_products(1,2,4) insert_po_items(2) insert_so_items(2)
      elim: return_create_cases split: if_splits)

lemma still_orders: "transactions d' = transactions d \<Longrightarrow> products d' = products d \<Longrightarrow> \<not> moves_stock d d'"
  by (simp add: moves_stock_def)

lemma mutation_hooks:
  "receive u now pk d = Inr oc \<Longrightarrow> odb oc \<noteq> d \<Longrightarrow> ohooks oc = [BumpVersion ''inventory'']"
  "complete u now drawn pk d = Inr oc \<Longrightarrow> odb oc \<noteq> d \<Longrightarrow> ohooks oc = [BumpVersion ''inventory'']"
  "approve u now pk d = Inr oc \<Longrightarrow> odb oc \<noteq> d \<Longrightarrow> ohooks oc = [BumpVersion ''inventory'']"
  "damage u now ddata d = Inr oc \<Longrightarrow> odb oc \<noteq> d \<Longrightarrow> ohooks oc = [BumpVersion ''inventory'']"
  by (erule receive_cases complete_cases approve_cases damage_cases; simp)+

lemma request_bumps:
  assumes "view_of u now r d = Inr oc" "moves_stock d (odb oc)"
  shows "ohooks oc = [BumpVersion ''inventory'']"
proof -
  have ne: "odb oc \<noteq> d" using assms(2) by (auto simp: moves_stock_def)
  show ?thesis
  proof (cases r)
    case (Invoice rid task q pk)
    with assms(1) ne invoice_same [of rid task q pk d oc] show ?thesis by simp
  qed (use assms ne mutation_hooks still_orders [of "odb oc" d] order_writes_keep_ledger order_deletes_keep_ledger
      order_writes_keep_products in \<open>simp_all only: view_of.simps, blast+\<close>)
qed

text \<open>No stale reports: a request that changes a product row or the ledger has the inventory
  cache version bumped, once, after its transaction has committed.\<close>
theorem stock_changes_bump_the_cache:
  assumes "moves_stock (w_db w) (w_db (snd (serve u now r w)))"
  shows "w_fired (snd (serve u now r w)) = w_fired w @ [BumpVersion ''inventory'']"
proof (cases "view_of u now r (w_db w)")
  case (Inl e)
  with assms show ?thesis by (simp add: serve_def run_view_def moves_stock_def)
next
  case (Inr oc)
  with assms request_bumps [OF Inr] show ?thesis by (simp add: serve_def run_view_def)
qed

theorem stock_changes_bump_the_cache_witness:
  "w_fired (snd (serve sample_manager 5 (Receive 40) (sample_world sample_db))) = [BumpVersion ''inventory'']"
proof -
  have "w_db (sample_world sample_db) = sample_db" by (simp add: sample_world_def)
  moreover have "length (transactions (w_db (snd (serve sample_manager 5 (Receive 40) (sample_world sample_db))))) = 5"
    by code_simp
  moreover have "length (transactions sample_db) = 3" by code_simp
  ultimately have "moves_stock (w_db (sample_world sample_db))
      (w_db (snd (serve sample_manager 5 (Receive 40) (sample_world sample_db))))"
    unfolding moves_stock_def by (intro disjI2 notI) simp
  from stock_changes_bump_the_cache [OF this] show ?thesis by (simp add: sample_world_def)
qed

subsection \<open>Sequences of requests\<close>

lemma served_requests_keep_the_books_facts:
  assumes "list_all (\<lambda>e. single_line_request (snd (snd e))) es" "inventory_inv (w_db w)"
  shows "balanced (w_db (fold after (take k es) w))" and "stock_nonneg (w_db (fold after (take k es) w))"
    and "returns_covered (w_db (fold after (take k es) w))" and "wf_tables (w_db (fold after (take k es) w))"
  using server.always_good [OF assms, of k] by (simp_all add: inventory_inv_def)

text \<open>Whatever sequence of requests of whatever users is served, as long as no request gives an
  order two lines for one product: at every point in between, stock equals the signed sum of the
  ledger for every product and is not negative, keys stay unique, and no product of an order has
  more pending and approved returns than the order sold.\<close>
theorem served_requests_keep_the_books:
  assumes "list_all (\<lambda>e. single_line_request (snd (snd e))) es" "inventory_inv (w_db w)"
  shows "balanced (w_db (fold after (take k es) w)) \<and> stock_nonneg (w_db (fold after (take k es) w))
    \<and> returns_covered (w_db (fold after (take k es) w)) \<and> wf_tables (w_db (fold after (take k es) w))"
  by (intro conjI served_requests_keep_the_books_facts [OF assms])

definition sample_events :: "event list" where
  "sample_events = [(sample_employee, 5, CreateSO sample_order_input), (sample_employee, 6, Complete 200 50),
     (sample_manager, 7, Receive 40), (sample_manager, 8, Approve 80), (sample_manager, 9, WriteOff (sample_damage 1))]"

theorem served_requests_keep_the_books_witness:
  "balanced (w_db (fold after sample_events (sample_world sample_db)))
   \<and> stock_of (w_db (fold after sample_events (sample_world sample_db))) 20 = Some 12"
proof -
  have "list_all (\<lambda>e. single_line_request (snd (snd e))) sample_events" by code_simp
  moreover have "inventory_inv (w_db (sample_world sample_db))"
    using sample_inventory_inv by (simp add: sample_world_def)
  ultimately have "balanced (w_db (fold after (take 5 sample_events) (sample_world sample_db)))"
    by (rule served_requests_keep_the_books [THEN conjunct1])
  moreover have "take 5 sample_events = sample_events" by (simp add: sample_events_def)
  moreover have "stock_of (w_db (fold after sample_events (sample_world sample_db))) 20 = Some 12" by code_simp
  ultimately show ?thesis by simp
qed

text \<open>The ledger is immutable: a row once written is still there, unchanged and at its place,
  after any further requests.\<close>
theorem ledger_rows_are_immutable:
  assumes "k < length (transactions (w_db w))"
  shows "transactions (w_db (fold after es w)) ! k = transactions (w_db w) ! k"
  using assms by (rule ledger.run_keeps_entry)

theorem ledger_rows_are_immutable_witness:
  "transactions (w_db (fold after sample_events (sample_world sample_db))) ! 1 = sample_txn 31 21 5 PURCHASE"
proof -
  have k: "1 < length (transactions (w_db (sample_world sample_db)))" by code_simp
  have "transactions (w_db (sample_world sample_db)) ! 1 = sample_txn 31 21 5 PURCHASE" by code_simp
  with ledger_rows_are_immutable [OF k, of sample_events] show ?thesis by simp
qed

end
