(* ===== verification/Concurrency.thy ===== *)
theory Concurrency
  imports Catalog Server Sales_Properties
begin

section \<open>Concurrent requests\<close>

text \<open>
  The completions of several sales orders at once, at the level of the row locks. Each thread is
  one request in its transaction: it goes through the lines of its order in product order,
  locking and reading a product row and checking its stock; a line that is short ends it; after
  the last line it writes all stocks from the values it read, books the lines and commits,
  which releases its locks. With \<open>INVENTORY_LOCKING_ENABLED\<close> off the reads take no locks.
  Writes become visible at the commit, which is what the database's read-committed isolation
  gives to other transactions.
\<close>

subsection \<open>The lock protocol of \<open>complete\<close>\<close>

type_synonym line = "uuid \<times> int"

text \<open>A running thread: the lines still to check, and the checked ones with the stock read.\<close>

datatype phase =
    Checking "line list" "(uuid \<times> int \<times> int) list"
  | Finished bool

record shop =
  stock :: "uuid \<Rightarrow> int"
  sold :: "uuid \<Rightarrow> int"
  owner :: "uuid \<Rightarrow> nat option"
  threads :: "nat \<Rightarrow> phase"

definition may_read :: "bool \<Rightarrow> shop \<Rightarrow> nat \<Rightarrow> uuid \<Rightarrow> bool" where
  "may_read locking s t p \<longleftrightarrow> \<not> locking \<or> owner s p = None \<or> owner s p = Some t"

definition release :: "nat \<Rightarrow> (uuid \<Rightarrow> nat option) \<Rightarrow> uuid \<Rightarrow> nat option" where
  "release t own = (\<lambda>p. if own p = Some t then None else own p)"

fun write_stocks :: "(uuid \<times> int \<times> int) list \<Rightarrow> (uuid \<Rightarrow> int) \<Rightarrow> uuid \<Rightarrow> int" where
  "write_stocks [] st = st"
| "write_stocks ((p, q, n) # xs) st = write_stocks xs (st(p := n - q))"

fun book_lines :: "(uuid \<times> int \<times> int) list \<Rightarrow> (uuid \<Rightarrow> int) \<Rightarrow> uuid \<Rightarrow> int" where
  "book_lines [] f = f"
| "book_lines ((p, q, n) # xs) f = book_lines xs (f(p := f p + q))"

inductive shop_step :: "bool \<Rightarrow> shop \<Rightarrow> shop \<Rightarrow> bool" for locking :: bool where
  check: "threads s t = Checking ((p, q) # todo) seen \<Longrightarrow> may_read locking s t p \<Longrightarrow> q \<le> stock s p \<Longrightarrow>
    shop_step locking s (s\<lparr>owner := (if locking then (owner s)(p \<mapsto> t) else owner s),
      threads := (threads s)(t := Checking todo (seen @ [(p, q, stock s p)]))\<rparr>)"
| short: "threads s t = Checking ((p, q) # todo) seen \<Longrightarrow> may_read locking s t p \<Longrightarrow> stock s p < q \<Longrightarrow>
    shop_step locking s (s\<lparr>owner := release t (owner s), threads := (threads s)(t := Finished False)\<rparr>)"
| commit: "threads s t = Checking [] seen \<Longrightarrow>
    shop_step locking s (s\<lparr>stock := write_stocks seen (stock s), sold := book_lines seen (sold s),
      owner := release t (owner s), threads := (threads s)(t := Finished True)\<rparr>)"

text \<open>The orders of the threads in \<open>T\<close> start together, on a shop with the stock \<open>init\<close>.\<close>

definition open_shop :: "(uuid \<Rightarrow> int) \<Rightarrow> nat set \<Rightarrow> (nat \<Rightarrow> line list) \<Rightarrow> shop" where
  "open_shop init T orders = \<lparr>stock = init, sold = (\<lambda>_. 0), owner = (\<lambda>_. None),
     threads = (\<lambda>t. if t \<in> T then Checking (orders t) [] else Finished False)\<rparr>"

inductive shop_reachable :: "bool \<Rightarrow> shop \<Rightarrow> shop \<Rightarrow> bool" for locking :: bool and s0 :: shop where
  start: "shop_reachable locking s0 s0"
| advance: "shop_reachable locking s0 s \<Longrightarrow> shop_step locking s s' \<Longrightarrow> shop_reachable locking s0 s'"

text \<open>The step of one thread as a function, and a schedule of steps; no step when the thread has to
  wait for a lock or is finished.\<close>

definition shop_next :: "bool \<Rightarrow> nat \<Rightarrow> shop \<Rightarrow> shop option" where
  "shop_next locking t s = (case threads s t of
     Finished b \<Rightarrow> None
   | Checking [] seen \<Rightarrow> Some (s\<lparr>stock := write_stocks seen (stock s), sold := book_lines seen (sold s),
       owner := release t (owner s), threads := (threads s)(t := Finished True)\<rparr>)
   | Checking ((p, q) # todo) seen \<Rightarrow>
       if \<not> may_read locking s t p then None
       else if q \<le> stock s p
       then Some (s\<lparr>owner := (if locking then (owner s)(p \<mapsto> t) else owner s),
         threads := (threads s)(t := Checking todo (seen @ [(p, q, stock s p)]))\<rparr>)
       else Some (s\<lparr>owner := release t (owner s), threads := (threads s)(t := Finished False)\<rparr>))"

fun run_shop :: "bool \<Rightarrow> nat list \<Rightarrow> shop \<Rightarrow> shop option" where
  "run_shop locking [] s = Some s"
| "run_shop locking (t # ts) s = (case shop_next locking t s of None \<Rightarrow> None | Some s' \<Rightarrow> run_shop locking ts s')"

lemma shop_next_step:
  assumes "shop_next locking t s = Some s'"
  shows "shop_step locking s s'"
proof (cases "threads s t")
  case (Checking todo seen)
  show ?thesis
  proof (cases todo)
    case Nil
    with Checking assms shop_step.commit [of s t seen locking] show ?thesis by (simp add: shop_next_def)
  next
    case (Cons l rest)
    obtain p q where l: "l = (p, q)" by (cases l)
    with Cons Checking assms have m: "may_read locking s t p" by (simp add: shop_next_def split: if_splits)
    show ?thesis
    proof (cases "q \<le> stock s p")
      case True
      with shop_step.check [of s t p q rest seen locking] m Cons Checking l assms show ?thesis
        by (simp add: shop_next_def)
    next
      case False
      with shop_step.short [of s t p q rest seen locking] m Cons Checking l assms show ?thesis
        by (simp add: shop_next_def)
    qed
  qed
qed (use assms in \<open>simp add: shop_next_def\<close>)

lemma run_shop_reachable: "run_shop locking ts s = Some s' \<Longrightarrow> shop_reachable locking s0 s \<Longrightarrow> shop_reachable locking s0 s'"
proof (induction ts arbitrary: s)
  case (Cons t ts)
  then obtain s1 where s1: "shop_next locking t s = Some s1" "run_shop locking ts s1 = Some s'"
    by (auto split: option.splits)
  show ?case
    by (rule Cons.IH [OF s1(2) shop_reachable.advance [OF Cons.prems(2) shop_next_step [OF s1(1)]]])
qed simp

lemmas scheduled = run_shop_reachable [OF _ shop_reachable.start]

inductive_cases shop_stepE: "shop_step locking s s'"

subsection \<open>What the locks keep\<close>

text \<open>A thread owns the rows of the lines it has checked, and what it read is still there.\<close>

fun phase_ok :: "shop \<Rightarrow> nat \<Rightarrow> phase \<Rightarrow> bool" where
  "phase_ok s t (Finished b) = (\<forall>p. owner s p \<noteq> Some t)"
| "phase_ok s t (Checking todo seen) \<longleftrightarrow>
     sorted (map fst seen @ map fst todo) \<and> distinct (map fst seen @ map fst todo)
   \<and> (\<forall>p q n. (p, q, n) \<in> set seen \<longrightarrow> owner s p = Some t \<and> n = stock s p \<and> q \<le> n)
   \<and> (\<forall>p. owner s p = Some t \<longrightarrow> p \<in> fst ` set seen)"

definition shop_inv :: "(uuid \<Rightarrow> int) \<Rightarrow> shop \<Rightarrow> bool" where
  "shop_inv init s \<longleftrightarrow> (\<forall>t. phase_ok s t (threads s t)) \<and> (\<forall>p. stock s p = init p - sold s p \<and> 0 \<le> stock s p)"

lemma shop_inv_levels: "shop_inv init s \<Longrightarrow> stock s p = init p - sold s p \<and> 0 \<le> stock s p"
  unfolding shop_inv_def by blast

lemma phase_ok_other:
  assumes "phase_ok s t ph"
    and "\<And>p. owner s' p = Some t \<longleftrightarrow> owner s p = Some t"
    "\<And>p. owner s p = Some t \<Longrightarrow> stock s' p = stock s p"
  shows "phase_ok s' t ph"
  using assms by (cases ph) auto

lemma write_stocks_at:
  "distinct (map fst xs) \<Longrightarrow> write_stocks xs st p = (case map_of xs p of Some (q, n) \<Rightarrow> n - q | None \<Rightarrow> st p)"
proof (induction xs arbitrary: st)
  case (Cons x xs)
  obtain p' q n where x: "x = (p', q, n)" by (cases x)
  have "map_of xs p' = None" using Cons.prems x by (simp add: map_of_eq_None_iff)
  with Cons x show ?case by (cases "p = p'") (simp_all split: option.split)
qed simp

lemma book_lines_at:
  "distinct (map fst xs) \<Longrightarrow> book_lines xs f p = f p + (case map_of xs p of Some (q, n) \<Rightarrow> q | None \<Rightarrow> 0)"
proof (induction xs arbitrary: f)
  case (Cons x xs)
  obtain p' q n where x: "x = (p', q, n)" by (cases x)
  have "map_of xs p' = None" using Cons.prems x by (simp add: map_of_eq_None_iff)
  with Cons x show ?case by (cases "p = p'") (simp_all split: option.split)
qed simp

lemma shop_inv_check:
  assumes inv: "shop_inv init s" and t: "threads s t = Checking ((p, q) # todo) seen"
    and free: "may_read True s t p" and le: "q \<le> stock s p"
  shows "shop_inv init (s\<lparr>owner := (owner s)(p \<mapsto> t),
      threads := (threads s)(t := Checking todo (seen @ [(p, q, stock s p)]))\<rparr>)"
proof -
  let ?s = "s\<lparr>owner := (owner s)(p \<mapsto> t), threads := (threads s)(t := Checking todo (seen @ [(p, q, stock s p)]))\<rparr>"
  have ok: "phase_ok s t (Checking ((p, q) # todo) seen)" using inv t by (metis shop_inv_def)
  then have p: "p \<notin> fst ` set seen" by auto
  have "phase_ok ?s u (threads ?s u)" for u
  proof (cases "u = t")
    case True
    with ok le show ?thesis by auto
  next
    case False
    with free have "owner s p \<noteq> Some u" by (auto simp: may_read_def)
    moreover have "phase_ok s u (threads s u)" using inv by (simp add: shop_inv_def)
    ultimately show ?thesis using False by (auto elim!: phase_ok_other split: if_splits)
  qed
  moreover have "stock ?s p = init p - sold ?s p \<and> 0 \<le> stock ?s p" for p
    using shop_inv_levels [OF inv, of p] by simp
  ultimately show ?thesis unfolding shop_inv_def by blast
qed

lemma release_owner: "release t own p = Some u \<longleftrightarrow> own p = Some u \<and> u \<noteq> t"
  by (auto simp: release_def)

lemma shop_inv_finish:
  assumes inv: "shop_inv init s"
    and levels: "\<And>p. stock s' p = init p - sold s' p \<and> 0 \<le> stock s' p"
    and same: "\<And>p u. owner s p = Some u \<Longrightarrow> u \<noteq> t \<Longrightarrow> stock s' p = stock s p"
    and s': "owner s' = release t (owner s)" "threads s' = (threads s)(t := Finished b)"
  shows "shop_inv init s'"
proof -
  have "phase_ok s' u (threads s' u)" for u
  proof (cases "u = t")
    case True
    with s' show ?thesis by (simp add: release_owner)
  next
    case False
    moreover have "phase_ok s u (threads s u)" using inv by (simp add: shop_inv_def)
    ultimately show ?thesis using s' same by (auto simp: release_owner elim!: phase_ok_other)
  qed
  with levels show ?thesis unfolding shop_inv_def by blast
qed

lemma shop_inv_step:
  assumes "shop_step True s s'" "shop_inv init s"
  shows "shop_inv init s'"
  using assms(1)
proof (cases rule: shop_step.cases)
  case (check t p q todo seen)
  with shop_inv_check [OF assms(2)] show ?thesis by simp
next
  case (short t p q todo seen)
  have lv: "stock s p = init p - sold s p \<and> 0 \<le> stock s p" for p by (rule shop_inv_levels [OF assms(2)])
  show ?thesis
  proof (rule shop_inv_finish [OF assms(2), where t = t and b = False])
    show "stock s' p = init p - sold s' p \<and> 0 \<le> stock s' p" for p using lv [of p] by (simp add: short)
  qed (simp_all add: short)
next
  case (commit t seen)
  have ok: "phase_ok s t (Checking [] seen)" using assms(2) commit by (metis shop_inv_def)
  then have d: "distinct (map fst seen)" by simp
  have entry: "owner s p = Some t \<and> n = stock s p \<and> q \<le> n" if "map_of seen p = Some (q, n)" for p q n
    using ok map_of_SomeD [OF that] by simp
  have lv: "stock s p = init p - sold s p \<and> 0 \<le> stock s p" for p by (rule shop_inv_levels [OF assms(2)])
  show ?thesis
  proof (rule shop_inv_finish [OF assms(2), where t = t and b = True])
    show "stock s' p = init p - sold s' p \<and> 0 \<le> stock s' p" for p
      using lv [of p] entry [of p]
      by (auto simp: commit write_stocks_at [OF d] book_lines_at [OF d] split: option.split)
    show "stock s' p = stock s p" if "owner s p = Some u" "u \<noteq> t" for p u
      using that entry [of p] by (auto simp: commit write_stocks_at [OF d] split: option.split)
  qed (simp_all add: commit)
qed

definition proper_orders :: "nat set \<Rightarrow> (nat \<Rightarrow> line list) \<Rightarrow> bool" where
  "proper_orders T orders \<longleftrightarrow> (\<forall>t \<in> T. sorted (map fst (orders t)) \<and> distinct (map fst (orders t)))"

lemma shop_inv_reachable:
  assumes "shop_reachable True (open_shop init T orders) s" "proper_orders T orders" "\<And>p. 0 \<le> init p"
  shows "shop_inv init s"
  using assms(1)
proof (induction rule: shop_reachable.induct)
  case start
  show ?case using assms(2,3) by (auto simp: shop_inv_def open_shop_def proper_orders_def)
next
  case (advance s s')
  then show ?case using shop_inv_step by blast
qed

text \<open>\<open>locking_kill_switch_guard\<close> of \<open>apps/core/checks.py\<close>: the ids of the errors that stop the
  deployment.\<close>

definition locking_kill_switch_guard :: "bool \<Rightarrow> bool \<Rightarrow> string list" where
  "locking_kill_switch_guard locking debug = (if locking \<or> debug then [] else [''core.E001''])"

text \<open>A deployment that passes the system check and does not run in debug mode never oversells:
  however the completions of orders without repeated products interleave, every product's stock
  is what it was at the start less everything booked as sold, and not negative.\<close>
theorem deployed_shops_never_oversell:
  assumes "locking_kill_switch_guard locking False = []"
    and "shop_reachable locking (open_shop init T orders) s" "proper_orders T orders" "\<And>p. 0 \<le> init p"
  shows "stock s p = init p - sold s p \<and> 0 \<le> stock s p"
proof -
  have "locking" using assms(1) by (simp add: locking_kill_switch_guard_def split: if_splits)
  with assms(2) have "shop_reachable True (open_shop init T orders) s" by simp
  then have "shop_inv init s" by (rule shop_inv_reachable [OF _ assms(3,4)])
  then show ?thesis unfolding shop_inv_def by blast
qed

text \<open>Two orders that share a product: the second one waits for the first to commit.\<close>

definition two_orders :: "nat \<Rightarrow> line list" where
  "two_orders t = (if t = 0 then [(20, 6), (21, 1)] else [(20, 6)])"

lemma two_orders_proper: "proper_orders {0, 1} two_orders"
  by (simp add: proper_orders_def two_orders_def)

theorem deployed_shops_never_oversell_witness:
  "\<exists>s. run_shop True [0, 0, 0, 1] (open_shop (\<lambda>_. 10) {0, 1} two_orders) = Some s
     \<and> threads s 0 = Finished True \<and> threads s 1 = Finished False \<and> stock s 20 = 4 \<and> sold s 20 = 6"
proof -
  let ?s0 = "open_shop (\<lambda>_. 10) {0, 1} two_orders"
  obtain s where s: "run_shop True [0, 0, 0, 1] ?s0 = Some s" "threads s 0 = Finished True"
      "threads s 1 = Finished False" "stock s 20 = 4"
    by (simp add: open_shop_def two_orders_def shop_next_def may_read_def release_def)
  have "locking_kill_switch_guard True False = []" by (simp add: locking_kill_switch_guard_def)
  then have "stock s 20 = 10 - sold s 20 \<and> 0 \<le> stock s 20"
    by (rule deployed_shops_never_oversell [OF _ scheduled [OF s(1)] two_orders_proper]) simp
  with s show ?thesis by auto
qed

text \<open>Without the locks the same two requests oversell: a reachable state of the unlocked
  protocol has both orders completed and more booked as sold than the shop ever had, with a
  stock that does not show it.\<close>
theorem unlocked_shops_oversell:
  "\<exists>s. shop_reachable False (open_shop (\<lambda>_. 10) {0, 1} (\<lambda>_. [(20, 6)])) s
     \<and> threads s 0 = Finished True \<and> threads s 1 = Finished True \<and> sold s 20 = 12 \<and> stock s 20 = 4"
proof -
  let ?s0 = "open_shop (\<lambda>_. 10) {0, 1} (\<lambda>_. [(20, 6)])"
  obtain s where "run_shop False [0, 1, 0, 1] ?s0 = Some s" "threads s 0 = Finished True"
      "threads s 1 = Finished True" "sold s 20 = 12" "stock s 20 = 4"
    by (simp add: open_shop_def shop_next_def may_read_def release_def)
  with scheduled show ?thesis by blast
qed

subsection \<open>No deadlock\<close>

lemma idle_threads:
  "shop_reachable locking (open_shop init T orders) s \<Longrightarrow> t \<notin> T \<Longrightarrow> threads s t = Finished False"
proof (induction rule: shop_reachable.induct)
  case start
  then show ?case by (simp add: open_shop_def)
next
  case (advance s s')
  from advance.hyps(2) advance.IH [OF advance.prems] show ?case by (cases rule: shop_stepE) auto
qed

lemma waiting_thread:
  assumes "shop_inv init s" "\<nexists>s'. shop_step True s s'" "threads s t = Checking todo seen"
  obtains p q rest t' p' q' rest' seen' where "todo = (p, q) # rest"
    "threads s t' = Checking ((p', q') # rest') seen'" "p < p'"
proof -
  have head: "\<exists>p q rest t'. todo = (p, q) # rest \<and> owner s p = Some t' \<and> t' \<noteq> t"
    if t: "threads s t = Checking todo seen" for t todo seen
  proof (cases todo)
    case Nil
    with t shop_step.commit [of s t seen True] assms(2) show ?thesis by blast
  next
    case (Cons x rest)
    obtain p q where x: "x = (p, q)" by (cases x)
    have "\<not> may_read True s t p"
    proof
      assume m: "may_read True s t p"
      show False
      proof (cases "q \<le> stock s p")
        case True
        with shop_step.check [of s t p q rest seen True] t Cons x m assms(2) show False by blast
      next
        case False
        with shop_step.short [of s t p q rest seen True] t Cons x m assms(2) show False by (simp add: not_le)
      qed
    qed
    with Cons x show ?thesis by (auto simp: may_read_def)
  qed
  from head [OF assms(3)] obtain p q rest t' where todo: "todo = (p, q) # rest" and own: "owner s p = Some t'"
    by blast
  have ok: "phase_ok s t' (threads s t')" using assms(1) by (simp add: shop_inv_def)
  show thesis
  proof (cases "threads s t'")
    case (Finished b)
    with ok own show thesis by simp
  next
    case (Checking todo' seen')
    from head [OF this] obtain p' q' rest' where todo': "todo' = (p', q') # rest'" by blast
    from ok Checking own have "p \<in> fst ` set seen'" by simp
    with ok Checking todo' have "p \<le> p'" "p \<noteq> p'" by (auto simp: sorted_append)
    with that [OF todo] Checking todo' show thesis by simp
  qed
qed

text \<open>Locking in product order cannot deadlock: as long as some completion is not finished, some
  completion can take its next step.\<close>
theorem ordered_locks_never_deadlock:
  assumes "shop_reachable True (open_shop init T orders) s" "proper_orders T orders" "\<And>p. 0 \<le> init p"
    and "finite T" "threads s t = Checking todo seen"
  shows "\<exists>s'. shop_step True s s'"
proof (rule ccontr)
  assume stuck: "\<nexists>s'. shop_step True s s'"
  have inv: "shop_inv init s" by (rule shop_inv_reachable [OF assms(1-3)])
  define A where "A = {t. \<exists>todo seen. threads s t = Checking todo seen}"
  define w where "w t = (case threads s t of Checking ((p, q) # todo) seen \<Rightarrow> p | _ \<Rightarrow> 0)" for t
  have "A \<subseteq> T" using idle_threads [OF assms(1)] by (force simp: A_def)
  then have A: "finite A" "A \<noteq> {}" using assms(4,5) by (auto simp: A_def intro: finite_subset)
  have wait: "\<exists>t' \<in> A. w t < w t'" if "t \<in> A" for t
  proof -
    from that obtain todo seen where "threads s t = Checking todo seen" by (auto simp: A_def)
    with waiting_thread [OF inv stuck] obtain p q rest t' p' q' rest' seen'
      where t: "threads s t = Checking ((p, q) # rest) seen"
        and t': "threads s t' = Checking ((p', q') # rest') seen'" and less: "p < p'" by metis
    have "t' \<in> A" using t' by (simp add: A_def)
    moreover have "w t < w t'" using t t' less by (simp add: w_def)
    ultimately show ?thesis by blast
  qed
  have "Max (w ` A) \<in> w ` A" using A by simp
  then obtain t where "t \<in> A" "w t = Max (w ` A)" by auto
  from wait [OF this(1)] obtain t' where "t' \<in> A" "w t < w t'" by blast
  with A(1) \<open>w t = Max (w ` A)\<close> show False by (metis Max_ge finite_imageI image_eqI leD)
qed

theorem ordered_locks_never_deadlock_witness:
  "\<exists>s s'. run_shop True [0] (open_shop (\<lambda>_. 10) {0, 1} two_orders) = Some s
     \<and> shop_next True 1 s = None \<and> shop_step True s s'"
proof -
  let ?s0 = "open_shop (\<lambda>_. 10) {0, 1} two_orders"
  obtain s where s: "run_shop True [0] ?s0 = Some s" "shop_next True 1 s = None"
      "threads s 0 = Checking [(21, 1)] [(20, 6, 10)]"
    by (simp add: open_shop_def two_orders_def shop_next_def may_read_def release_def)
  then have "\<exists>s'. shop_step True s s'"
    by (intro ordered_locks_never_deadlock [OF scheduled [OF s(1)] two_orders_proper _ _ s(3)]) simp_all
  with s show ?thesis by blast
qed

subsection \<open>The protocol and the program\<close>

text \<open>The stock of a product and the lines of an order, as the protocol sees them.\<close>

definition shelf :: "db \<Rightarrow> uuid \<Rightarrow> int" where
  "shelf d p = (case stock_of d p of None \<Rightarrow> 0 | Some n \<Rightarrow> n)"

definition lines_of :: "db \<Rightarrow> uuid \<Rightarrow> line list" where
  "lines_of d pk = map (\<lambda>x. (soi_product x, soi_quantity x)) (sort_key soi_product (items_of_so pk d))"

lemma write_stocks_read:
  "write_stocks (map (\<lambda>(p, q). (p, q, N p)) ls) st p =
     (case filter (\<lambda>l. fst l = p) ls of [] \<Rightarrow> st p | xs \<Rightarrow> N p - snd (last xs))"
proof (induction ls arbitrary: st)
  case (Cons l ls)
  then show ?case by (cases l) (auto split: list.splits)
qed simp

lemma thread_checks:
  assumes "threads s t = Checking todo seen" "shop_reachable locking s0 s"
    and "\<And>p u. owner s p = Some u \<Longrightarrow> u = t" "\<And>p q. (p, q) \<in> set todo \<Longrightarrow> q \<le> stock s p"
  shows "\<exists>s'. shop_reachable locking s0 s' \<and> stock s' = stock s
    \<and> threads s' t = Checking [] (seen @ map (\<lambda>(p, q). (p, q, stock s p)) todo)"
  using assms
proof (induction todo arbitrary: s seen)
  case Nil
  then show ?case by auto
next
  case (Cons l todo)
  obtain p q where l: "l = (p, q)" by (cases l)
  let ?s = "s\<lparr>owner := (if locking then (owner s)(p \<mapsto> t) else owner s),
      threads := (threads s)(t := Checking todo (seen @ [(p, q, stock s p)]))\<rparr>"
  have "may_read locking s t p" using Cons.prems(3) [of p] by (cases "owner s p") (auto simp: may_read_def)
  then have "shop_step locking s ?s"
    using Cons.prems(1) Cons.prems(4) [of p q] l by (intro shop_step.check) simp_all
  then have r: "shop_reachable locking s0 ?s" by (rule shop_reachable.advance [OF Cons.prems(2)])
  have "\<exists>s'. shop_reachable locking s0 s' \<and> stock s' = stock ?s
    \<and> threads s' t = Checking [] ((seen @ [(p, q, stock s p)]) @ map (\<lambda>(p, q). (p, q, stock ?s p)) todo)"
    using Cons.prems(3,4) by (intro Cons.IH [OF _ r]) (auto split: if_splits)
  then show ?case using l by simp
qed

text \<open>The lock protocol is what \<open>complete\<close> does: when \<open>complete\<close> sells an order, a thread of
  the protocol with the order's lines, started on the stock of the same database, reaches its
  commit, and leaves the stock of every product as \<open>complete\<close> leaves it.\<close>
theorem complete_refines_the_protocol:
  assumes "complete u now drawn pk d = Inr oc" "status_code (rsp oc) = 200" "wf_sales d"
  shows "\<exists>s. shop_reachable locking (open_shop (shelf d) {t} (\<lambda>_. lines_of d pk)) s
    \<and> threads s t = Finished True \<and> stock s = shelf (odb oc)"
proof -
  from assms(1,2) obtain so by_item d1 where c: "get_so pk d = Some so" "so_id so = pk"
      "check_lines (sort_key soi_product (items_of_so pk d)) d Map.empty = Inr (Inr by_item)"
      "foldE (deduct_line u now pk by_item) (sort_key soi_product (items_of_so pk d)) d = Inr d1"
      "finish_complete now drawn so d1 = Inr (odb oc)"
    by (rule complete_ok)
  have ids: "distinct (map soi_id (so_items d))" using assms(3) by (simp add: wf_sales_def)
  note lv = complete_levels [OF c ids]
  let ?s0 = "open_shop (shelf d) {t} (\<lambda>_. lines_of d pk)"
  let ?seen = "map (\<lambda>(p, q). (p, q, shelf d p)) (lines_of d pk)"
  have enough: "q \<le> shelf d p" if "(p, q) \<in> set (lines_of d pk)" for p q
    using that lv(3) by (fastforce simp: lines_of_def shelf_def)
  have "\<exists>s'. shop_reachable locking ?s0 s' \<and> stock s' = stock ?s0
    \<and> threads s' t = Checking [] ([] @ map (\<lambda>(p, q). (p, q, stock ?s0 p)) (lines_of d pk))"
    using enough by (intro thread_checks [OF _ shop_reachable.start]) (auto simp: open_shop_def)
  then obtain s where s: "shop_reachable locking ?s0 s" "stock s = shelf d" "threads s t = Checking [] ?seen"
    by (auto simp: open_shop_def)
  have of: "filter (\<lambda>l. fst l = i) (lines_of d pk)
      = map (\<lambda>x. (soi_product x, soi_quantity x)) (filter (\<lambda>x. soi_product x = i) (items_of_so pk d))" for i
    by (simp add: lines_of_def filter_map o_def sort_key_stable)
  have "write_stocks ?seen (shelf d) i = shelf (odb oc) i" for i
  proof (cases "filter (\<lambda>x. soi_product x = i) (items_of_so pk d)")
    case Nil
    then show ?thesis using lv(1) [of i] by (simp add: write_stocks_read of shelf_def)
  next
    case (Cons x xs)
    then have "x \<in> set (filter (\<lambda>x. soi_product x = i) (items_of_so pk d))" by simp
    then obtain n where "stock_of d i = Some n" using lv(3) [of x] by auto
    with Cons lv(1) [of i] show ?thesis by (simp add: write_stocks_read of shelf_def last_map)
  qed
  then have w: "write_stocks ?seen (stock s) = shelf (odb oc)" using s(2) by auto
  show ?thesis
    using shop_reachable.advance [OF s(1) shop_step.commit [OF s(3)]] w
    by (intro exI conjI) (assumption, simp_all)
qed

theorem complete_refines_the_protocol_witness:
  "\<exists>oc s. complete sample_employee 5 200 50 sample_db = Inr oc
     \<and> shop_reachable True (open_shop (shelf sample_db) {0} (\<lambda>_. lines_of sample_db 50)) s
     \<and> stock s = shelf (odb oc)"
proof -
  obtain oc where oc: "complete sample_employee 5 200 50 sample_db = Inr oc"
    by (cases "complete sample_employee 5 200 50 sample_db") (simp_all, code_simp)
  have "case complete sample_employee 5 200 50 sample_db of Inr oc \<Rightarrow> status_code (rsp oc) = 200 | _ \<Rightarrow> False"
    by code_simp
  with oc have ok: "status_code (rsp oc) = 200" by simp
  have "wf_sales sample_db" by code_simp
  from complete_refines_the_protocol [OF oc ok this, of True 0] oc show ?thesis by blast
qed

subsection \<open>Full-row saves that race a sale\<close>

text \<open>
  \<open>ProductViewSet.update\<close> and \<open>SalesOrderViewSet.update\<close> read their row without a lock and save
  every column of the object. Their write halves as functions of the object that was read, so
  that another transaction can run between the two halves.
\<close>

definition product_write :: "time \<Rightarrow> product_input \<Rightarrow> product \<Rightarrow> db \<Rightarrow> db" where
  "product_write now data p d = d\<lparr>products :=
     update_row p_id (p_id p) (\<lambda>_. product_apply now data p) (products d)\<rparr>"

definition so_write :: "time \<Rightarrow> so_input \<Rightarrow> sales_order \<Rightarrow> db \<Rightarrow> exn + db" where
  "so_write now data so d = bindE (save_so now (so_write_customer data so) d) (so_write_items now data so)"

lemma product_update_is_product_write:
  assumes "product_update now partial pk data d = Inr oc"
  shows "\<exists>p. get_row p_id pk (product_queryset d) = Some p \<and> odb oc = product_write now data p d"
  using assms by (auto simp: product_update_def product_write_def bind_elims Let_def dest: get_row_SomeD(2))

lemma so_update_is_so_write:
  assumes "so_update u now partial q pk data d = Inr oc" "status_code (rsp oc) = 200"
  shows "\<exists>so data'. get_row so_id pk (so_queryset q d) = Some so \<and> so_status so = CREATED
    \<and> so_validate d partial data = Inr data' \<and> so_write now data' so d = Inr (odb oc)"
  using assms by (auto simp: so_update_def so_write_def bind_elims split: if_splits)

lemma sold_nothing_iff:
  assumes "wf_sales d"
  shows "sold_quantity d pk i = 0 \<longleftrightarrow> i \<notin> soi_product ` set (items_of_so pk d)"
proof -
  let ?xs = "filter (\<lambda>x. soi_product x = i) (items_of_so pk d)"
  have q: "1 \<le> soi_quantity x" if "x \<in> set ?xs" for x using assms that by (auto simp: wf_sales_def)
  show ?thesis
  proof (cases "?xs = []")
    case True
    moreover from this have "i \<notin> soi_product ` set (items_of_so pk d)" by (auto simp: filter_empty_conv)
    ultimately show ?thesis by (simp add: sold_quantity_def)
  next
    case False
    then have last: "last ?xs \<in> set ?xs" by (rule last_in_set)
    then have "1 \<le> soi_quantity (last ?xs)" by (rule q)
    moreover from last have "last ?xs \<in> set (items_of_so pk d)" "soi_product (last ?xs) = i" by auto
    then have "i \<in> soi_product ` set (items_of_so pk d)" by (metis imageI)
    ultimately
    show ?thesis using lines_of_product(1) [OF q False] by (simp add: sold_quantity_def)
  qed
qed

lemma complete_books:
  assumes "complete u now drawn pk d = Inr oc" "status_code (rsp oc) = 200" "wf_sales d"
  shows "ledger_total (odb oc) i = ledger_total d i - sold_quantity d pk i"
proof -
  from assms(1,2) obtain so by_item d1 where c: "get_so pk d = Some so" "so_id so = pk"
      "check_lines (sort_key soi_product (items_of_so pk d)) d Map.empty = Inr (Inr by_item)"
      "foldE (deduct_line u now pk by_item) (sort_key soi_product (items_of_so pk d)) d = Inr d1"
      "finish_complete now drawn so d1 = Inr (odb oc)"
    by (rule complete_ok)
  have "distinct (map soi_id (so_items d))" using assms(3) by (simp add: wf_sales_def)
  from complete_levels(2) [OF c this] show ?thesis by (simp add: sold_quantity_def)
qed

text \<open>C37. A product update that carries no stock, read before a sale commits and saved after it, puts
  the old stock back: stock and ledger agree afterwards exactly when the product is not one of
  the order's.\<close>
theorem stale_product_save_undoes_the_sale:
  assumes "complete u now drawn pk d = Inr oc" "status_code (rsp oc) = 200"
    and "wf_sales d" "distinct (map soi_product (items_of_so pk d))" "balanced d"
    and "get_product i d = Some p" "field_or (p_current_stock p) (pi_current_stock data) = p_current_stock p"
  shows "balanced (product_write now' data p (odb oc)) \<longleftrightarrow> i \<notin> soi_product ` set (items_of_so pk d)"
proof -
  let ?d = "product_write now' data p (odb oc)"
  note sold = complete_effect_facts(1) [OF assms(1-4)] complete_books [OF assms(1-3)]
  have b: "balanced (odb oc)" using assms(5) by (auto simp: balanced_iff sold)
  have id: "p_id p = i" "p_id (product_apply now' data p) = i"
    using get_row_SomeD(2) [OF assms(6)] by (simp_all add: product_apply_def)
  have s: "stock_of d i = Some (p_current_stock p)" using assms(6) by (simp add: stock_of_def)
  then have s': "stock_of (odb oc) i = Some (p_current_stock p - sold_quantity d pk i)" using sold(1) [of i] by simp
  then obtain r where r: "get_product i (odb oc) = Some r" by (auto simp: stock_of_def)
  have lv: "stock_of ?d j = (if j = i then Some (p_current_stock p) else stock_of (odb oc) j)" for j
    using get_row_replace [where key = p_id and r = "product_apply now' data p" and k = i and j = j
      and t = "products (odb oc)"] r id assms(7)
    by (simp add: product_write_def stock_of_def) (simp add: product_apply_def)
  have lt: "ledger_total ?d = ledger_total (odb oc)" by (simp add: product_write_def ledger_total_def fun_eq_iff)
  have "ledger_total (odb oc) i = p_current_stock p - sold_quantity d pk i" using b s' by (simp add: balanced_iff)
  then have "balanced ?d \<longleftrightarrow> sold_quantity d pk i = 0" using b by (auto simp: balanced_iff lv lt)
  also have "\<dots> \<longleftrightarrow> i \<notin> soi_product ` set (items_of_so pk d)"
    by (rule sold_nothing_iff [OF assms(3)])
  finally show ?thesis .
qed

definition price_patch :: product_input where
  "price_patch = \<lparr>pi_sku = Absent, pi_name = Absent, pi_description = Absent, pi_cost_price = Absent,
     pi_selling_price = Given 700, pi_current_stock = Absent, pi_low_stock_threshold = Absent,
     pi_category = Absent, pi_supplier = Absent, pi_is_active = Absent\<rparr>"

theorem stale_product_save_undoes_the_sale_witness:
  "\<exists>oc. complete sample_employee 5 200 50 sample_db = Inr oc
     \<and> \<not> balanced (product_write 6 price_patch (sample_product 20 ''W-1'' 10) (odb oc))"
proof -
  obtain oc where oc: "complete sample_employee 5 200 50 sample_db = Inr oc"
    by (cases "complete sample_employee 5 200 50 sample_db") (simp_all, code_simp)
  have "case complete sample_employee 5 200 50 sample_db of Inr oc \<Rightarrow> status_code (rsp oc) = 200 | _ \<Rightarrow> False"
    by code_simp
  with oc have ok: "status_code (rsp oc) = 200" by simp
  have d: "wf_sales sample_db" "distinct (map soi_product (items_of_so 50 sample_db))" "balanced sample_db"
    "get_product 20 sample_db = Some (sample_product 20 ''W-1'' 10)"
    "20 \<in> soi_product ` set (items_of_so 50 sample_db)" by code_simp+
  have "field_or (p_current_stock (sample_product 20 ''W-1'' 10)) (pi_current_stock price_patch)
      = p_current_stock (sample_product 20 ''W-1'' 10)" by (simp add: price_patch_def field_or_def)
  from stale_product_save_undoes_the_sale [OF oc ok d(1-4) this, of 6] d(5) oc show ?thesis by blast
qed

text \<open>C38. An order update read before \<open>complete\<close> commits and saved after it reopens the order: the
  order is back in CREATED with no invoice, while the stock stays deducted and the ledger booked.\<close>
theorem stale_order_save_reopens_the_order:
  assumes "complete u now drawn pk d = Inr oc" "status_code (rsp oc) = 200"
    and "get_so pk d = Some so" "so_write now' data so (odb oc) = Inr d'"
  shows "\<exists>so'. get_so pk d' = Some so' \<and> so_status so' = CREATED \<and> so_invoice_number so' = so_invoice_number so
    \<and> levels d' = levels (odb oc)"
proof -
  from assms(1,2) obtain so1 by_item d1 where c: "get_so pk d = Some so1" "so_id so1 = pk" "so_status so1 = CREATED"
      "foldE (deduct_line u now pk by_item) (sort_key soi_product (items_of_so pk d)) d = Inr d1"
      "finish_complete now drawn so1 d1 = Inr (odb oc)"
    by (rule complete_ok)
  have so: "so_status so = CREATED" "so_id so = pk" using c(1-3) assms(3) by auto
  have "get_so pk d1 = Some so1" using deduct_lines_frame(3) [OF c(4)] c(1) by simp
  from completed_order [OF c(5,2) this] obtain r where r: "get_so pk (odb oc) = Some r" by blast
  obtain e where e: "save_so now' (so_write_customer data so) (odb oc) = Inr e"
    "so_write_items now' data so e = Inr d'"
    using assms(4) by (auto simp: so_write_def bind_elims)
  let ?so = "(so_write_customer data so)\<lparr>so_updated_at := now'\<rparr>"
  have e': "e = (odb oc)\<lparr>sales_orders := update_row so_id pk (\<lambda>_. ?so) (sales_orders (odb oc))\<rparr>"
    using e(1) so(2) by (auto simp: save_so_def so_write_customer_def bind_elims)
  have "get_so pk d' = Some ?so"
    using so_written_ids(1) [OF e(2)] r so(2)
      get_row_replace [where key = so_id and r = ?so and k = pk and j = pk and t = "sales_orders (odb oc)"]
    by (simp add: e' so_write_customer_def)
  moreover have "products d' = products (odb oc)" "transactions d' = transactions (odb oc)"
    using written_items_keep_products(2) [OF e(2)] written_items_keep_ledger(2) [OF e(2)] by (simp_all add: e')
  then have "levels d' = levels (odb oc)"
    by (simp add: levels_def stock_of_def ledger_total_def fun_eq_iff)
  ultimately show ?thesis using so(1) by (simp add: so_write_customer_def)
qed

definition name_patch :: so_input where
  "name_patch = \<lparr>soin_customer_name = Given (Some ''Ann''), soin_customer_phone = Absent, soin_items = Absent\<rparr>"

text \<open>In the small shop the reopened order is sold a second time.\<close>

theorem stale_order_save_reopens_the_order_witness:
  "\<exists>oc d' oc'. complete sample_employee 5 200 50 sample_db = Inr oc
     \<and> so_write 6 name_patch (sample_so 50 CREATED None) (odb oc) = Inr d'
     \<and> (\<exists>so'. get_so 50 d' = Some so' \<and> so_status so' = CREATED)
     \<and> complete sample_employee 7 201 50 d' = Inr oc' \<and> stock_of (odb oc') 20 = Some 2"
proof -
  let ?run = "bindE (complete sample_employee 5 200 50 sample_db) (\<lambda>oc.
    bindE (so_write 6 name_patch (sample_so 50 CREATED None) (odb oc)) (\<lambda>d'.
    bindE (complete sample_employee 7 201 50 d') (\<lambda>oc'. Inr (status_code (rsp oc), stock_of (odb oc') 20))))"
  have "case ?run of Inr r \<Rightarrow> r = (200, Some 2) | _ \<Rightarrow> False" by code_simp
  then have "?run = Inr (200, Some 2)" by (auto split: sum.splits)
  then obtain oc d' oc' where r: "complete sample_employee 5 200 50 sample_db = Inr oc"
    "so_write 6 name_patch (sample_so 50 CREATED None) (odb oc) = Inr d'"
    "complete sample_employee 7 201 50 d' = Inr oc'" "status_code (rsp oc) = 200" "stock_of (odb oc') 20 = Some 2"
    by (auto simp: bind_elims)
  have so: "get_so 50 sample_db = Some (sample_so 50 CREATED None)" by code_simp
  from stale_order_save_reopens_the_order [OF r(1,4) so r(2)] r show ?thesis by blast
qed

end
