(* ===== verification/Mutations.thy ===== *)
theory Mutations
  imports Concurrency
begin

section \<open>All stock mutations at once\<close>

text \<open>
  \<open>receive\<close>, \<open>complete\<close>, \<open>approve\<close> and the damage write-off running concurrently, at the level of
  the row locks. A job first locks the document it is about (the order or the return; a write-off
  has none) and is turned away when that document has been dealt with; then it takes its stock
  movements one after another, locking the product row, reading the stock, checking it where the
  code does, and writing it for itself; at the commit its writes reach everyone, the document is
  closed and the locks are released. Where the code checks the stock it has read all its products
  before it writes the first one, so a second movement of the same product starts from the stock
  before the first; where it does not check, it reads every row right before the write.
\<close>

subsection \<open>The protocol\<close>

text \<open>A product, the stock the code insists on before the movement, if it does, and the change.\<close>

type_synonym movement = "uuid \<times> int option \<times> int"
type_synonym job = "uuid option \<times> movement list"

datatype yard_row = Document uuid | Shelf uuid

datatype yard_phase = Waiting | Working "movement list" "uuid \<Rightarrow> int option" | Ended bool

record yard =
  y_stock :: "uuid \<Rightarrow> int"
  y_booked :: "uuid \<Rightarrow> int"
  y_closed :: "uuid set"
  y_owner :: "yard_row \<Rightarrow> nat option"
  y_phase :: "nat \<Rightarrow> yard_phase"

definition total_at :: "movement list \<Rightarrow> uuid \<Rightarrow> int" where
  "total_at ms p = sum_list (map (\<lambda>(i, need, delta). if i = p then delta else 0) ms)"

text \<open>What a row holds for a job: its own write, else what is committed.\<close>

definition current :: "(uuid \<Rightarrow> int) \<Rightarrow> (uuid \<Rightarrow> int option) \<Rightarrow> uuid \<Rightarrow> int" where
  "current st own p = (case own p of Some v \<Rightarrow> v | None \<Rightarrow> st p)"

text \<open>
  What a movement starts from. \<open>receive\<close> and \<open>approve\<close> read the row anew; \<open>complete\<close> uses the object of its
  check loop, which was read before it wrote anything, and so does the write-off.
\<close>

definition basis :: "(uuid \<Rightarrow> int) \<Rightarrow> (uuid \<Rightarrow> int option) \<Rightarrow> int option \<Rightarrow> uuid \<Rightarrow> int" where
  "basis st own need p = (case need of None \<Rightarrow> current st own p | Some n \<Rightarrow> st p)"

definition takeable :: "yard \<Rightarrow> nat \<Rightarrow> yard_row \<Rightarrow> bool" where
  "takeable s t r \<longleftrightarrow> y_owner s r = None \<or> y_owner s r = Some t"

definition let_go :: "nat \<Rightarrow> (yard_row \<Rightarrow> nat option) \<Rightarrow> yard_row \<Rightarrow> nat option" where
  "let_go t own = (\<lambda>r. if own r = Some t then None else own r)"

definition enough :: "int option \<Rightarrow> int \<Rightarrow> bool" where
  "enough need v \<longleftrightarrow> (case need of None \<Rightarrow> True | Some n \<Rightarrow> n \<le> v)"

inductive yard_step :: "(nat \<Rightarrow> job) \<Rightarrow> yard \<Rightarrow> yard \<Rightarrow> bool" for jobs :: "nat \<Rightarrow> job" where
  claim: "y_phase s t = Waiting \<Longrightarrow> fst (jobs t) = Some doc \<Longrightarrow> takeable s t (Document doc) \<Longrightarrow> doc \<notin> y_closed s \<Longrightarrow>
    yard_step jobs s (s\<lparr>y_owner := (y_owner s)(Document doc \<mapsto> t),
      y_phase := (y_phase s)(t := Working (snd (jobs t)) (\<lambda>_. None))\<rparr>)"
| replay: "y_phase s t = Waiting \<Longrightarrow> fst (jobs t) = Some doc \<Longrightarrow> takeable s t (Document doc) \<Longrightarrow> doc \<in> y_closed s \<Longrightarrow>
    yard_step jobs s (s\<lparr>y_phase := (y_phase s)(t := Ended False)\<rparr>)"
| begin_job: "y_phase s t = Waiting \<Longrightarrow> fst (jobs t) = None \<Longrightarrow>
    yard_step jobs s (s\<lparr>y_phase := (y_phase s)(t := Working (snd (jobs t)) (\<lambda>_. None))\<rparr>)"
| move: "y_phase s t = Working ((p, need, delta) # todo) own \<Longrightarrow> takeable s t (Shelf p) \<Longrightarrow> enough need (basis (y_stock s) own need p) \<Longrightarrow>
    yard_step jobs s (s\<lparr>y_owner := (y_owner s)(Shelf p \<mapsto> t),
      y_phase := (y_phase s)(t := Working todo (own(p \<mapsto> basis (y_stock s) own need p + delta)))\<rparr>)"
| refuse: "y_phase s t = Working ((p, need, delta) # todo) own \<Longrightarrow> takeable s t (Shelf p) \<Longrightarrow> \<not> enough need (basis (y_stock s) own need p) \<Longrightarrow>
    yard_step jobs s (s\<lparr>y_owner := let_go t (y_owner s), y_phase := (y_phase s)(t := Ended False)\<rparr>)"
| commit_job: "y_phase s t = Working [] own \<Longrightarrow>
    yard_step jobs s (s\<lparr>y_stock := current (y_stock s) own, y_booked := (\<lambda>p. y_booked s p + total_at (snd (jobs t)) p),
      y_closed := y_closed s \<union> set_option (fst (jobs t)), y_owner := let_go t (y_owner s),
      y_phase := (y_phase s)(t := Ended True)\<rparr>)"

text \<open>The jobs of the threads \<open>T\<close> are sent together to a shop with the stock \<open>init\<close>.\<close>

definition open_yard :: "(uuid \<Rightarrow> int) \<Rightarrow> nat set \<Rightarrow> yard" where
  "open_yard init T = \<lparr>y_stock = init, y_booked = (\<lambda>_. 0), y_closed = {}, y_owner = (\<lambda>_. None),
     y_phase = (\<lambda>t. if t \<in> T then Waiting else Ended False)\<rparr>"

inductive yard_reachable :: "(nat \<Rightarrow> job) \<Rightarrow> yard \<Rightarrow> yard \<Rightarrow> bool" for jobs :: "nat \<Rightarrow> job" and s0 :: yard where
  sent: "yard_reachable jobs s0 s0"
| onward: "yard_reachable jobs s0 s \<Longrightarrow> yard_step jobs s s' \<Longrightarrow> yard_reachable jobs s0 s'"

inductive_cases yard_stepE: "yard_step jobs s s'"

subsection \<open>What the locks keep\<close>

text \<open>The movements a job has taken, when \<open>todo\<close> is what it has left.\<close>

definition taken :: "job \<Rightarrow> movement list \<Rightarrow> movement list" where
  "taken j todo = take (length (snd j) - length todo) (snd j)"

lemma taken_simps:
  "snd j = before @ todo \<Longrightarrow> taken j todo = before"
  "taken j (snd j) = []" "taken j [] = snd j"
  by (simp_all add: taken_def)

text \<open>A working job owns its document, which is open, and the rows it has written, and no others.\<close>

fun holding :: "(nat \<Rightarrow> job) \<Rightarrow> yard \<Rightarrow> nat \<Rightarrow> yard_phase \<Rightarrow> bool" where
  "holding jobs s t (Working todo own) \<longleftrightarrow> snd (jobs t) = taken (jobs t) todo @ todo
     \<and> (\<forall>p. (y_owner s (Shelf p) = Some t) = (p \<in> fst ` set (taken (jobs t) todo)))
     \<and> (\<forall>p. (own p = None) = (p \<notin> fst ` set (taken (jobs t) todo)))
     \<and> (\<forall>doc. (y_owner s (Document doc) = Some t) = (fst (jobs t) = Some doc))
     \<and> (\<forall>doc. fst (jobs t) = Some doc \<longrightarrow> doc \<notin> y_closed s)"
| "holding jobs s t ph = (\<forall>r. y_owner s r \<noteq> Some t)"

definition committed :: "nat set \<Rightarrow> yard \<Rightarrow> nat set" where
  "committed T s = {t \<in> T. y_phase s t = Ended True}"

text \<open>Every document is dealt with once.\<close>

definition dealt_with :: "nat set \<Rightarrow> (nat \<Rightarrow> job) \<Rightarrow> yard \<Rightarrow> bool" where
  "dealt_with T jobs s \<longleftrightarrow>
     (\<forall>doc. doc \<in> y_closed s \<longleftrightarrow> (\<exists>t \<in> committed T s. fst (jobs t) = Some doc))
   \<and> (\<forall>t \<in> committed T s. \<forall>t' \<in> committed T s. fst (jobs t) = fst (jobs t') \<and> fst (jobs t) \<noteq> None \<longrightarrow> t = t')"

definition lock_inv :: "nat set \<Rightarrow> (nat \<Rightarrow> job) \<Rightarrow> yard \<Rightarrow> bool" where
  "lock_inv T jobs s \<longleftrightarrow> dealt_with T jobs s \<and> (\<forall>t. holding jobs s t (y_phase s t))
     \<and> (\<forall>t. t \<notin> T \<longrightarrow> y_phase s t = Ended False)"

lemma lock_invD:
  assumes "lock_inv T jobs s"
  shows "dealt_with T jobs s" "holding jobs s t (y_phase s t)" "t \<notin> T \<Longrightarrow> y_phase s t = Ended False"
  using assms unfolding lock_inv_def by blast+

lemma at_work:
  assumes "lock_inv T jobs s" "y_phase s t = Working todo own"
  shows "snd (jobs t) = taken (jobs t) todo @ todo" "t \<in> T"
    and "(y_owner s (Shelf p) = Some t) = (p \<in> fst ` set (taken (jobs t) todo))"
    and "(own p = None) = (p \<notin> fst ` set (taken (jobs t) todo))"
    and "(y_owner s (Document doc) = Some t) = (fst (jobs t) = Some doc)"
    and "fst (jobs t) = Some doc \<Longrightarrow> doc \<notin> y_closed s"
  using lock_invD(2) [OF assms(1), of t] lock_invD(3) [OF assms(1), of t] assms(2) by auto

lemma holding_frame:
  assumes "holding jobs s t ph" "\<And>r. (y_owner s' r = Some t) = (y_owner s r = Some t)"
    and "\<And>doc. y_owner s (Document doc) = Some t \<Longrightarrow> (doc \<in> y_closed s') = (doc \<in> y_closed s)"
  shows "holding jobs s' t ph"
  using assms by (cases ph) auto

lemma let_go_other: "t' \<noteq> t \<Longrightarrow> (let_go t own r = Some t') = (own r = Some t')"
  by (auto simp: let_go_def)

lemma let_go_self: "let_go t own r \<noteq> Some t"
  by (auto simp: let_go_def)

lemma committed_other:
  "y_phase s t \<noteq> Ended True \<Longrightarrow> x \<noteq> Ended True \<Longrightarrow>
   committed T (s\<lparr>y_owner := f, y_phase := (y_phase s)(t := x)\<rparr>) = committed T s"
  by (auto simp: committed_def)

text \<open>A step of one job that ends nothing with a commit.\<close>

lemma lock_inv_phase:
  assumes inv: "lock_inv T jobs s" and t: "t \<in> T" "y_phase s t \<noteq> Ended True" "x \<noteq> Ended True"
    and own: "\<And>t' r. t' \<noteq> t \<Longrightarrow> (f r = Some t') = (y_owner s r = Some t')"
    and ok: "holding jobs (s\<lparr>y_owner := f, y_phase := (y_phase s)(t := x)\<rparr>) t x"
  shows "lock_inv T jobs (s\<lparr>y_owner := f, y_phase := (y_phase s)(t := x)\<rparr>)"
proof -
  let ?s = "s\<lparr>y_owner := f, y_phase := (y_phase s)(t := x)\<rparr>"
  have closed: "y_closed ?s = y_closed s" by simp
  have "dealt_with T jobs ?s"
    using lock_invD(1) [OF inv] unfolding dealt_with_def committed_other [OF t(2,3)] closed .
  moreover have "holding jobs ?s t' (y_phase ?s t')" for t'
  proof (cases "t' = t")
    case False
    from lock_invD(2) [OF inv] have "holding jobs ?s t' (y_phase s t')" by (rule holding_frame) (simp_all add: own [OF False])
    with False show ?thesis by simp
  qed (use ok in simp)
  moreover have "y_phase ?s t' = Ended False" if "t' \<notin> T" for t'
    using lock_invD(3) [OF inv that] t(1) that by auto
  ultimately show ?thesis unfolding lock_inv_def by blast
qed

lemma lock_inv_commit:
  assumes inv: "lock_inv T jobs s" and w: "y_phase s t = Working [] own"
  shows "lock_inv T jobs (s\<lparr>y_stock := st, y_booked := bk, y_closed := y_closed s \<union> set_option (fst (jobs t)),
    y_owner := let_go t (y_owner s), y_phase := (y_phase s)(t := Ended True)\<rparr>)" (is "lock_inv T jobs ?s")
proof -
  note t = at_work [OF inv w]
  have c: "committed T ?s = insert t (committed T s)" using t(2) by (auto simp: committed_def)
  have closed: "d \<in> y_closed ?s \<longleftrightarrow> d \<in> y_closed s \<or> fst (jobs t) = Some d" for d
    by (cases "fst (jobs t)") auto
  note dw = lock_invD(1) [OF inv, unfolded dealt_with_def]
  have apart: "fst (jobs t') \<noteq> fst (jobs t)" if "t' \<in> committed T s" "fst (jobs t) \<noteq> None" for t'
  proof
    assume same: "fst (jobs t') = fst (jobs t)"
    with that(2) obtain d where "fst (jobs t) = Some d" by auto
    with t(6) [OF this] dw that(1) same show False by metis
  qed
  have "dealt_with T jobs ?s"
    unfolding dealt_with_def c
  proof (intro conjI allI ballI impI)
    show "d \<in> y_closed ?s \<longleftrightarrow> (\<exists>t \<in> insert t (committed T s). fst (jobs t) = Some d)" for d
      using dw by (simp only: closed) blast
    show "t1 = t2" if "t1 \<in> insert t (committed T s)" "t2 \<in> insert t (committed T s)"
      "fst (jobs t1) = fst (jobs t2) \<and> fst (jobs t1) \<noteq> None" for t1 t2
      using that apart [of t1] apart [of t2] dw by (metis insert_iff)
  qed
  moreover have "holding jobs ?s t' (y_phase ?s t')" for t'
  proof (cases "t' = t")
    case True
    then show ?thesis by (simp add: let_go_self)
  next
    case False
    have "holding jobs ?s t' (y_phase s t')"
    proof (rule holding_frame [OF lock_invD(2) [OF inv]])
      show "(y_owner ?s r = Some t') = (y_owner s r = Some t')" for r by (simp add: let_go_other False)
      show "d \<in> y_closed ?s \<longleftrightarrow> d \<in> y_closed s" if "y_owner s (Document d) = Some t'" for d
        using that t(5) [of d] False by (auto simp: elem_set)
    qed
    with False show ?thesis by simp
  qed
  moreover have "y_phase ?s t' = Ended False" if "t' \<notin> T" for t'
    using that t(2) lock_invD(3) [OF inv that] by auto
  ultimately show ?thesis unfolding lock_inv_def by blast
qed

lemma lock_inv_step:
  assumes "yard_step jobs s s'" "lock_inv T jobs s"
  shows "lock_inv T jobs s'"
proof -
  note ok = lock_invD(2) [OF assms(2)]
  have inT: "t \<in> T" if "y_phase s t \<noteq> Ended False" for t using lock_invD(3) [OF assms(2)] that by blast
  show ?thesis
    using assms(1)
  proof cases
    case (claim t doc)
    have "holding jobs s' t (Working (snd (jobs t)) (\<lambda>_. None))"
      using ok [of t] claim by (auto simp: taken_simps)
    with claim inT [of t] show ?thesis
      unfolding claim(1) by (intro lock_inv_phase [OF assms(2)]) (auto simp: takeable_def)
  next
    case (replay t doc)
    have "s' = s\<lparr>y_owner := y_owner s, y_phase := (y_phase s)(t := Ended False)\<rparr>" using replay(1) by simp
    then show ?thesis
      using ok [of t] replay inT [of t] by (simp only:, intro lock_inv_phase [OF assms(2)]) auto
  next
    case (begin_job t)
    have "s' = s\<lparr>y_owner := y_owner s, y_phase := (y_phase s)(t := Working (snd (jobs t)) (\<lambda>_. None))\<rparr>" using begin_job(1) by simp
    then show ?thesis
      using ok [of t] begin_job inT [of t]
      by (simp only:, intro lock_inv_phase [OF assms(2)]) (auto simp: taken_simps)
  next
    case (move t p need delta todo own)
    note w = at_work [OF assms(2) move(2)]
    have "snd (jobs t) = (taken (jobs t) ((p, need, delta) # todo) @ [(p, need, delta)]) @ todo" using w(1) by simp
    from taken_simps(1) [OF this] this have "holding jobs s' t (Working todo (own(p \<mapsto> basis (y_stock s) own need p + delta)))"
      using w(3-6) by (auto simp: move(1))
    with move inT [of t] show ?thesis
      unfolding move(1) by (intro lock_inv_phase [OF assms(2)]) (auto simp: takeable_def)
  next
    case (refuse t p need delta todo own)
    then show ?thesis
      unfolding refuse(1)
      using inT [of t] by (intro lock_inv_phase [OF assms(2)]) (auto simp: let_go_other let_go_self)
  next
    case (commit_job t own)
    then show ?thesis using lock_inv_commit [OF assms(2) commit_job(2)] by simp
  qed
qed

lemma lock_inv_open: "lock_inv T jobs (open_yard init T)"
  by (auto simp: lock_inv_def dealt_with_def open_yard_def committed_def)

lemma lock_inv_reachable: "yard_reachable jobs s0 s \<Longrightarrow> lock_inv T jobs s0 \<Longrightarrow> lock_inv T jobs s"
  by (induction rule: yard_reachable.induct) (auto intro: lock_inv_step)

subsection \<open>What happens to the stock\<close>

text \<open>A movement that takes stock is checked for it first.\<close>

definition fair :: "job \<Rightarrow> bool" where
  "fair j \<longleftrightarrow> (\<forall>(p, need, delta) \<in> set (snd j). case need of None \<Rightarrow> 0 \<le> delta | Some n \<Rightarrow> 0 \<le> n + delta)"

text \<open>A job that checks before it writes does not name a product twice.\<close>

definition unrepeated :: "job \<Rightarrow> bool" where
  "unrepeated j \<longleftrightarrow> (\<forall>(p, need, delta) \<in> set (snd j). need = None) \<or> distinct (map fst (snd j))"

lemma total_at_simps [simp]:
  "total_at [] p = 0" "total_at ((i, need, delta) # ms) p = (if i = p then delta else 0) + total_at ms p"
  "total_at (ms @ ms') p = total_at ms p + total_at ms' p"
  by (simp_all add: total_at_def)

lemma total_at_absent: "p \<notin> fst ` set ms \<Longrightarrow> total_at ms p = 0"
  by (induction ms) (auto simp: total_at_def)

text \<open>
  The stock is what the committed jobs made of it, and what a working job has written is the stock
  with the movements it has taken.
\<close>

definition stock_inv :: "(uuid \<Rightarrow> int) \<Rightarrow> nat set \<Rightarrow> (nat \<Rightarrow> job) \<Rightarrow> yard \<Rightarrow> bool" where
  "stock_inv init T jobs s \<longleftrightarrow>
     (\<forall>p. y_stock s p = init p + (\<Sum>t \<in> committed T s. total_at (snd (jobs t)) p) \<and> y_booked s p = y_stock s p - init p
        \<and> 0 \<le> y_stock s p)
   \<and> (\<forall>t todo own p v. y_phase s t = Working todo own \<and> own p = Some v \<longrightarrow>
        v = y_stock s p + total_at (taken (jobs t) todo) p \<and> 0 \<le> v)"

lemma stock_invD:
  assumes "stock_inv init T jobs s"
  shows "y_stock s p = init p + (\<Sum>t \<in> committed T s. total_at (snd (jobs t)) p)"
    "y_booked s p = y_stock s p - init p" "0 \<le> y_stock s p"
    and "y_phase s t = Working todo own \<Longrightarrow> own p = Some v \<Longrightarrow> v = y_stock s p + total_at (taken (jobs t) todo) p"
    and "y_phase s t = Working todo own \<Longrightarrow> own p = Some v \<Longrightarrow> 0 \<le> v"
  using assms unfolding stock_inv_def by blast+

lemma stock_inv_phase:
  assumes inv: "stock_inv init T jobs s" and t: "y_phase s t \<noteq> Ended True" "x \<noteq> Ended True"
    and ok: "\<And>todo own p v. x = Working todo own \<Longrightarrow> own p = Some v \<Longrightarrow> v = y_stock s p + total_at (taken (jobs t) todo) p \<and> 0 \<le> v"
  shows "stock_inv init T jobs (s\<lparr>y_owner := f, y_phase := (y_phase s)(t := x)\<rparr>)"
proof -
  let ?s = "s\<lparr>y_owner := f, y_phase := (y_phase s)(t := x)\<rparr>"
  note st = stock_invD [OF inv]
  have "v = y_stock ?s p + total_at (taken (jobs t') todo) p \<and> 0 \<le> v"
    if "y_phase ?s t' = Working todo own \<and> own p = Some v" for t' todo own p v
    using that ok [of todo own p v] st(4,5) [of t' todo own p v] by (cases "t' = t") simp_all
  moreover have "y_stock ?s = y_stock s" "y_booked ?s = y_booked s" by simp_all
  ultimately show ?thesis using st(1-3) unfolding stock_inv_def committed_other [OF t] by metis
qed

text \<open>What a movement starts from is the stock with the movements the job has taken.\<close>

lemma basis_value:
  assumes "lock_inv T jobs s" "stock_inv init T jobs s" "y_phase s t = Working ((p, need, delta) # todo) own" "unrepeated (jobs t)"
  shows "basis (y_stock s) own need p = y_stock s p + total_at (taken (jobs t) ((p, need, delta) # todo)) p"
    and "0 \<le> basis (y_stock s) own need p"
proof -
  note w = at_work [OF assms(1,3)] and st = stock_invD [OF assms(2)]
  show "basis (y_stock s) own need p = y_stock s p + total_at (taken (jobs t) ((p, need, delta) # todo)) p"
  proof (cases "own p")
    case None
    with w(4) [of p] show ?thesis by (simp add: basis_def current_def total_at_absent split: option.split)
  next
    case (Some v)
    then have "p \<in> fst ` set (taken (jobs t) ((p, need, delta) # todo))" using w(4) [of p] by simp
    moreover have m: "(p, need, delta) \<in> set (snd (jobs t))" by (subst w(1)) simp
    ultimately have "\<not> distinct (map fst (snd (jobs t)))" by (subst w(1)) auto
    with assms(4) m have "need = None" by (auto simp: unrepeated_def)
    with Some st(4) [OF assms(3) Some] show ?thesis by (simp add: basis_def current_def)
  qed
  show "0 \<le> basis (y_stock s) own need p"
    using st(3) [of p] st(5) [OF assms(3), of p] by (auto simp: basis_def current_def split: option.split)
qed

lemma fair_after: "fair j \<Longrightarrow> (p, need, delta) \<in> set (snd j) \<Longrightarrow> enough need v \<Longrightarrow> 0 \<le> v \<Longrightarrow> 0 \<le> v + delta"
  by (cases need) (auto simp: fair_def enough_def)

lemma stock_inv_commit:
  assumes "lock_inv T jobs s" "stock_inv init T jobs s" "finite T" and w: "y_phase s t = Working [] own"
  shows "stock_inv init T jobs (s\<lparr>y_stock := current (y_stock s) own, y_booked := (\<lambda>p. y_booked s p + total_at (snd (jobs t)) p),
    y_closed := cl, y_owner := f, y_phase := (y_phase s)(t := Ended True)\<rparr>)" (is "stock_inv init T jobs ?s")
proof -
  note k = at_work [OF assms(1) w] and st = stock_invD [OF assms(2)]
  have new: "y_stock ?s p = y_stock s p + total_at (snd (jobs t)) p" for p
    using k(4) [of p] st(4) [OF w, of p] by (cases "own p") (auto simp: current_def taken_simps total_at_absent)
  have c: "committed T ?s = insert t (committed T s)" and fresh: "t \<notin> committed T s" "finite (committed T s)"
    using k(2) w assms(3) by (auto simp: committed_def)
  have "y_stock ?s p = init p + (\<Sum>t \<in> committed T ?s. total_at (snd (jobs t)) p)" for p
    using fresh st(1) [of p] by (simp only: new c sum.insert) simp
  moreover have "y_booked ?s p = y_stock ?s p - init p" for p using st(2) [of p] new [of p] by simp
  moreover have "0 \<le> y_stock ?s p" for p
    using st(3) [of p] st(5) [OF w, of p] by (auto simp: current_def split: option.split)
  moreover have "v = y_stock ?s p + total_at (taken (jobs t') todo') p \<and> 0 \<le> v"
    if "y_phase ?s t' = Working todo' own'" "own' p = Some v" for t' todo' own' p v
  proof -
    have other: "t' \<noteq> t" "y_phase s t' = Working todo' own'" using that(1) by (auto split: if_splits)
    have "p \<notin> fst ` set (snd (jobs t))"
      using at_work(3,4) [OF assms(1) other(2), of p] that(2) k(3) [of p] other(1) by (auto simp: taken_simps)
    then show ?thesis
      using st(4,5) [OF other(2) that(2)] by (simp only: new) (simp add: total_at_absent)
  qed
  ultimately show ?thesis unfolding stock_inv_def by blast
qed

lemma stock_inv_step:
  assumes "yard_step jobs s s'" "lock_inv T jobs s" "stock_inv init T jobs s" "finite T"
    and "\<forall>t \<in> T. fair (jobs t) \<and> unrepeated (jobs t)"
  shows "stock_inv init T jobs s'"
  using assms(1)
proof cases
  case (move t p need delta todo own)
  note w = at_work [OF assms(2) move(2)] and st = stock_invD [OF assms(3)]
  have j: "fair (jobs t)" "unrepeated (jobs t)" using assms(5) w(2) by blast+
  note b = basis_value [OF assms(2,3) move(2) j(2)]
  have "(p, need, delta) \<in> set (snd (jobs t))" by (subst w(1)) simp
  then have pos: "0 \<le> basis (y_stock s) own need p + delta" by (rule fair_after [OF j(1) _ move(4) b(2)])
  have "snd (jobs t) = (taken (jobs t) ((p, need, delta) # todo) @ [(p, need, delta)]) @ todo" using w(1) by simp
  from taken_simps(1) [OF this] have tk: "total_at (taken (jobs t) todo) i
      = total_at (taken (jobs t) ((p, need, delta) # todo)) i + (if i = p then delta else 0)" for i by simp
  show ?thesis
    unfolding move(1)
  proof (rule stock_inv_phase [OF assms(3)])
    fix todo' own' i v
    assume "Working todo (own(p \<mapsto> basis (y_stock s) own need p + delta)) = Working todo' own'" "own' i = Some v"
    then have "todo' = todo" "v = (if i = p then basis (y_stock s) own need p + delta else v)" "i = p \<or> own i = Some v"
      by (auto split: if_splits)
    with b(1) pos st(4,5) [OF move(2), of i v] tk [of i] show "v = y_stock s i + total_at (taken (jobs t) todo') i \<and> 0 \<le> v"
      by (cases "i = p") simp_all
  qed (use move(2) in simp_all)
next
  case (commit_job t own)
  then show ?thesis using stock_inv_commit [OF assms(2-4) commit_job(2)] by simp
next
  case (replay t doc)
  have "s' = s\<lparr>y_owner := y_owner s, y_phase := (y_phase s)(t := Ended False)\<rparr>" using replay(1) by simp
  then show ?thesis using replay(2) by (simp only:, intro stock_inv_phase [OF assms(3)]) auto
next
  case (begin_job t)
  have "s' = s\<lparr>y_owner := y_owner s, y_phase := (y_phase s)(t := Working (snd (jobs t)) (\<lambda>_. None))\<rparr>" using begin_job(1) by simp
  then show ?thesis using begin_job(2) by (simp only:, intro stock_inv_phase [OF assms(3)]) auto
qed (auto intro!: stock_inv_phase [OF assms(3)])

lemma stock_inv_open: "(\<And>p. 0 \<le> init p) \<Longrightarrow> stock_inv init T jobs (open_yard init T)"
  by (simp add: stock_inv_def open_yard_def committed_def)

lemma stock_inv_reachable:
  assumes "yard_reachable jobs (open_yard init T) s" "\<And>p. 0 \<le> init p" "finite T" "\<forall>t \<in> T. fair (jobs t) \<and> unrepeated (jobs t)"
  shows "stock_inv init T jobs s"
  using assms(1)
proof (induction rule: yard_reachable.induct)
  case (onward s s')
  from stock_inv_step [OF onward.hyps(2) lock_inv_reachable [OF onward.hyps(1) lock_inv_open] onward.IH assms(3,4)]
  show ?case .
qed (rule stock_inv_open [OF assms(2)])

text \<open>C3. No lost update, no double booking, no overselling: send any number of receipts, completions,
  approvals and write-offs together, of which those that check the stock before they take it (the
  completions) name no product in two lines. At every moment of every interleaving under the row
  locks, the stock of every product is what it was at the start plus the movements of exactly the
  jobs that have committed, it is not negative, and no document has been dealt with by two of them.
  Receipts may name a product as often as they like.\<close>
theorem concurrent_mutations_are_exact:
  assumes "yard_reachable jobs (open_yard init T) s" "\<And>p. 0 \<le> init p" "finite T" "\<forall>t \<in> T. fair (jobs t) \<and> unrepeated (jobs t)"
  shows "y_stock s p = init p + (\<Sum>t \<in> {t \<in> T. y_phase s t = Ended True}. total_at (snd (jobs t)) p)
    \<and> 0 \<le> y_stock s p
    \<and> (\<forall>t t' doc. t \<in> T \<and> t' \<in> T \<and> y_phase s t = Ended True \<and> y_phase s t' = Ended True
         \<and> fst (jobs t) = Some doc \<and> fst (jobs t') = Some doc \<longrightarrow> t = t')"
proof (intro conjI allI impI)
  note st = stock_invD [OF stock_inv_reachable [OF assms]]
  show "y_stock s p = init p + (\<Sum>t \<in> {t \<in> T. y_phase s t = Ended True}. total_at (snd (jobs t)) p)"
    using st(1) [of p] unfolding committed_def .
  show "0 \<le> y_stock s p" by (rule st(3))
  show "t = t'" if "t \<in> T \<and> t' \<in> T \<and> y_phase s t = Ended True \<and> y_phase s t' = Ended True
       \<and> fst (jobs t) = Some doc \<and> fst (jobs t') = Some doc" for t t' doc
    using that lock_invD(1) [OF lock_inv_reachable [OF assms(1) lock_inv_open]]
    by (simp add: dealt_with_def committed_def)
qed

subsection \<open>No deadlock\<close>

definition in_order :: "job \<Rightarrow> bool" where
  "in_order j \<longleftrightarrow> sorted (map fst (snd j))"

fun wants :: "yard_phase \<Rightarrow> nat" where
  "wants (Working ((p, need, delta) # todo) own) = Suc p"
| "wants _ = 0"

definition is_ended :: "yard_phase \<Rightarrow> bool" where
  "is_ended ph \<longleftrightarrow> (\<exists>b. ph = Ended b)"

lemma stuck_working:
  assumes "\<nexists>s'. yard_step jobs s s'" "y_phase s t = Working todo own"
  shows "\<exists>p need delta rest. todo = (p, need, delta) # rest \<and> \<not> takeable s t (Shelf p)"
proof (cases todo)
  case Nil
  with assms yard_step.commit_job [of s t own jobs] show ?thesis by blast
next
  case (Cons m rest)
  obtain p need delta where m: "m = (p, need, delta)" by (cases m)
  have "\<not> takeable s t (Shelf p)"
    using assms Cons m yard_step.move [of s t p need delta rest own jobs] yard_step.refuse [of s t p need delta rest own jobs] by blast
  with Cons m show ?thesis by blast
qed

lemma stuck_waits:
  assumes "lock_inv T jobs s" "\<nexists>s'. yard_step jobs s s'" "\<not> is_ended (y_phase s t)" "\<forall>t \<in> T. in_order (jobs t)"
  shows "\<exists>t'. \<not> is_ended (y_phase s t') \<and> wants (y_phase s t) < wants (y_phase s t')"
proof -
  have holder: "\<exists>p' need delta rest own before. y_phase s t' = Working ((p', need, delta) # rest) own \<and> t' \<in> T
      \<and> snd (jobs t') = before @ (p', need, delta) # rest \<and> p' \<notin> fst ` set before
      \<and> (\<forall>p. y_owner s (Shelf p) = Some t' \<longleftrightarrow> p \<in> fst ` set before)" if "y_owner s r = Some t'" for r t'
  proof -
    from lock_invD(2) [OF assms(1), of t'] that obtain todo own where w: "y_phase s t' = Working todo own"
      by (cases "y_phase s t'") auto
    from stuck_working [OF assms(2) w] obtain p' need delta rest where
      todo: "todo = (p', need, delta) # rest" "\<not> takeable s t' (Shelf p')" by blast
    note k = at_work [OF assms(1) w]
    have "p' \<notin> fst ` set (taken (jobs t') todo)" using todo(2) k(3) by (auto simp: takeable_def)
    moreover have "snd (jobs t') = taken (jobs t') todo @ (p', need, delta) # rest" using k(1) todo(1) by simp
    ultimately show ?thesis
      using k(2,3) w todo(1) by (intro exI [of _ p'] exI [of _ need] exI [of _ delta] exI [of _ rest] exI [of _ own]
        exI [of _ "taken (jobs t') todo"]) simp
  qed
  show ?thesis
  proof (cases "y_phase s t")
    case Waiting
    obtain doc where d: "fst (jobs t) = Some doc" "\<not> takeable s t (Document doc)"
    proof (cases "fst (jobs t)")
      case None
      with yard_step.begin_job [of s t jobs] Waiting assms(2) show ?thesis by blast
    next
      case (Some doc)
      with Waiting yard_step.claim [of s t jobs doc] yard_step.replay [of s t jobs doc] assms(2) that show ?thesis by blast
    qed
    then obtain t' where "y_owner s (Document doc) = Some t'" by (auto simp: takeable_def)
    from holder [OF this] obtain p' need delta rest own where "y_phase s t' = Working ((p', need, delta) # rest) own" by blast
    with Waiting show ?thesis by (intro exI [of _ t']) (simp add: is_ended_def)
  next
    case (Working todo own)
    from stuck_working [OF assms(2) this] obtain p need delta rest where
      todo: "todo = (p, need, delta) # rest" "\<not> takeable s t (Shelf p)" by blast
    then obtain t' where o: "y_owner s (Shelf p) = Some t'" by (auto simp: takeable_def)
    from holder [OF o] obtain p' need' delta' rest' own' before where
      h: "y_phase s t' = Working ((p', need', delta') # rest') own'" "t' \<in> T"
      "snd (jobs t') = before @ (p', need', delta') # rest'" "p' \<notin> fst ` set before" "p \<in> fst ` set before"
      using o by blast
    have "sorted (map fst (before @ (p', need', delta') # rest'))" using assms(4) h(2,3) by (metis in_order_def)
    then have "p \<le> p'" using h(5) by (auto simp: sorted_append)
    moreover have "p \<noteq> p'" using h(4,5) by blast
    ultimately show ?thesis using h(1) Working todo(1) by (intro exI [of _ t']) (simp add: is_ended_def)
  qed (use assms(3) in \<open>simp add: is_ended_def\<close>)
qed

lemma never_stuck:
  assumes "lock_inv T jobs s" "finite T" "\<forall>t \<in> T. in_order (jobs t)" "\<not> is_ended (y_phase s t)"
  shows "\<exists>s'. yard_step jobs s s'"
proof (rule ccontr)
  assume stuck: "\<nexists>s'. yard_step jobs s s'"
  let ?A = "{t. \<not> is_ended (y_phase s t)}"
  let ?w = "\<lambda>t. wants (y_phase s t)"
  have "?A \<subseteq> T" using lock_invD(3) [OF assms(1)] by (auto simp: is_ended_def)
  then have fin: "finite (?w ` ?A)" using assms(2) by (meson finite_imageI finite_subset)
  have "?w ` ?A \<noteq> {}" using assms(4) by blast
  then obtain t1 where t1: "t1 \<in> ?A" "?w t1 = Max (?w ` ?A)" using Max_in [OF fin] by auto
  from stuck_waits [OF assms(1) stuck _ assms(3), of t1] t1(1)
  obtain t2 where "t2 \<in> ?A" "?w t1 < ?w t2" by auto
  with Max_ge [OF fin, of "?w t2"] t1(2) show False by auto
qed

subsection \<open>Every job ends\<close>

fun steps_left :: "job \<Rightarrow> yard_phase \<Rightarrow> nat" where
  "steps_left j Waiting = length (snd j) + 2"
| "steps_left j (Working todo own) = length todo + 1"
| "steps_left j (Ended b) = 0"

definition work_left :: "nat set \<Rightarrow> (nat \<Rightarrow> job) \<Rightarrow> yard \<Rightarrow> nat" where
  "work_left T jobs s = (\<Sum>t \<in> T. steps_left (jobs t) (y_phase s t))"

lemma step_works:
  assumes "yard_step jobs s s'" "finite T" "\<And>t. t \<notin> T \<Longrightarrow> y_phase s t = Ended False"
  shows "work_left T jobs s' < work_left T jobs s"
proof -
  have "\<exists>t x. y_phase s' = (y_phase s)(t := x) \<and> steps_left (jobs t) x < steps_left (jobs t) (y_phase s t)"
    using assms(1)
  proof cases
    case (claim t doc)
    then show ?thesis by (intro exI [of _ t] exI [of _ "Working (snd (jobs t)) (\<lambda>_. None)"]) simp
  next
    case (replay t doc)
    then show ?thesis by (intro exI [of _ t] exI [of _ "Ended False"]) simp
  next
    case (begin_job t)
    then show ?thesis by (intro exI [of _ t] exI [of _ "Working (snd (jobs t)) (\<lambda>_. None)"]) simp
  next
    case (move t p need delta todo own)
    then show ?thesis by (intro exI [of _ t] exI [of _ "Working todo (own(p \<mapsto> basis (y_stock s) own need p + delta))"]) simp
  next
    case (refuse t p need delta todo own)
    then show ?thesis by (intro exI [of _ t] exI [of _ "Ended False"]) simp
  next
    case (commit_job t own)
    then show ?thesis by (intro exI [of _ t] exI [of _ "Ended True"]) simp
  qed
  then obtain t x where x: "y_phase s' = (y_phase s)(t := x)" "steps_left (jobs t) x < steps_left (jobs t) (y_phase s t)" by blast
  have "t \<in> T" using x(2) assms(3) [of t] by (cases "t \<in> T") auto
  then show ?thesis unfolding work_left_def using assms(2) x by (intro sum_strict_mono_ex1) auto
qed

lemma yard_trans: "yard_reachable jobs s1 s2 \<Longrightarrow> yard_reachable jobs s0 s1 \<Longrightarrow> yard_reachable jobs s0 s2"
  by (induction rule: yard_reachable.induct) (auto intro: yard_reachable.onward)

lemma all_can_end:
  assumes "lock_inv T jobs s" "finite T" "\<forall>t \<in> T. in_order (jobs t)"
  shows "\<exists>s'. yard_reachable jobs s s' \<and> (\<forall>t. is_ended (y_phase s' t))"
  using assms(1)
proof (induction "work_left T jobs s" arbitrary: s rule: less_induct)
  case less
  show ?case
  proof (cases "\<forall>t. is_ended (y_phase s t)")
    case True
    then show ?thesis using yard_reachable.sent by blast
  next
    case False
    then obtain s1 where s1: "yard_step jobs s s1" using never_stuck [OF less.prems assms(2,3)] by blast
    have "lock_inv T jobs s1" by (rule lock_inv_step [OF s1 less.prems])
    with less.hyps [OF step_works [OF s1 assms(2) lock_invD(3) [OF less.prems]]]
    obtain s' where "yard_reachable jobs s1 s'" "\<forall>t. is_ended (y_phase s' t)" by blast
    with yard_trans [OF _ yard_reachable.onward [OF yard_reachable.sent s1]] show ?thesis by blast
  qed
qed

text \<open>C4. No deadlock: since every mutation locks its document first and then product rows in the order
  of their ids, wherever an interleaving has got to, as long as some job has not ended some job
  can take its next step, no interleaving goes on for ever, and all jobs can be brought to an end.\<close>
theorem concurrent_mutations_all_end:
  assumes "yard_reachable jobs (open_yard init T) s" "finite T" "\<forall>t \<in> T. in_order (jobs t)"
  shows "(\<not> is_ended (y_phase s t) \<longrightarrow> (\<exists>s'. yard_step jobs s s'))
    \<and> (yard_step jobs s s' \<longrightarrow> work_left T jobs s' < work_left T jobs s)
    \<and> (\<exists>s'. yard_reachable jobs s s' \<and> (\<forall>t. is_ended (y_phase s' t)))"
proof -
  have inv: "lock_inv T jobs s" by (rule lock_inv_reachable [OF assms(1) lock_inv_open])
  show ?thesis
  proof (intro conjI impI)
    show "\<exists>s'. yard_step jobs s s'" if "\<not> is_ended (y_phase s t)"
      using never_stuck [OF inv assms(2,3) that] .
    show "work_left T jobs s' < work_left T jobs s" if "yard_step jobs s s'"
      using step_works [OF that assms(2) lock_invD(3) [OF inv]] .
    show "\<exists>s'. yard_reachable jobs s s' \<and> (\<forall>t. is_ended (y_phase s' t))"
      by (rule all_can_end [OF inv assms(2,3)])
  qed
qed

subsection \<open>The jobs of the program\<close>

text \<open>What each mutation locks and moves, read off the database it starts on.\<close>

fun job_of :: "request \<Rightarrow> db \<Rightarrow> job" where
  "job_of (Receive pk) d = (Some pk, map (\<lambda>x. (poi_product x, None, poi_quantity x)) (sort_key poi_product (items_of_po pk d)))"
| "job_of (Complete drawn pk) d =
     (Some pk, map (\<lambda>x. (soi_product x, Some (soi_quantity x), - soi_quantity x)) (sort_key soi_product (items_of_so pk d)))"
| "job_of (Approve pk) d =
     (Some pk, case get_return pk d of None \<Rightarrow> [] | Some r \<Rightarrow> [(r_product r, None, r_quantity r)])"
| "job_of (WriteOff data) d =
     (None, case (din_product data, din_quantity data) of (Given p, Given q) \<Rightarrow> [(p, Some q, - q)] | _ \<Rightarrow> [])"
| "job_of _ d = (None, [])"

text \<open>The status with which each of them says that it has moved the stock.\<close>

fun accepted :: "request \<Rightarrow> nat option" where
  "accepted (Receive pk) = Some 200"
| "accepted (Complete drawn pk) = Some 200"
| "accepted (Approve pk) = Some 200"
| "accepted (WriteOff data) = Some 201"
| "accepted _ = None"

text \<open>What the movements of a job write when nobody else is there.\<close>

fun run_movements :: "(uuid \<Rightarrow> int) \<Rightarrow> movement list \<Rightarrow> (uuid \<Rightarrow> int option) \<Rightarrow> (uuid \<Rightarrow> int option) option" where
  "run_movements st [] own = Some own"
| "run_movements st ((p, need, delta) # ms) own = (if enough need (basis st own need p)
     then run_movements st ms (own(p \<mapsto> basis st own need p + delta)) else None)"

definition moves :: "movement list \<Rightarrow> (uuid \<Rightarrow> int) \<Rightarrow> (uuid \<Rightarrow> int) \<Rightarrow> bool" where
  "moves ms st st' \<longleftrightarrow> (\<exists>own. run_movements st ms (\<lambda>_. None) = Some own \<and> current st own = st')"

lemma current_simps [simp]:
  "current st (\<lambda>_. None) = st" "current st (own(p \<mapsto> v)) = (current st own)(p := v)"
  by (auto simp: current_def fun_eq_iff)

lemma basis_simps [simp]:
  "basis st own None p = current st own p" "basis st own (Some n) p = st p"
  by (simp_all add: basis_def)

lemma moves_one: "moves [(p, need, delta)] st st' \<longleftrightarrow> enough need (st p) \<and> st' = st(p := st p + delta)"
  by (cases need) (auto simp: moves_def)

lemma shelf_move:
  assumes "\<And>i. stock_of d' i = (if i = p then map_option (\<lambda>n. n + delta) (stock_of d i) else stock_of d i)" "stock_of d p = Some n"
  shows "shelf d' = (shelf d)(p := shelf d p + delta)"
  by (rule ext) (simp add: shelf_def assms)

lemma receive_moves:
  "foldE (receive_item u now pk) items d = Inr d' \<Longrightarrow> current st own = shelf d \<Longrightarrow>
   \<exists>own'. run_movements st (map (\<lambda>x. (poi_product x, None, poi_quantity x)) items) own = Some own' \<and> current st own' = shelf d'"
proof (induction items arbitrary: d own)
  case (Cons x items)
  then obtain e where e: "receive_item u now pk x d = Inr e" "foldE (receive_item u now pk) items e = Inr d'"
    by (auto simp: bind_elims)
  obtain n where "stock_of d (poi_product x) = Some n"
    using e(1) by (auto simp: receive_item_def bind_elims stock_of_def)
  then have "shelf e = (shelf d)(poi_product x := shelf d (poi_product x) + poi_quantity x)"
    by (intro shelf_move receiving.step_stock [OF TrueI e(1)])
  then have "current st (own(poi_product x \<mapsto> current st own (poi_product x) + poi_quantity x)) = shelf e"
    using Cons.prems(2) by (simp del: fun_upd_apply)
  from Cons.IH [OF e(2) this] show ?case by (simp add: enough_def del: fun_upd_apply)
qed simp

text \<open>Of several lines with checks for one product, the last one counts.\<close>

lemma sale_moves:
  assumes "\<And>x. x \<in> set xs \<Longrightarrow> q x \<le> st (p x)"
  shows "\<exists>own'. run_movements st (map (\<lambda>x. (p x, Some (q x), - q x)) xs) own = Some own'
    \<and> (\<forall>i. current st own' i = (case filter (\<lambda>x. p x = i) xs of [] \<Rightarrow> current st own i | ys \<Rightarrow> st i - q (last ys)))"
  using assms
proof (induction xs arbitrary: own)
  case (Cons x xs)
  let ?own = "own(p x \<mapsto> st (p x) - q x)"
  have le: "\<And>x. x \<in> set xs \<Longrightarrow> q x \<le> st (p x)" using Cons.prems by simp
  from Cons.IH [OF le] obtain own' where
    o: "run_movements st (map (\<lambda>x. (p x, Some (q x), - q x)) xs) ?own = Some own'"
      "\<And>i. current st own' i = (case filter (\<lambda>x. p x = i) xs of [] \<Rightarrow> current st ?own i | ys \<Rightarrow> st i - q (last ys))"
    by blast
  have "current st own' i = (case filter (\<lambda>x. p x = i) (x # xs) of [] \<Rightarrow> current st own i | ys \<Rightarrow> st i - q (last ys))" for i
    using o(2) [of i] by (auto split: list.split)
  moreover have "q x \<le> st (p x)" using Cons.prems by simp
  ultimately show ?case using o(1) by (simp add: enough_def)
qed simp

lemma complete_moves:
  assumes "complete u now drawn pk d = Inr oc" "status_code (rsp oc) = 200" "wf_sales d"
  shows "moves (snd (job_of (Complete drawn pk) d)) (shelf d) (shelf (odb oc))"
proof -
  from assms(1,2) obtain so by_item d1 where c: "get_so pk d = Some so" "so_id so = pk"
      "check_lines (sort_key soi_product (items_of_so pk d)) d Map.empty = Inr (Inr by_item)"
      "foldE (deduct_line u now pk by_item) (sort_key soi_product (items_of_so pk d)) d = Inr d1"
      "finish_complete now drawn so d1 = Inr (odb oc)"
    by (rule complete_ok)
  have ids: "distinct (map soi_id (so_items d))" using assms(3) by (simp add: wf_sales_def)
  note lv = complete_levels [OF c ids]
  let ?xs = "sort_key soi_product (items_of_so pk d)"
  have "soi_quantity x \<le> shelf d (soi_product x)" if "x \<in> set ?xs" for x
    using lv(3) [of x] that by (auto simp: shelf_def)
  from sale_moves [where own = "\<lambda>_. None" and p = soi_product and q = soi_quantity and st = "shelf d" and xs = ?xs, OF this]
  obtain own where
    o: "run_movements (shelf d) (map (\<lambda>x. (soi_product x, Some (soi_quantity x), - soi_quantity x)) ?xs) (\<lambda>_. None) = Some own"
      "\<And>i. current (shelf d) own i = (case filter (\<lambda>x. soi_product x = i) ?xs of [] \<Rightarrow> current (shelf d) (\<lambda>_. None) i | ys \<Rightarrow> shelf d i - soi_quantity (last ys))"
    by blast
  have "current (shelf d) own i = shelf (odb oc) i" for i
  proof (cases "filter (\<lambda>x. soi_product x = i) (items_of_so pk d)")
    case Nil
    then show ?thesis using o(2) [of i] lv(1) [of i] by (simp add: sort_key_stable shelf_def)
  next
    case (Cons x xs)
    then have "x \<in> set (filter (\<lambda>x. soi_product x = i) (items_of_so pk d))" by simp
    then obtain n where "stock_of d i = Some n" using lv(3) [of x] by auto
    with Cons o(2) [of i] lv(1) [of i] show ?thesis by (simp add: sort_key_stable shelf_def)
  qed
  with o(1) show ?thesis by (auto simp: moves_def)
qed

lemma approve_moves:
  assumes "approve u now pk d = Inr oc" "status_code (rsp oc) = 200"
  shows "moves (snd (job_of (Approve pk) d)) (shelf d) (shelf (odb oc))"
proof -
  from assms obtain r d1 where r: "get_return pk d = Some r" "restock u now r d = Inr d1" "odb oc = save_return_approved u r d1"
    by (rule approve_ok)
  obtain n where n: "stock_of d (r_product r) = Some n" using r(2) by (auto simp: restock_Inr stock_of_def)
  have "stock_of (odb oc) i = stock_of d1 i" for i using r(3) by (simp add: save_return_approved_def stock_of_def)
  then have "shelf (odb oc) = (shelf d)(r_product r := shelf d (r_product r) + r_quantity r)"
    using restock_levels(1) [OF r(2)] by (intro shelf_move [OF _ n]) simp
  with r(1) show ?thesis by (simp add: enough_def moves_one)
qed

lemma damage_moves:
  assumes "damage u now data d = Inr oc" "status_code (rsp oc) = 201" "wf_products d"
  shows "moves (snd (job_of (WriteOff data) d)) (shelf d) (shelf (odb oc))"
  using assms(1)
proof (cases rule: damage_cases)
  case refused
  with assms(2) show ?thesis by simp
next
  case (written pid p q reason t)
  have g: "get_product pid d = Some p"
    using get_row_eqI [of p_id "products d" p] written(5,6) assms(3) by (simp add: wf_products_def)
  then have n: "stock_of d pid = Some (p_current_stock p)" by (simp add: stock_of_def)
  have lv: "stock_of (odb oc) i = (if i = p_id p then map_option (\<lambda>n. p_current_stock p - q) (stock_of d i) else stock_of d i)" for i
    using written(9) by (auto simp: write_off_Inr stock_of_save stock_of_def get_row_update option.map_comp o_def)
  have "shelf (odb oc) = (shelf d)(pid := shelf d pid + - q)"
    by (rule shelf_move [OF _ n]) (use lv n written(5) in \<open>auto\<close>)
  moreover have "shelf d pid = p_current_stock p" using n by (simp add: shelf_def)
  ultimately show ?thesis using written(1,2,8) by (simp add: enough_def moves_one)
qed

lemma receive_shelf:
  assumes "receive u now pk d = Inr oc" "status_code (rsp oc) = 200"
  shows "moves (snd (job_of (Receive pk) d)) (shelf d) (shelf (odb oc))"
proof -
  from assms obtain po d1 where r: "foldE (receive_item u now pk) (sort_key poi_product (items_of_po pk d)) d = Inr d1"
      "odb oc = finish_receive now po d1"
    by (rule receive_ok)
  have "shelf (odb oc) = shelf d1"
    by (rule ext) (simp add: r(2) shelf_def stock_of_def)
  with receive_moves [OF r(1), of "shelf d" "\<lambda>_. None"] show ?thesis by (auto simp: moves_def)
qed

lemma accepted_moves:
  assumes "view_of u now r d = Inr oc" "accepted r = Some (status_code (rsp oc))" "inventory_inv d"
  shows "moves (snd (job_of r d)) (shelf d) (shelf (odb oc))"
proof (cases r)
  case (Receive pk)
  with assms(1,2) receive_shelf [of u now pk d oc] show ?thesis by simp
next
  case (Complete drawn pk)
  with assms(1,2) complete_moves [of u now drawn pk d oc] inventory_invD(3) [OF assms(3)] show ?thesis by simp
next
  case (Approve pk)
  with assms(1,2) approve_moves [of u now pk d oc] show ?thesis by simp
next
  case (WriteOff data)
  with assms(1,2) damage_moves [of u now data d oc] inventory_invD(1) [OF assms(3)] show ?thesis by simp
qed (use assms(2) in simp_all)

lemma job_of_fair:
  assumes "inventory_inv d"
  shows "fair (job_of r d)"
proof (cases r)
  case (Receive pk)
  have "0 \<le> poi_quantity x" if "x \<in> set (items_of_po pk d)" for x
    using inventory_invD(2) [OF assms] that by (force simp: wf_purchases_def)
  with Receive show ?thesis by (auto simp: fair_def)
next
  case (Approve pk)
  have "0 \<le> r_quantity x" if "get_return pk d = Some x" for x
    using inventory_invD(4) [OF assms] get_row_SomeD(1) [OF that] by (simp add: wf_returns_def)
  with Approve show ?thesis by (auto simp: fair_def split: option.splits)
qed (auto simp: fair_def split: field.splits)

text \<open>On a sound database no order has two lines for one product.\<close>

lemma job_of_unrepeated:
  assumes "inventory_inv d"
  shows "unrepeated (job_of r d)"
proof (cases r)
  case (Complete drawn pk)
  let ?xs = "sort_key soi_product (items_of_so pk d)"
  have "distinct (map soi_product (items_of_so pk d))"
    using inventory_invD(5) [OF assms] by (simp add: single_lines_def)
  moreover have "mset (map soi_product ?xs) = mset (map soi_product (items_of_so pk d))" by simp
  ultimately have "distinct (map soi_product ?xs)" by (metis mset_eq_imp_distinct_iff)
  with Complete show ?thesis by (simp add: unrepeated_def comp_def)
qed (auto simp: unrepeated_def split: field.splits option.splits)

lemma job_of_in_order: "in_order (job_of r d)"
  by (cases r) (auto simp: in_order_def o_def split: option.splits field.splits)

text \<open>A job that has the rows to itself does its movements.\<close>

lemma alone_moves:
  assumes "yard_reachable jobs s0 s" "y_phase s t = Working ms own" "\<And>r. takeable s t r"
    and "run_movements (y_stock s) ms own = Some own'"
  shows "\<exists>s'. yard_reachable jobs s0 s' \<and> y_phase s' t = Working [] own' \<and> y_stock s' = y_stock s"
  using assms
proof (induction ms arbitrary: s own)
  case Nil
  then show ?case by auto
next
  case (Cons m ms)
  obtain p need delta where m: "m = (p, need, delta)" by (cases m)
  let ?own = "own(p \<mapsto> basis (y_stock s) own need p + delta)"
  let ?s = "s\<lparr>y_owner := (y_owner s)(Shelf p \<mapsto> t), y_phase := (y_phase s)(t := Working ms ?own)\<rparr>"
  from Cons.prems(4) m have e: "enough need (basis (y_stock s) own need p)"
    and rest: "run_movements (y_stock s) ms ?own = Some own'"
    by (auto split: if_splits)
  have "yard_step jobs s ?s"
    by (rule yard_step.move [OF _ Cons.prems(3) e]) (simp add: Cons.prems(2) m)
  then have "yard_reachable jobs s0 ?s" by (rule yard_reachable.onward [OF Cons.prems(1)])
  moreover have "y_phase ?s t = Working ms ?own" by simp
  moreover have "\<And>r. takeable ?s t r" using Cons.prems(3) by (auto simp: takeable_def)
  moreover have "run_movements (y_stock ?s) ms ?own = Some own'" using rest by simp
  ultimately have "\<exists>s'. yard_reachable jobs s0 s' \<and> y_phase s' t = Working [] own' \<and> y_stock s' = y_stock ?s" by (rule Cons.IH)
  then show ?case by simp
qed

lemma alone_commits:
  assumes "moves (snd (jobs t)) init st'"
  shows "\<exists>s. yard_reachable jobs (open_yard init {t}) s \<and> y_phase s t = Ended True \<and> y_stock s = st'"
proof -
  let ?start = "open_yard init {t}"
  have w: "y_phase ?start t = Waiting" by (simp add: open_yard_def)
  have "\<exists>s. yard_step jobs ?start s \<and> y_phase s t = Working (snd (jobs t)) (\<lambda>_. None) \<and> (\<forall>r. takeable s t r) \<and> y_stock s = init"
  proof (cases "fst (jobs t)")
    case None
    let ?after = "?start\<lparr>y_phase := (y_phase ?start)(t := Working (snd (jobs t)) (\<lambda>_. None))\<rparr>"
    have "yard_step jobs ?start ?after" by (rule yard_step.begin_job [of ?start t jobs, OF w None])
    then show ?thesis
      by (rule exI [of _ ?after, OF conjI]) (simp add: takeable_def open_yard_def)
  next
    case (Some doc)
    let ?after = "?start\<lparr>y_owner := (y_owner ?start)(Document doc \<mapsto> t),
      y_phase := (y_phase ?start)(t := Working (snd (jobs t)) (\<lambda>_. None))\<rparr>"
    have "takeable ?start t (Document doc)" "doc \<notin> y_closed ?start" by (simp_all add: takeable_def open_yard_def)
    then have "yard_step jobs ?start ?after" by (rule yard_step.claim [of ?start t jobs doc, OF w Some])
    then show ?thesis
      by (rule exI [of _ ?after, OF conjI]) (simp add: takeable_def open_yard_def)
  qed
  then obtain s1 where s1: "yard_step jobs ?start s1" "y_phase s1 t = Working (snd (jobs t)) (\<lambda>_. None)"
      "\<And>r. takeable s1 t r" "y_stock s1 = init" by blast
  from assms obtain own where own: "run_movements (y_stock s1) (snd (jobs t)) (\<lambda>_. None) = Some own" "current init own = st'"
    by (auto simp: moves_def s1(4))
  from alone_moves [OF yard_reachable.onward [OF yard_reachable.sent s1(1)] s1(2,3) own(1)]
  obtain s2 where s2: "yard_reachable jobs ?start s2" "y_phase s2 t = Working [] own" "y_stock s2 = init" by (auto simp: s1(4))
  from yard_reachable.onward [OF s2(1) yard_step.commit_job [OF s2(2)]] s2(3) own(2) show ?thesis
    by (intro exI conjI) (assumption, simp_all)
qed

text \<open>C7. The lock protocol is what the program does: whenever a receipt, a completion, an approval or a
  write-off is accepted on a sound database, its job (the document and the rows it locks, and what
  it moves) meets the rules under which interleavings are exact and cannot deadlock (stock is only
  taken after a check that covers it, a job that checks names no product twice, and product rows
  are locked in the order of their ids), and
  the protocol, started with that job on the same stock, commits it and leaves exactly the stock
  the endpoint leaves.\<close>
theorem mutations_refine_the_protocol:
  assumes "view_of u now r d = Inr oc" "accepted r = Some (status_code (rsp oc))" "inventory_inv d"
  shows "fair (job_of r d) \<and> unrepeated (job_of r d) \<and> in_order (job_of r d)
    \<and> (\<exists>s. yard_reachable (\<lambda>_. job_of r d) (open_yard (shelf d) {t}) s
         \<and> y_phase s t = Ended True \<and> y_stock s = shelf (odb oc))"
  using job_of_fair [OF assms(3)] job_of_unrepeated [OF assms(3)] job_of_in_order
    alone_commits [of "\<lambda>_. job_of r d" t "shelf d", OF accepted_moves [OF assms]] by blast

theorem mutations_refine_the_protocol_witness:
  "\<exists>oc s. view_of sample_manager 5 (Receive 40) sample_db = Inr oc
     \<and> yard_reachable (\<lambda>_. job_of (Receive 40) sample_db) (open_yard (shelf sample_db) {7}) s
     \<and> y_stock s = shelf (odb oc)"
proof -
  have "case view_of sample_manager 5 (Receive 40) sample_db of Inr oc \<Rightarrow> accepted (Receive 40) = Some (status_code (rsp oc)) | _ \<Rightarrow> False"
    by code_simp
  then obtain oc where oc: "view_of sample_manager 5 (Receive 40) sample_db = Inr oc"
      "accepted (Receive 40) = Some (status_code (rsp oc))"
    by (auto split: sum.splits)
  from mutations_refine_the_protocol [OF oc sample_inventory_inv, of 7] oc(1) show ?thesis by blast
qed

subsection \<open>A receipt, a sale and an approval together\<close>

definition sample_jobs :: "nat \<Rightarrow> job" where
  "sample_jobs t = job_of ([Receive 40, Complete 200 50, Approve 80] ! (t mod 3)) sample_db"

lemma sample_shelf_nonneg: "0 \<le> shelf sample_db p"
proof (cases "get_product p sample_db")
  case (Some x)
  have "x \<in> set (products sample_db)" "p_id x = p" using get_row_SomeD [OF Some] by simp_all
  then have "\<exists>n \<ge> 0. stock_of sample_db p = Some n"
    using inventory_invD(8) [OF sample_inventory_inv] by (auto simp: stock_nonneg_def)
  then show ?thesis by (auto simp: shelf_def)
qed (simp add: shelf_def stock_of_def)

lemma sample_jobs_ok: "\<forall>t \<in> T. in_order (sample_jobs t)" "\<forall>t \<in> T. fair (sample_jobs t) \<and> unrepeated (sample_jobs t)"
  by (simp_all only: sample_jobs_def job_of_in_order job_of_fair [OF sample_inventory_inv] job_of_unrepeated [OF sample_inventory_inv]) simp_all

theorem concurrent_mutations_all_end_witness:
  "\<exists>s. yard_reachable sample_jobs (open_yard (shelf sample_db) {0, 1, 2, 3}) s \<and> (\<forall>t. is_ended (y_phase s t))"
proof -
  let ?T = "{0, 1, 2, 3} :: nat set"
  have "finite ?T" by simp
  from concurrent_mutations_all_end [OF yard_reachable.sent this sample_jobs_ok(1), where init = "shelf sample_db"]
  show ?thesis by blast
qed

theorem concurrent_mutations_are_exact_witness:
  "\<exists>s. yard_reachable sample_jobs (open_yard (shelf sample_db) {0, 1, 2, 3}) s \<and> (\<forall>t. is_ended (y_phase s t))
     \<and> y_stock s 20 = 10 + (\<Sum>t \<in> {t \<in> {0, 1, 2, 3}. y_phase s t = Ended True}. total_at (snd (sample_jobs t)) 20)"
proof -
  let ?T = "{0, 1, 2, 3} :: nat set"
  have fin: "finite ?T" by simp
  from all_can_end [OF lock_inv_open fin sample_jobs_ok(1)] obtain s where
    s: "yard_reachable sample_jobs (open_yard (shelf sample_db) ?T) s" "\<forall>t. is_ended (y_phase s t)" by blast
  have "shelf sample_db 20 = 10" by code_simp
  have "y_stock s 20 = shelf sample_db 20 + (\<Sum>t \<in> {t \<in> ?T. y_phase s t = Ended True}. total_at (snd (sample_jobs t)) 20)"
    using concurrent_mutations_are_exact [where init = "shelf sample_db" and p = 20, OF s(1) sample_shelf_nonneg fin sample_jobs_ok(2)]
    by (rule conjunct1)
  with s \<open>shelf sample_db 20 = 10\<close> show ?thesis by (intro exI [of _ s]) (simp only: simp_thms)
qed

end
