(* ===== verification/Foreign_Keys.thy ===== *)
theory Foreign_Keys
  imports Mutations Orders
begin

section \<open>Row locks that foreign keys take\<close>

text \<open>
  The stock mutations lock product rows in the order of their keys so that they queue up instead of
  deadlocking. A request that creates an order takes locks of its own: for each inserted row PostgreSQL
  checks the foreign key by locking the row it refers to \<open>FOR KEY SHARE\<close>, row by row in the order of
  the inserts (Django's constraints are deferred, so all of them when the transaction commits), and
  keeps the lock until the transaction ends. Such a lock conflicts with the \<open>FOR UPDATE\<close> of
  \<open>select_for_update()\<close>, but not with itself. \<open>SalesOrderViewSet.create\<close> inserts the lines in the order of
  the request. The lock modes and their conflicts are those PostgreSQL documents; which locks a request
  takes, and in which order, is read off the model of its view.
\<close>

datatype lock_mode = ForKeyShare | ForUpdate

type_synonym lock_plan = "(uuid \<times> lock_mode) list"

record lock_table =
  held :: "uuid \<Rightarrow> (nat \<times> lock_mode) set"
  wanted :: "nat \<Rightarrow> lock_plan"

definition conflicting :: "lock_mode \<Rightarrow> lock_mode \<Rightarrow> bool" where
  "conflicting m m' \<longleftrightarrow> m = ForUpdate \<or> m' = ForUpdate"

definition grantable :: "lock_table \<Rightarrow> nat \<Rightarrow> uuid \<Rightarrow> lock_mode \<Rightarrow> bool" where
  "grantable s t p m \<longleftrightarrow> (\<forall>(t', m') \<in> held s p. t' \<noteq> t \<longrightarrow> \<not> conflicting m m')"

text \<open>A transaction takes its next lock, or ends and lets go of all.\<close>

inductive lock_step :: "lock_table \<Rightarrow> lock_table \<Rightarrow> bool" where
  grant: "wanted s t = (p, m) # rest \<Longrightarrow> grantable s t p m \<Longrightarrow>
    lock_step s (s\<lparr>held := (held s)(p := insert (t, m) (held s p)), wanted := (wanted s)(t := rest)\<rparr>)"
| finish: "wanted s t = [] \<Longrightarrow> lock_step s (s\<lparr>held := (\<lambda>p. {(t', m) \<in> held s p. t' \<noteq> t})\<rparr>)"

definition open_locks :: "(nat \<Rightarrow> lock_plan) \<Rightarrow> lock_table" where
  "open_locks plans = \<lparr>held = (\<lambda>_. {}), wanted = plans\<rparr>"

inductive lock_reachable :: "(nat \<Rightarrow> lock_plan) \<Rightarrow> lock_table \<Rightarrow> bool" for plans :: "nat \<Rightarrow> lock_plan" where
  opened: "lock_reachable plans (open_locks plans)"
| stepped: "lock_reachable plans s \<Longrightarrow> lock_step s s' \<Longrightarrow> lock_reachable plans s'"

text \<open>\<open>t\<close> wants a lock it cannot have while \<open>t'\<close> holds one.\<close>

definition waits_for :: "lock_table \<Rightarrow> nat \<Rightarrow> nat \<Rightarrow> bool" where
  "waits_for s t t' \<longleftrightarrow> (case wanted s t of [] \<Rightarrow> False
     | (p, m) # rest \<Rightarrow> t' \<noteq> t \<and> (\<exists>m'. (t', m') \<in> held s p \<and> conflicting m m'))"

lemma waiting_is_stuck:
  assumes "waits_for s t t'"
  obtains p m rest where "wanted s t = (p, m) # rest" "\<not> grantable s t p m"
  using assms by (auto simp: waits_for_def grantable_def split: list.splits prod.splits)

subsection \<open>The locks of the requests\<close>

text \<open>\<open>complete\<close>: the products of its lines, \<open>order_by("product_id")\<close>, each with \<open>select_for_update()\<close>, up to
  the first line there is not enough stock for, where it returns.\<close>

fun locks_of_lines :: "so_item list \<Rightarrow> db \<Rightarrow> lock_plan" where
  "locks_of_lines [] d = []"
| "locks_of_lines (item # items) d = (soi_product item, ForUpdate) # (case get_product (soi_product item) d of
     None \<Rightarrow> []
   | Some product \<Rightarrow> if p_current_stock product < soi_quantity item then [] else locks_of_lines items d)"

definition sale_locks :: "uuid \<Rightarrow> db \<Rightarrow> lock_plan" where
  "sale_locks pk d = locks_of_lines (sort_key soi_product (items_of_so pk d)) d"

lemma locks_of_checked_lines:
  "check_lines items d acc = Inr (Inr by_item) \<Longrightarrow> locks_of_lines items d = map (\<lambda>x. (soi_product x, ForUpdate)) items"
  by (induction items arbitrary: acc) (auto simp: bindE_def some_or_def split: option.splits if_splits sum.splits)

text \<open>\<open>create\<close>: the products of the rows it inserts.\<close>

definition creation_locks :: "db \<Rightarrow> outcome \<Rightarrow> lock_plan" where
  "creation_locks d oc = map (\<lambda>x. (soi_product x, ForKeyShare)) (items_of_so (next_uuid d) (odb oc))"

lemma creation_locks_follow_the_request:
  assumes "so_create u now data d = Inr oc" "wf_sales d" "soin_items data = Given its"
  shows "map Given (map fst (creation_locks d oc)) = map sii_product its" "snd ` set (creation_locks d oc) \<subseteq> {ForKeyShare}"
proof -
  let ?lines = "items_of_so (next_uuid d) (odb oc)"
  have "map (\<lambda>x. (Given (soi_product x), Given (soi_quantity x))) ?lines = map (\<lambda>it. (sii_product it, sii_quantity it)) its"
    using so_create_effect_facts(2) [OF assms(1,3,2)] by (simp add: priced_lines_def)
  from arg_cong [OF this, of "map fst"] show "map Given (map fst (creation_locks d oc)) = map sii_product its"
    by (simp add: creation_locks_def comp_def)
  show "snd ` set (creation_locks d oc) \<subseteq> {ForKeyShare}" by (auto simp: creation_locks_def)
qed

lemma grants:
  assumes "lock_reachable plans s" "wanted s t = map (\<lambda>p. (p, m)) ps @ rest"
    and "\<forall>p \<in> set ps. fst ` held s p \<subseteq> {t}"
  shows "\<exists>s'. lock_reachable plans s' \<and> wanted s' = (wanted s)(t := rest)
    \<and> (\<forall>p. held s' p = (if p \<in> set ps then insert (t, m) (held s p) else held s p))"
  using assms
proof (induction ps arbitrary: s)
  case Nil
  then have "(wanted s)(t := rest) = wanted s" by (intro ext) simp
  with Nil.prems(1) show ?case by (intro exI [of _ s]) simp
next
  case (Cons p ps)
  let ?s = "s\<lparr>held := (held s)(p := insert (t, m) (held s p)), wanted := (wanted s)(t := map (\<lambda>p. (p, m)) ps @ rest)\<rparr>"
  have w: "wanted ?s t = map (\<lambda>p. (p, m)) ps @ rest" by simp
  have "wanted s t = (p, m) # (map (\<lambda>p. (p, m)) ps @ rest)" using Cons.prems(2) by simp
  moreover have "grantable s t p m" using Cons.prems(3) by (fastforce simp: grantable_def)
  ultimately have "lock_step s ?s" by (rule lock_step.grant)
  with Cons.prems(1) have r: "lock_reachable plans ?s" by (rule lock_reachable.stepped)
  have h: "\<forall>x \<in> set ps. fst ` held ?s x \<subseteq> {t}" using Cons.prems(3) by auto
  obtain s' where s': "lock_reachable plans s'" "wanted s' = (wanted ?s)(t := rest)"
    "\<forall>x. held s' x = (if x \<in> set ps then insert (t, m) (held ?s x) else held ?s x)"
    using Cons.IH [OF r w h] by blast
  show ?case using s' by (intro exI [of _ s']) auto
qed

text \<open>C8. Creating an order can deadlock a sale. Let a request create an order for two products, the one
  with the greater key first, while an open order with lines for both of them is completed, which by
  itself would succeed: there is an interleaving in which the creation waits for the sale and the sale for the creation, and
  neither can take its next lock. The sale has its products in order; the creation has them in
  that of the request.\<close>
theorem creating_an_order_can_deadlock_a_sale:
  assumes "so_create u now data d = Inr oc" "wf_sales d" "p < q"
    and "soin_items data = Given [item, item']" "sii_product item = Given q" "sii_product item' = Given p"
    and "complete v now' drawn pk d = Inr oc'" "status_code (rsp oc') = 200" "{p, q} \<subseteq> soi_product ` set (items_of_so pk d)" "plans t = creation_locks d oc" "plans t' = sale_locks pk d" "t \<noteq> t'"
  shows "\<exists>s. lock_reachable plans s \<and> waits_for s t t' \<and> waits_for s t' t"
proof -
  note creation = creation_locks_follow_the_request [OF assms(1,2,4)]
  have made: "creation_locks d oc = [(q, ForKeyShare), (p, ForKeyShare)]"
    using creation assms(5,6) by (cases "creation_locks d oc") auto
  let ?xs = "map soi_product (sort_key soi_product (items_of_so pk d))"
  obtain by_item where "check_lines (sort_key soi_product (items_of_so pk d)) d Map.empty = Inr (Inr by_item)"
    using complete_ok [OF assms(7,8)] by metis
  from locks_of_checked_lines [OF this] have sale: "sale_locks pk d = map (\<lambda>p. (p, ForUpdate)) ?xs"
    by (simp add: sale_locks_def comp_def)
  have "q \<in> set ?xs" "p \<in> set ?xs" using assms(9) by auto
  from split_list_first [OF this(1)] obtain as bs where xs: "?xs = as @ q # bs" "q \<notin> set as" by blast
  have "sorted ?xs" by simp
  then have "\<forall>b \<in> set bs. q \<le> b" unfolding xs(1) by (simp add: sorted_append)
  with \<open>p \<in> set ?xs\<close> assms(3) have p: "p \<in> set as" unfolding xs(1) by auto
  have r0: "lock_reachable plans (open_locks plans)" by (rule lock_reachable.opened)
  have "wanted (open_locks plans) t = map (\<lambda>p. (p, ForKeyShare)) [q] @ [(p, ForKeyShare)]"
    using made assms(10) by (simp add: open_locks_def)
  from grants [OF r0 this] obtain s1 where s1: "lock_reachable plans s1" "wanted s1 = plans(t := [(p, ForKeyShare)])"
    "\<forall>x. held s1 x = (if x = q then {(t, ForKeyShare)} else {})" by (auto simp: open_locks_def)
  have w: "wanted s1 t' = map (\<lambda>p. (p, ForUpdate)) as @ map (\<lambda>p. (p, ForUpdate)) (q # bs)"
    using assms(11,12) s1(2) sale xs(1) by simp
  have h: "\<forall>x \<in> set as. fst ` held s1 x \<subseteq> {t'}" using xs(2) s1(3) by auto
  from grants [OF s1(1) w h] obtain s2 where s2: "lock_reachable plans s2" "wanted s2 = (wanted s1)(t' := map (\<lambda>p. (p, ForUpdate)) (q # bs))"
    "\<forall>x. held s2 x = (if x \<in> set as then insert (t', ForUpdate) (held s1 x) else held s1 x)" by blast
  have "waits_for s2 t t'" using assms(12) s1(2) s2(2,3) p by (simp add: waits_for_def conflicting_def)
  moreover have "waits_for s2 t' t" using assms(12) s1(2,3) s2(2,3) xs(2) by (simp add: waits_for_def conflicting_def)
  ultimately show ?thesis using s2(1) by blast
qed

definition crossing_order :: so_input where
  "crossing_order = \<lparr>soin_customer_name = Absent, soin_customer_phone = Absent,
     soin_items = Given [\<lparr>sii_product = Given 21, sii_quantity = Given 1\<rparr>, \<lparr>sii_product = Given 20, sii_quantity = Given 1\<rparr>]\<rparr>"

lemma result_of:
  assumes "case r of Inl e \<Rightarrow> False | Inr x \<Rightarrow> P x"
  obtains x where "r = Inr x" "P x"
  using assms by (cases r) auto

theorem creating_an_order_can_deadlock_a_sale_witness:
  "\<exists>oc s. so_create sample_employee 5 crossing_order sample_db = Inr oc \<and> status_code (rsp oc) = 201
     \<and> lock_reachable (\<lambda>t. if t = 0 then creation_locks sample_db oc else sale_locks 50 sample_db) s
     \<and> waits_for s 0 1 \<and> waits_for s 1 0"
proof -
  have "case so_create sample_employee 5 crossing_order sample_db of Inl e \<Rightarrow> False | Inr oc \<Rightarrow> status_code (rsp oc) = 201"
    by code_simp
  from result_of [OF this] obtain oc where oc: "so_create sample_employee 5 crossing_order sample_db = Inr oc"
    "status_code (rsp oc) = 201" by blast
  have wf: "wf_sales sample_db" by code_simp
  have items: "soin_items crossing_order = Given [\<lparr>sii_product = Given 21, sii_quantity = Given 1\<rparr>,
    \<lparr>sii_product = Given 20, sii_quantity = Given 1\<rparr>]" by (simp add: crossing_order_def)
  have "case complete sample_employee 9 7 50 sample_db of Inl e \<Rightarrow> False | Inr oc' \<Rightarrow> status_code (rsp oc') = 200"
    by code_simp
  from result_of [OF this] obtain oc' where sale: "complete sample_employee 9 7 50 sample_db = Inr oc'"
    "status_code (rsp oc') = 200" by blast
  have both: "{20, 21} \<subseteq> soi_product ` set (items_of_so 50 sample_db)" by (simp add: sample_defs)
  have "(20 :: nat) < 21" by simp
  from creating_an_order_can_deadlock_a_sale [OF oc(1) wf this items _ _ sale both,
      of "\<lambda>t. if t = 0 then creation_locks sample_db oc else sale_locks 50 sample_db" 0 1]
  obtain s where "lock_reachable (\<lambda>t. if t = 0 then creation_locks sample_db oc else sale_locks 50 sample_db) s"
    "waits_for s 0 1" "waits_for s 1 0" by auto
  with oc show ?thesis by blast
qed

end
