(* ===== verification/Reports.thy ===== *)
theory Reports
  imports Catalog Cache Server
begin

section \<open>Dashboard and reports\<close>

text \<open>
  \<open>apps/reports/views.py\<close>: the dashboard counters and the four reports, the cached endpoints
  they are behind, and how fresh the cached answers are when requests and reports follow one
  another. Amounts are in cents. The dates of a query are read already: a date the database cannot
  read (an exception, so a 500, and nothing stored) is outside the model, and the answer gives the
  dates of the query back as the moments they stand for.
\<close>

subsection \<open>The views\<close>

definition dashboard :: "db \<Rightarrow> response" where
  "dashboard d =
     (let active_products = filter p_is_active (products d)
      in Response 200 (DashboardBody
           (length active_products)
           (length (filter c_is_active (categories d)))
           (length (filter s_is_active (suppliers d)))
           (length (filter u_is_active (users d)))
           (length (purchase_orders d))
           (length (sales_orders d))
           (length (filter (\<lambda>p. 0 < p_current_stock p \<and> p_current_stock p \<le> p_low_stock_threshold p) active_products))
           (length (filter (\<lambda>p. p_current_stock p \<le> 0) active_products))))"

type_synonym range = "unit query"

definition product_report :: "time \<Rightarrow> range \<Rightarrow> db \<Rightarrow> response" where
  "product_report now q d =
     (let items = map (\<lambda>p. (p_id p, p_sku p, p_name p, p_category p, p_supplier p, p_cost_price p,
            p_selling_price p, p_current_stock p, p_low_stock_threshold p, p_is_active p))
          (newest_first p_created_at (filter_date_range q p_created_at (products d)))
      in Response 200 (ProductReportBody now (q_start q) (q_end q) (length items) items))"

definition po_total :: "db \<Rightarrow> purchase_order \<Rightarrow> cents" where
  "po_total d po = foldl (+) 0 (map (\<lambda>i. poi_quantity i * poi_unit_cost i) (items_of_po (po_id po) d))"

text \<open>The loop over the orders: the report's items and the running total.\<close>

fun purchase_items :: "db \<Rightarrow> purchase_order list \<Rightarrow> (uuid \<times> uuid \<times> po_status \<times> time \<times> cents) list \<times> cents
    \<Rightarrow> (uuid \<times> uuid \<times> po_status \<times> time \<times> cents) list \<times> cents" where
  "purchase_items d [] (items, total_cost) = (items, total_cost)"
| "purchase_items d (po # orders) (items, total_cost) =
     (let order_total = po_total d po
      in purchase_items d orders
           (items @ [(po_id po, po_supplier po, po_status po, po_created_at po, order_total)], total_cost + order_total))"

definition purchase_report :: "time \<Rightarrow> range \<Rightarrow> db \<Rightarrow> response" where
  "purchase_report now q d =
     (let orders = newest_first po_created_at (filter_date_range q po_created_at (purchase_orders d));
          (items, total_cost) = purchase_items d orders ([], 0)
      in Response 200 (PurchaseReportBody now (q_start q) (q_end q) (length items) total_cost items))"

definition so_total :: "db \<Rightarrow> sales_order \<Rightarrow> cents" where
  "so_total d so = foldl (+) 0 (map (\<lambda>i. soi_quantity i * soi_unit_price i) (items_of_so (so_id so) d))"

fun sales_items :: "db \<Rightarrow> sales_order list \<Rightarrow> (uuid \<times> so_status \<times> time \<times> string option \<times> cents) list \<times> cents
    \<Rightarrow> (uuid \<times> so_status \<times> time \<times> string option \<times> cents) list \<times> cents" where
  "sales_items d [] (items, total_revenue) = (items, total_revenue)"
| "sales_items d (so # orders) (items, total_revenue) =
     (let order_total = so_total d so
      in sales_items d orders
           (items @ [(so_id so, so_status so, so_created_at so, so_invoice_number so, order_total)],
            total_revenue + order_total))"

definition sales_report :: "time \<Rightarrow> range \<Rightarrow> db \<Rightarrow> response" where
  "sales_report now q d =
     (let orders = newest_first so_created_at (filter_date_range q so_created_at (sales_orders d));
          (items, total_revenue) = sales_items d orders ([], 0)
      in Response 200 (SalesReportBody now (q_start q) (q_end q) (length items) total_revenue items))"

definition total_of_type :: "txn_type \<Rightarrow> inventory_transaction list \<Rightarrow> int" where
  "total_of_type ty ts = total t_quantity (filter (\<lambda>t. t_type t = ty) ts)"

definition report_transactions :: "range \<Rightarrow> db \<Rightarrow> inventory_transaction list" where
  "report_transactions q d = newest_first t_created_at (filter_date_range q t_created_at (transactions d))"

definition inventory_summary :: "range \<Rightarrow> db \<Rightarrow> int \<times> int \<times> int \<times> int" where
  "inventory_summary q d =
     (let transactions = report_transactions q d
      in (total_of_type PURCHASE transactions, total_of_type SALE transactions,
          total_of_type RETURN transactions, total_of_type DAMAGE transactions))"

definition inventory_report :: "time \<Rightarrow> range \<Rightarrow> db \<Rightarrow> response" where
  "inventory_report now q d = Response 200 (InventoryReportBody now (q_start q) (q_end q) (inventory_summary q d)
     (map (\<lambda>t. (t_id t, t_product t, t_quantity t, t_type t, t_reference t, t_reason t, t_created_at t))
        (report_transactions q d)))"

subsection \<open>The endpoints\<close>

datatype report = Dashboard | Products | Purchases | Sales | Inventory

text \<open>\<open>self.__class__.__name__\<close>, which the cache key carries.\<close>

fun class_name :: "report \<Rightarrow> string" where
  "class_name Dashboard = ''DashboardView''"
| "class_name Products = ''ProductReportView''"
| "class_name Purchases = ''PurchaseReportView''"
| "class_name Sales = ''SalesReportView''"
| "class_name Inventory = ''InventoryReportView''"

fun report_view :: "report \<Rightarrow> time \<Rightarrow> range \<Rightarrow> db \<Rightarrow> response" where
  "report_view Dashboard now q d = dashboard d"
| "report_view Products now q d = product_report now q d"
| "report_view Purchases now q d = purchase_report now q d"
| "report_view Sales now q d = sales_report now q d"
| "report_view Inventory now q d = inventory_report now q d"

text \<open>A report as it is served: \<open>decode\<close> is the framework's reading of the query string.\<close>

definition serve_report ::
  "'c cache_api \<Rightarrow> (string \<Rightarrow> string) \<Rightarrow> (string \<Rightarrow> range) \<Rightarrow> time \<Rightarrow> cache_request \<Rightarrow> report \<Rightarrow> db \<Rightarrow> 'c
     \<Rightarrow> (response \<times> bool) \<times> 'c" where
  "serve_report api digest decode now r rep d c =
     cached_response api digest ''inventory'' (class_name rep) r (report_view rep now (decode (cr_params r)) d) c"

subsection \<open>The ledger, listed\<close>

text \<open>
  \<open>InventoryTransactionViewSet\<close> of \<open>inventory/views.py\<close>: the date range of the mixin, then the two filters of
  \<open>InventoryTransactionFilter\<close>, of which an empty value is no filter, in the order of the model's
  \<open>Meta\<close>. The framework filters the detail route in the same way.
\<close>

fun txn_type_value :: "txn_type \<Rightarrow> string" where
  "txn_type_value PURCHASE = ''purchase''"
| "txn_type_value SALE = ''sale''"
| "txn_type_value RETURN = ''return''"
| "txn_type_value DAMAGE = ''damage''"

definition transaction_filter :: "uuid option \<Rightarrow> string \<Rightarrow> inventory_transaction list \<Rightarrow> inventory_transaction list" where
  "transaction_filter product_id transaction_type ts =
     filter (\<lambda>t. transaction_type = [] \<or> txn_type_value (t_type t) = transaction_type)
       (filter (\<lambda>t. case product_id of None \<Rightarrow> True | Some i \<Rightarrow> t_product t = i) ts)"

definition transaction_list :: "range \<Rightarrow> uuid option \<Rightarrow> string \<Rightarrow> db \<Rightarrow> inventory_transaction list" where
  "transaction_list q product_id transaction_type d =
     newest_first t_created_at (transaction_filter product_id transaction_type (filter_date_range q t_created_at (transactions d)))"

definition transaction_retrieve :: "range \<Rightarrow> uuid option \<Rightarrow> string \<Rightarrow> uuid \<Rightarrow> db \<Rightarrow> exn + response" where
  "transaction_retrieve q product_id transaction_type pk d =
     bindE (some_or Http404 (get_row t_id pk
       (transaction_filter product_id transaction_type (filter_date_range q t_created_at (transactions d))))) (\<lambda>t. Inr (Response 200 (txn_body t)))"

subsection \<open>What the reports say\<close>

lemma total_of_type_newest_first [simp]: "total_of_type ty (newest_first f xs) = total_of_type ty xs"
  by (simp add: total_of_type_def total_filter)

lemma purchase_items_eq:
  "purchase_items d orders (items, c) =
     (items @ map (\<lambda>po. (po_id po, po_supplier po, po_status po, po_created_at po, po_total d po)) orders,
      c + total (po_total d) orders)"
  by (induction orders arbitrary: items c) (simp_all add: Let_def)

lemma sales_items_eq:
  "sales_items d orders (items, c) =
     (items @ map (\<lambda>so. (so_id so, so_status so, so_created_at so, so_invoice_number so, so_total d so)) orders,
      c + total (so_total d) orders)"
  by (induction orders arbitrary: items c) (simp_all add: Let_def)

text \<open>The list of a product's ledger rows explains its stock, and each type filter lists its part of it.\<close>

lemma transaction_list_explains_the_stock:
  assumes "balanced d" "get_product i d = Some p"
  shows "total signed_quantity (transaction_list no_query (Some i) [] d) = p_current_stock p"
    and "total signed_quantity (transaction_list no_query (Some i) ''purchase'' d)
       + total signed_quantity (transaction_list no_query (Some i) ''sale'' d)
       + total signed_quantity (transaction_list no_query (Some i) ''return'' d)
       + total signed_quantity (transaction_list no_query (Some i) ''damage'' d) = p_current_stock p"
proof -
  have all: "total signed_quantity (filter (\<lambda>t. t_product t = i) (transactions d)) = p_current_stock p"
    using assms by (simp add: balanced_iff stock_of_def ledger_total_def)
  then show "total signed_quantity (transaction_list no_query (Some i) [] d) = p_current_stock p"
    by (simp add: transaction_list_def transaction_filter_def)
  have parts: "total f (filter (\<lambda>t. txn_type_value (t_type t) = ''purchase'') ts) + total f (filter (\<lambda>t. txn_type_value (t_type t) = ''sale'') ts)
      + total f (filter (\<lambda>t. txn_type_value (t_type t) = ''return'') ts) + total f (filter (\<lambda>t. txn_type_value (t_type t) = ''damage'') ts)
      = total f ts" for f and ts :: "inventory_transaction list"
  proof (induction ts)
    case (Cons t ts)
    then show ?case by (cases "t_type t") simp_all
  qed simp
  show "total signed_quantity (transaction_list no_query (Some i) ''purchase'' d)
       + total signed_quantity (transaction_list no_query (Some i) ''sale'' d)
       + total signed_quantity (transaction_list no_query (Some i) ''return'' d)
       + total signed_quantity (transaction_list no_query (Some i) ''damage'' d) = p_current_stock p"
    using all parts [of signed_quantity "filter (\<lambda>t. t_product t = i) (transactions d)"]
    by (simp add: transaction_list_def transaction_filter_def)
qed

text \<open>The dashboard and the product list agree: the three product counters are the lengths of the
  lists the product endpoint gives for the whole catalog, for \<open>low_stock\<close> and for
  \<open>out_of_stock\<close>.\<close>
theorem dashboard_agrees_with_the_product_filter:
  "\<exists>c s u po so. dashboard d = Response 200 (DashboardBody
     (length (product_filter None None [] (product_queryset d))) c s u po so
     (length (product_filter None None ''low_stock'' (product_queryset d)))
     (length (product_filter None None ''out_of_stock'' (product_queryset d))))"
  by (simp add: dashboard_def product_filter_def filter_stock_status_def product_queryset_def)

text \<open>The signed sum of some ledger rows, by type and by product.\<close>

lemma signed_by_type:
  "total signed_quantity ts = total_of_type PURCHASE ts - total_of_type SALE ts + total_of_type RETURN ts - total_of_type DAMAGE ts"
  by (induction ts) (auto simp: total_of_type_def signed_quantity.simps split: txn_type.splits)

lemma total_by_key:
  assumes "distinct ks" "\<And>t. t \<in> set ts \<Longrightarrow> g t \<in> set ks"
  shows "total (\<lambda>k. total f (filter (\<lambda>t. g t = k) ts)) ks = total f ts"
  using assms(2)
proof (induction ts)
  case (Cons t ts)
  have "total (\<lambda>k. if g t = k then f t else 0) xs = (if g t \<in> set xs then f t else 0)" if "distinct xs" for xs
    using that by (induction xs) auto
  from this [OF assms(1)] Cons.prems [of t] have one: "total (\<lambda>k. if g t = k then f t else 0) ks = f t" by simp
  have "total (\<lambda>k. total f (filter (\<lambda>t. g t = k) (t # ts))) ks
      = total (\<lambda>k. (if g t = k then f t else 0) + total f (filter (\<lambda>t. g t = k) ts)) ks"
    by (rule arg_cong [of _ _ sum_list]) auto
  also have "\<dots> = f t + total f ts" using one Cons by (simp add: sum_list_addf)
  finally show ?case by simp
qed simp

text \<open>The inventory report accounts for the stock: over all time, purchased minus sold plus returned
  minus damaged is the stock of all products together, when the ledger is balanced and every
  row of it names an existing product.\<close>
theorem inventory_report_accounts_for_the_stock:
  assumes "balanced d" "wf_products d" "\<forall>t \<in> set (transactions d). t_product t \<in> p_id ` set (products d)"
    and "inventory_summary no_query d = (purchased, sold, returned, damaged)"
  shows "total p_current_stock (products d) = purchased - sold + returned - damaged"
proof -
  have dist: "distinct (map p_id (products d))" using assms(2) by (simp add: wf_products_def)
  have "p_current_stock p = ledger_total d (p_id p)" if "p \<in> set (products d)" for p
  proof -
    have "get_product (p_id p) d = Some p" by (rule get_row_eqI [OF dist that])
    with assms(1) show ?thesis by (simp add: balanced_iff stock_of_def)
  qed
  then have "total p_current_stock (products d) = total (\<lambda>p. ledger_total d (p_id p)) (products d)"
    by (intro arg_cong [of _ _ sum_list] map_cong) simp_all
  also have "\<dots> = total (\<lambda>i. total signed_quantity (filter (\<lambda>t. t_product t = i) (transactions d))) (map p_id (products d))"
    by (simp add: ledger_total_def o_def)
  also have "\<dots> = total signed_quantity (transactions d)"
    using assms(3) by (intro total_by_key [OF dist]) auto
  finally show ?thesis
    using assms(4) by (simp add: signed_by_type inventory_summary_def report_transactions_def Let_def)
qed

theorem inventory_report_accounts_for_the_stock_witness:
  "inventory_summary no_query sample_db = (15, 2, 0, 0) \<and> total p_current_stock (products sample_db) = 15 - 2 + 0 - 0"
proof -
  have d: "balanced sample_db" "wf_products sample_db" "inventory_summary no_query sample_db = (15, 2, 0, 0)"
    "\<forall>t \<in> set (transactions sample_db). t_product t \<in> p_id ` set (products sample_db)" by code_simp+
  from inventory_report_accounts_for_the_stock [OF d(1,2,4,3)] d(3) show ?thesis by simp
qed

text \<open>Adjoining periods add up: the totals of the inventory report from \<open>a\<close> to \<open>b\<close> and from the
  next moment to \<open>c\<close> sum to those from \<open>a\<close> to \<open>c\<close>, for every type of movement.\<close>
theorem inventory_report_splits:
  assumes "a \<le> Suc b" "b \<le> c"
    and "inventory_summary \<lparr>q_start = Some a, q_end = Some b, q_status = None\<rparr> d = (p1, s1, r1, d1)"
    and "inventory_summary \<lparr>q_start = Some (Suc b), q_end = Some c, q_status = None\<rparr> d = (p2, s2, r2, d2)"
  shows "inventory_summary \<lparr>q_start = Some a, q_end = Some c, q_status = None\<rparr> d = (p1 + p2, s1 + s2, r1 + r2, d1 + d2)"
proof -
  have "total_of_type ty (filter (\<lambda>t. a \<le> f t \<and> f t \<le> c) ts)
      = total_of_type ty (filter (\<lambda>t. a \<le> f t \<and> f t \<le> b) ts)
        + total_of_type ty (filter (\<lambda>t. Suc b \<le> f t \<and> f t \<le> c) ts)" for ty ts and f :: "inventory_transaction \<Rightarrow> time"
    using assms(1,2) by (induction ts) (auto simp: total_of_type_def)
  with assms(3,4) show ?thesis
    by (auto simp: inventory_summary_def report_transactions_def filter_date_range_def in_date_range_def Let_def)
qed

theorem inventory_report_splits_witness:
  "inventory_summary \<lparr>q_start = Some 0, q_end = Some 9, q_status = None\<rparr> sample_db = (15 + 0, 2 + 0, 0 + 0, 0 + 0)"
proof -
  have "inventory_summary \<lparr>q_start = Some 0, q_end = Some 4, q_status = None\<rparr> sample_db = (15, 2, 0, 0)"
    "inventory_summary \<lparr>q_start = Some (Suc 4), q_end = Some 9, q_status = None\<rparr> sample_db = (0, 0, 0, 0)" by code_simp+
  from inventory_report_splits [OF _ _ this] show ?thesis by simp
qed

text \<open>The sales report counts open orders as revenue: its total is the value of the completed
  orders of the period plus the value of those that are still open.\<close>
theorem sales_report_counts_open_orders:
  "\<exists>items. sales_report now q d = Response 200 (SalesReportBody now (q_start q) (q_end q)
     (length (filter_date_range q so_created_at (sales_orders d)))
     (total (so_total d) (filter (\<lambda>so. so_status so = COMPLETED) (filter_date_range q so_created_at (sales_orders d)))
      + total (so_total d) (filter (\<lambda>so. so_status so = CREATED) (filter_date_range q so_created_at (sales_orders d)))) items)"
proof -
  have "total f xs = total f (filter (\<lambda>so. so_status so = COMPLETED) xs) + total f (filter (\<lambda>so. so_status so = CREATED) xs)"
    for f and xs :: "sales_order list"
  proof (induction xs)
    case (Cons x xs)
    then show ?case by (cases "so_status x") simp_all
  qed simp
  from this [of "so_total d" "filter_date_range q so_created_at (sales_orders d)"] show ?thesis
    unfolding sales_report_def Let_def sales_items_eq by simp
qed

end
