(* ===== verification/Freshness.thy ===== *)
theory Freshness
  imports Reports
begin

section \<open>How fresh the cached reports are\<close>

text \<open>
  The inventory endpoints, their commit callbacks and the cached reports together: one request
  after another, each either served by an inventory view, whose callbacks then run on the cache,
  or a report read through the cache. Cache entries do not expire here; in the running system
  they do after five minutes.
\<close>

subsection \<open>The site\<close>

record 'c site =
  site_world :: world
  site_cache :: 'c

datatype visit = Serve user time request | ReadReport time cache_request report

text \<open>The callbacks of a transaction, as far as they reach the cache.\<close>

fun run_hook :: "'c cache_api \<Rightarrow> hook \<Rightarrow> 'c \<Rightarrow> 'c" where
  "run_hook api (BumpVersion ns) c = bump_version api ns c"
| "run_hook api (GenerateInvoice _ _ _) c = c"

fun visit_step :: "'c cache_api \<Rightarrow> (string \<Rightarrow> string) \<Rightarrow> (string \<Rightarrow> range) \<Rightarrow> visit \<Rightarrow> 'c site \<Rightarrow> 'c site" where
  "visit_step api digest decode (Serve u now r) s =
     (let w = snd (serve u now r (site_world s))
      in \<lparr>site_world = w, site_cache =
            fold (run_hook api) (drop (length (w_fired (site_world s))) (w_fired w)) (site_cache s)\<rparr>)"
| "visit_step api digest decode (ReadReport now r rep) s =
     s\<lparr>site_cache := snd (serve_report api digest decode now r rep (w_db (site_world s)) (site_cache s))\<rparr>"

fun reader_of :: "visit \<Rightarrow> cache_request list" where
  "reader_of (Serve _ _ _) = []"
| "reader_of (ReadReport _ r _) = [r]"

subsection \<open>The callbacks of a request\<close>

lemma request_hooks:
  assumes "view_of u now r d = Inr oc"
  shows "ohooks oc = [] \<or> ohooks oc = [BumpVersion ''inventory''] \<or> (\<exists>a b c. ohooks oc = [GenerateInvoice a b c])"
proof -
  have mutation: "ohooks oc = [] \<or> ohooks oc = [BumpVersion ''inventory'']"
    if "receive u now pk d = Inr oc \<or> complete u now drawn pk d = Inr oc \<or> approve u now pk d = Inr oc \<or> damage u now dd d = Inr oc"
    for pk drawn dd
    using that by (auto elim: receive_cases complete_cases approve_cases damage_cases)
  show ?thesis
  proof (cases r)
    case (Invoice rid task q pk)
    with assms show ?thesis by (auto simp: invoice_def bind_elims split: if_splits)
  next
    case (CreateReturn data)
    with assms show ?thesis by (auto simp: return_create_def bind_elims Let_def split: if_splits)
  qed (use assms mutation in \<open>auto simp: po_create_def po_update_def so_create_def so_update_def po_destroy_def
      so_destroy_def return_update_def return_destroy_def bind_elims Let_def split: if_splits\<close>)
qed

subsection \<open>Entries of the current version\<close>

lemma versioned_key_parts:
  assumes "versioned_key digest ns v e r = versioned_key digest ns v' e' r'" "CHR '':'' \<notin> set e" "CHR '':'' \<notin> set e'"
  shows "e = e' \<and> digest (scope_text r) = digest (scope_text r')"
proof -
  have "v = v'" by (rule versioned_key_version [OF assms(1)])
  with assms(1) have "e @ CHR '':'' # digest (scope_text r) = e' @ CHR '':'' # digest (scope_text r')"
    by (simp add: versioned_key_def)
  from append_sep_inj [OF assms(2,3) this] show ?thesis by simp
qed

lemma class_name_plain: "CHR '':'' \<notin> set (class_name rep)"
  by (cases rep) simp_all

lemma class_name_inj: "class_name rep = class_name rep' \<Longrightarrow> rep = rep'"
  by (cases rep; cases rep') simp_all

context cache_server begin

lemma cached_response_entry:
  assumes "sound ns c" "hd ns \<noteq> CHR ''c''" "ns \<noteq> []"
    and "cached_response api digest ns endpoint r response c = (res, c')"
    and "k \<noteq> version_key ns" "cache_get api k c' = Some (Answer a)"
  shows "cache_get api k c = Some (Answer a)
    \<or> k = versioned_key digest ns (version_now ns c) endpoint r \<and> a = response"
proof -
  obtain v c1 where v: "get_version api ns c = (v, c1)" by (cases "get_version api ns c")
  note g = get_version_keeps [OF assms(1) v]
  let ?key = "versioned_key digest ns v endpoint r"
  from assms(4) v have c': "c' = c1 \<or> c' = cache_set api ?key (Answer response) c1"
    by (auto simp: cached_response_def cache_key_def Let_def split: option.splits cached.splits if_splits)
  with assms(6) have "cache_get api k c1 = Some (Answer a) \<or> k = ?key \<and> a = response"
    by (auto simp: get_set split: if_splits)
  with g assms(5) show ?thesis by auto
qed

lemma cached_response_answer:
  assumes "sound ns c" "hd ns \<noteq> CHR ''c''" "ns \<noteq> []"
    and "cached_response api digest ns endpoint r response c = ((a, hit), c')"
  shows "a = response \<or> cache_get api (versioned_key digest ns (version_now ns c) endpoint r) c = Some (Answer a)"
proof -
  obtain v c1 where v: "get_version api ns c = (v, c1)" by (cases "get_version api ns c")
  note g = get_version_keeps [OF assms(1) v]
  have ne: "versioned_key digest ns v endpoint r \<noteq> version_key ns"
    using assms(2,3) by (cases ns) (auto simp: versioned_key_def version_key_def)
  from assms(4) v have "a = response \<or> cache_get api (versioned_key digest ns v endpoint r) c1 = Some (Answer a)"
    by (auto simp: cached_response_def cache_key_def Let_def split: option.splits cached.splits)
  with g ne show ?thesis by auto
qed

text \<open>Every entry a request of \<open>R\<close> can hit answers the inventory report of the database \<open>d\<close>.\<close>

definition current :: "(string \<Rightarrow> string) \<Rightarrow> (string \<Rightarrow> range) \<Rightarrow> cache_request set \<Rightarrow> db \<Rightarrow> 'c \<Rightarrow> bool" where
  "current digest decode R d c \<longleftrightarrow> sound ''inventory'' c \<and> (\<forall>r \<in> R. \<forall>a.
     cache_get api (versioned_key digest ''inventory'' (version_now ''inventory'' c) (class_name Inventory) r) c
       = Some (Answer a) \<longrightarrow> (\<exists>now. a = inventory_report now (decode (cr_params r)) d))"

lemma current_bump:
  assumes "sound ''inventory'' c"
  shows "current digest decode R d (bump_version api ''inventory'' c)"
proof -
  note b = version_after_bump [OF assms]
  let ?v = "Suc (version_now ''inventory'' c)"
  have "cache_get api (versioned_key digest ''inventory'' ?v e r) c = None" for e r
    using assms unfolding sound_def by (metis not_less_eq_eq order_refl)
  moreover have "versioned_key digest ''inventory'' ?v e r \<noteq> version_key ''inventory''" for e r
    by (simp add: versioned_key_def version_key_def)
  ultimately show ?thesis using b sound_bump [OF assms] by (simp add: current_def)
qed

lemma current_same_ledger:
  "current digest decode R d c \<Longrightarrow> transactions d' = transactions d \<Longrightarrow> current digest decode R d' c"
  by (simp add: current_def inventory_report_def inventory_summary_def report_transactions_def)

lemma current_read:
  assumes "current digest decode R d c" "r \<in> R" "inj_on digest (scope_text ` R)"
  shows "current digest decode R d (snd (serve_report api digest decode now r rep d c))"
proof -
  let ?ns = "''inventory''"
  have s: "sound ?ns c" using assms(1) by (simp add: current_def)
  obtain res c' where run: "serve_report api digest decode now r rep d c = (res, c')"
    by (cases "serve_report api digest decode now r rep d c")
  note run' = run [unfolded serve_report_def]
  note after = cached_response_version(1,2) [OF s _ _ run']
  have "\<exists>now. a = inventory_report now (decode (cr_params r')) d"
    if r': "r' \<in> R" and hit: "cache_get api (versioned_key digest ?ns (version_now ?ns c) (class_name Inventory) r') c' = Some (Answer a)"
    for r' a
  proof -
    let ?k = "versioned_key digest ?ns (version_now ?ns c) (class_name Inventory) r'"
    have "?k \<noteq> version_key ?ns" by (simp add: versioned_key_def version_key_def)
    from cached_response_entry [OF s _ _ run' this hit] consider
        "cache_get api ?k c = Some (Answer a)"
      | "?k = versioned_key digest ?ns (version_now ?ns c) (class_name rep) r" "a = report_view rep now (decode (cr_params r)) d"
      by auto
    then show ?thesis
    proof cases
      case 1
      with assms(1) r' show ?thesis by (auto simp: current_def)
    next
      case 2
      from versioned_key_parts [OF 2(1) class_name_plain class_name_plain]
      have "class_name Inventory = class_name rep" "digest (scope_text r') = digest (scope_text r)" by simp_all
      from class_name_inj [OF this(1)] inj_onD [OF assms(3) this(2)] assms(2) r'
      have "rep = Inventory" "scope_text r' = scope_text r" by auto
      with 2(2) scope_text_inj [OF this(2)] show ?thesis by auto
    qed
  qed
  with after run show ?thesis by (simp add: current_def)
qed

lemma current_serve:
  assumes "current digest decode R (w_db (site_world s)) (site_cache s)"
  shows "current digest decode R (w_db (site_world (visit_step api digest decode (Serve u now r) s)))
    (site_cache (visit_step api digest decode (Serve u now r) s))"
proof (cases "view_of u now r (w_db (site_world s))")
  case (Inl e)
  with assms show ?thesis by (simp add: serve_def run_view_def)
next
  case (Inr oc)
  have s: "sound ''inventory'' (site_cache s)" using assms by (simp add: current_def)
  show ?thesis
  proof (cases "moves_stock (w_db (site_world s)) (odb oc)")
    case True
    with Inr request_bumps [OF Inr] current_bump [OF s] show ?thesis by (simp add: serve_def run_view_def)
  next
    case False
    then have "current digest decode R (odb oc) (site_cache s)"
      by (intro current_same_ledger [OF assms]) (simp add: moves_stock_def)
    with Inr request_hooks [OF Inr] current_bump [OF s] show ?thesis
      by (auto simp: serve_def run_view_def)
  qed
qed

lemma current_visits:
  assumes "current digest decode R (w_db (site_world s)) (site_cache s)"
    and "inj_on digest (scope_text ` R)" "\<forall>e \<in> set es. set (reader_of e) \<subseteq> R"
  shows "current digest decode R (w_db (site_world (fold (visit_step api digest decode) es s)))
    (site_cache (fold (visit_step api digest decode) es s))"
  using assms(1,3)
proof (induction es arbitrary: s)
  case (Cons e es)
  have "current digest decode R (w_db (site_world (visit_step api digest decode e s))) (site_cache (visit_step api digest decode e s))"
  proof (cases e)
    case (Serve u now r)
    with current_serve [OF Cons.prems(1)] show ?thesis by simp
  next
    case (ReadReport now r rep)
    with Cons.prems current_read [OF Cons.prems(1) _ assms(2)] show ?thesis by simp
  qed
  with Cons show ?case by simp
qed simp

end

subsection \<open>The inventory report is never stale\<close>

text \<open>C16. On a cache server that keeps its keys, starting from an empty cache, and as long as the
  truncated hash tells the scopes of the readers apart: after any sequence of requests and
  report reads, the inventory report a manager is answered, cached or not, is the report of the
  database as it is at that moment, up to its \<open>generated_at\<close>.\<close>
theorem inventory_reports_are_never_stale:
  assumes "cache_server api" "\<And>k. cache_get api k c = None"
    and "inj_on digest (scope_text ` set (r # concat (map reader_of es)))"
    and "s = fold (visit_step api digest decode) es \<lparr>site_world = w, site_cache = c\<rparr>"
  shows "\<exists>now'. fst (fst (serve_report api digest decode now r Inventory (w_db (site_world s)) (site_cache s)))
    = inventory_report now' (decode (cr_params r)) (w_db (site_world s))"
proof -
  let ?R = "set (r # concat (map reader_of es))"
  let ?d = "w_db (site_world s)"
  have e: "cache_server.sound api ''inventory'' c" by (rule cache_server.sound_empty [OF assms(1,2)])
  have "cache_server.current api digest decode ?R (w_db w) c"
    using e by (simp add: cache_server.current_def [OF assms(1)] assms(2))
  then have "cache_server.current api digest decode ?R ?d (site_cache s)"
    unfolding assms(4)
    by (intro cache_server.current_visits [OF assms(1)] assms(3)) (auto simp: UN_subset_iff)
  then have cur: "cache_server.sound api ''inventory'' (site_cache s)"
    "\<And>a. cache_get api (versioned_key digest ''inventory'' (cache_server.version_now api ''inventory'' (site_cache s)) (class_name Inventory) r)
        (site_cache s) = Some (Answer a) \<Longrightarrow> \<exists>now. a = inventory_report now (decode (cr_params r)) ?d"
    by (auto simp: cache_server.current_def [OF assms(1)])
  obtain a hit c' where run: "serve_report api digest decode now r Inventory ?d (site_cache s) = ((a, hit), c')"
    by (metis prod.exhaust)
  from cache_server.cached_response_answer [OF assms(1) cur(1) _ _ run [unfolded serve_report_def]] cur(2) [of a]
  show ?thesis by (auto simp: run)
qed

definition plain_range :: "string \<Rightarrow> range" where
  "plain_range s = no_query"

definition sample_reader :: cache_request where
  "sample_reader = \<lparr>cr_user = 2, cr_role = MANAGER, cr_params = []\<rparr>"

definition opened_site :: "(string \<times> cached) list site" where
  "opened_site = \<lparr>site_world = sample_world sample_db, site_cache = []\<rparr>"

text \<open>A report, a sale, the report again.\<close>

definition sample_visits :: "visit list" where
  "sample_visits = [ReadReport 4 sample_reader Inventory, Serve sample_employee 5 (Complete 200 50)]"

theorem inventory_reports_are_never_stale_witness:
  "\<exists>s now'. s = fold (visit_step table_api (\<lambda>x. x) plain_range) sample_visits opened_site
     \<and> fst (fst (serve_report table_api (\<lambda>x. x) plain_range 6 sample_reader Inventory (w_db (site_world s)) (site_cache s)))
       = inventory_report now' no_query (w_db (site_world s))"
proof -
  have e: "cache_get table_api k [] = None" for k by (simp add: table_api_def)
  from inventory_reports_are_never_stale [OF table.cache_server_axioms e inj_on_id2 refl, where decode = plain_range
      and es = sample_visits and w = "sample_world sample_db" and now = 6 and r = sample_reader]
  show ?thesis by (simp add: opened_site_def plain_range_def)
qed

subsection \<open>The sales report can be\<close>

text \<open>The other reports have no such guarantee: creating an order bumps no version, so the sales
  report of the small shop, read before and after a third order is created, is the same answer
  out of the cache, with two orders, while the view would count three.\<close>
theorem sales_reports_can_be_stale:
  "\<exists>s hit c'. s = fold (visit_step table_api (\<lambda>x. x) plain_range)
       [ReadReport 4 sample_reader Sales, Serve sample_employee 5 (CreateSO sample_order_input)] opened_site
     \<and> serve_report table_api (\<lambda>x. x) plain_range 6 sample_reader Sales (w_db (site_world s)) (site_cache s)
         = ((sales_report 4 no_query sample_db, True), c')
     \<and> payload (sales_report 4 no_query sample_db) \<noteq> payload (sales_report 4 no_query (w_db (site_world s)))"
proof -
  let ?s = "fold (visit_step table_api (\<lambda>x. x) plain_range)
       [ReadReport 4 sample_reader Sales, Serve sample_employee 5 (CreateSO sample_order_input)] opened_site"
  have "fst (serve_report table_api (\<lambda>x. x) plain_range 6 sample_reader Sales (w_db (site_world ?s)) (site_cache ?s))
      = (sales_report 4 no_query sample_db, True)" by code_simp
  moreover have "payload (sales_report 4 no_query sample_db) \<noteq> payload (sales_report 4 no_query (w_db (site_world ?s)))"
    by code_simp
  ultimately show ?thesis by (metis prod.collapse)
qed

end
