(* ===== verification/Cache_Expiry.thy ===== *)
theory Cache_Expiry
  imports Freshness
begin

section \<open>Cached answers expire\<close>

text \<open>
  The cache with its clock: the decorator stores an answer for \<open>DEFAULT_TTL\<close> seconds, the version
  counter is stored without a timeout. However stale an answer may be for want of a bump, it is
  never older than that, on any server that honours timeouts, one that evicts keys early
  included. Moments are in seconds.
\<close>

definition DEFAULT_TTL :: nat where
  "DEFAULT_TTL = 300"

text \<open>The operations of the server at a moment; a timeout of \<open>None\<close> is none.\<close>

record 'c timed_api =
  timed_get :: "time \<Rightarrow> string \<Rightarrow> 'c \<Rightarrow> cached option"
  timed_set :: "time \<Rightarrow> string \<Rightarrow> cached \<Rightarrow> nat option \<Rightarrow> 'c \<Rightarrow> 'c"
  timed_incr :: "time \<Rightarrow> string \<Rightarrow> 'c \<Rightarrow> 'c option"

text \<open>The timeout the code passes: \<open>timeout=None\<close> for a counter, \<open>timeout=ttl\<close> for an answer, where no
  view overrides \<open>DEFAULT_TTL\<close>.\<close>

fun timeout_of :: "cached \<Rightarrow> nat option" where
  "timeout_of (Number n) = None"
| "timeout_of (Answer a) = Some DEFAULT_TTL"

definition at_time :: "'c timed_api \<Rightarrow> time \<Rightarrow> 'c cache_api" where
  "at_time api now = \<lparr>cache_get = timed_get api now, cache_set = (\<lambda>k v. timed_set api now k v (timeout_of v)),
     cache_incr = timed_incr api now\<rparr>"

lemma at_time_simps [simp]:
  "cache_get (at_time api now) = timed_get api now"
  "cache_set (at_time api now) k v = timed_set api now k v (timeout_of v)"
  "cache_incr (at_time api now) = timed_incr api now"
  by (simp_all add: at_time_def)

fun moment_of :: "visit \<Rightarrow> time" where
  "moment_of (Serve u now r) = now"
| "moment_of (ReadReport now r rep) = now"

definition timed_step :: "'c timed_api \<Rightarrow> (string \<Rightarrow> string) \<Rightarrow> (string \<Rightarrow> range) \<Rightarrow> visit \<Rightarrow> 'c site \<Rightarrow> 'c site" where
  "timed_step api digest decode v s = visit_step (at_time api (moment_of v)) digest decode v s"

text \<open>The database at the moment of every visit.\<close>

fun snapshots :: "'c timed_api \<Rightarrow> (string \<Rightarrow> string) \<Rightarrow> (string \<Rightarrow> range) \<Rightarrow> visit list \<Rightarrow> 'c site \<Rightarrow> (time \<times> db) list" where
  "snapshots api digest decode [] s = []"
| "snapshots api digest decode (v # vs) s =
     (moment_of v, w_db (site_world s)) # snapshots api digest decode vs (timed_step api digest decode v s)"

subsection \<open>A server that honours timeouts\<close>

text \<open>An answer that is found was stored under that key and has not outlived its timeout.\<close>

locale expiring_server =
  fixes api :: "'c timed_api"
  assumes found: "timed_get api t k (timed_set api now k' v timeout c) = Some (Answer a) \<Longrightarrow>
      k = k' \<and> v = Answer a \<and> (\<forall>s. timeout = Some s \<longrightarrow> t \<le> now + s) \<or> timed_get api t k c = Some (Answer a)"
    and counted: "timed_incr api now k' c = Some c' \<Longrightarrow> timed_get api t k c' = Some (Answer a) \<Longrightarrow>
      timed_get api t k c = Some (Answer a)"
begin

text \<open>Every answer in the cache is a report of the database at one of the moments \<open>H\<close>.\<close>

definition dated :: "(string \<Rightarrow> string) \<Rightarrow> (string \<Rightarrow> range) \<Rightarrow> cache_request set \<Rightarrow> (time \<times> db) set \<Rightarrow> 'c \<Rightarrow> bool" where
  "dated digest decode R H c \<longleftrightarrow> (\<forall>t k a. timed_get api t k c = Some (Answer a) \<longrightarrow>
     (\<exists>t0 d v rep r. (t0, d) \<in> H \<and> r \<in> R \<and> k = versioned_key digest ''inventory'' v (class_name rep) r
       \<and> a = report_view rep t0 (decode (cr_params r)) d \<and> t \<le> t0 + DEFAULT_TTL))"

lemma dated_mono: "dated digest decode R H c \<Longrightarrow> R \<subseteq> R' \<Longrightarrow> H \<subseteq> H' \<Longrightarrow> dated digest decode R' H' c"
  unfolding dated_def by (meson subsetD)

lemma dated_counter:
  assumes "dated digest decode R H c"
  shows "dated digest decode R H (timed_set api now k (Number n) to c)"
  unfolding dated_def
proof (intro allI impI)
  fix t k' a assume "timed_get api t k' (timed_set api now k (Number n) to c) = Some (Answer a)"
  from found [OF this] have "timed_get api t k' c = Some (Answer a)" by simp
  with assms show "\<exists>t0 d v rep r. (t0, d) \<in> H \<and> r \<in> R \<and> k' = versioned_key digest ''inventory'' v (class_name rep) r
       \<and> a = report_view rep t0 (decode (cr_params r)) d \<and> t \<le> t0 + DEFAULT_TTL" by (simp add: dated_def)
qed

lemma dated_bump:
  assumes "dated digest decode R H c"
  shows "dated digest decode R H (bump_version (at_time api now) ns c)"
proof (cases "timed_incr api now (version_key ns) c")
  case None
  with assms show ?thesis by (simp add: bump_version_def dated_counter)
next
  case (Some c')
  from assms show ?thesis
    unfolding dated_def by (simp add: bump_version_def Some) (meson counted Some)
qed

lemma dated_hooks: "dated digest decode R H c \<Longrightarrow> dated digest decode R H (fold (run_hook (at_time api now)) hs c)"
proof (induction hs arbitrary: c)
  case (Cons h hs)
  then show ?case by (cases h) (simp_all add: dated_bump)
qed simp

lemma dated_answer:
  assumes "dated digest decode R H c" "r \<in> R" "(now, d) \<in> H"
  shows "dated digest decode R H (timed_set api now (versioned_key digest ''inventory'' v (class_name rep) r)
    (Answer (report_view rep now (decode (cr_params r)) d)) (Some DEFAULT_TTL) c)"
  unfolding dated_def
proof (intro allI impI)
  fix t k a
  assume "timed_get api t k (timed_set api now (versioned_key digest ''inventory'' v (class_name rep) r)
    (Answer (report_view rep now (decode (cr_params r)) d)) (Some DEFAULT_TTL) c) = Some (Answer a)"
  from found [OF this] consider
      "k = versioned_key digest ''inventory'' v (class_name rep) r" "a = report_view rep now (decode (cr_params r)) d"
      "t \<le> now + DEFAULT_TTL"
    | "timed_get api t k c = Some (Answer a)" by auto
  then show "\<exists>t0 d v rep r. (t0, d) \<in> H \<and> r \<in> R \<and> k = versioned_key digest ''inventory'' v (class_name rep) r
       \<and> a = report_view rep t0 (decode (cr_params r)) d \<and> t \<le> t0 + DEFAULT_TTL"
  proof cases
    case 1
    with assms(2,3) show ?thesis by blast
  next
    case 2
    with assms(1) show ?thesis by (simp add: dated_def)
  qed
qed

text \<open>A report that is read is the report of one of the moments, not long ago.\<close>

lemma dated_read:
  assumes "dated digest decode R H c" "r \<in> R" "(now, d) \<in> H" "inj_on digest (scope_text ` R)"
    and "serve_report (at_time api now) digest decode now r rep d c = ((a, hit), c')"
  shows "dated digest decode R H c'"
    and "\<exists>t0 d0. (t0, d0) \<in> H \<and> now \<le> t0 + DEFAULT_TTL \<and> a = report_view rep t0 (decode (cr_params r)) d0"
proof -
  obtain v c1 where v: "get_version (at_time api now) ''inventory'' c = (v, c1)"
    by (cases "get_version (at_time api now) ''inventory'' c")
  have d1: "dated digest decode R H c1"
    using v assms(1) by (auto simp: get_version_def dated_counter split: option.splits cached.splits)
  let ?key = "versioned_key digest ''inventory'' v (class_name rep) r"
  let ?now = "report_view rep now (decode (cr_params r)) d"
  have run: "((a, hit), c') = (case timed_get api now ?key c1 of
      Some (Answer stored) \<Rightarrow> ((stored, True), c1)
    | _ \<Rightarrow> ((?now, False), if 200 \<le> status_code ?now \<and> status_code ?now < 300
              then timed_set api now ?key (Answer ?now) (Some DEFAULT_TTL) c1 else c1))"
    using assms(5) [symmetric]
    by (simp only: serve_report_def cached_response_def cache_key_def Let_def v prod.case at_time_simps timeout_of.simps)
  have miss: "dated digest decode R H (if 200 \<le> status_code ?now \<and> status_code ?now < 300
              then timed_set api now ?key (Answer ?now) (Some DEFAULT_TTL) c1 else c1)"
    using dated_answer [OF d1 assms(2,3)] d1 by simp
  show "dated digest decode R H c'"
    using run miss d1 by (auto split: option.splits cached.splits)
  show "\<exists>t0 d0. (t0, d0) \<in> H \<and> now \<le> t0 + DEFAULT_TTL \<and> a = report_view rep t0 (decode (cr_params r)) d0"
  proof (cases "\<exists>stored. timed_get api now ?key c1 = Some (Answer stored)")
    case True
    with run have hit: "timed_get api now ?key c1 = Some (Answer a)" by auto
    with d1 obtain t0 d0 v' rep' r' where e: "(t0, d0) \<in> H" "r' \<in> R"
        "?key = versioned_key digest ''inventory'' v' (class_name rep') r'"
        "a = report_view rep' t0 (decode (cr_params r')) d0" "now \<le> t0 + DEFAULT_TTL"
      unfolding dated_def by meson
    note parts = versioned_key_parts [OF e(3) class_name_plain class_name_plain]
    then have "scope_text r = scope_text r'" using assms(2,4) e(2) by (meson imageI inj_onD)
    from scope_text_inj [OF this] parts class_name_inj e show ?thesis by metis
  next
    case False
    with run have "a = ?now" by (auto split: option.splits cached.splits)
    with assms(3) show ?thesis by (intro exI [of _ now] exI [of _ d]) simp
  qed
qed

lemma dated_step:
  assumes "dated digest decode R H (site_cache s)" "set (reader_of v) \<subseteq> R" "inj_on digest (scope_text ` R)"
    and "(moment_of v, w_db (site_world s)) \<in> H"
  shows "dated digest decode R H (site_cache (timed_step api digest decode v s))"
proof (cases v)
  case (Serve u now r)
  with assms(1) show ?thesis by (simp add: timed_step_def Let_def dated_hooks)
next
  case (ReadReport now r rep)
  obtain a hit c' where run: "serve_report (at_time api now) digest decode now r rep (w_db (site_world s)) (site_cache s) = ((a, hit), c')"
    by (metis prod.exhaust)
  from dated_read(1) [OF assms(1) _ _ assms(3) run] assms(2,4) ReadReport run show ?thesis by (simp add: timed_step_def)
qed

lemma dated_visits:
  assumes "dated digest decode R H (site_cache s)" "\<forall>v \<in> set vs. set (reader_of v) \<subseteq> R" "inj_on digest (scope_text ` R)"
  shows "dated digest decode R (H \<union> set (snapshots api digest decode vs s)) (site_cache (fold (timed_step api digest decode) vs s))"
  using assms(1,2)
proof (induction vs arbitrary: s H)
  case (Cons v vs)
  let ?H = "insert (moment_of v, w_db (site_world s)) H"
  have "dated digest decode R ?H (site_cache (timed_step api digest decode v s))"
    using dated_mono [OF Cons.prems(1) order_refl, of ?H] Cons.prems(2) by (intro dated_step assms(3)) auto
  from Cons.IH [OF this] Cons.prems(2) show ?case by simp
qed simp

end


text \<open>C26. No report is more than five minutes old. Start from an empty cache, on any server that
  honours timeouts, and let requests and report reads follow one another: whatever report a user
  is answered, cached or not and whether or not anything invalidates it, is that report of the
  database as it was at the moment of some visit at most \<open>DEFAULT_TTL\<close> seconds before (or as it is
  now), as long as the truncated hash tells the scopes of the readers apart.\<close>
theorem reports_are_minutes_old_at_most:
  assumes "expiring_server api" "\<And>t k. timed_get api t k c = None"
    and "inj_on digest (scope_text ` set (r # concat (map reader_of vs)))"
    and "s = fold (timed_step api digest decode) vs \<lparr>site_world = w, site_cache = c\<rparr>"
    and "H = set (snapshots api digest decode vs \<lparr>site_world = w, site_cache = c\<rparr>) \<union> {(now, w_db (site_world s))}"
  shows "\<exists>t0 d0. (t0, d0) \<in> H \<and> now \<le> t0 + DEFAULT_TTL
    \<and> fst (fst (serve_report (at_time api now) digest decode now r rep (w_db (site_world s)) (site_cache s)))
        = report_view rep t0 (decode (cr_params r)) d0"
proof -
  let ?R = "set (r # concat (map reader_of vs))"
  let ?s = "\<lparr>site_world = w, site_cache = c\<rparr>"
  have "expiring_server.dated api digest decode ?R {} (site_cache ?s)"
    using assms(2) by (simp add: expiring_server.dated_def [OF assms(1)])
  from expiring_server.dated_visits [OF assms(1) this _ assms(3), of vs]
  have "expiring_server.dated api digest decode ?R ({} \<union> set (snapshots api digest decode vs ?s)) (site_cache s)"
    unfolding assms(4) by (auto simp: UN_subset_iff)
  then have "expiring_server.dated api digest decode ?R H (site_cache s)"
    by (rule expiring_server.dated_mono [OF assms(1)]) (auto simp: assms(5))
  moreover obtain a hit c' where run:
    "serve_report (at_time api now) digest decode now r rep (w_db (site_world s)) (site_cache s) = ((a, hit), c')"
    by (metis prod.exhaust)
  ultimately show ?thesis
    using expiring_server.dated_read(2) [OF assms(1) _ _ _ assms(3) run, of H] by (simp add: assms(5) run)
qed

subsection \<open>A table with expiry\<close>

definition expiring_table :: "(string \<times> cached \<times> time option) list timed_api" where
  "expiring_table = \<lparr>
     timed_get = (\<lambda>now k c. case map_of c k of
         Some (v, None) \<Rightarrow> Some v
       | Some (v, Some until) \<Rightarrow> if now \<le> until then Some v else None
       | None \<Rightarrow> None),
     timed_set = (\<lambda>now k v timeout c. (k, v, map_option (\<lambda>s. now + s) timeout) # c),
     timed_incr = (\<lambda>now k c. case map_of c k of
         Some (Number n, until) \<Rightarrow> (if pred_option (\<lambda>t. now \<le> t) until then Some ((k, Number (Suc n), until) # c) else None)
       | _ \<Rightarrow> None)\<rparr>"

interpretation expiring_table: expiring_server expiring_table
proof
  show "k = k' \<and> v = Answer a \<and> (\<forall>s. timeout = Some s \<longrightarrow> t \<le> now + s) \<or> timed_get expiring_table t k c = Some (Answer a)"
    if "timed_get expiring_table t k (timed_set expiring_table now k' v timeout c) = Some (Answer a)" for t k now k' v timeout c a
    using that by (cases timeout) (auto simp: expiring_table_def split: if_splits)
  show "timed_get expiring_table t k c = Some (Answer a)"
    if "timed_incr expiring_table now k' c = Some c'" "timed_get expiring_table t k c' = Some (Answer a)" for now k' c c' t k a
    using that by (auto simp: expiring_table_def split: option.splits cached.splits prod.splits if_splits)
qed

theorem reports_are_minutes_old_at_most_witness:
  "\<exists>t0 d0. 400 \<le> t0 + DEFAULT_TTL \<and> fst (fst (serve_report (at_time expiring_table 400) (\<lambda>x. x) plain_range 400 sample_reader Sales
       (w_db (site_world (fold (timed_step expiring_table (\<lambda>x. x) plain_range) sample_visits \<lparr>site_world = sample_world sample_db, site_cache = []\<rparr>)))
       (site_cache (fold (timed_step expiring_table (\<lambda>x. x) plain_range) sample_visits \<lparr>site_world = sample_world sample_db, site_cache = []\<rparr>))))
     = report_view Sales t0 no_query d0"
proof -
  have "timed_get expiring_table t k [] = None" for t k by (simp add: expiring_table_def)
  from reports_are_minutes_old_at_most [OF expiring_table.expiring_server_axioms this inj_on_id2 refl refl, where r = sample_reader
      and rep = Sales and now = 400 and decode = plain_range and vs = sample_visits and w = "sample_world sample_db"]
  show ?thesis by (auto simp: plain_range_def)
qed

end
