(* ===== verification/Core.thy ===== *)
theory Core
  imports Accounts
begin

section \<open>The core services\<close>

text \<open>
  \<open>apps/core\<close> and the health check of \<open>config/urls.py\<close>: the request id a request gets, the log
  lines of a worker's tasks, the status answer for a task, and the health answer. Celery, its
  result backend, the log library and the database connection are not part of the repository:
  what they report is an argument of the definitions.
\<close>

subsection \<open>Request ids\<close>

text \<open>\<open>request.headers.get("X-Request-ID") or str(uuid.uuid4())\<close>; \<open>fresh\<close> is the id that is drawn.\<close>

definition request_id_of :: "string option \<Rightarrow> uuid \<Rightarrow> string" where
  "request_id_of header fresh = (case header of
     Some s \<Rightarrow> if s = [] then str_uuid fresh else s
   | None \<Rightarrow> str_uuid fresh)"

text \<open>The context the log lines of the request carry, and the answer with its header.\<close>

definition request_id_middleware ::
  "(string \<Rightarrow> (string \<times> string) list \<Rightarrow> 'r) \<Rightarrow> string option \<Rightarrow> uuid \<Rightarrow> 'r \<times> (string \<times> string) list" where
  "request_id_middleware get_response header fresh =
     (let request_id = request_id_of header fresh;
          context = [(''request_id'', request_id)]
      in (get_response request_id context, [(''X-Request-ID'', request_id)]))"

text \<open>\<open>_bind_request_id_and_log_start\<close>: the id of the dispatching request, or the task's own.\<close>

definition task_request_id :: "string option \<Rightarrow> string \<Rightarrow> string" where
  "task_request_id header task_id = (case header of Some s \<Rightarrow> if s = [] then task_id else s | None \<Rightarrow> task_id)"

subsection \<open>The log of a worker's tasks\<close>

text \<open>The signals of Celery, with the moment they arrive.\<close>

datatype task_state = SUCCESS | FAILURE | RETRY | REVOKED

datatype task_signal =
    Prerun string "string option" time
  | Postrun string task_state time
  | Failed string string time

datatype task_log =
    TaskStarted string string
  | TaskFinished task_state "nat option"
  | TaskFailed "nat option" string

record worker =
  task_start_times :: "string \<rightharpoonup> time"
  task_lines :: "task_log list"

definition duration_of :: "time option \<Rightarrow> time \<Rightarrow> nat option" where
  "duration_of started_at now = (case started_at of None \<Rightarrow> None | Some t \<Rightarrow> Some ((now - t) * 1000))"

fun on_signal :: "task_signal \<Rightarrow> worker \<Rightarrow> worker" where
  "on_signal (Prerun task_id header now) w =
     w\<lparr>task_start_times := (task_start_times w)(task_id \<mapsto> now),
       task_lines := task_lines w @ [TaskStarted task_id (task_request_id header task_id)]\<rparr>"
| "on_signal (Postrun task_id state now) w =
     (if state = FAILURE then w
      else w\<lparr>task_start_times := (task_start_times w)(task_id := None),
             task_lines := task_lines w @ [TaskFinished state (duration_of (task_start_times w task_id) now)]\<rparr>)"
| "on_signal (Failed task_id error now) w =
     w\<lparr>task_start_times := (task_start_times w)(task_id := None),
       task_lines := task_lines w @ [TaskFailed (duration_of (task_start_times w task_id) now) error]\<rparr>"

text \<open>
  The order in which Celery sends the signals of one execution: a start, then either the end
  with another state than FAILURE, or the failure and the end with that state. \<open>running\<close> are the
  executions between start and end, \<open>failing\<close> those between failure and end.
\<close>

inductive signals :: "task_signal list \<Rightarrow> string set \<Rightarrow> string set \<Rightarrow> bool" where
  none: "signals [] {} {}"
| prerun: "signals es running failing \<Longrightarrow> t \<notin> running \<Longrightarrow> t \<notin> failing \<Longrightarrow>
    signals (es @ [Prerun t h now]) (insert t running) failing"
| postrun: "signals es running failing \<Longrightarrow> t \<in> running \<Longrightarrow> st \<noteq> FAILURE \<Longrightarrow>
    signals (es @ [Postrun t st now]) (running - {t}) failing"
| failure: "signals es running failing \<Longrightarrow> t \<in> running \<Longrightarrow>
    signals (es @ [Failed t e now]) (running - {t}) (insert t failing)"
| failed: "signals es running failing \<Longrightarrow> t \<in> failing \<Longrightarrow>
    signals (es @ [Postrun t FAILURE now]) running (failing - {t})"

fun timed :: "task_log \<Rightarrow> bool" where
  "timed (TaskStarted _ _) = True"
| "timed (TaskFinished st d) = (st \<noteq> FAILURE \<and> d \<noteq> None)"
| "timed (TaskFailed d _) = (d \<noteq> None)"

lemma worker_follows_signals:
  assumes "signals es running failing"
  shows "dom (task_start_times (fold on_signal es \<lparr>task_start_times = Map.empty, task_lines = []\<rparr>)) = running
    \<and> list_all timed (task_lines (fold on_signal es \<lparr>task_start_times = Map.empty, task_lines = []\<rparr>))"
  using assms
proof (induction rule: signals.induct)
  case (postrun es running failing t st now)
  then show ?case by (auto simp: duration_of_def split: option.splits if_splits)
next
  case (failure es running failing t e now)
  then show ?case by (auto simp: duration_of_def split: option.splits if_splits)
qed auto

text \<open>The table of start times neither leaks nor misses: after any interleaving of the signals of
  any executions, it holds exactly the executions that are running, so it is empty when the
  worker is idle; every execution that ended is logged with its duration and a failed one is not
  logged as finished.\<close>
theorem start_times_do_not_leak:
  assumes "signals es running failing"
    and "w = fold on_signal es \<lparr>task_start_times = Map.empty, task_lines = []\<rparr>"
  shows "dom (task_start_times w) = running \<and> list_all timed (task_lines w)"
  using worker_follows_signals [OF assms(1)] assms(2) by simp

theorem start_times_do_not_leak_witness:
  "\<exists>w. w = fold on_signal [Prerun ''a'' None 1, Prerun ''b'' None 2, Failed ''a'' ''boom'' 3, Postrun ''b'' SUCCESS 4, Postrun ''a'' FAILURE 5]
       \<lparr>task_start_times = Map.empty, task_lines = []\<rparr>
     \<and> dom (task_start_times w) = {}
     \<and> task_lines w = [TaskStarted ''a'' ''a'', TaskStarted ''b'' ''b'', TaskFailed (Some 2000) ''boom'', TaskFinished SUCCESS (Some 2000)]"
proof -
  let ?es = "[Prerun ''a'' None 1, Prerun ''b'' None 2, Failed ''a'' ''boom'' 3, Postrun ''b'' SUCCESS 4, Postrun ''a'' FAILURE 5]"
  have "signals ((((([] @ [Prerun ''a'' None 1]) @ [Prerun ''b'' None 2]) @ [Failed ''a'' ''boom'' 3]) @ [Postrun ''b'' SUCCESS 4]) @ [Postrun ''a'' FAILURE 5])
      ((insert ''b'' (insert ''a'' {}) - {''a''}) - {''b''}) (insert ''a'' {} - {''a''})"
    by (intro signals.intros) auto
  moreover have "insert ''b'' (insert ''a'' {}) - {''a''} - {''b''} = {}" by auto
  ultimately have "signals ?es {} {}" by simp
  from start_times_do_not_leak [OF this refl] show ?thesis
    by (simp add: duration_of_def task_request_id_def)
qed

subsection \<open>The status of a task\<close>

text \<open>What the result backend knows: the status, and what the task returned or raised. \<open>path\<close> is the
  \<open>path\<close> entry of a result that is a dictionary.\<close>

record task_result =
  tr_status :: string
  tr_successful :: bool
  tr_failed :: bool
  tr_path :: "string option"
  tr_error :: string

definition task_status :: "(string \<Rightarrow> string) \<Rightarrow> string \<Rightarrow> string \<Rightarrow> task_result \<Rightarrow> response" where
  "task_status build_absolute_uri media_url task_id result =
     Response 200 (
       if tr_successful result then
         (case tr_path result of
            Some path \<Rightarrow> if path = [] then TaskBody task_id (tr_status result) None None
                         else TaskBody task_id (tr_status result) (Some (build_absolute_uri (media_url @ path))) None
          | None \<Rightarrow> TaskBody task_id (tr_status result) None None)
       else if tr_failed result then TaskBody task_id (tr_status result) None (Some (tr_error result))
       else TaskBody task_id (tr_status result) None None)"

subsection \<open>The health check\<close>

text \<open>A probe either raises or gives its answer: the ping of the cache what it read back, the ping
  of the workers their replies.\<close>

definition health_check :: "exn + unit \<Rightarrow> exn + string option \<Rightarrow> exn + string list \<Rightarrow> response" where
  "health_check cursor cached pong =
     (let database = (case cursor of Inl _ \<Rightarrow> ''error'' | Inr _ \<Rightarrow> ''ok'');
          redis = (case cached of Inl _ \<Rightarrow> ''error'' | Inr v \<Rightarrow> if v \<noteq> Some ''1'' then ''error'' else ''ok'');
          celery = (case pong of Inl _ \<Rightarrow> ''degraded'' | Inr replies \<Rightarrow> if replies \<noteq> [] then ''ok'' else ''degraded'');
          healthy = list_all (\<lambda>v. v = ''ok'') [database, redis, celery]
      in Response (if healthy then 200 else 503)
           (HealthBody (if healthy then ''ok'' else ''error'') database redis celery))"

text \<open>The health check is 200 exactly when the database answers, the cache gives back what was
  written and some worker replies; any exception or missing reply makes it a 503, and no probe's
  exception escapes.\<close>
theorem health_check_is_exact:
  "status_code (health_check cursor cached pong) = (if cursor = Inr () \<and> cached = Inr (Some ''1'')
     \<and> (\<exists>r rs. pong = Inr (r # rs)) then 200 else 503)"
  by (cases cursor; cases cached; cases pong) (auto simp: health_check_def Let_def neq_Nil_conv)

end
