(* ===== verification/Seed.thy ===== *)
theory Seed
  imports Accounts Inventory
begin

section \<open>The demo data generator\<close>

text \<open>
  \<open>apps/catalog/management/commands/seed_demo.py\<close>: the command that fills the shop with demo
  data, and its \<open>--flush\<close>. \<open>random.Random(42)\<close> is a parameter: the \<open>n\<close>-th draw of the run is the
  \<open>n\<close>-th value of the functions of an \<open>rng\<close>, and \<open>lawful_rng\<close> is what the standard library
  promises of them.
\<close>

subsection \<open>Drawing\<close>

text \<open>
  \<open>randint\<close>; \<open>random() < percent / 100\<close>; the index \<open>choice\<close> takes in a list of a length; the
  indices \<open>sample\<close> takes in a list of a length; and \<open>round(cost * uniform(1.2, 2.5), 2)\<close> in cents.
\<close>

record rng =
  randint :: "nat \<Rightarrow> int \<Rightarrow> int \<Rightarrow> int"
  chance :: "nat \<Rightarrow> nat \<Rightarrow> bool"
  choice :: "nat \<Rightarrow> nat \<Rightarrow> nat"
  sample :: "nat \<Rightarrow> nat \<Rightarrow> nat \<Rightarrow> nat list"
  marked_up :: "nat \<Rightarrow> cents \<Rightarrow> cents"

definition lawful_rng :: "rng \<Rightarrow> bool" where
  "lawful_rng g \<longleftrightarrow> (\<forall>n a b. a \<le> b \<longrightarrow> a \<le> randint g n a b \<and> randint g n a b \<le> b)
     \<and> (\<forall>n m. 0 < m \<longrightarrow> choice g n m < m)
     \<and> (\<forall>n m k. k \<le> m \<longrightarrow> length (sample g n m k) = k \<and> distinct (sample g n m k) \<and> (\<forall>j \<in> set (sample g n m k). j < m))"

text \<open>
  The state of the run: the draws and the primary keys used so far, the \<open>stock\<close> dictionary and
  the lists \<open>_seed_orders\<close> collects.
\<close>

record seeder =
  draws :: nat
  fresh :: uuid
  shelf_of :: "uuid \<Rightarrow> int"
  new_pos :: "purchase_order list"
  new_po_items :: "po_item list"
  new_sos :: "sales_order list"
  new_so_items :: "so_item list"
  new_txns :: "inventory_transaction list"
  completed_orders :: "(sales_order \<times> so_item list) list"
  new_returns :: "return_request list"

definition draw_int :: "rng \<Rightarrow> int \<Rightarrow> int \<Rightarrow> seeder \<Rightarrow> exn + int \<times> seeder" where
  "draw_int g a b s = (if b < a then Inl (ValueError ''empty range for randrange()'')
     else Inr (randint g (draws s) a b, s\<lparr>draws := Suc (draws s)\<rparr>))"

definition draw_chance :: "rng \<Rightarrow> nat \<Rightarrow> seeder \<Rightarrow> exn + bool \<times> seeder" where
  "draw_chance g percent s = Inr (chance g (draws s) percent, s\<lparr>draws := Suc (draws s)\<rparr>)"

definition draw_choice :: "rng \<Rightarrow> 'a list \<Rightarrow> seeder \<Rightarrow> exn + 'a \<times> seeder" where
  "draw_choice g xs s = (if xs = [] then Inl (IndexError ''Cannot choose from an empty sequence'')
     else Inr (xs ! choice g (draws s) (length xs), s\<lparr>draws := Suc (draws s)\<rparr>))"

definition draw_sample :: "rng \<Rightarrow> 'a list \<Rightarrow> nat \<Rightarrow> seeder \<Rightarrow> exn + 'a list \<times> seeder" where
  "draw_sample g xs k s = (if length xs < k then Inl (ValueError ''Sample larger than population or is negative'')
     else Inr (map ((!) xs) (sample g (draws s) (length xs) k), s\<lparr>draws := Suc (draws s)\<rparr>))"

definition draw_key :: "seeder \<Rightarrow> uuid \<times> seeder" where
  "draw_key s = (fresh s, s\<lparr>fresh := Suc (fresh s)\<rparr>)"

subsection \<open>Orders\<close>

definition seed_txn :: "uuid \<Rightarrow> time \<Rightarrow> uuid \<Rightarrow> int \<Rightarrow> txn_type \<Rightarrow> uuid option \<Rightarrow> string option \<Rightarrow> uuid option \<Rightarrow> inventory_transaction" where
  "seed_txn i now p q ty ref reason by = \<lparr>t_id = i, t_product = p, t_quantity = q, t_type = ty, t_reference = ref,
     t_reason = reason, t_created_at = now, t_created_by = by\<rparr>"

text \<open>The opening balance of every product.\<close>

definition opening_txn :: "rng \<Rightarrow> time \<Rightarrow> user list \<Rightarrow> product \<Rightarrow> seeder \<Rightarrow> exn + seeder" where
  "opening_txn g now managers p s =
     (if 0 < p_current_stock p then
        let (i, s) = draw_key s
        in bindE (draw_choice g managers s) (\<lambda>(u, s).
             Inr (s\<lparr>new_txns := new_txns s @ [seed_txn i now (p_id p) (p_current_stock p) PURCHASE None None (Some (u_id u))]\<rparr>))
      else Inr s)"

text \<open>\<open>_build_purchase_order\<close>: one line, then the order.\<close>

definition seed_po_item :: "rng \<Rightarrow> time \<Rightarrow> bool \<Rightarrow> purchase_order \<Rightarrow> product \<Rightarrow> seeder \<Rightarrow> exn + seeder" where
  "seed_po_item g now received po p s =
     bindE (draw_int g 5 100 s) (\<lambda>(quantity, s).
       let (i, s) = draw_key s;
           s = s\<lparr>new_po_items := new_po_items s @ [\<lparr>poi_id = i, poi_order = po_id po, poi_product = p_id p,
                 poi_quantity = quantity, poi_unit_cost = p_cost_price p, poi_created_at = now\<rparr>]\<rparr>
       in Inr (if received then
                let (j, s) = draw_key s
                in s\<lparr>shelf_of := (shelf_of s)(p_id p := shelf_of s (p_id p) + quantity),
                     new_txns := new_txns s @ [seed_txn j now (p_id p) quantity PURCHASE (Some (po_id po)) None (po_created_by po)]\<rparr>
              else s))"

definition seed_po :: "uuid \<Rightarrow> time \<Rightarrow> bool \<Rightarrow> uuid \<Rightarrow> user \<Rightarrow> purchase_order" where
  "seed_po i now received supplier u = \<lparr>po_id = i, po_supplier = supplier,
     po_status = (if received then RECEIVED else ORDERED), po_received_at = (if received then Some now else None),
     po_created_at = now, po_updated_at = now, po_created_by = Some (u_id u)\<rparr>"

definition build_purchase_order :: "rng \<Rightarrow> time \<Rightarrow> product list \<Rightarrow> user list \<Rightarrow> seeder \<Rightarrow> exn + seeder" where
  "build_purchase_order g now ps managers s =
     bindE (draw_int g 1 3 s) (\<lambda>(k, s).
     bindE (draw_sample g ps (nat k) s) (\<lambda>(supplier_items, s).
     bindE (draw_chance g 80 s) (\<lambda>(received, s).
     let (i, s) = draw_key s
     in bindE (draw_choice g managers s) (\<lambda>(u, s).
        let po = seed_po i now received (p_supplier (hd supplier_items)) u
        in bindE (foldE (seed_po_item g now received po) supplier_items s) (\<lambda>s.
             Inr (s\<lparr>new_pos := new_pos s @ [po]\<rparr>))))))"

text \<open>\<open>_build_sales_order\<close>. The order's lines are also returned, for the returns.\<close>

definition pad :: "nat \<Rightarrow> nat \<Rightarrow> string" where
  "pad w n = replicate (w - length (str_nat n)) CHR ''0'' @ str_nat n"

definition seed_so_item :: "rng \<Rightarrow> time \<Rightarrow> bool \<Rightarrow> sales_order \<Rightarrow> product \<Rightarrow> so_item list \<times> seeder \<Rightarrow> exn + so_item list \<times> seeder" where
  "seed_so_item g now completed so p = (\<lambda>(items, s).
     bindE (draw_int g 1 (min 5 (shelf_of s (p_id p))) s) (\<lambda>(quantity, s).
       let (i, s) = draw_key s;
           item = \<lparr>soi_id = i, soi_order = so_id so, soi_product = p_id p, soi_quantity = quantity,
                   soi_unit_price = p_selling_price p, soi_created_at = now\<rparr>
       in Inr (items @ [item],
              if completed then
                let (j, s) = draw_key s
                in s\<lparr>shelf_of := (shelf_of s)(p_id p := shelf_of s (p_id p) - quantity),
                     new_txns := new_txns s @ [seed_txn j now (p_id p) quantity SALE (Some (so_id so)) None (so_created_by so)]\<rparr>
              else s)))"

definition seed_so :: "uuid \<Rightarrow> time \<Rightarrow> bool \<Rightarrow> nat \<Rightarrow> user \<Rightarrow> sales_order" where
  "seed_so i now completed n u = \<lparr>so_id = i, so_status = (if completed then COMPLETED else CREATED),
     so_customer_name = Some (''Demo Customer '' @ str_nat n), so_customer_phone = None,
     so_invoice_number = (if completed then Some (''INV-DEMO'' @ pad 6 n) else None),
     so_invoiced_at = (if completed then Some now else None),
     so_created_at = now, so_updated_at = now, so_created_by = Some (u_id u)\<rparr>"

definition build_sales_order :: "rng \<Rightarrow> time \<Rightarrow> product list \<Rightarrow> user list \<Rightarrow> nat \<Rightarrow> seeder \<Rightarrow> exn + seeder" where
  "build_sales_order g now ps us n s =
     bindE (draw_sample g ps (min 3 (length ps)) s) (\<lambda>(sampled, s).
     let candidates = filter (\<lambda>p. 0 < shelf_of s (p_id p)) sampled
     in if candidates = [] then Inr s
     else bindE (draw_chance g 80 s) (\<lambda>(completed, s).
     let (i, s) = draw_key s
     in bindE (draw_choice g us s) (\<lambda>(u, s).
        let so = seed_so i now completed n u
        in bindE (foldE (seed_so_item g now completed so) candidates ([], s)) (\<lambda>(items, s).
             Inr (s\<lparr>new_sos := new_sos s @ [so], new_so_items := new_so_items s @ items,
                    completed_orders := completed_orders s @ (if completed then [(so, items)] else [])\<rparr>)))))"

definition seed_order :: "rng \<Rightarrow> time \<Rightarrow> product list \<Rightarrow> user list \<Rightarrow> nat \<Rightarrow> seeder \<Rightarrow> exn + seeder" where
  "seed_order g now ps us n s =
     bindE (draw_chance g 50 s) (\<lambda>(purchase, s).
       if purchase then build_purchase_order g now ps (filter (\<lambda>u. u_role u \<in> {ADMIN, MANAGER}) us) s
       else build_sales_order g now ps us n s)"

text \<open>\<open>_build_returns\<close> and \<open>_build_damage\<close>: the bodies of their loops, then the loops.\<close>

definition seed_return :: "rng \<Rightarrow> time \<Rightarrow> user list \<Rightarrow> sales_order \<times> so_item list \<Rightarrow> seeder \<Rightarrow> exn + seeder" where
  "seed_return g now us = (\<lambda>(so, items) s.
     bindE (draw_choice g items s) (\<lambda>(item, s).
     bindE (draw_int g 1 (soi_quantity item) s) (\<lambda>(quantity, s).
     bindE (draw_chance g 70 s) (\<lambda>(approved, s).
     let (i, s) = draw_key s
     in bindE (draw_choice g us s) (\<lambda>(u, s).
        bindE (if approved then bindE (draw_choice g us s) (\<lambda>(v, s). Inr (Some (u_id v), s)) else Inr (None, s)) (\<lambda>(approver, s).
        let ret = \<lparr>r_id = i, r_order = so_id so, r_product = soi_product item, r_quantity = quantity,
                   r_reason = ''Demo return'', r_status = (if approved then APPROVED else PENDING),
                   r_approved_by = approver, r_created_at = now, r_created_by = Some (u_id u)\<rparr>;
            s = s\<lparr>new_returns := new_returns s @ [ret]\<rparr>
        in Inr (if approved then
                 let (j, s) = draw_key s
                 in s\<lparr>shelf_of := (shelf_of s)(soi_product item := shelf_of s (soi_product item) + quantity),
                      new_txns := new_txns s @ [seed_txn j now (soi_product item) quantity RETURN (Some i) None (Some (u_id u))]\<rparr>
               else s)))))))"

definition build_returns :: "rng \<Rightarrow> time \<Rightarrow> user list \<Rightarrow> seeder \<Rightarrow> exn + seeder" where
  "build_returns g now us s =
     (let n = length (completed_orders s); sample_size = min n (max 1 (n div 20))
      in if completed_orders s = [] then Inr s
         else bindE (draw_sample g (completed_orders s) sample_size s) (\<lambda>(chosen, s).
           foldE (seed_return g now us) chosen s))"

definition seed_damage :: "rng \<Rightarrow> time \<Rightarrow> user list \<Rightarrow> product \<Rightarrow> seeder \<Rightarrow> exn + seeder" where
  "seed_damage g now managers p s =
     bindE (draw_int g 1 (min 5 (shelf_of s (p_id p))) s) (\<lambda>(quantity, s).
       let s = s\<lparr>shelf_of := (shelf_of s)(p_id p := shelf_of s (p_id p) - quantity)\<rparr>;
           (i, s) = draw_key s
       in bindE (draw_choice g managers s) (\<lambda>(u, s).
            Inr (s\<lparr>new_txns := new_txns s @ [seed_txn i now (p_id p) quantity DAMAGE None
              (Some ''Demo damage write-off'') (Some (u_id u))]\<rparr>)))"

definition build_damage :: "rng \<Rightarrow> time \<Rightarrow> product list \<Rightarrow> user list \<Rightarrow> nat \<Rightarrow> seeder \<Rightarrow> exn + seeder" where
  "build_damage g now ps managers number s =
     (let candidates = filter (\<lambda>p. 0 < shelf_of s (p_id p)) ps
      in bindE (draw_sample g candidates (min number (length candidates)) s) (\<lambda>(chosen, s).
           foldE (seed_damage g now managers) chosen s))"

text \<open>\<open>_seed_orders\<close> up to its writes.\<close>

definition plan_orders :: "rng \<Rightarrow> time \<Rightarrow> nat \<Rightarrow> product list \<Rightarrow> user list \<Rightarrow> seeder \<Rightarrow> exn + seeder" where
  "plan_orders g now num_orders ps us s =
     (let managers = filter (\<lambda>u. u_role u \<in> {ADMIN, MANAGER}) us
      in bindE (foldE (opening_txn g now managers) ps s) (\<lambda>s.
         bindE (foldE (seed_order g now ps us) [0..<num_orders] s) (\<lambda>s.
         bindE (build_returns g now us s) (\<lambda>s.
           build_damage g now ps managers (max 1 (num_orders div 40)) s))))"

subsection \<open>Reference data\<close>

definition demo_category_prefix :: string where "demo_category_prefix = ''Demo Category''"
definition demo_supplier_prefix :: string where "demo_supplier_prefix = ''Demo Supplier''"
definition demo_sku_prefix :: string where "demo_sku_prefix = ''DEMO-''"
definition demo_email_domain :: string where "demo_email_domain = ''@demo.seed''"
definition num_categories :: nat where "num_categories = 10"
definition num_suppliers :: nat where "num_suppliers = 20"

text \<open>\<open>bulk_create\<close> of rows with a unique column.\<close>

definition bulk_unique :: "string \<Rightarrow> ('r \<Rightarrow> 'k) \<Rightarrow> 'r list \<Rightarrow> 'r list \<Rightarrow> exn + 'r list" where
  "bulk_unique name key t new = (if distinct (map key new) \<and> (\<forall>r \<in> set new. key r \<notin> key ` set t)
     then Inr (t @ new) else Inl (IntegrityError name))"

definition demo_category :: "time \<Rightarrow> uuid \<Rightarrow> nat \<Rightarrow> category" where
  "demo_category now i k = \<lparr>c_id = i, c_name = demo_category_prefix @ '' '' @ str_nat k, c_description = None,
     c_is_active = True, c_created_at = now, c_updated_at = now, c_created_by = None\<rparr>"

definition seed_categories :: "time \<Rightarrow> db \<Rightarrow> exn + category list \<times> db" where
  "seed_categories now d =
     (let cats = map (\<lambda>k. demo_category now (next_uuid d + k) (Suc k)) [0..<num_categories]
      in bindE (bulk_unique ''name'' c_name (categories d) cats) (\<lambda>t.
           Inr (cats, d\<lparr>categories := t, next_uuid := next_uuid d + num_categories\<rparr>)))"

definition demo_supplier :: "time \<Rightarrow> uuid \<Rightarrow> nat \<Rightarrow> supplier" where
  "demo_supplier now i k = \<lparr>s_id = i, s_name = demo_supplier_prefix @ '' '' @ str_nat k,
     s_email = ''demo-supplier-'' @ str_nat k @ demo_email_domain, s_phone = None, s_address = None,
     s_is_active = True, s_created_at = now, s_updated_at = now, s_created_by = None\<rparr>"

definition seed_suppliers :: "time \<Rightarrow> db \<Rightarrow> exn + supplier list \<times> db" where
  "seed_suppliers now d =
     (let sups = map (\<lambda>k. demo_supplier now (next_uuid d + k) (Suc k)) [0..<num_suppliers]
      in bindE (bulk_unique ''email'' s_email (suppliers d) sups) (\<lambda>t.
           Inr (sups, d\<lparr>suppliers := t, next_uuid := next_uuid d + num_suppliers\<rparr>)))"

definition user_specs :: "(string \<times> role_name) list" where
  "user_specs = [(''demo-admin'', ADMIN), (''demo-manager-1'', MANAGER), (''demo-manager-2'', MANAGER),
     (''demo-employee-1'', EMPLOYEE), (''demo-employee-2'', EMPLOYEE), (''demo-employee-3'', EMPLOYEE)]"

definition seed_user :: "password_rules \<Rightarrow> time \<Rightarrow> string \<times> role_name \<Rightarrow> user list \<times> db \<Rightarrow> exn + user list \<times> db" where
  "seed_user rules now = (\<lambda>(local_part, role) (found, d).
     let email = local_part @ demo_email_domain
     in case get_row u_email email (users d) of
          Some u \<Rightarrow> Inr (found @ [u], d)
        | None \<Rightarrow> bindE (create_user rules now email ''demopass123'' ((default_fields local_part)\<lparr>uf_role := role\<rparr>) d) (\<lambda>(u, d).
            Inr (found @ [u], d)))"

definition seed_users :: "password_rules \<Rightarrow> time \<Rightarrow> db \<Rightarrow> exn + user list \<times> db" where
  "seed_users rules now d = foldE (seed_user rules now) user_specs ([], d)"

text \<open>One product; the draws in the order of the constructor's arguments.\<close>

definition seed_product ::
  "rng \<Rightarrow> time \<Rightarrow> category list \<Rightarrow> supplier list \<Rightarrow> user list \<Rightarrow> nat \<Rightarrow> product list \<times> seeder \<Rightarrow> exn + product list \<times> seeder" where
  "seed_product g now cats sups us k = (\<lambda>(ps, s).
     bindE (draw_int g 500 5000 s) (\<lambda>(cost, s).
     let price = marked_up g (draws s) cost; s = s\<lparr>draws := Suc (draws s)\<rparr>; (i, s) = draw_key s
     in bindE (draw_int g 50 500 s) (\<lambda>(stock, s).
        bindE (draw_int g 5 50 s) (\<lambda>(threshold, s).
        bindE (draw_choice g cats s) (\<lambda>(c, s).
        bindE (draw_choice g sups s) (\<lambda>(sup, s).
        bindE (draw_choice g us s) (\<lambda>(u, s).
          Inr (ps @ [\<lparr>p_id = i, p_sku = demo_sku_prefix @ pad 5 k, p_name = ''Demo Product '' @ str_nat k,
                 p_description = None, p_cost_price = cost, p_selling_price = price, p_current_stock = stock,
                 p_low_stock_threshold = threshold, p_category = c_id c, p_supplier = s_id sup, p_is_active = True,
                 p_created_at = now, p_updated_at = now, p_created_by = Some (u_id u)\<rparr>], s))))))))"

definition start_seeder :: "uuid \<Rightarrow> seeder" where
  "start_seeder i = \<lparr>draws = 0, fresh = i, shelf_of = (\<lambda>_. 0), new_pos = [], new_po_items = [], new_sos = [],
     new_so_items = [], new_txns = [], completed_orders = [], new_returns = []\<rparr>"

definition seed_products ::
  "rng \<Rightarrow> time \<Rightarrow> nat \<Rightarrow> category list \<Rightarrow> supplier list \<Rightarrow> user list \<Rightarrow> db \<Rightarrow> exn + product list \<times> seeder \<times> db" where
  "seed_products g now num_products cats sups us d =
     bindE (foldE (seed_product g now cats sups us) [1..<Suc num_products] ([], start_seeder (next_uuid d))) (\<lambda>(ps, s).
     bindE (bulk_unique ''sku'' p_sku (products d) ps) (\<lambda>t.
       Inr (ps, s, d\<lparr>products := t\<rparr>)))"

text \<open>\<open>_seed_orders\<close>: the plan, its bulk inserts, and the bulk update of the stocks. The opening stock
  is the dictionary \<open>{p.id: p.current_stock}\<close>. Only invoice numbers can clash.\<close>

definition stock_table :: "product list \<Rightarrow> uuid \<Rightarrow> int" where
  "stock_table ps i = (case get_row p_id i ps of Some p \<Rightarrow> p_current_stock p | None \<Rightarrow> 0)"

definition update_stocks :: "product list \<Rightarrow> (uuid \<Rightarrow> int) \<Rightarrow> product list \<Rightarrow> product list" where
  "update_stocks ps level t =
     map (\<lambda>r. if p_id r \<in> p_id ` set ps then r\<lparr>p_current_stock := level (p_id r)\<rparr> else r) t"

definition invoices_unique :: "db \<Rightarrow> sales_order list \<Rightarrow> bool" where
  "invoices_unique d new = (let numbers = concat (map (\<lambda>so. case so_invoice_number so of None \<Rightarrow> [] | Some n \<Rightarrow> [n]) new)
     in distinct numbers \<and> (\<forall>so \<in> set (sales_orders d). case so_invoice_number so of None \<Rightarrow> True | Some n \<Rightarrow> n \<notin> set numbers))"

definition seed_orders :: "rng \<Rightarrow> time \<Rightarrow> nat \<Rightarrow> product list \<Rightarrow> user list \<Rightarrow> seeder \<Rightarrow> db \<Rightarrow> exn + db" where
  "seed_orders g now num_orders ps us s d =
     bindE (plan_orders g now num_orders ps us (s\<lparr>shelf_of := stock_table ps\<rparr>)) (\<lambda>s.
     bindE (guardE (invoices_unique d (new_sos s)) (IntegrityError ''invoice_number'')) (\<lambda>_.
       Inr (d\<lparr>purchase_orders := purchase_orders d @ new_pos s, po_items := po_items d @ new_po_items s,
            sales_orders := sales_orders d @ new_sos s, so_items := so_items d @ new_so_items s,
            return_requests := return_requests d @ new_returns s, transactions := transactions d @ new_txns s,
            products := update_stocks ps (shelf_of s) (products d), next_uuid := fresh s\<rparr>)))"

definition seed :: "password_rules \<Rightarrow> rng \<Rightarrow> time \<Rightarrow> nat \<Rightarrow> nat \<Rightarrow> db \<Rightarrow> exn + db" where
  "seed rules g now num_products num_orders d =
     bindE (seed_categories now d) (\<lambda>(cats, d).
     bindE (seed_suppliers now d) (\<lambda>(sups, d).
     bindE (seed_users rules now d) (\<lambda>(us, d).
     bindE (seed_products g now num_products cats sups us d) (\<lambda>(ps, s, d).
       seed_orders g now num_orders ps us s d))))"

subsection \<open>Flush\<close>

definition starts_with :: "string \<Rightarrow> string \<Rightarrow> bool" where
  "starts_with p s \<longleftrightarrow> take (length p) s = p"

definition ends_with :: "string \<Rightarrow> string \<Rightarrow> bool" where
  "ends_with e s \<longleftrightarrow> length e \<le> length s \<and> drop (length s - length e) s = e"

text \<open>The lazy query sets \<open>demo_products\<close> and \<open>demo_users\<close>, as the keys they give when they are used.\<close>

definition demo_products :: "db \<Rightarrow> uuid set" where
  "demo_products d = set (map p_id (filter (\<lambda>p. starts_with demo_sku_prefix (p_sku p)) (products d)))"

definition demo_users :: "db \<Rightarrow> uuid set" where
  "demo_users d = set (map u_id (filter (\<lambda>u. ends_with demo_email_domain (u_email u)) (users d)))"

definition refers_to :: "uuid set \<Rightarrow> uuid option \<Rightarrow> bool" where
  "refers_to ids v = (case v of None \<Rightarrow> False | Some i \<Rightarrow> i \<in> ids)"

definition delete_returns :: "db \<Rightarrow> exn + db" where
  "delete_returns d = Inr (d\<lparr>return_requests := delete_rows (\<lambda>r. r_product r \<in> demo_products d) (return_requests d)\<rparr>)"

definition delete_transactions :: "db \<Rightarrow> exn + db" where
  "delete_transactions d = Inr (d\<lparr>transactions := delete_rows (\<lambda>t. t_product t \<in> demo_products d) (transactions d)\<rparr>)"

text \<open>A return protects its order, the lines go with it.\<close>

definition delete_sales_orders :: "db \<Rightarrow> exn + db" where
  "delete_sales_orders d =
     (let ids = set (map so_id (filter (\<lambda>so. refers_to (demo_users d) (so_created_by so)) (sales_orders d)))
      in bindE (guardE (\<forall>r \<in> set (return_requests d). r_order r \<notin> ids) (ProtectedError ''Return.sales_order'')) (\<lambda>_.
           Inr (d\<lparr>sales_orders := delete_rows (\<lambda>so. so_id so \<in> ids) (sales_orders d),
                  so_items := delete_rows (\<lambda>x. soi_order x \<in> ids) (so_items d)\<rparr>)))"

definition delete_purchase_orders :: "db \<Rightarrow> exn + db" where
  "delete_purchase_orders d =
     (let ids = set (map po_id (filter (\<lambda>po. refers_to (demo_users d) (po_created_by po)) (purchase_orders d)))
      in Inr (d\<lparr>purchase_orders := delete_rows (\<lambda>po. po_id po \<in> ids) (purchase_orders d),
                po_items := delete_rows (\<lambda>x. poi_order x \<in> ids) (po_items d)\<rparr>))"

text \<open>Order lines, ledger rows and returns protect a product.\<close>

definition delete_products :: "db \<Rightarrow> exn + db" where
  "delete_products d =
     (let ids = demo_products d
      in bindE (guardE ((\<forall>x \<in> set (po_items d). poi_product x \<notin> ids) \<and> (\<forall>x \<in> set (so_items d). soi_product x \<notin> ids)
             \<and> (\<forall>t \<in> set (transactions d). t_product t \<notin> ids) \<and> (\<forall>r \<in> set (return_requests d). r_product r \<notin> ids))
           (ProtectedError ''product'')) (\<lambda>_.
           Inr (d\<lparr>products := delete_rows (\<lambda>p. p_id p \<in> ids) (products d)\<rparr>)))"

definition delete_suppliers :: "db \<Rightarrow> exn + db" where
  "delete_suppliers d =
     (let ids = set (map s_id (filter (\<lambda>x. starts_with demo_supplier_prefix (s_name x)) (suppliers d)))
      in bindE (guardE ((\<forall>p \<in> set (products d). p_supplier p \<notin> ids) \<and> (\<forall>po \<in> set (purchase_orders d). po_supplier po \<notin> ids))
           (ProtectedError ''supplier'')) (\<lambda>_.
           Inr (d\<lparr>suppliers := delete_rows (\<lambda>x. s_id x \<in> ids) (suppliers d)\<rparr>)))"

definition delete_categories :: "db \<Rightarrow> exn + db" where
  "delete_categories d =
     (let ids = set (map c_id (filter (\<lambda>x. starts_with demo_category_prefix (c_name x)) (categories d)))
      in bindE (guardE (\<forall>p \<in> set (products d). p_category p \<notin> ids) (ProtectedError ''Product.category'')) (\<lambda>_.
           Inr (d\<lparr>categories := delete_rows (\<lambda>x. c_id x \<in> ids) (categories d)\<rparr>)))"

text \<open>\<open>on_delete=SET_NULL\<close> on every reference to a user, \<open>CASCADE\<close> on the notifications.\<close>

definition unref :: "uuid set \<Rightarrow> uuid option \<Rightarrow> uuid option" where
  "unref ids v = (if refers_to ids v then None else v)"

definition delete_users :: "db \<Rightarrow> exn + db" where
  "delete_users d =
     (let ids = demo_users d
      in Inr (d\<lparr>users := map (\<lambda>u. u\<lparr>u_created_by := unref ids (u_created_by u)\<rparr>) (delete_rows (\<lambda>u. u_id u \<in> ids) (users d)),
           categories := map (\<lambda>c. c\<lparr>c_created_by := unref ids (c_created_by c)\<rparr>) (categories d),
           suppliers := map (\<lambda>x. x\<lparr>s_created_by := unref ids (s_created_by x)\<rparr>) (suppliers d),
           products := map (\<lambda>p. p\<lparr>p_created_by := unref ids (p_created_by p)\<rparr>) (products d),
           purchase_orders := map (\<lambda>po. po\<lparr>po_created_by := unref ids (po_created_by po)\<rparr>) (purchase_orders d),
           sales_orders := map (\<lambda>so. so\<lparr>so_created_by := unref ids (so_created_by so)\<rparr>) (sales_orders d),
           transactions := map (\<lambda>t. t\<lparr>t_created_by := unref ids (t_created_by t)\<rparr>) (transactions d),
           return_requests := map (\<lambda>r. r\<lparr>r_created_by := unref ids (r_created_by r),
             r_approved_by := unref ids (r_approved_by r)\<rparr>) (return_requests d),
           notifications := delete_rows (\<lambda>n. n_user n \<in> ids) (notifications d)\<rparr>))"

text \<open>The statements of \<open>_flush\<close> run outside any transaction: each one commits on its own, and an
  exception leaves the earlier ones in force.\<close>

fun autocommit :: "(db \<Rightarrow> exn + db) list \<Rightarrow> db \<Rightarrow> exn option \<times> db" where
  "autocommit [] d = (None, d)"
| "autocommit (f # fs) d = (case f d of Inl e \<Rightarrow> (Some e, d) | Inr d \<Rightarrow> autocommit fs d)"

definition flush_steps :: "(db \<Rightarrow> exn + db) list" where
  "flush_steps = [delete_returns, delete_transactions, delete_sales_orders, delete_purchase_orders, delete_products,
     delete_suppliers, delete_categories, delete_users]"

definition flush :: "db \<Rightarrow> exn option \<times> db" where
  "flush d = autocommit flush_steps d"

subsection \<open>The command\<close>

definition seed_demo :: "password_rules \<Rightarrow> rng \<Rightarrow> time \<Rightarrow> nat \<Rightarrow> nat \<Rightarrow> bool \<Rightarrow> db \<Rightarrow> exn option \<times> db" where
  "seed_demo rules g now num_products num_orders flush_first d =
     (case (if flush_first then flush d else (None, d)) of
        (Some e, d) \<Rightarrow> (Some e, d)
      | (None, d) \<Rightarrow>
          if \<not> flush_first \<and> (\<exists>c \<in> set (categories d). starts_with demo_category_prefix (c_name c)) then (None, d)
          else (case seed rules g now num_products num_orders d of Inl e \<Rightarrow> (Some e, d) | Inr d \<Rightarrow> (None, d)))"

end
