(* ===== verification/Seed_Properties.thy ===== *)
theory Seed_Properties
  imports Seed Sample
begin

section \<open>What seeding guarantees\<close>

text \<open>
  The generator replays the bookkeeping of the endpoints; what it leaves is a shop whose books
  balance, and what its flush finds is exactly what it has made.
\<close>

subsection \<open>The draws\<close>

lemma draw_intD:
  assumes "draw_int g a b s = Inr (n, s')" "lawful_rng g"
  shows "a \<le> n \<and> n \<le> b \<and> s' = s\<lparr>draws := Suc (draws s)\<rparr>"
  using assms by (auto simp: draw_int_def lawful_rng_def split: if_splits)

lemma draw_chanceD: "draw_chance g p s = Inr (b, s') \<Longrightarrow> s' = s\<lparr>draws := Suc (draws s)\<rparr>"
  by (auto simp: draw_chance_def)

lemma draw_choiceD:
  assumes "draw_choice g xs s = Inr (x, s')" "lawful_rng g"
  shows "x \<in> set xs \<and> s' = s\<lparr>draws := Suc (draws s)\<rparr>"
  using assms by (auto simp: draw_choice_def lawful_rng_def split: if_splits)

lemma draw_sampleD:
  assumes "draw_sample g xs k s = Inr (ys, s')" "lawful_rng g"
  shows "set ys \<subseteq> set xs \<and> (distinct xs \<longrightarrow> distinct ys) \<and> length ys = k \<and> s' = s\<lparr>draws := Suc (draws s)\<rparr>"
proof -
  let ?js = "sample g (draws s) (length xs) k"
  from assms(1) have ys: "k \<le> length xs" "ys = map ((!) xs) ?js" "s' = s\<lparr>draws := Suc (draws s)\<rparr>"
    by (auto simp: draw_sample_def split: if_splits)
  with assms(2) have js: "length ?js = k" "distinct ?js" "\<forall>j \<in> set ?js. j < length xs" by (auto simp: lawful_rng_def)
  then have "distinct xs \<Longrightarrow> inj_on ((!) xs) (set ?js)" by (auto simp: inj_on_def nth_eq_iff_index_eq)
  with ys js show ?thesis by (auto simp: distinct_map)
qed

subsection \<open>The steps, inverted\<close>

lemma seed_po_item_Inr:
  assumes "seed_po_item g now received po p s = Inr s'" "lawful_rng g"
  shows "\<exists>q k u item. 5 \<le> q \<and> poi_id item = fresh s \<and> poi_order item = po_id po \<and> poi_product item = p_id p
    \<and> poi_quantity item = q \<and>
    s' = (if received
      then s\<lparr>draws := k, fresh := Suc (Suc (fresh s)), new_po_items := new_po_items s @ [item],
        shelf_of := (shelf_of s)(p_id p := shelf_of s (p_id p) + q),
        new_txns := new_txns s @ [seed_txn u now (p_id p) q PURCHASE (Some (po_id po)) None (po_created_by po)]\<rparr>
      else s\<lparr>draws := k, fresh := Suc (fresh s), new_po_items := new_po_items s @ [item]\<rparr>)"
proof -
  from assms(1) obtain q s1 where "draw_int g 5 100 s = Inr (q, s1)" "(\<lambda>(q,s). s) (q,s1) = s1"
    unfolding seed_po_item_def by (auto simp: bind_elims)
  with draw_intD [OF this(1) assms(2)] assms(1) show ?thesis
    by (intro exI [of _ q] exI [of _ "draws s'"] exI [of _ "Suc (fresh s)"] exI [of _ "last (new_po_items s')"])
      (auto simp: seed_po_item_def draw_key_def Let_def)
qed

lemma seed_so_item_Inr:
  assumes "seed_so_item g now completed so p (items, s) = Inr (items', s')" "lawful_rng g"
  shows "\<exists>q k u item. 1 \<le> q \<and> q \<le> shelf_of s (p_id p) \<and> soi_id item = fresh s \<and> soi_order item = so_id so
    \<and> soi_product item = p_id p \<and> soi_quantity item = q \<and> items' = items @ [item] \<and>
    s' = (if completed
      then s\<lparr>draws := k, fresh := Suc (Suc (fresh s)),
        shelf_of := (shelf_of s)(p_id p := shelf_of s (p_id p) - q),
        new_txns := new_txns s @ [seed_txn u now (p_id p) q SALE (Some (so_id so)) None (so_created_by so)]\<rparr>
      else s\<lparr>draws := k, fresh := Suc (fresh s)\<rparr>)"
proof -
  from assms(1) obtain q s1 where "draw_int g 1 (min 5 (shelf_of s (p_id p))) s = Inr (q, s1)" "(\<lambda>(q,s). s) (q,s1) = s1"
    unfolding seed_so_item_def by (auto simp: bind_elims)
  with draw_intD [OF this(1) assms(2)] assms(1) show ?thesis
    by (intro exI [of _ q] exI [of _ "draws s'"] exI [of _ "Suc (fresh s)"] exI [of _ "last items'"])
      (auto simp: seed_so_item_def draw_key_def Let_def)
qed

lemma seed_damage_Inr:
  assumes "seed_damage g now managers p s = Inr s'" "lawful_rng g"
  shows "\<exists>q k v. 1 \<le> q \<and> q \<le> shelf_of s (p_id p) \<and> v \<in> set managers \<and>
    s' = s\<lparr>draws := k, fresh := Suc (fresh s), shelf_of := (shelf_of s)(p_id p := shelf_of s (p_id p) - q),
        new_txns := new_txns s @ [seed_txn (fresh s) now (p_id p) q DAMAGE None (Some ''Demo damage write-off'') (Some (u_id v))]\<rparr>"
proof -
  from assms(1) obtain q s1 s2 v s3 where d: "draw_int g 1 (min 5 (shelf_of s (p_id p))) s = Inr (q, s1)"
    "s2 = s1\<lparr>shelf_of := (shelf_of s1)(p_id p := shelf_of s1 (p_id p) - q), fresh := Suc (fresh s1)\<rparr>"
    "draw_choice g managers s2 = Inr (v, s3)"
    "s' = s3\<lparr>new_txns := new_txns s3 @ [seed_txn (fresh s1) now (p_id p) q DAMAGE None (Some ''Demo damage write-off'') (Some (u_id v))]\<rparr>"
    unfolding seed_damage_def draw_key_def Let_def by (auto simp: bind_elims)
  with draw_intD [OF d(1) assms(2)] draw_choiceD [OF d(3) assms(2)] show ?thesis
    by (intro exI [of _ q] exI [of _ "draws s3"] exI [of _ v]) auto
qed

lemma opening_txn_Inr:
  assumes "opening_txn g now managers p s = Inr s'" "lawful_rng g"
  shows "\<exists>k v. s' = (if 0 < p_current_stock p
    then s\<lparr>draws := k, fresh := Suc (fresh s),
        new_txns := new_txns s @ [seed_txn (fresh s) now (p_id p) (p_current_stock p) PURCHASE None None (Some (u_id v))]\<rparr>
    else s) \<and> (0 < p_current_stock p \<longrightarrow> v \<in> set managers)"
proof (cases "0 < p_current_stock p")
  case True
  with assms(1) obtain v s2 where d: "draw_choice g managers (s\<lparr>fresh := Suc (fresh s)\<rparr>) = Inr (v, s2)"
    "s' = s2\<lparr>new_txns := new_txns s2 @ [seed_txn (fresh s) now (p_id p) (p_current_stock p) PURCHASE None None (Some (u_id v))]\<rparr>"
    unfolding opening_txn_def draw_key_def Let_def by (auto simp: bind_elims)
  with draw_choiceD [OF d(1) assms(2)] True show ?thesis
    by (intro exI [of _ "draws s2"] exI [of _ v]) auto
next
  case False
  with assms(1) show ?thesis by (simp add: opening_txn_def)
qed

lemma seed_return_Inr:
  assumes "seed_return g now us (so, items) s = Inr s'" "lawful_rng g"
  shows "\<exists>item q k v r u. item \<in> set items \<and> v \<in> set us \<and> 1 \<le> q \<and> q \<le> soi_quantity item
    \<and> r_id r = fresh s \<and> r_order r = so_id so \<and> r_product r = soi_product item \<and> r_quantity r = q
    \<and> r_created_by r = Some (u_id v) \<and> refers_to (u_id ` set us) (r_created_by r) \<and>
    (s' = s\<lparr>draws := k, fresh := Suc (fresh s), new_returns := new_returns s @ [r]\<rparr>
     \<or> s' = s\<lparr>draws := k, fresh := Suc (Suc (fresh s)), new_returns := new_returns s @ [r],
        shelf_of := (shelf_of s)(soi_product item := shelf_of s (soi_product item) + q),
        new_txns := new_txns s @ [seed_txn u now (soi_product item) q RETURN (Some (fresh s)) None (Some (u_id v))]\<rparr>)"
proof -
  from assms(1) obtain item s1 q s2 approved s3 v s4 approver s5 where d:
    "draw_choice g items s = Inr (item, s1)" "draw_int g 1 (soi_quantity item) s1 = Inr (q, s2)"
    "draw_chance g 70 s2 = Inr (approved, s3)" "draw_choice g us (s3\<lparr>fresh := Suc (fresh s3)\<rparr>) = Inr (v, s4)"
    "(if approved then bindE (draw_choice g us s4) (\<lambda>(v, s). Inr (Some (u_id v), s)) else Inr (None, s4)) = Inr (approver, s5)"
    and s': "s' = (let r = \<lparr>r_id = fresh s3, r_order = so_id so, r_product = soi_product item, r_quantity = q,
         r_reason = ''Demo return'', r_status = (if approved then APPROVED else PENDING), r_approved_by = approver,
         r_created_at = now, r_created_by = Some (u_id v)\<rparr>; s = s5\<lparr>new_returns := new_returns s5 @ [r]\<rparr>
       in if approved then s\<lparr>fresh := Suc (fresh s), shelf_of := (shelf_of s)(soi_product item := shelf_of s (soi_product item) + q),
            new_txns := new_txns s @ [seed_txn (fresh s) now (soi_product item) q RETURN (Some (fresh s3)) None (Some (u_id v))]\<rparr> else s)"
    unfolding seed_return_def draw_key_def Let_def by (auto simp: bind_elims)
  note e = draw_choiceD [OF d(1) assms(2)] draw_intD [OF d(2) assms(2)] draw_chanceD [OF d(3)] draw_choiceD [OF d(4) assms(2)]
  have s5: "\<exists>k. s5 = s4\<lparr>draws := k\<rparr>"
  proof (cases approved)
    case True
    with d(5) obtain w where "draw_choice g us s4 = Inr (w, s5)" by (auto simp: bind_elims)
    with draw_choiceD [OF this assms(2)] show ?thesis by auto
  next
    case False
    with d(5) show ?thesis by (intro exI [of _ "draws s4"]) simp
  qed
  let ?r = "\<lparr>r_id = fresh s, r_order = so_id so, r_product = soi_product item, r_quantity = q,
         r_reason = ''Demo return'', r_status = (if approved then APPROVED else PENDING), r_approved_by = approver,
         r_created_at = now, r_created_by = Some (u_id v)\<rparr>"
  from e s5 show ?thesis
    by (intro exI [of _ item] exI [of _ q] exI [of _ "draws s'"] exI [of _ v] exI [of _ ?r] exI [of _ "Suc (fresh s)"])
      (auto simp: s' Let_def refers_to_def)
qed

subsection \<open>The books of a run\<close>

definition posted :: "inventory_transaction list \<Rightarrow> uuid \<Rightarrow> int" where
  "posted ts i = total signed_quantity (filter (\<lambda>t. t_product t = i) ts)"

lemma posted_simps [simp]:
  "posted [] i = 0" "posted (ts @ us) i = posted ts i + posted us i"
  "posted [t] i = (if t_product t = i then signed_quantity t else 0)"
  by (simp_all add: posted_def)

lemma signed_seed_txn [simp]:
  "signed_quantity (seed_txn i now p q ty ref reason by) = (case ty of PURCHASE \<Rightarrow> q | RETURN \<Rightarrow> q | _ \<Rightarrow> - q)"
  "t_product (seed_txn i now p q ty ref reason by) = p"
  by (simp_all add: seed_txn_def signed_quantity.simps split: txn_type.split)

text \<open>The stock dictionary is what the ledger rows of the run say, and not negative.\<close>

definition in_books :: "uuid set \<Rightarrow> seeder \<Rightarrow> bool" where
  "in_books ids s \<longleftrightarrow> t_product ` set (new_txns s) \<subseteq> ids \<and> shelf_of s = posted (new_txns s) \<and> (\<forall>i. 0 \<le> shelf_of s i)
     \<and> (\<forall>c \<in> set (completed_orders s). soi_product ` set (snd c) \<subseteq> ids)"

lemma in_books_nonneg: "in_books ids s \<Longrightarrow> 0 \<le> shelf_of s i"
  unfolding in_books_def by blast

lemma in_books_cong:
  "new_txns s' = new_txns s \<Longrightarrow> shelf_of s' = shelf_of s \<Longrightarrow> completed_orders s' = completed_orders s \<Longrightarrow> in_books ids s' = in_books ids s"
  by (simp add: in_books_def)

lemma in_books_txn:
  assumes "in_books ids s" "new_txns s' = new_txns s @ [t]" "completed_orders s' = completed_orders s"
    and "shelf_of s' = (shelf_of s)(t_product t := shelf_of s (t_product t) + signed_quantity t)"
    and "t_product t \<in> ids" "0 \<le> shelf_of s (t_product t) + signed_quantity t"
  shows "in_books ids s'"
  using assms by (auto simp: in_books_def fun_eq_iff)

lemma seed_po_item_books:
  assumes "seed_po_item g now received po p s = Inr s'" "lawful_rng g" "in_books ids s" "p_id p \<in> ids"
  shows "in_books ids s'"
proof -
  from seed_po_item_Inr [OF assms(1,2)] obtain q k u item where q: "5 \<le> q" and
    s': "s' = (if received
      then s\<lparr>draws := k, fresh := Suc (Suc (fresh s)), new_po_items := new_po_items s @ [item],
        shelf_of := (shelf_of s)(p_id p := shelf_of s (p_id p) + q),
        new_txns := new_txns s @ [seed_txn u now (p_id p) q PURCHASE (Some (po_id po)) None (po_created_by po)]\<rparr>
      else s\<lparr>draws := k, fresh := Suc (fresh s), new_po_items := new_po_items s @ [item]\<rparr>)" by blast
  show ?thesis
  proof (cases received)
    case True
    have "0 \<le> shelf_of s (p_id p)" by (rule in_books_nonneg [OF assms(3)])
    with True s' q assms(4) show ?thesis by (intro in_books_txn [OF assms(3)]) auto
  next
    case False
    with s' in_books_cong [of s' s ids] assms(3) show ?thesis by simp
  qed
qed

lemma seed_so_item_books:
  assumes "seed_so_item g now completed so p (items, s) = Inr (items', s')" "lawful_rng g" "in_books ids s" "p_id p \<in> ids"
    and "soi_product ` set items \<subseteq> ids"
  shows "in_books ids s' \<and> soi_product ` set items' \<subseteq> ids"
proof -
  from seed_so_item_Inr [OF assms(1,2)] obtain q k u item where q: "q \<le> shelf_of s (p_id p)"
    and item: "soi_product item = p_id p" "items' = items @ [item]" and
    s': "s' = (if completed
      then s\<lparr>draws := k, fresh := Suc (Suc (fresh s)),
        shelf_of := (shelf_of s)(p_id p := shelf_of s (p_id p) - q),
        new_txns := new_txns s @ [seed_txn u now (p_id p) q SALE (Some (so_id so)) None (so_created_by so)]\<rparr>
      else s\<lparr>draws := k, fresh := Suc (fresh s)\<rparr>)" by blast
  have "in_books ids s'"
  proof (cases completed)
    case True
    with s' q assms(4) show ?thesis by (intro in_books_txn [OF assms(3)]) auto
  next
    case False
    with s' in_books_cong [of s' s ids] assms(3) show ?thesis by simp
  qed
  with item assms(4,5) show ?thesis by auto
qed

lemma seed_damage_books:
  assumes "seed_damage g now managers p s = Inr s'" "lawful_rng g" "in_books ids s" "p_id p \<in> ids"
  shows "in_books ids s'"
proof -
  from seed_damage_Inr [OF assms(1,2)] obtain q k v where "q \<le> shelf_of s (p_id p)" "v \<in> set managers"
    "s' = s\<lparr>draws := k, fresh := Suc (fresh s), shelf_of := (shelf_of s)(p_id p := shelf_of s (p_id p) - q),
        new_txns := new_txns s @ [seed_txn (fresh s) now (p_id p) q DAMAGE None (Some ''Demo damage write-off'') (Some (u_id v))]\<rparr>"
    by blast
  with assms(4) show ?thesis by (intro in_books_txn [OF assms(3)]) auto
qed

lemma seed_return_books:
  assumes "seed_return g now us (so, items) s = Inr s'" "lawful_rng g" "in_books ids s" "soi_product ` set items \<subseteq> ids"
  shows "in_books ids s'"
proof -
  from seed_return_Inr [OF assms(1,2)] obtain item q k v r u where i: "item \<in> set items" "1 \<le> q" "v \<in> set us" and
    s': "s' = s\<lparr>draws := k, fresh := Suc (fresh s), new_returns := new_returns s @ [r]\<rparr>
     \<or> s' = s\<lparr>draws := k, fresh := Suc (Suc (fresh s)), new_returns := new_returns s @ [r],
        shelf_of := (shelf_of s)(soi_product item := shelf_of s (soi_product item) + q),
        new_txns := new_txns s @ [seed_txn u now (soi_product item) q RETURN (Some (fresh s)) None (Some (u_id v))]\<rparr>"
    by metis
  have "0 \<le> shelf_of s (soi_product item)" "soi_product item \<in> ids"
    using in_books_nonneg [OF assms(3)] assms(4) i(1) by auto
  with s' i(2) show ?thesis
    using in_books_cong [of s' s ids] assms(3) by (elim disjE) (simp, intro in_books_txn [OF assms(3)], auto)
qed

lemma build_purchase_order_Inr:
  assumes "build_purchase_order g now ps managers s = Inr s'" "lawful_rng g"
  shows "\<exists>k received chosen v po s1. set chosen \<subseteq> set ps \<and> (distinct ps \<longrightarrow> distinct chosen) \<and> chosen \<noteq> []
    \<and> v \<in> set managers \<and> po = seed_po (fresh s) now received (p_supplier (hd chosen)) v
    \<and> foldE (seed_po_item g now received po) chosen (s\<lparr>draws := k, fresh := Suc (fresh s)\<rparr>) = Inr s1
    \<and> s' = s1\<lparr>new_pos := new_pos s1 @ [po]\<rparr>"
proof -
  from assms(1) obtain k s1 chosen s2 received s3 v s4 s5 where d:
    "draw_int g 1 3 s = Inr (k, s1)" "draw_sample g ps (nat k) s1 = Inr (chosen, s2)"
    "draw_chance g 80 s2 = Inr (received, s3)" "draw_choice g managers (s3\<lparr>fresh := Suc (fresh s3)\<rparr>) = Inr (v, s4)"
    and f: "foldE (seed_po_item g now received (seed_po (fresh s3) now received (p_supplier (hd chosen)) v)) chosen s4 = Inr s5"
    "s' = s5\<lparr>new_pos := new_pos s5 @ [seed_po (fresh s3) now received (p_supplier (hd chosen)) v]\<rparr>"
    unfolding build_purchase_order_def draw_key_def Let_def by (auto simp: bind_elims)
  note e = draw_intD [OF d(1) assms(2)] draw_sampleD [OF d(2) assms(2)] draw_chanceD [OF d(3)] draw_choiceD [OF d(4) assms(2)]
  then have "s4 = s\<lparr>draws := draws s4, fresh := Suc (fresh s)\<rparr>" and id: "fresh s3 = fresh s" and ne: "chosen \<noteq> []" by auto
  then have "foldE (seed_po_item g now received (seed_po (fresh s) now received (p_supplier (hd chosen)) v)) chosen
      (s\<lparr>draws := draws s4, fresh := Suc (fresh s)\<rparr>) = Inr s5" using f(1) by simp
  moreover have "set chosen \<subseteq> set ps" "distinct ps \<longrightarrow> distinct chosen" "v \<in> set managers" using e by blast+
  ultimately show ?thesis using ne f(2) unfolding id by blast
qed

lemma build_sales_order_Inr:
  assumes "build_sales_order g now ps us n s = Inr s'" "lawful_rng g"
  obtains (skipped) k where "s' = s\<lparr>draws := k\<rparr>"
  | (built) k completed chosen v so s1 items where "set chosen \<subseteq> set ps" "distinct ps \<longrightarrow> distinct chosen"
      "\<forall>p \<in> set chosen. 0 < shelf_of s (p_id p)" "v \<in> set us" "chosen \<noteq> []" "so = seed_so (fresh s) now completed n v"
      "foldE (seed_so_item g now completed so) chosen ([], s\<lparr>draws := k, fresh := Suc (fresh s)\<rparr>) = Inr (items, s1)"
      "s' = s1\<lparr>new_sos := new_sos s1 @ [so], new_so_items := new_so_items s1 @ items,
                    completed_orders := completed_orders s1 @ (if completed then [(so, items)] else [])\<rparr>"
proof -
  from assms(1) obtain sampled s1 where d: "draw_sample g ps (min 3 (length ps)) s = Inr (sampled, s1)"
    unfolding build_sales_order_def by (auto simp: bind_elims)
  note e = draw_sampleD [OF d assms(2)]
  let ?chosen = "filter (\<lambda>p. 0 < shelf_of s1 (p_id p)) sampled"
  show thesis
  proof (cases "?chosen = []")
    case True
    with assms(1) d e show thesis by (intro skipped [of "draws s'"]) (auto simp: build_sales_order_def)
  next
    case False
    with assms(1) d obtain completed s2 v s3 items s4 where
      d2: "draw_chance g 80 s1 = Inr (completed, s2)" "draw_choice g us (s2\<lparr>fresh := Suc (fresh s2)\<rparr>) = Inr (v, s3)"
      and f: "foldE (seed_so_item g now completed (seed_so (fresh s2) now completed n v)) ?chosen ([], s3) = Inr (items, s4)"
      "s' = s4\<lparr>new_sos := new_sos s4 @ [seed_so (fresh s2) now completed n v], new_so_items := new_so_items s4 @ items,
         completed_orders := completed_orders s4 @ (if completed then [(seed_so (fresh s2) now completed n v, items)] else [])\<rparr>"
      unfolding build_sales_order_def draw_key_def Let_def by (auto simp: bind_elims)
    note e2 = e draw_chanceD [OF d2(1)] draw_choiceD [OF d2(2) assms(2)]
    then have "s3 = s\<lparr>draws := draws s3, fresh := Suc (fresh s)\<rparr>" and id: "fresh s2 = fresh s" by auto
    then have f1: "foldE (seed_so_item g now completed (seed_so (fresh s) now completed n v)) ?chosen
        ([], s\<lparr>draws := draws s3, fresh := Suc (fresh s)\<rparr>) = Inr (items, s4)" using f(1) by simp
    show thesis
      by (rule built [OF _ _ _ _ False refl f1 f(2) [unfolded id]]) (use e2 in auto)
  qed
qed

lemma build_purchase_order_books:
  assumes "build_purchase_order g now ps managers s = Inr s'" "lawful_rng g" "in_books (p_id ` set ps) s"
  shows "in_books (p_id ` set ps) s'"
proof -
  from build_purchase_order_Inr [OF assms(1,2)] obtain k received chosen po s1 where c: "set chosen \<subseteq> set ps"
    and f: "foldE (seed_po_item g now received po) chosen (s\<lparr>draws := k, fresh := Suc (fresh s)\<rparr>) = Inr s1"
    and s': "s' = s1\<lparr>new_pos := new_pos s1 @ [po]\<rparr>" by blast
  have "in_books (p_id ` set ps) s1"
  proof (rule foldE_invariant [OF f])
    show "in_books (p_id ` set ps) (s\<lparr>draws := k, fresh := Suc (fresh s)\<rparr>)"
      using assms(3) in_books_cong [of "s\<lparr>draws := k, fresh := Suc (fresh s)\<rparr>" s] by simp
    show "in_books (p_id ` set ps) s3"
      if "p \<in> set chosen" "seed_po_item g now received po p s2 = Inr s3" "in_books (p_id ` set ps) s2" for p s2 s3
      using seed_po_item_books [OF that(2) assms(2) that(3)] that(1) c by blast
  qed
  with s' in_books_cong [of s' s1] show ?thesis by simp
qed

lemma build_sales_order_books:
  assumes "build_sales_order g now ps us n s = Inr s'" "lawful_rng g" "in_books (p_id ` set ps) s"
  shows "in_books (p_id ` set ps) s'"
  using assms(1,2)
proof (cases rule: build_sales_order_Inr)
  case (skipped k)
  with assms(3) in_books_cong [of s' s] show ?thesis by simp
next
  case (built k completed chosen v so s1 items)
  let ?ids = "p_id ` set ps"
  let ?P = "\<lambda>(items, s). in_books ?ids s \<and> soi_product ` set items \<subseteq> ?ids"
  have "?P (items, s1)"
  proof (rule foldE_invariant [OF built(7)])
    show "?P ([], s\<lparr>draws := k, fresh := Suc (fresh s)\<rparr>)"
      using assms(3) in_books_cong [of "s\<lparr>draws := k, fresh := Suc (fresh s)\<rparr>" s] by simp
    show "?P r'" if "p \<in> set chosen" "seed_so_item g now completed so p r = Inr r'" "?P r" for p r r'
      using that built(1) seed_so_item_books [OF _ assms(2), of now completed so p "fst r" "snd r" "fst r'" "snd r'" ?ids]
      by (cases r; cases r') auto
  qed
  then have "in_books ?ids s1" "soi_product ` set items \<subseteq> ?ids" by simp_all
  with built(8) show ?thesis by (cases completed) (auto simp: in_books_def)
qed

lemma seed_order_books:
  assumes "seed_order g now ps us n s = Inr s'" "lawful_rng g" "in_books (p_id ` set ps) s"
  shows "in_books (p_id ` set ps) s'"
proof -
  from assms(1) obtain purchase s1 where d: "draw_chance g 50 s = Inr (purchase, s1)"
    "(if purchase then build_purchase_order g now ps (filter (\<lambda>u. u_role u \<in> {ADMIN, MANAGER}) us) s1
       else build_sales_order g now ps us n s1) = Inr s'"
    unfolding seed_order_def by (auto simp: bind_elims)
  have "in_books (p_id ` set ps) s1" using draw_chanceD [OF d(1)] assms(3) in_books_cong [of s1 s] by simp
  with d(2) assms(2) build_purchase_order_books build_sales_order_books show ?thesis by (cases purchase) auto
qed

lemma build_returns_books:
  assumes "build_returns g now us s = Inr s'" "lawful_rng g" "in_books ids s"
  shows "in_books ids s'"
proof (cases "completed_orders s = []")
  case True
  with assms(1,3) show ?thesis by (simp add: build_returns_def Let_def)
next
  case False
  with assms(1) obtain k chosen s1 where d: "draw_sample g (completed_orders s) k s = Inr (chosen, s1)"
    "foldE (seed_return g now us) chosen s1 = Inr s'"
    unfolding build_returns_def Let_def by (auto simp: bind_elims)
  note e = draw_sampleD [OF d(1) assms(2)]
  show ?thesis
  proof (rule foldE_invariant [OF d(2)])
    show "in_books ids s1" using e assms(3) in_books_cong [of s1 s] by simp
    show "in_books ids s3" if "c \<in> set chosen" "seed_return g now us c s2 = Inr s3" "in_books ids s2" for c s2 s3
    proof -
      have "c \<in> set (completed_orders s)" using e that(1) by blast
      with assms(3) have "soi_product ` set (snd c) \<subseteq> ids" unfolding in_books_def by blast
      with that seed_return_books [OF _ assms(2), of now us "fst c" "snd c" s2 s3 ids] show ?thesis by simp
    qed
  qed
qed

lemma build_damage_books:
  assumes "build_damage g now ps managers m s = Inr s'" "lawful_rng g" "in_books (p_id ` set ps) s"
  shows "in_books (p_id ` set ps) s'"
proof -
  let ?candidates = "filter (\<lambda>p. 0 < shelf_of s (p_id p)) ps"
  from assms(1) obtain chosen s1 where d: "draw_sample g ?candidates (min m (length ?candidates)) s = Inr (chosen, s1)"
    "foldE (seed_damage g now managers) chosen s1 = Inr s'"
    unfolding build_damage_def Let_def by (auto simp: bind_elims)
  note e = draw_sampleD [OF d(1) assms(2)]
  show ?thesis
  proof (rule foldE_invariant [OF d(2)])
    show "in_books (p_id ` set ps) s1" using e assms(3) in_books_cong [of s1 s] by simp
    show "in_books (p_id ` set ps) s3"
      if "p \<in> set chosen" "seed_damage g now managers p s2 = Inr s3" "in_books (p_id ` set ps) s2" for p s2 s3
      using seed_damage_books [OF that(2) assms(2) that(3)] that(1) e by auto
  qed
qed

subsection \<open>The opening balances\<close>

lemma openings:
  assumes "foldE (opening_txn g now managers) qs s = Inr s'" "lawful_rng g" "\<forall>p \<in> set qs. 0 \<le> p_current_stock p"
  shows "shelf_of s' = shelf_of s \<and> completed_orders s' = completed_orders s
    \<and> (\<exists>ts. new_txns s' = new_txns s @ ts \<and> t_product ` set ts \<subseteq> p_id ` set qs
         \<and> (\<forall>i. posted ts i = total p_current_stock (filter (\<lambda>p. p_id p = i) qs)))"
  using assms(1,3)
proof (induction qs arbitrary: s)
  case (Cons p qs)
  then obtain e where e: "opening_txn g now managers p s = Inr e" "foldE (opening_txn g now managers) qs e = Inr s'"
    by (auto simp: bind_elims)
  from Cons.IH [OF e(2)] Cons.prems(2) obtain ts where ih: "shelf_of s' = shelf_of e" "completed_orders s' = completed_orders e"
    "new_txns s' = new_txns e @ ts" "t_product ` set ts \<subseteq> p_id ` set qs"
    "\<And>i. posted ts i = total p_current_stock (filter (\<lambda>p. p_id p = i) qs)" by auto
  show ?case
  proof (cases "0 < p_current_stock p")
    case True
    with opening_txn_Inr [OF e(1) assms(2)] obtain k v where "e = s\<lparr>draws := k, fresh := Suc (fresh s),
        new_txns := new_txns s @ [seed_txn (fresh s) now (p_id p) (p_current_stock p) PURCHASE None None (Some (u_id (v :: user)))]\<rparr>"
      by auto
    with ih show ?thesis
      by (intro conjI exI [of _ "seed_txn (fresh s) now (p_id p) (p_current_stock p) PURCHASE None None (Some (u_id v)) # ts"])
        (auto simp: posted_def)
  next
    case False
    with Cons.prems(2) have "p_current_stock p = 0" by auto
    with False opening_txn_Inr [OF e(1) assms(2)] ih show ?thesis by (intro conjI exI [of _ ts]) auto
  qed
qed simp

lemma stock_table_total:
  "distinct (map p_id ps) \<Longrightarrow> stock_table ps i = total p_current_stock (filter (\<lambda>p. p_id p = i) ps)"
proof (induction ps)
  case (Cons p ps)
  then have "filter (\<lambda>q. p_id q = p_id p) ps = []" by (auto simp: filter_empty_conv image_iff)
  with Cons show ?case by (auto simp: stock_table_def get_row_def)
qed (simp add: stock_table_def get_row_def)

lemma plan_orders_books:
  assumes "plan_orders g now m ps us s = Inr s'" "lawful_rng g" "distinct (map p_id ps)"
    and "\<forall>p \<in> set ps. 0 \<le> p_current_stock p" "shelf_of s = stock_table ps" "new_txns s = []" "completed_orders s = []"
  shows "in_books (p_id ` set ps) s'"
proof -
  from assms(1) obtain s1 s2 s3 where r: "foldE (opening_txn g now (filter (\<lambda>u. u_role u \<in> {ADMIN, MANAGER}) us)) ps s = Inr s1"
    "foldE (seed_order g now ps us) [0..<m] s1 = Inr s2" "build_returns g now us s2 = Inr s3"
    "build_damage g now ps (filter (\<lambda>u. u_role u \<in> {ADMIN, MANAGER}) us) (max 1 (m div 40)) s3 = Inr s'"
    unfolding plan_orders_def Let_def by (auto simp: bind_elims)
  from openings [OF r(1) assms(2,4)] assms(5-7) obtain ts where o: "shelf_of s1 = stock_table ps" "completed_orders s1 = []"
    "new_txns s1 = ts" "t_product ` set ts \<subseteq> p_id ` set ps"
    "\<And>i. posted ts i = total p_current_stock (filter (\<lambda>p. p_id p = i) ps)" by auto
  have "0 \<le> stock_table ps i" for i
    using assms(4) by (auto simp: stock_table_total [OF assms(3)] intro!: total_nonneg)
  with o have "in_books (p_id ` set ps) s1" by (auto simp: in_books_def fun_eq_iff stock_table_total [OF assms(3)])
  then have "in_books (p_id ` set ps) s2"
    by (rule foldE_invariant [OF r(2)]) (rule seed_order_books [OF _ assms(2)])
  from build_damage_books [OF r(4) assms(2) build_returns_books [OF r(3) assms(2) this]] show ?thesis .
qed

subsection \<open>The products\<close>

lemma seed_product_Inr:
  assumes "seed_product g now cats sups us k (ps, s) = Inr (ps', s')" "lawful_rng g"
  shows "\<exists>p j c sup. ps' = ps @ [p] \<and> s' = s\<lparr>draws := j, fresh := Suc (fresh s)\<rparr> \<and> p_id p = fresh s
    \<and> p_sku p = demo_sku_prefix @ pad 5 k \<and> 0 \<le> p_current_stock p
    \<and> c \<in> set cats \<and> p_category p = c_id c \<and> sup \<in> set sups \<and> p_supplier p = s_id sup"
proof -
  from assms(1) obtain cost s1 stock s2 threshold s3 c s4 sup s5 v s6 where d:
    "draw_int g 500 5000 s = Inr (cost, s1)"
    "draw_int g 50 500 (s1\<lparr>draws := Suc (draws s1), fresh := Suc (fresh s1)\<rparr>) = Inr (stock, s2)"
    "draw_int g 5 50 s2 = Inr (threshold, s3)" "draw_choice g cats s3 = Inr (c, s4)" "draw_choice g sups s4 = Inr (sup, s5)"
    "draw_choice g us s5 = Inr (v, s6)"
    and r: "ps' = ps @ [\<lparr>p_id = fresh s1, p_sku = demo_sku_prefix @ pad 5 k, p_name = ''Demo Product '' @ str_nat k,
                 p_description = None, p_cost_price = cost, p_selling_price = marked_up g (draws s1) cost, p_current_stock = stock,
                 p_low_stock_threshold = threshold, p_category = c_id c, p_supplier = s_id sup, p_is_active = True,
                 p_created_at = now, p_updated_at = now, p_created_by = Some (u_id v)\<rparr>]" "s' = s6"
    unfolding seed_product_def draw_key_def Let_def by (auto simp: bind_elims)
  note e = draw_intD [OF d(1) assms(2)] draw_intD [OF d(2) assms(2)] draw_intD [OF d(3) assms(2)]
    draw_choiceD [OF d(4) assms(2)] draw_choiceD [OF d(5) assms(2)] draw_choiceD [OF d(6) assms(2)]
  then show ?thesis
    by (intro exI [of _ "last ps'"] exI [of _ "draws s6"] exI [of _ c] exI [of _ sup]) (auto simp: r)
qed

text \<open>The products of a run have consecutive new keys, and nothing but the counters has changed.\<close>

definition seeded_row :: "category list \<Rightarrow> supplier list \<Rightarrow> uuid \<Rightarrow> uuid \<Rightarrow> product \<Rightarrow> bool" where
  "seeded_row cats sups lo hi p \<longleftrightarrow> lo \<le> p_id p \<and> p_id p < hi \<and> starts_with demo_sku_prefix (p_sku p)
     \<and> 0 \<le> p_current_stock p \<and> p_category p \<in> c_id ` set cats \<and> p_supplier p \<in> s_id ` set sups"

definition seeded_products :: "category list \<Rightarrow> supplier list \<Rightarrow> uuid \<Rightarrow> product list \<times> seeder \<Rightarrow> bool" where
  "seeded_products cats sups lo r \<longleftrightarrow> distinct (map p_id (fst r)) \<and> lo \<le> fresh (snd r)
     \<and> snd r = (start_seeder lo)\<lparr>draws := draws (snd r), fresh := fresh (snd r)\<rparr>
     \<and> (\<forall>p \<in> set (fst r). seeded_row cats sups lo (fresh (snd r)) p)"

lemma seeded_row_mono: "seeded_row cats sups lo hi p \<Longrightarrow> hi \<le> hi' \<Longrightarrow> seeded_row cats sups lo hi' p"
  by (simp add: seeded_row_def)

lemma seed_products_fold:
  assumes "foldE (seed_product g now cats sups us) ks ([], start_seeder lo) = Inr r" "lawful_rng g"
  shows "seeded_products cats sups lo r"
proof (rule foldE_invariant [OF assms(1)])
  show "seeded_products cats sups lo ([], start_seeder lo)"
    by (simp add: seeded_products_def start_seeder_def)
  show "seeded_products cats sups lo r2" if step: "seed_product g now cats sups us k r1 = Inr r2" and inv: "seeded_products cats sups lo r1" for k r1 r2
  proof -
    obtain ps s ps' s' where r: "r1 = (ps, s)" "r2 = (ps', s')" by (cases r1; cases r2)
    from seed_product_Inr [OF step [unfolded r] assms(2)] obtain p j c sup where
      p: "ps' = ps @ [p]" "s' = s\<lparr>draws := j, fresh := Suc (fresh s)\<rparr>" "p_id p = fresh s"
      "p_sku p = demo_sku_prefix @ pad 5 k" "0 \<le> p_current_stock p"
      "c \<in> set cats" "p_category p = c_id c" "sup \<in> set sups" "p_supplier p = s_id sup" by blast
    have old: "distinct (map p_id ps)" "lo \<le> fresh s" "s = (start_seeder lo)\<lparr>draws := draws s, fresh := fresh s\<rparr>"
      "\<forall>q \<in> set ps. seeded_row cats sups lo (fresh s) q"
      using inv by (simp_all add: r seeded_products_def)
    have "s' = (start_seeder lo)\<lparr>draws := draws s', fresh := fresh s'\<rparr>"
      unfolding p(2) by (subst old(3)) simp
    moreover have "seeded_row cats sups lo (Suc (fresh s)) p"
      using p old(2) by (simp add: seeded_row_def starts_with_def)
    moreover have "\<forall>q \<in> set ps. seeded_row cats sups lo (Suc (fresh s)) q" using old(4) by (auto intro: seeded_row_mono)
    moreover have "p_id p \<notin> p_id ` set ps" using old(4) p(3) by (auto simp: seeded_row_def)
    ultimately show ?thesis using old(1,2) p(1,2) by (auto simp: r seeded_products_def)
  qed
qed

subsection \<open>A whole run\<close>

lemma bulk_unique_Inr [bind_elims]:
  "bulk_unique name key t new = Inr t' \<longleftrightarrow> distinct (map key new) \<and> (\<forall>r \<in> set new. key r \<notin> key ` set t) \<and> t' = t @ new"
  by (auto simp: bulk_unique_def)

text \<open>The users of a run: found or created, all with an address the flush recognises.\<close>

definition seeded_users :: "password_rules \<Rightarrow> db \<Rightarrow> user list \<times> db \<Rightarrow> bool" where
  "seeded_users rules d r \<longleftrightarrow> (\<exists>new. snd r = d\<lparr>users := users d @ new, next_uuid := next_uuid d + length new\<rparr>
     \<and> set (fst r) \<subseteq> set (users d @ new)
     \<and> (\<forall>u \<in> set new. next_uuid d \<le> u_id u \<and> (\<exists>x. u_email u = normalize_email rules (x @ demo_email_domain)))
     \<and> (\<forall>u \<in> set (fst r). u \<in> set new \<or> (\<exists>x. u_email u = x @ demo_email_domain)))"

lemma seeded_users_new:
  assumes "seeded_users rules d (us, e)" "users e = users d @ new"
  shows "\<forall>u \<in> set new. next_uuid d \<le> u_id u \<and> (\<exists>x. u_email u = normalize_email rules (x @ demo_email_domain))"
    "\<forall>u \<in> set us. u \<in> set (users d @ new) \<and> (u \<in> set new \<or> (\<exists>x. u_email u = x @ demo_email_domain))"
proof -
  from assms(1) obtain new' where n: "e =
      d\<lparr>users := users d @ new', next_uuid := next_uuid d + length new'\<rparr>" and us: "set us \<subseteq> set (users d @ new')"
    and r: "\<forall>u \<in> set new'. next_uuid d \<le> u_id u \<and> (\<exists>x. u_email u = normalize_email rules (x @ demo_email_domain))"
      "\<forall>u \<in> set us. u \<in> set new' \<or> (\<exists>x. u_email u = x @ demo_email_domain)"
    unfolding seeded_users_def fst_conv snd_conv by blast
  with assms(2) have "new' = new" by simp
  with us r show "\<forall>u \<in> set new. next_uuid d \<le> u_id u \<and> (\<exists>x. u_email u = normalize_email rules (x @ demo_email_domain))"
    "\<forall>u \<in> set us. u \<in> set (users d @ new) \<and> (u \<in> set new \<or> (\<exists>x. u_email u = x @ demo_email_domain))" by blast+
qed

lemma seed_users_run:
  assumes "seed_users rules now d = Inr r"
  shows "seeded_users rules d r"
proof (rule foldE_invariant [OF assms [unfolded seed_users_def]])
  show "seeded_users rules d ([], d)" by (auto simp: seeded_users_def intro!: exI [of _ "[]"])
  show "seeded_users rules d r2" if step: "seed_user rules now spec r1 = Inr r2" and inv: "seeded_users rules d r1" for spec r1 r2
  proof -
    obtain found e local_part role where r: "r1 = (found, e)" "spec = (local_part, role)" by (cases r1; cases spec)
    let ?email = "local_part @ demo_email_domain"
    from inv obtain new where n: "e = d\<lparr>users := users d @ new, next_uuid := next_uuid d + length new\<rparr>"
      "set found \<subseteq> set (users d @ new)"
      "\<forall>u \<in> set new. next_uuid d \<le> u_id u \<and> (\<exists>x. u_email u = normalize_email rules (x @ demo_email_domain))"
      "\<forall>u \<in> set found. u \<in> set new \<or> (\<exists>x. u_email u = x @ demo_email_domain)"
      by (auto simp: seeded_users_def r)
    show ?thesis
    proof (cases "get_row u_email ?email (users e)")
      case (Some u)
      with step have r2: "r2 = (found @ [u], e)" by (simp add: seed_user_def r)
      have "u \<in> set (users d @ new)" "u_email u = ?email" using get_row_SomeD [OF Some] n(1) by simp_all
      with n r2 show ?thesis unfolding seeded_users_def by (intro exI [of _ new]) auto
    next
      case None
      with step obtain u e' where c: "create_user rules now ?email ''demopass123'' ((default_fields local_part)\<lparr>uf_role := role\<rparr>) e = Inr (u, e')"
        "r2 = (found @ [u], e')" by (auto simp: seed_user_def r bind_elims)
      from c(1) have u: "u_email u = normalize_email rules ?email" "u_id u = next_uuid e" "e' = draw_uuid (e\<lparr>users := users e @ [u]\<rparr>)"
        by (auto simp: create_user_Inr)
      with n c(2) show ?thesis
        unfolding seeded_users_def by (intro exI [of _ "new @ [u]"]) (auto simp: draw_uuid_def)
    qed
  qed
qed

lemma seed_run:
  assumes "seed rules g now num_products num_orders d = Inr d'" "lawful_rng g"
  obtains cats sups us new ps s0 s lo where
    "cats = map (\<lambda>k. demo_category now (next_uuid d + k) (Suc k)) [0..<num_categories]"
    "sups = map (\<lambda>k. demo_supplier now (next_uuid d + num_categories + k) (Suc k)) [0..<num_suppliers]"
    "\<forall>c \<in> set cats. c_name c \<notin> c_name ` set (categories d)"
    "lo = next_uuid d + num_categories + num_suppliers + length new"
    "seeded_users rules (d\<lparr>categories := categories d @ cats, suppliers := suppliers d @ sups,
        next_uuid := next_uuid d + num_categories + num_suppliers\<rparr>)
      (us, d\<lparr>categories := categories d @ cats, suppliers := suppliers d @ sups, users := users d @ new, next_uuid := lo\<rparr>)"
    "seeded_products cats sups lo (ps, s0)" "distinct (map p_sku ps)"
    "plan_orders g now num_orders ps us (s0\<lparr>shelf_of := stock_table ps\<rparr>) = Inr s"
    "d' = d\<lparr>categories := categories d @ cats, suppliers := suppliers d @ sups, users := users d @ new,
       purchase_orders := purchase_orders d @ new_pos s, po_items := po_items d @ new_po_items s,
       sales_orders := sales_orders d @ new_sos s, so_items := so_items d @ new_so_items s,
       return_requests := return_requests d @ new_returns s, transactions := transactions d @ new_txns s,
       products := update_stocks ps (shelf_of s) (products d @ ps), next_uuid := fresh s\<rparr>"
proof -
  let ?cats = "map (\<lambda>k. demo_category now (next_uuid d + k) (Suc k)) [0..<num_categories]"
  let ?d1 = "d\<lparr>categories := categories d @ ?cats, next_uuid := next_uuid d + num_categories\<rparr>"
  let ?sups = "map (\<lambda>k. demo_supplier now (next_uuid d + num_categories + k) (Suc k)) [0..<num_suppliers]"
  let ?d2 = "d\<lparr>categories := categories d @ ?cats, suppliers := suppliers d @ ?sups,
        next_uuid := next_uuid d + num_categories + num_suppliers\<rparr>"
  from assms(1) obtain us d3 ps s0 d4 where
    names: "\<forall>c \<in> set ?cats. c_name c \<notin> c_name ` set (categories d)"
    and u: "seed_users rules now ?d2 = Inr (us, d3)"
    and p: "seed_products g now num_products ?cats ?sups us d3 = Inr (ps, s0, d4)"
    and o: "seed_orders g now num_orders ps us s0 d4 = Inr d'"
    unfolding seed_def seed_categories_def seed_suppliers_def Let_def by (auto simp: bind_elims)
  from seed_users_run [OF u] obtain new where
    new: "d3 = ?d2\<lparr>users := users d @ new, next_uuid := next_uuid d + num_categories + num_suppliers + length new\<rparr>"
    by (auto simp: seeded_users_def)
  from p have pf: "foldE (seed_product g now ?cats ?sups us) [1..<Suc num_products] ([], start_seeder (next_uuid d3)) = Inr (ps, s0)"
    "distinct (map p_sku ps)" "d4 = d3\<lparr>products := products d3 @ ps\<rparr>"
    unfolding seed_products_def by (auto simp: bind_elims)
  from o obtain s where s: "plan_orders g now num_orders ps us (s0\<lparr>shelf_of := stock_table ps\<rparr>) = Inr s"
    "d' = d4\<lparr>purchase_orders := purchase_orders d4 @ new_pos s, po_items := po_items d4 @ new_po_items s,
            sales_orders := sales_orders d4 @ new_sos s, so_items := so_items d4 @ new_so_items s,
            return_requests := return_requests d4 @ new_returns s, transactions := transactions d4 @ new_txns s,
            products := update_stocks ps (shelf_of s) (products d4), next_uuid := fresh s\<rparr>"
    unfolding seed_orders_def by (auto simp: bind_elims)
  show thesis
  proof (rule that [OF refl refl names refl _ _ pf(2) s(1)])
    show "seeded_users rules ?d2 (us, d\<lparr>categories := categories d @ ?cats,
        suppliers := suppliers d @ ?sups, users := users d @ new, next_uuid := next_uuid d + num_categories + num_suppliers + length new\<rparr>)"
      using seed_users_run [OF u] new by simp
    show "seeded_products ?cats ?sups (next_uuid d + num_categories + num_suppliers + length new) (ps, s0)"
      using seed_products_fold [OF pf(1) assms(2)] new by simp
  qed (simp add: s(2) pf(3) new)
qed

lemma seeded_productsD:
  assumes "seeded_products cats sups lo (ps, s)"
  shows "distinct (map p_id ps)" "\<forall>p \<in> set ps. 0 \<le> p_current_stock p" "\<forall>p \<in> set ps. lo \<le> p_id p"
    "\<exists>j n. s = (start_seeder lo)\<lparr>draws := j, fresh := n\<rparr>" "lo \<le> fresh s"
    "\<forall>p \<in> set ps. seeded_row cats sups lo (fresh s) p"
  using assms unfolding seeded_products_def seeded_row_def fst_conv snd_conv by blast+

subsection \<open>The seeded shop's books\<close>

text \<open>Every primary and foreign key of a product that is in use has been drawn.\<close>

definition product_keys_drawn :: "db \<Rightarrow> bool" where
  "product_keys_drawn d \<longleftrightarrow> (\<forall>p \<in> set (products d). p_id p < next_uuid d)
     \<and> (\<forall>t \<in> set (transactions d). t_product t < next_uuid d)"

lemma get_row_update_stocks:
  "get_row p_id i (update_stocks ps level t)
     = map_option (\<lambda>r. if i \<in> p_id ` set ps then r\<lparr>p_current_stock := level i\<rparr> else r) (get_row p_id i t)"
proof (induction t)
  case (Cons r t)
  then show ?case by (cases "p_id r = i") (auto simp: get_row_def update_stocks_def)
qed (simp add: get_row_def update_stocks_def)

lemma map_update_stocks [simp]: "map p_id (update_stocks ps level t) = map p_id t"
  by (simp add: update_stocks_def o_def cong: if_cong)

lemma seed_levels:
  assumes "seed rules g now num_products num_orders d = Inr d'" "lawful_rng g" "product_keys_drawn d"
  shows "stock_of d' i = (case stock_of d i of Some n \<Rightarrow> Some n | None \<Rightarrow>
      if i \<in> p_id ` set (products d') then Some (ledger_total d' i) else None)"
    and "stock_of d i \<noteq> None \<Longrightarrow> ledger_total d' i = ledger_total d i"
    and "stock_of d i = None \<Longrightarrow> stock_of d' i = Some n \<Longrightarrow> 0 \<le> n"
proof -
  obtain cats sups us new ps s0 s lo where r:
    "lo = next_uuid d + num_categories + num_suppliers + length new" "seeded_products cats sups lo (ps, s0)"
    "plan_orders g now num_orders ps us (s0\<lparr>shelf_of := stock_table ps\<rparr>) = Inr s"
    "d' = d\<lparr>categories := categories d @ cats, suppliers := suppliers d @ sups, users := users d @ new,
       purchase_orders := purchase_orders d @ new_pos s, po_items := po_items d @ new_po_items s,
       sales_orders := sales_orders d @ new_sos s, so_items := so_items d @ new_so_items s,
       return_requests := return_requests d @ new_returns s, transactions := transactions d @ new_txns s,
       products := update_stocks ps (shelf_of s) (products d @ ps), next_uuid := fresh s\<rparr>"
    by (rule seed_run [OF assms(1,2)])
  note ps = seeded_productsD [OF r(2)]
  have "new_txns s0 = [] \<and> completed_orders s0 = []" using ps(4) by (auto simp: start_seeder_def)
  then have b: "in_books (p_id ` set ps) s"
    using plan_orders_books [OF r(3) assms(2) ps(1,2)] by simp
  have fresh_ids: "j \<notin> p_id ` set ps" if "j < next_uuid d" for j using that ps(3) r(1) by fastforce
  have old: "j \<notin> p_id ` set ps" if "stock_of d j \<noteq> None" for j
  proof -
    from that have "j \<in> p_id ` set (products d)" using stock_of_iff [of d j] by auto
    with assms(3) have "j < next_uuid d" by (auto simp: product_keys_drawn_def)
    then show ?thesis by (rule fresh_ids)
  qed
  have total: "ledger_total d' j = ledger_total d j + posted (new_txns s) j" for j
    by (simp add: r(4) ledger_total_def posted_def)
  have new: "ledger_total d j = 0" if "j \<in> p_id ` set ps" for j
  proof -
    have "t_product t \<noteq> j" if "t \<in> set (transactions d)" for t
      using that \<open>j \<in> p_id ` set ps\<close> assms(3) fresh_ids [of "t_product t"] by (auto simp: product_keys_drawn_def)
    then show ?thesis by (simp add: ledger_total_def)
  qed
  have none: "posted (new_txns s) j = 0" if "j \<notin> p_id ` set ps" for j
  proof -
    have "t_product t \<noteq> j" if "t \<in> set (new_txns s)" for t
      using that \<open>j \<notin> p_id ` set ps\<close> b unfolding in_books_def by blast
    then show ?thesis by (simp add: posted_def)
  qed
  show "stock_of d i \<noteq> None \<Longrightarrow> ledger_total d' i = ledger_total d i" using old [of i] total [of i] none [of i] by simp
  have row: "get_row p_id i (products d @ ps) = (case get_row p_id i (products d) of Some p \<Rightarrow> Some p | None \<Rightarrow> get_row p_id i ps)"
    by (simp add: get_row_append split: option.split)
  have st: "stock_of d' i = (case stock_of d i of Some n \<Rightarrow> Some n | None \<Rightarrow>
      if i \<in> p_id ` set ps then Some (shelf_of s i) else None)"
  proof (cases "get_row p_id i (products d)")
    case None
    then show ?thesis
      using get_row_None [of p_id i ps] by (cases "get_row p_id i ps")
        (auto simp: stock_of_def r(4) get_row_update_stocks row dest: get_row_SomeD)
  next
    case (Some p)
    with old [of i] show ?thesis by (simp add: stock_of_def r(4) get_row_update_stocks row)
  qed
  have keys: "p_id ` set (products d') = p_id ` set (products d) \<union> p_id ` set ps"
  proof -
    have "set (map p_id (products d')) = p_id ` set (products d) \<union> p_id ` set ps" by (simp add: r(4) image_Un)
    then show ?thesis by simp
  qed
  have "shelf_of s i = ledger_total d' i" if "i \<in> p_id ` set ps"
    using that b total [of i] new by (simp add: in_books_def)
  moreover have "stock_of d i = None \<Longrightarrow> i \<in> p_id ` set (products d') \<longleftrightarrow> i \<in> p_id ` set ps"
    using keys stock_of_iff [of d i] by auto
  ultimately show "stock_of d' i = (case stock_of d i of Some n \<Rightarrow> Some n | None \<Rightarrow>
      if i \<in> p_id ` set (products d') then Some (ledger_total d' i) else None)"
    using st by (auto split: option.split)
  show "stock_of d i = None \<Longrightarrow> stock_of d' i = Some n \<Longrightarrow> 0 \<le> n"
    using st in_books_nonneg [OF b, of i] by (auto split: if_splits)
qed

text \<open>The seeded shop's books balance: for every behaviour of the random source the standard library
  allows, and however many products and orders are asked for, a run that succeeds on a shop
  whose stock is what its ledger says and not negative leaves such a shop.\<close>
theorem seeding_balances_the_books:
  assumes "seed rules g now num_products num_orders d = Inr d'" "lawful_rng g"
    and "product_keys_drawn d" "balanced d" "stock_nonneg d"
  shows "balanced d' \<and> stock_nonneg d'"
proof -
  note lv = seed_levels [OF assms(1-3)]
  have "n = ledger_total d' i \<and> 0 \<le> n" if "stock_of d' i = Some n" for i n
  proof (cases "stock_of d i")
    case None
    with that lv(1) [of i] lv(3) [OF None that] show ?thesis by (auto split: if_splits)
  next
    case (Some m)
    with that lv(1,2) [of i] assms(4,5) show ?thesis by (simp add: balanced_iff stock_nonneg_iff)
  qed
  then show ?thesis by (simp add: balanced_iff stock_nonneg_iff)
qed

subsection \<open>What the flush recognises\<close>

text \<open>Every reference of the plan's rows is to rows of the run: the creators of its orders, the
  orders of its lines, the products of its returns.\<close>

definition own_rows :: "uuid \<Rightarrow> uuid set \<Rightarrow> uuid set \<Rightarrow> seeder \<Rightarrow> bool" where
  "own_rows lo us ids s \<longleftrightarrow> lo \<le> fresh s
     \<and> (\<forall>po \<in> set (new_pos s). refers_to us (po_created_by po) \<and> lo \<le> po_id po)
     \<and> (\<forall>x \<in> set (new_po_items s). poi_order x \<in> po_id ` set (new_pos s))
     \<and> (\<forall>so \<in> set (new_sos s). refers_to us (so_created_by so) \<and> lo \<le> so_id so)
     \<and> (\<forall>x \<in> set (new_so_items s). soi_order x \<in> so_id ` set (new_sos s))
     \<and> (\<forall>r \<in> set (new_returns s). r_product r \<in> ids)
     \<and> (\<forall>c \<in> set (completed_orders s). \<forall>x \<in> set (snd c). soi_product x \<in> ids)"

lemma own_rows_cong:
  assumes "own_rows lo us ids s" "new_pos s' = new_pos s" "new_po_items s' = new_po_items s" "new_sos s' = new_sos s"
    "new_so_items s' = new_so_items s" "new_returns s' = new_returns s" "completed_orders s' = completed_orders s" "fresh s \<le> fresh s'"
  shows "own_rows lo us ids s'"
  using assms by (simp add: own_rows_def)

lemma seed_po_items_frame:
  assumes "foldE (seed_po_item g now received po) chosen s = Inr s'" "lawful_rng g"
  shows "new_pos s' = new_pos s \<and> new_sos s' = new_sos s \<and> new_so_items s' = new_so_items s \<and> new_returns s' = new_returns s
    \<and> completed_orders s' = completed_orders s \<and> fresh s \<le> fresh s'
    \<and> (\<forall>x \<in> set (new_po_items s'). poi_order x \<in> poi_order ` set (new_po_items s) \<union> {po_id po})"
    (is "?P s'")
proof (rule foldE_invariant [OF assms(1), of ?P])
  show "?P s2" if "seed_po_item g now received po p s1 = Inr s2" "?P s1" for p s1 s2
    using seed_po_item_Inr [OF that(1) assms(2)] that(2) by (auto split: if_splits)
qed auto

lemma seed_so_items_frame:
  assumes "foldE (seed_so_item g now completed so) chosen ([], s) = Inr (items, s')" "lawful_rng g"
  shows "new_pos s' = new_pos s \<and> new_po_items s' = new_po_items s \<and> new_sos s' = new_sos s \<and> new_so_items s' = new_so_items s
    \<and> new_returns s' = new_returns s \<and> completed_orders s' = completed_orders s \<and> fresh s \<le> fresh s'
    \<and> (\<forall>x \<in> set items. soi_order x = so_id so \<and> soi_product x \<in> p_id ` set chosen)"
proof -
  let ?P = "\<lambda>(items, s'). new_pos s' = new_pos s \<and> new_po_items s' = new_po_items s \<and> new_sos s' = new_sos s
    \<and> new_so_items s' = new_so_items s \<and> new_returns s' = new_returns s \<and> completed_orders s' = completed_orders s
    \<and> fresh s \<le> fresh s' \<and> (\<forall>x \<in> set items. soi_order x = so_id so \<and> soi_product x \<in> p_id ` set chosen)"
  have "?P (items, s')"
  proof (rule foldE_invariant [OF assms(1), of ?P])
    show "?P r2" if "p \<in> set chosen" "seed_so_item g now completed so p r1 = Inr r2" "?P r1" for p r1 r2
    proof -
      obtain it1 s1 it2 s2 where r: "r1 = (it1, s1)" "r2 = (it2, s2)" by (cases r1; cases r2)
      from seed_so_item_Inr [OF that(2) [unfolded r] assms(2)] that(1,3) show ?thesis
        by (auto simp: r split: if_splits)
    qed
  qed simp
  then show ?thesis by simp
qed

lemma seed_order_own:
  assumes "seed_order g now ps us n s = Inr s'" "lawful_rng g" "own_rows lo (u_id ` set us) (p_id ` set ps) s"
  shows "own_rows lo (u_id ` set us) (p_id ` set ps) s'"
proof -
  let ?I = "own_rows lo (u_id ` set us) (p_id ` set ps)"
  from assms(1) obtain purchase s0 where d: "draw_chance g 50 s = Inr (purchase, s0)"
    "(if purchase then build_purchase_order g now ps (filter (\<lambda>u. u_role u \<in> {ADMIN, MANAGER}) us) s0
       else build_sales_order g now ps us n s0) = Inr s'"
    unfolding seed_order_def by (auto simp: bind_elims)
  have i0: "?I s0" using draw_chanceD [OF d(1)] by (intro own_rows_cong [OF assms(3)]) simp_all
  show ?thesis
  proof (cases purchase)
    case True
    with d(2) have b: "build_purchase_order g now ps (filter (\<lambda>u. u_role u \<in> {ADMIN, MANAGER}) us) s0 = Inr s'" by simp
    from build_purchase_order_Inr [OF b assms(2)] obtain k received chosen v po s1 where
      c: "v \<in> set us" "po = seed_po (fresh s0) now received (p_supplier (hd chosen)) v"
      "foldE (seed_po_item g now received po) chosen (s0\<lparr>draws := k, fresh := Suc (fresh s0)\<rparr>) = Inr s1"
      "s' = s1\<lparr>new_pos := new_pos s1 @ [po]\<rparr>" by auto
    have "refers_to (u_id ` set us) (po_created_by po)" "po_id po = fresh s0"
      using c(1,2) by (auto simp: seed_po_def refers_to_def)
    with i0 seed_po_items_frame [OF c(3) assms(2)] c(4) show ?thesis by (auto simp: own_rows_def)
  next
    case False
    with d(2) have b: "build_sales_order g now ps us n s0 = Inr s'" by simp
    then show ?thesis
      using assms(2)
    proof (cases rule: build_sales_order_Inr)
      case (skipped k)
      then show ?thesis by (intro own_rows_cong [OF i0]) simp_all
    next
      case (built k completed chosen v so s1 items)
      have so: "refers_to (u_id ` set us) (so_created_by so)" "so_id so = fresh s0"
        using built(4,6) by (auto simp: seed_so_def refers_to_def)
      have it: "\<forall>x \<in> set items. soi_order x = so_id so \<and> soi_product x \<in> p_id ` set ps"
        using seed_so_items_frame [OF built(7) assms(2)] image_mono [OF built(1), of p_id] by blast
      from so it i0 seed_so_items_frame [OF built(7) assms(2)] built(8) show ?thesis
        by (cases completed) (auto simp: own_rows_def)
    qed
  qed
qed

lemma plan_orders_own:
  assumes "plan_orders g now m ps us s = Inr s'" "lawful_rng g" "own_rows lo (u_id ` set us) (p_id ` set ps) s"
  shows "own_rows lo (u_id ` set us) (p_id ` set ps) s'"
proof -
  let ?I = "own_rows lo (u_id ` set us) (p_id ` set ps)"
  from assms(1) obtain s1 s2 s3 where r: "foldE (opening_txn g now (filter (\<lambda>u. u_role u \<in> {ADMIN, MANAGER}) us)) ps s = Inr s1"
    "foldE (seed_order g now ps us) [0..<m] s1 = Inr s2" "build_returns g now us s2 = Inr s3"
    "build_damage g now ps (filter (\<lambda>u. u_role u \<in> {ADMIN, MANAGER}) us) (max 1 (m div 40)) s3 = Inr s'"
    unfolding plan_orders_def Let_def by (auto simp: bind_elims)
  have "?I s1"
  proof (rule foldE_invariant [OF r(1), of ?I])
    show "?I s" by (rule assms(3))
    show "?I t'" if "opening_txn g now (filter (\<lambda>u. u_role u \<in> {ADMIN, MANAGER}) us) p t = Inr t'" "?I t" for p t t'
      using opening_txn_Inr [OF that(1) assms(2)] by (intro own_rows_cong [OF that(2)]) (auto split: if_splits)
  qed
  then have i2: "?I s2" by (rule foldE_invariant [OF r(2)]) (rule seed_order_own [OF _ assms(2)])
  have i3: "?I s3"
  proof (cases "completed_orders s2 = []")
    case True
    with r(3) i2 show ?thesis by (simp add: build_returns_def Let_def)
  next
    case False
    with r(3) obtain k chosen t where d: "draw_sample g (completed_orders s2) k s2 = Inr (chosen, t)"
      "foldE (seed_return g now us) chosen t = Inr s3"
      unfolding build_returns_def Let_def by (auto simp: bind_elims)
    note e = draw_sampleD [OF d(1) assms(2)]
    show ?thesis
    proof (rule foldE_invariant [OF d(2)])
      show "?I t" using e by (intro own_rows_cong [OF i2]) simp_all
      show "?I t2" if "c \<in> set chosen" "seed_return g now us c t1 = Inr t2" "?I t1" for c t1 t2
      proof -
        have "\<forall>x \<in> set (snd c). soi_product x \<in> p_id ` set ps" using e that(1) i2 unfolding own_rows_def by blast
        with that(3) seed_return_Inr [of g now us "fst c" "snd c" t1 t2] that(2) assms(2) show ?thesis
          by (auto simp: own_rows_def)
      qed
    qed
  qed
  from r(4) obtain chosen t where d: "draw_sample g (filter (\<lambda>p. 0 < shelf_of s3 (p_id p)) ps)
      (min (max 1 (m div 40)) (length (filter (\<lambda>p. 0 < shelf_of s3 (p_id p)) ps))) s3 = Inr (chosen, t)"
    "foldE (seed_damage g now (filter (\<lambda>u. u_role u \<in> {ADMIN, MANAGER}) us)) chosen t = Inr s'"
    unfolding build_damage_def Let_def by (auto simp: bind_elims)
  show ?thesis
  proof (rule foldE_invariant [OF d(2)])
    show "?I t" using draw_sampleD [OF d(1) assms(2)] by (intro own_rows_cong [OF i3]) simp_all
    show "?I t2" if "seed_damage g now (filter (\<lambda>u. u_role u \<in> {ADMIN, MANAGER}) us) p t1 = Inr t2" "?I t1" for p t1 t2
      using seed_damage_Inr [OF that(1) assms(2)] by (intro own_rows_cong [OF that(2)]) auto
  qed
qed

subsection \<open>Seeding and flushing\<close>

definition drawn :: "uuid \<Rightarrow> uuid option \<Rightarrow> bool" where
  "drawn n v \<longleftrightarrow> (case v of None \<Rightarrow> True | Some i \<Rightarrow> i < n)"

text \<open>Every key and every reference in the tables has been drawn.\<close>

definition keys_drawn :: "db \<Rightarrow> bool" where
  "keys_drawn d \<longleftrightarrow> (let n = next_uuid d in
     (\<forall>u \<in> set (users d). u_id u < n \<and> drawn n (u_created_by u))
   \<and> (\<forall>c \<in> set (categories d). c_id c < n \<and> drawn n (c_created_by c))
   \<and> (\<forall>x \<in> set (suppliers d). s_id x < n \<and> drawn n (s_created_by x))
   \<and> (\<forall>p \<in> set (products d). p_id p < n \<and> p_category p < n \<and> p_supplier p < n \<and> drawn n (p_created_by p))
   \<and> (\<forall>po \<in> set (purchase_orders d). po_id po < n \<and> po_supplier po < n \<and> drawn n (po_created_by po))
   \<and> (\<forall>x \<in> set (po_items d). poi_order x < n \<and> poi_product x < n)
   \<and> (\<forall>so \<in> set (sales_orders d). so_id so < n \<and> drawn n (so_created_by so))
   \<and> (\<forall>x \<in> set (so_items d). soi_order x < n \<and> soi_product x < n)
   \<and> (\<forall>t \<in> set (transactions d). t_product t < n \<and> drawn n (t_created_by t))
   \<and> (\<forall>r \<in> set (return_requests d). r_order r < n \<and> r_product r < n \<and> drawn n (r_created_by r) \<and> drawn n (r_approved_by r))
   \<and> (\<forall>x \<in> set (notifications d). n_user x < n))"

text \<open>No row carries one of the naming conventions of the demo data.\<close>

definition no_demo_rows :: "db \<Rightarrow> bool" where
  "no_demo_rows d \<longleftrightarrow> (\<forall>u \<in> set (users d). \<not> ends_with demo_email_domain (u_email u))
     \<and> (\<forall>c \<in> set (categories d). \<not> starts_with demo_category_prefix (c_name c))
     \<and> (\<forall>x \<in> set (suppliers d). \<not> starts_with demo_supplier_prefix (s_name x))
     \<and> (\<forall>p \<in> set (products d). \<not> starts_with demo_sku_prefix (p_sku p))"

lemma delete_new_rows:
  assumes "\<forall>r \<in> set t. \<not> P r" "\<forall>r \<in> set new. P r"
  shows "delete_rows P (t @ new) = t"
  using assms by (simp add: delete_rows_def)

lemma not_refers_to: "drawn n v \<Longrightarrow> \<forall>i \<in> ids. n \<le> i \<Longrightarrow> \<not> refers_to ids v"
  by (auto simp: refers_to_def drawn_def split: option.splits)

lemma ends_with_append [simp]: "ends_with e (x @ e)"
  by (simp add: ends_with_def)

lemma starts_with_append [simp]: "starts_with e (e @ x)"
  by (simp add: starts_with_def)

text \<open>The rows of a run as the flush sees them.\<close>

definition demo_rows :: "uuid \<Rightarrow> user list \<Rightarrow> category list \<Rightarrow> supplier list \<Rightarrow> product list \<Rightarrow> seeder \<Rightarrow> bool" where
  "demo_rows n us cats sups ps s \<longleftrightarrow>
     (\<forall>u \<in> set us. n \<le> u_id u \<and> ends_with demo_email_domain (u_email u))
   \<and> (\<forall>c \<in> set cats. n \<le> c_id c \<and> starts_with demo_category_prefix (c_name c))
   \<and> (\<forall>x \<in> set sups. n \<le> s_id x \<and> starts_with demo_supplier_prefix (s_name x))
   \<and> (\<forall>p \<in> set ps. n \<le> p_id p \<and> starts_with demo_sku_prefix (p_sku p))
   \<and> (\<forall>po \<in> set (new_pos s). n \<le> po_id po \<and> refers_to (u_id ` set us) (po_created_by po))
   \<and> (\<forall>x \<in> set (new_po_items s). poi_order x \<in> po_id ` set (new_pos s))
   \<and> (\<forall>so \<in> set (new_sos s). n \<le> so_id so \<and> refers_to (u_id ` set us) (so_created_by so))
   \<and> (\<forall>x \<in> set (new_so_items s). soi_order x \<in> so_id ` set (new_sos s))
   \<and> (\<forall>t \<in> set (new_txns s). t_product t \<in> p_id ` set ps)
   \<and> (\<forall>r \<in> set (new_returns s). r_product r \<in> p_id ` set ps)"

definition with_demo_rows :: "db \<Rightarrow> user list \<Rightarrow> category list \<Rightarrow> supplier list \<Rightarrow> product list \<Rightarrow> seeder \<Rightarrow> db" where
  "with_demo_rows d us cats sups ps s = d\<lparr>categories := categories d @ cats, suppliers := suppliers d @ sups, users := users d @ us,
       purchase_orders := purchase_orders d @ new_pos s, po_items := po_items d @ new_po_items s,
       sales_orders := sales_orders d @ new_sos s, so_items := so_items d @ new_so_items s,
       return_requests := return_requests d @ new_returns s, transactions := transactions d @ new_txns s,
       products := products d @ ps, next_uuid := fresh s\<rparr>"

lemma demo_keys:
  assumes "no_demo_rows d" "demo_rows n us cats sups ps s"
  shows "products e = products d @ ps \<Longrightarrow> demo_products e = p_id ` set ps"
    and "users e = users d @ us \<Longrightarrow> demo_users e = u_id ` set us"
    and "set (map s_id (filter (\<lambda>x. starts_with demo_supplier_prefix (s_name x)) (suppliers d @ sups))) = s_id ` set sups"
    and "set (map c_id (filter (\<lambda>x. starts_with demo_category_prefix (c_name x)) (categories d @ cats))) = c_id ` set cats"
  using assms by (auto simp: demo_products_def demo_users_def no_demo_rows_def demo_rows_def)

lemma flush_demo_rows:
  assumes k: "keys_drawn d" and none: "no_demo_rows d" and rows: "demo_rows (next_uuid d) us cats sups ps s"
  shows "flush (with_demo_rows d us cats sups ps s) = (None, d\<lparr>next_uuid := fresh s\<rparr>)"
proof -
  note key = demo_keys [OF none rows]
  let ?d0 = "with_demo_rows d us cats sups ps s"
  define d1 where "d1 = ?d0\<lparr>return_requests := return_requests d\<rparr>"
  define d2 where "d2 = d1\<lparr>transactions := transactions d\<rparr>"
  define d3 where "d3 = d2\<lparr>sales_orders := sales_orders d, so_items := so_items d\<rparr>"
  define d4 where "d4 = d3\<lparr>purchase_orders := purchase_orders d, po_items := po_items d\<rparr>"
  define d5 where "d5 = d4\<lparr>products := products d\<rparr>"
  define d6 where "d6 = d5\<lparr>suppliers := suppliers d\<rparr>"
  define d7 where "d7 = d6\<lparr>categories := categories d\<rparr>"
  note ds = with_demo_rows_def d1_def d2_def d3_def d4_def d5_def d6_def d7_def
  note kd = k [unfolded keys_drawn_def Let_def] and rd = rows [unfolded demo_rows_def]
  have "\<forall>i \<in> u_id ` set us. next_uuid d \<le> i" using rd by blast
  then have nr: "drawn (next_uuid d) v \<Longrightarrow> \<not> refers_to (u_id ` set us) v" for v by (rule not_refers_to [rotated])
  have "delete_returns ?d0 = Inr d1"
  proof -
    have "delete_rows (\<lambda>r. r_product r \<in> p_id ` set ps) (return_requests d @ new_returns s) = return_requests d"
      by (rule delete_new_rows) (use kd rd in fastforce)+
    then show ?thesis using key(1) [of ?d0] by (simp add: delete_returns_def ds)
  qed
  moreover have "delete_transactions d1 = Inr d2"
  proof -
    have "delete_rows (\<lambda>t. t_product t \<in> p_id ` set ps) (transactions d @ new_txns s) = transactions d"
      by (rule delete_new_rows) (use kd rd in fastforce)+
    then show ?thesis using key(1) [of d1] by (simp add: delete_transactions_def ds)
  qed
  moreover have "delete_sales_orders d2 = Inr d3"
  proof -
    have ids: "set (map so_id (filter (\<lambda>so. refers_to (u_id ` set us) (so_created_by so)) (sales_orders d @ new_sos s))) = so_id ` set (new_sos s)"
    proof -
      have "\<forall>so \<in> set (sales_orders d). \<not> refers_to (u_id ` set us) (so_created_by so)"
        using kd nr by blast
      then show ?thesis using rd by auto
    qed
    have "delete_rows (\<lambda>so. so_id so \<in> so_id ` set (new_sos s)) (sales_orders d @ new_sos s) = sales_orders d"
      "delete_rows (\<lambda>x. soi_order x \<in> so_id ` set (new_sos s)) (so_items d @ new_so_items s) = so_items d"
      by (rule delete_new_rows; use kd rd in fastforce)+
    moreover have "\<forall>r \<in> set (return_requests d). r_order r \<notin> so_id ` set (new_sos s)" using kd rd by fastforce
    ultimately show ?thesis using key(2) [of d2] ids by (simp add: delete_sales_orders_def ds Let_def)
  qed
  moreover have "delete_purchase_orders d3 = Inr d4"
  proof -
    have ids: "set (map po_id (filter (\<lambda>po. refers_to (u_id ` set us) (po_created_by po)) (purchase_orders d @ new_pos s))) = po_id ` set (new_pos s)"
    proof -
      have "\<forall>po \<in> set (purchase_orders d). \<not> refers_to (u_id ` set us) (po_created_by po)"
        using kd nr by blast
      then show ?thesis using rd by auto
    qed
    have "delete_rows (\<lambda>po. po_id po \<in> po_id ` set (new_pos s)) (purchase_orders d @ new_pos s) = purchase_orders d"
      "delete_rows (\<lambda>x. poi_order x \<in> po_id ` set (new_pos s)) (po_items d @ new_po_items s) = po_items d"
      by (rule delete_new_rows; use kd rd in fastforce)+
    then show ?thesis using key(2) [of d3] ids by (simp add: delete_purchase_orders_def ds Let_def)
  qed
  moreover have "delete_products d4 = Inr d5"
  proof -
    have "delete_rows (\<lambda>p. p_id p \<in> p_id ` set ps) (products d @ ps) = products d"
      by (rule delete_new_rows) (use kd rd in fastforce)+
    moreover have "(\<forall>x \<in> set (po_items d). poi_product x \<notin> p_id ` set ps) \<and> (\<forall>x \<in> set (so_items d). soi_product x \<notin> p_id ` set ps)
        \<and> (\<forall>t \<in> set (transactions d). t_product t \<notin> p_id ` set ps) \<and> (\<forall>r \<in> set (return_requests d). r_product r \<notin> p_id ` set ps)"
      by (intro conjI) (use kd rd in fastforce)+
    ultimately show ?thesis using key(1) [of d4] by (simp add: delete_products_def ds Let_def)
  qed
  moreover have "delete_suppliers d5 = Inr d6"
  proof -
    have "delete_rows (\<lambda>x. s_id x \<in> s_id ` set sups) (suppliers d @ sups) = suppliers d"
      by (rule delete_new_rows) (use kd rd in fastforce)+
    moreover have "(\<forall>p \<in> set (products d). p_supplier p \<notin> s_id ` set sups) \<and> (\<forall>po \<in> set (purchase_orders d). po_supplier po \<notin> s_id ` set sups)"
      by (intro conjI) (use kd rd in fastforce)+
    ultimately show ?thesis using key(3) by (simp add: delete_suppliers_def ds Let_def)
  qed
  moreover have "delete_categories d6 = Inr d7"
  proof -
    have "delete_rows (\<lambda>x. c_id x \<in> c_id ` set cats) (categories d @ cats) = categories d"
      by (rule delete_new_rows) (use kd rd in fastforce)+
    moreover have "\<forall>p \<in> set (products d). p_category p \<notin> c_id ` set cats" using kd rd by fastforce
    ultimately show ?thesis using key(4) by (simp add: delete_categories_def ds Let_def)
  qed
  moreover have "delete_users d7 = Inr (d\<lparr>next_uuid := fresh s\<rparr>)"
  proof -
    have un: "drawn (next_uuid d) v \<Longrightarrow> unref (u_id ` set us) v = v" for v using nr by (simp add: unref_def)
    have "delete_rows (\<lambda>u. u_id u \<in> u_id ` set us) (users d @ us) = users d"
      "delete_rows (\<lambda>x. n_user x \<in> u_id ` set us) (notifications d @ []) = notifications d"
      by (rule delete_new_rows; use kd rd in fastforce)+
    moreover have "map (\<lambda>u. u\<lparr>u_created_by := unref (u_id ` set us) (u_created_by u)\<rparr>) (users d) = users d"
      "map (\<lambda>c. c\<lparr>c_created_by := unref (u_id ` set us) (c_created_by c)\<rparr>) (categories d) = categories d"
      "map (\<lambda>x. x\<lparr>s_created_by := unref (u_id ` set us) (s_created_by x)\<rparr>) (suppliers d) = suppliers d"
      "map (\<lambda>p. p\<lparr>p_created_by := unref (u_id ` set us) (p_created_by p)\<rparr>) (products d) = products d"
      "map (\<lambda>po. po\<lparr>po_created_by := unref (u_id ` set us) (po_created_by po)\<rparr>) (purchase_orders d) = purchase_orders d"
      "map (\<lambda>so. so\<lparr>so_created_by := unref (u_id ` set us) (so_created_by so)\<rparr>) (sales_orders d) = sales_orders d"
      "map (\<lambda>t. t\<lparr>t_created_by := unref (u_id ` set us) (t_created_by t)\<rparr>) (transactions d) = transactions d"
      "map (\<lambda>r. r\<lparr>r_created_by := unref (u_id ` set us) (r_created_by r),
             r_approved_by := unref (u_id ` set us) (r_approved_by r)\<rparr>) (return_requests d) = return_requests d"
      by (rule map_idI; use kd un in simp)+
    ultimately show ?thesis using key(2) [of d7] by (simp add: delete_users_def ds Let_def)
  qed
  ultimately show ?thesis by (simp add: flush_def flush_steps_def)
qed

lemma seed_demo_rows:
  assumes "seed rules g now num_products num_orders d = Inr d'" "lawful_rng g" "keys_drawn d" "no_demo_rows d"
    and "\<And>x. ends_with demo_email_domain (normalize_email rules (x @ demo_email_domain))"
  obtains us cats sups ps s where "demo_rows (next_uuid d) us cats sups ps s" "d' = with_demo_rows d us cats sups ps s"
proof -
  obtain cats sups us new ps s0 s lo where r:
    "cats = map (\<lambda>k. demo_category now (next_uuid d + k) (Suc k)) [0..<num_categories]"
    "sups = map (\<lambda>k. demo_supplier now (next_uuid d + num_categories + k) (Suc k)) [0..<num_suppliers]"
    "lo = next_uuid d + num_categories + num_suppliers + length new"
    and u: "seeded_users rules (d\<lparr>categories := categories d @ cats, suppliers := suppliers d @ sups,
        next_uuid := next_uuid d + num_categories + num_suppliers\<rparr>)
      (us, d\<lparr>categories := categories d @ cats, suppliers := suppliers d @ sups, users := users d @ new, next_uuid := lo\<rparr>)"
    and p: "seeded_products cats sups lo (ps, s0)"
    and o: "plan_orders g now num_orders ps us (s0\<lparr>shelf_of := stock_table ps\<rparr>) = Inr s"
    and d': "d' = d\<lparr>categories := categories d @ cats, suppliers := suppliers d @ sups, users := users d @ new,
       purchase_orders := purchase_orders d @ new_pos s, po_items := po_items d @ new_po_items s,
       sales_orders := sales_orders d @ new_sos s, so_items := so_items d @ new_so_items s,
       return_requests := return_requests d @ new_returns s, transactions := transactions d @ new_txns s,
       products := update_stocks ps (shelf_of s) (products d @ ps), next_uuid := fresh s\<rparr>"
    by (rule seed_run [OF assms(1,2)])
  let ?ps = "update_stocks ps (shelf_of s) ps"
  note pd = seeded_productsD [OF p]
  have new: "\<forall>u \<in> set new. next_uuid d \<le> u_id u \<and> ends_with demo_email_domain (u_email u)"
  proof
    fix v assume "v \<in> set new"
    with seeded_users_new(1) [OF u, of new] obtain x where
      "next_uuid d + num_categories + num_suppliers \<le> u_id v" "u_email v = normalize_email rules (x @ demo_email_domain)" by auto
    with assms(5) show "next_uuid d \<le> u_id v \<and> ends_with demo_email_domain (u_email v)" by simp
  qed
  have "set us \<subseteq> set new"
  proof
    fix v assume v: "v \<in> set us"
    with seeded_users_new(2) [OF u, of new] have m: "v \<in> set (users d @ new)" "v \<in> set new \<or> (\<exists>x. u_email v = x @ demo_email_domain)"
      by simp_all
    show "v \<in> set new"
    proof (rule ccontr)
      assume "v \<notin> set new"
      with m obtain x where "v \<in> set (users d)" "u_email v = x @ demo_email_domain" by auto
      with assms(4) show False by (auto simp: no_demo_rows_def ends_with_def)
    qed
  qed
  then have sub: "refers_to (u_id ` set us) v \<Longrightarrow> refers_to (u_id ` set new) v" for v
    by (auto simp: refers_to_def split: option.splits)
  have "own_rows lo (u_id ` set us) (p_id ` set ps) (s0\<lparr>shelf_of := stock_table ps\<rparr>)"
    using pd(4,5) by (auto simp: own_rows_def start_seeder_def)
  note own = plan_orders_own [OF o assms(2) this, unfolded own_rows_def]
  have "new_txns s0 = [] \<and> completed_orders s0 = []" using pd(4) by (auto simp: start_seeder_def)
  then have "in_books (p_id ` set ps) s" using plan_orders_books [OF o assms(2) pd(1,2)] by simp
  then have txns: "\<forall>t \<in> set (new_txns s). t_product t \<in> p_id ` set ps" unfolding in_books_def by blast
  have keys: "p_id ` set ?ps = p_id ` set ps"
  proof -
    have "map p_id ?ps = map p_id ps" by (simp add: update_stocks_def comp_def if_distrib cong: if_cong)
    then have "set (map p_id ?ps) = set (map p_id ps)" by (rule arg_cong)
    then show ?thesis by (simp only: set_map)
  qed
  have ps: "\<forall>q \<in> set ?ps. next_uuid d \<le> p_id q \<and> starts_with demo_sku_prefix (p_sku q)"
  proof
    fix q assume "q \<in> set ?ps"
    then obtain q0 where q0: "q0 \<in> set ps" "p_id q = p_id q0" "p_sku q = p_sku q0" by (auto simp: update_stocks_def)
    with pd(6) have "seeded_row cats sups lo (fresh s0) q0" by blast
    with q0(2,3) r(3) show "next_uuid d \<le> p_id q \<and> starts_with demo_sku_prefix (p_sku q)" by (simp add: seeded_row_def)
  qed
  have "demo_rows (next_uuid d) new cats sups ?ps s"
    unfolding demo_rows_def keys
  proof (intro conjI)
    show "\<forall>c \<in> set cats. next_uuid d \<le> c_id c \<and> starts_with demo_category_prefix (c_name c)"
      by (auto simp: r(1) demo_category_def)
    show "\<forall>x \<in> set sups. next_uuid d \<le> s_id x \<and> starts_with demo_supplier_prefix (s_name x)"
      by (auto simp: r(2) demo_supplier_def)
    show "\<forall>po \<in> set (new_pos s). next_uuid d \<le> po_id po \<and> refers_to (u_id ` set new) (po_created_by po)"
      "\<forall>so \<in> set (new_sos s). next_uuid d \<le> so_id so \<and> refers_to (u_id ` set new) (so_created_by so)"
      using own sub r(3) by fastforce+
  qed (use new ps own txns in blast)+
  moreover have "update_stocks ps (shelf_of s) (products d @ ps) = products d @ ?ps"
  proof -
    have "p_id q \<notin> p_id ` set ps" if "q \<in> set (products d)" for q
      using that assms(3) pd(3) r(3) by (fastforce simp: keys_drawn_def Let_def)
    then show ?thesis by (simp add: update_stocks_def map_idI)
  qed
  ultimately show thesis by (intro that) (simp_all add: d' with_demo_rows_def)
qed

text \<open>C18. Flushing undoes seeding: on a shop in which nothing follows the demo naming conventions,
  \<open>--flush\<close> after a run succeeds, for every behaviour of the random source, and leaves the shop
  exactly as it was before the run, down to the last row; only the primary keys drawn stay used.\<close>
theorem flush_undoes_seeding:
  assumes "seed rules g now num_products num_orders d = Inr d'" "lawful_rng g" "keys_drawn d" "no_demo_rows d"
    and "\<And>x. ends_with demo_email_domain (normalize_email rules (x @ demo_email_domain))"
  shows "flush d' = (None, d\<lparr>next_uuid := next_uuid d'\<rparr>)"
proof -
  obtain us cats sups ps s where "demo_rows (next_uuid d) us cats sups ps s" "d' = with_demo_rows d us cats sups ps s"
    by (rule seed_demo_rows [OF assms])
  then show ?thesis using flush_demo_rows [OF assms(3,4)] by (simp add: with_demo_rows_def)
qed

end
