(* ===== verification/Seed_Total.thy ===== *)
theory Seed_Total
  imports Seed_Properties
begin

section \<open>Seeding succeeds\<close>

text \<open>
  Every draw of the generator is from a range or a list that is not empty, and every unique column
  gets new values; so a run on a shop without demo data succeeds.
\<close>

subsection \<open>Draws and steps that succeed\<close>

lemma draws_succeed:
  "a \<le> b \<Longrightarrow> draw_int g a b s = Inr (randint g (draws s) a b, s\<lparr>draws := Suc (draws s)\<rparr>)"
  "xs \<noteq> [] \<Longrightarrow> draw_choice g xs s = Inr (xs ! choice g (draws s) (length xs), s\<lparr>draws := Suc (draws s)\<rparr>)"
  "k \<le> length xs \<Longrightarrow> draw_sample g xs k s = Inr (map ((!) xs) (sample g (draws s) (length xs) k), s\<lparr>draws := Suc (draws s)\<rparr>)"
  by (simp_all add: draw_int_def draw_choice_def draw_sample_def)

lemma opening_txn_succeeds: "managers \<noteq> [] \<Longrightarrow> \<exists>s'. opening_txn g now managers p s = Inr s'"
  by (simp add: opening_txn_def draw_key_def draws_succeed Let_def)

lemma seed_po_item_succeeds: "\<exists>s'. seed_po_item g now received po p s = Inr s'"
  by (simp add: seed_po_item_def draws_succeed draw_key_def Let_def)

lemma build_purchase_order_succeeds:
  assumes "lawful_rng g" "3 \<le> length ps" "managers \<noteq> []"
  shows "\<exists>s'. build_purchase_order g now ps managers s = Inr s'"
proof -
  have "randint g (draws s) 1 3 \<le> 3" using assms(1) by (simp add: lawful_rng_def)
  with assms(2) have "nat (randint g (draws s) 1 3) \<le> length ps" by linarith
  moreover have "\<exists>t'. bindE (foldE (seed_po_item g now received po) qs t) (\<lambda>s. Inr (s\<lparr>new_pos := new_pos s @ [po]\<rparr>)) = Inr t'"
    for received po qs and t :: seeder
    using foldE_total [of qs "seed_po_item g now received po" t] seed_po_item_succeeds by fastforce
  ultimately show ?thesis
    using assms(3) by (simp add: build_purchase_order_def draws_succeed draw_chance_def draw_key_def Let_def)
qed

text \<open>A loop that takes stock of distinct products succeeds when each has some.\<close>

lemma positive_elsewhere:
  assumes "distinct (map p_id (p # qs))" "\<forall>q \<in> set (p # qs). (0::int) < f (p_id q)" "\<And>i. i \<noteq> p_id p \<Longrightarrow> f' i = f i"
  shows "\<forall>q \<in> set qs. 0 < f' (p_id q)"
proof
  fix q assume q: "q \<in> set qs"
  with assms(1) have "p_id q \<noteq> p_id p" by (metis distinct.simps(2) image_eqI list.simps(9) set_map)
  with q assms(2,3) show "0 < f' (p_id q)" by simp
qed

lemma seed_so_items_succeed:
  assumes "lawful_rng g" "distinct (map p_id qs)" "\<forall>p \<in> set qs. 0 < shelf_of (snd r) (p_id p)"
  shows "\<exists>r'. foldE (seed_so_item g now completed so) qs r = Inr r'"
  using assms(2,3)
proof (induction qs arbitrary: r)
  case (Cons p qs)
  obtain items s where r: "r = (items, s)" by (cases r)
  with Cons.prems have "1 \<le> min 5 (shelf_of s (p_id p))" by simp
  then have "\<exists>r1. seed_so_item g now completed so p r = Inr r1"
    by (simp add: r seed_so_item_def draws_succeed draw_key_def Let_def)
  then obtain items1 s1 where s1: "seed_so_item g now completed so p (items, s) = Inr (items1, s1)" by (auto simp: r)
  have "shelf_of s1 i = shelf_of s i" if "i \<noteq> p_id p" for i
    using seed_so_item_Inr [OF s1 assms(1)] that by (auto split: if_splits)
  with positive_elsewhere [OF Cons.prems] r have "\<forall>q \<in> set qs. 0 < shelf_of (snd (items1, s1)) (p_id q)" by simp
  with Cons.IH [of "(items1, s1)"] Cons.prems(1) s1 show ?case by (simp add: r)
qed simp

lemma seed_damages_succeed:
  assumes "lawful_rng g" "managers \<noteq> []" "distinct (map p_id qs)" "\<forall>p \<in> set qs. 0 < shelf_of s (p_id p)"
  shows "\<exists>s'. foldE (seed_damage g now managers) qs s = Inr s'"
  using assms(3,4)
proof (induction qs arbitrary: s)
  case (Cons p qs)
  then have "1 \<le> min 5 (shelf_of s (p_id p))" by simp
  with assms(2) obtain s1 where s1: "seed_damage g now managers p s = Inr s1"
    by (simp add: seed_damage_def draws_succeed draw_key_def Let_def)
  have "shelf_of s1 i = shelf_of s i" if "i \<noteq> p_id p" for i
    using seed_damage_Inr [OF s1 assms(1)] that by auto
  with positive_elsewhere [OF Cons.prems] have "\<forall>q \<in> set qs. 0 < shelf_of s1 (p_id q)" by simp
  with Cons.IH [of s1] Cons.prems(1) s1 show ?case by simp
qed simp

lemma build_sales_order_succeeds:
  assumes "lawful_rng g" "distinct (map p_id ps)" "us \<noteq> []"
  shows "\<exists>s'. build_sales_order g now ps us n s = Inr s'"
proof -
  let ?js = "sample g (draws s) (length ps) (min 3 (length ps))"
  let ?chosen = "filter (\<lambda>p. 0 < shelf_of s (p_id p)) (map ((!) ps) ?js)"
  have "min 3 (length ps) \<le> length ps" by simp
  with assms(1) have js: "distinct ?js" "\<forall>j \<in> set ?js. j < length ps" unfolding lawful_rng_def by blast+
  have "map p_id (map ((!) ps) ?js) = map ((!) (map p_id ps)) ?js" using js(2) by simp
  moreover have "distinct (map ((!) (map p_id ps)) ?js)"
    unfolding distinct_map [of "(!) (map p_id ps)"] using js assms(2) by (simp add: inj_on_nth)
  ultimately have d: "distinct (map p_id ?chosen)" by (metis distinct_map_filter)
  have fold: "\<exists>r'. bindE (foldE (seed_so_item g now completed so) ?chosen ([], t)) (\<lambda>(items, s). Inr (k items s)) = Inr r'"
    if "shelf_of t = shelf_of s" for completed so t and k :: "so_item list \<Rightarrow> seeder \<Rightarrow> seeder"
    using seed_so_items_succeed [OF assms(1) d, of "([], t)" now completed so] that by (auto simp: split_beta)
  show ?thesis
  proof (cases "?chosen = []")
    case True
    then show ?thesis by (simp add: build_sales_order_def draws_succeed Let_def del: filter_map filter_empty_conv)
  next
    case False
    with assms(3) show ?thesis
      by (simp add: build_sales_order_def draws_succeed draw_chance_def draw_key_def Let_def del: filter_map filter_empty_conv)
        (rule fold, simp)
  qed
qed

lemma seed_order_succeeds:
  assumes "lawful_rng g" "3 \<le> length ps" "distinct (map p_id ps)" "filter (\<lambda>u. u_role u \<in> {ADMIN, MANAGER}) us \<noteq> []"
  shows "\<exists>s'. seed_order g now ps us n s = Inr s'"
proof -
  have "us \<noteq> []" using assms(4) by (cases us) simp_all
  with assms build_purchase_order_succeeds build_sales_order_succeeds show ?thesis
    unfolding seed_order_def draw_chance_def by (simp del: filter_empty_conv)
qed

subsection \<open>Returns and damage\<close>

text \<open>What the returns rely on: every completed order has lines, of at least one unit.\<close>

definition returnable :: "seeder \<Rightarrow> bool" where
  "returnable s \<longleftrightarrow> (\<forall>c \<in> set (completed_orders s). snd c \<noteq> [] \<and> (\<forall>x \<in> set (snd c). 1 \<le> soi_quantity x))"

lemma returnable_cong: "completed_orders s' = completed_orders s \<Longrightarrow> returnable s' = returnable s"
  by (simp add: returnable_def)

lemma seed_po_items_keep:
  assumes "foldE (seed_po_item g now received po) qs s = Inr s'" "lawful_rng g"
  shows "completed_orders s' = completed_orders s \<and> new_sos s' = new_sos s"
proof (rule foldE_invariant [OF assms(1)])
  show "completed_orders t' = completed_orders s \<and> new_sos t' = new_sos s"
    if "seed_po_item g now received po p t = Inr t'" "completed_orders t = completed_orders s \<and> new_sos t = new_sos s" for p t t'
    using seed_po_item_Inr [OF that(1) assms(2)] that(2) by auto
qed simp

lemma seed_so_items_keep:
  assumes "foldE (seed_so_item g now completed so) qs r = Inr r'" "lawful_rng g" "\<forall>x \<in> set (fst r). 1 \<le> soi_quantity x"
  shows "completed_orders (snd r') = completed_orders (snd r) \<and> new_sos (snd r') = new_sos (snd r)
    \<and> (\<forall>x \<in> set (fst r'). 1 \<le> soi_quantity x) \<and> length (fst r') = length (fst r) + length qs"
  using assms(1,3)
proof (induction qs arbitrary: r)
  case (Cons p qs)
  from Cons.prems obtain r1 where r1: "seed_so_item g now completed so p r = Inr r1"
    "foldE (seed_so_item g now completed so) qs r1 = Inr r'" by (auto simp: bind_elims)
  have "seed_so_item g now completed so p (fst r, snd r) = Inr (fst r1, snd r1)" using r1(1) by simp
  from seed_so_item_Inr [OF this assms(2)] Cons.prems(2)
  have "completed_orders (snd r1) = completed_orders (snd r) \<and> new_sos (snd r1) = new_sos (snd r)
    \<and> (\<forall>x \<in> set (fst r1). 1 \<le> soi_quantity x) \<and> length (fst r1) = Suc (length (fst r))" by (auto split: if_splits)
  with Cons.IH [OF r1(2)] show ?case by simp
qed simp

lemma seed_order_keeps:
  assumes "seed_order g now ps us n s = Inr s'" "lawful_rng g" "returnable s"
  shows "returnable s'"
    "new_sos s' = new_sos s \<or> (\<exists>so. new_sos s' = new_sos s @ [so] \<and> so_invoice_number so \<in> {None, Some (''INV-DEMO'' @ pad 6 n)})"
proof -
  from assms(1) obtain purchase s1 where d: "draw_chance g 50 s = Inr (purchase, s1)"
    "(if purchase then build_purchase_order g now ps (filter (\<lambda>u. u_role u \<in> {ADMIN, MANAGER}) us) s1
       else build_sales_order g now ps us n s1) = Inr s'"
    unfolding seed_order_def by (auto simp: bind_elims)
  note s1 = draw_chanceD [OF d(1)]
  have "returnable s' \<and> (new_sos s' = new_sos s \<or>
    (\<exists>so. new_sos s' = new_sos s @ [so] \<and> so_invoice_number so \<in> {None, Some (''INV-DEMO'' @ pad 6 n)}))"
  proof (cases purchase)
    case True
    with d(2) have "build_purchase_order g now ps (filter (\<lambda>u. u_role u \<in> {ADMIN, MANAGER}) us) s1 = Inr s'" by simp
    from build_purchase_order_Inr [OF this assms(2)] obtain k received chosen po t where
      f: "foldE (seed_po_item g now received po) chosen (s1\<lparr>draws := k, fresh := Suc (fresh s1)\<rparr>) = Inr t"
      "s' = t\<lparr>new_pos := new_pos t @ [po]\<rparr>" by blast
    with seed_po_items_keep [OF f(1) assms(2)] s1 assms(3) show ?thesis by (simp add: returnable_def)
  next
    case False
    with d(2) have "build_sales_order g now ps us n s1 = Inr s'" by simp
    from this assms(2) show ?thesis
    proof (cases rule: build_sales_order_Inr)
      case (skipped k)
      with s1 assms(3) show ?thesis by (simp add: returnable_def)
    next
      case (built k completed chosen v so t items)
      from seed_so_items_keep [OF built(7) assms(2)] have
        t: "completed_orders t = completed_orders s" "new_sos t = new_sos s" "\<forall>x \<in> set items. 1 \<le> soi_quantity x" "items \<noteq> []"
        using built(5) s1 by auto
      have "returnable s'" unfolding built(8) returnable_def using t assms(3) by (auto simp: returnable_def)
      moreover have "new_sos s' = new_sos s @ [so]" by (simp add: built(8) t)
      moreover have "so_invoice_number so \<in> {None, Some (''INV-DEMO'' @ pad 6 n)}" by (simp add: built(6) seed_so_def)
      ultimately show ?thesis by blast
    qed
  qed
  then show "returnable s'"
    "new_sos s' = new_sos s \<or> (\<exists>so. new_sos s' = new_sos s @ [so] \<and> so_invoice_number so \<in> {None, Some (''INV-DEMO'' @ pad 6 n)})"
    by blast+
qed

lemma build_returns_succeeds:
  assumes "lawful_rng g" "us \<noteq> []" "returnable s"
  shows "\<exists>s'. build_returns g now us s = Inr s'"
proof (cases "completed_orders s = []")
  case False
  let ?k = "min (length (completed_orders s)) (max 1 (length (completed_orders s) div 20))"
  obtain chosen t where c: "draw_sample g (completed_orders s) ?k s = Inr (chosen, t)" by (simp add: draws_succeed)
  with draw_sampleD [OF c assms(1)] have chosen: "set chosen \<subseteq> set (completed_orders s)" by blast
  have "\<exists>t'. foldE (seed_return g now us) chosen t = Inr t'"
  proof (rule foldE_total)
    fix r and t :: seeder assume "r \<in> set chosen"
    with chosen assms(3) have r: "snd r \<noteq> []" "\<forall>x \<in> set (snd r). 1 \<le> soi_quantity x" unfolding returnable_def by blast+
    let ?item = "snd r ! choice g (draws t) (length (snd r))"
    have "choice g (draws t) (length (snd r)) < length (snd r)" using assms(1) r(1) by (simp add: lawful_rng_def)
    with r(2) have "1 \<le> soi_quantity ?item" by simp
    with assms(2) r(1) show "\<exists>t'. seed_return g now us r t = Inr t'"
      by (cases r) (simp add: seed_return_def draws_succeed draw_chance_def draw_key_def Let_def)
  qed
  with c False show ?thesis by (simp add: build_returns_def Let_def)
qed (simp add: build_returns_def Let_def)

lemma build_damage_succeeds:
  assumes "lawful_rng g" "managers \<noteq> []" "distinct (map p_id ps)"
  shows "\<exists>s'. build_damage g now ps managers m s = Inr s'"
proof -
  let ?candidates = "filter (\<lambda>p. 0 < shelf_of s (p_id p)) ps"
  obtain chosen t where c: "draw_sample g ?candidates (min m (length ?candidates)) s = Inr (chosen, t)"
    by (simp add: draws_succeed)
  note e = draw_sampleD [OF c assms(1)]
  have "distinct ps" "inj_on p_id (set ps)" using assms(3) by (simp_all add: distinct_map)
  with e have "distinct chosen" "inj_on p_id (set chosen)" "\<forall>p \<in> set chosen. 0 < shelf_of t (p_id p)"
    by (auto intro: inj_on_subset)
  with seed_damages_succeed [OF assms(1,2), of chosen t now] have "\<exists>t'. foldE (seed_damage g now managers) chosen t = Inr t'"
    by (simp add: distinct_map)
  with c show ?thesis by (simp add: build_damage_def Let_def)
qed

subsection \<open>The unique columns\<close>

lemma pad_inj: "pad w m = pad w n \<Longrightarrow> m = n"
proof -
  assume eq: "pad w m = pad w n"
  have pad: "pad w k = map digit_char (replicate (w - length (str_nat k)) 0 @ digits_of 10 k)" for k
    by (simp add: pad_def str_nat_def digit_char_def)
  have "set (replicate j 0 @ digits_of 10 k) \<subseteq> {..<16}" for j k
    using digits_of_bound [of 10 _ k] by fastforce
  with eq have "replicate (w - length (str_nat m)) 0 @ digits_of 10 m = replicate (w - length (str_nat n)) 0 @ digits_of 10 n"
    unfolding pad by (blast intro: map_digit_char_inj)
  then show "m = n" by (metis undigits_digits_of undigits_leading_zeros)
qed

definition invoice_numbers :: "sales_order list \<Rightarrow> string list" where
  "invoice_numbers sos = concat (map (\<lambda>so. case so_invoice_number so of None \<Rightarrow> [] | Some n \<Rightarrow> [n]) sos)"

lemma seed_orders_loop:
  assumes "lawful_rng g" "3 \<le> length ps" "distinct (map p_id ps)" "filter (\<lambda>u. u_role u \<in> {ADMIN, MANAGER}) us \<noteq> []"
    and "returnable s" "new_sos s = []"
  shows "\<exists>s'. foldE (seed_order g now ps us) [0..<m] s = Inr s' \<and> returnable s' \<and> distinct (invoice_numbers (new_sos s'))
    \<and> (\<forall>x \<in> set (invoice_numbers (new_sos s')). \<exists>k<m. x = ''INV-DEMO'' @ pad 6 k)"
proof (induction m)
  case 0
  then show ?case using assms(5,6) by (simp add: invoice_numbers_def)
next
  case (Suc m)
  then obtain t where t: "foldE (seed_order g now ps us) [0..<m] s = Inr t" "returnable t" "distinct (invoice_numbers (new_sos t))"
    "\<forall>x \<in> set (invoice_numbers (new_sos t)). \<exists>k<m. x = ''INV-DEMO'' @ pad 6 k" by blast
  from seed_order_succeeds [OF assms(1-4)] obtain t' where t': "seed_order g now ps us m t = Inr t'" by blast
  note keep = seed_order_keeps [OF t' assms(1) t(2)]
  have fold: "foldE (seed_order g now ps us) [0..<Suc m] s = Inr t'"
    using t(1) t' by (simp add: foldE_append)
  have new: "''INV-DEMO'' @ pad 6 m \<notin> set (invoice_numbers (new_sos t))"
    using t(4) pad_inj [of 6 m] by auto
  from keep(2) have nums: "invoice_numbers (new_sos t') = invoice_numbers (new_sos t)
      \<or> invoice_numbers (new_sos t') = invoice_numbers (new_sos t) @ [''INV-DEMO'' @ pad 6 m]"
    by (auto simp: invoice_numbers_def)
  then have "distinct (invoice_numbers (new_sos t'))" using new t(3) by (elim disjE) simp_all
  moreover have "\<forall>x \<in> set (invoice_numbers (new_sos t')). \<exists>k<Suc m. x = ''INV-DEMO'' @ pad 6 k"
  proof
    fix x assume "x \<in> set (invoice_numbers (new_sos t'))"
    with nums have "x \<in> set (invoice_numbers (new_sos t)) \<or> x = ''INV-DEMO'' @ pad 6 m" by auto
    with t(4) show "\<exists>k<Suc m. x = ''INV-DEMO'' @ pad 6 k" by (auto intro: less_SucI)
  qed
  ultimately show ?case using fold keep(1) by blast
qed

lemma openings_succeed:
  assumes "managers \<noteq> []" "lawful_rng g"
  shows "\<exists>s'. foldE (opening_txn g now managers) qs s = Inr s' \<and> new_sos s' = new_sos s \<and> completed_orders s' = completed_orders s"
proof -
  obtain s' where s': "foldE (opening_txn g now managers) qs s = Inr s'"
    using foldE_total [of qs "opening_txn g now managers" s] opening_txn_succeeds [OF assms(1)] by blast
  have "new_sos s' = new_sos s \<and> completed_orders s' = completed_orders s"
  proof (rule foldE_invariant [OF s'])
    show "new_sos t' = new_sos s \<and> completed_orders t' = completed_orders s"
      if "opening_txn g now managers p t = Inr t'" "new_sos t = new_sos s \<and> completed_orders t = completed_orders s" for p t t'
      using opening_txn_Inr [OF that(1) assms(2)] that(2) by (auto split: if_splits)
  qed simp
  with s' show ?thesis by blast
qed

lemma build_returns_sos:
  assumes "build_returns g now us s = Inr s'" "lawful_rng g"
  shows "new_sos s' = new_sos s"
proof (cases "completed_orders s = []")
  case True
  with assms(1) show ?thesis by (simp add: build_returns_def Let_def)
next
  case False
  with assms(1) obtain k chosen t where d: "draw_sample g (completed_orders s) k s = Inr (chosen, t)"
    "foldE (seed_return g now us) chosen t = Inr s'"
    unfolding build_returns_def Let_def by (auto simp: bind_elims)
  show ?thesis
  proof (rule foldE_invariant [OF d(2)])
    show "new_sos t = new_sos s" using draw_sampleD [OF d(1) assms(2)] by simp
    show "new_sos t2 = new_sos s" if "seed_return g now us c t1 = Inr t2" "new_sos t1 = new_sos s" for c t1 t2
      using seed_return_Inr [of g now us "fst c" "snd c" t1 t2] that assms(2) by auto
  qed
qed

lemma build_damage_sos:
  assumes "build_damage g now ps managers m s = Inr s'" "lawful_rng g"
  shows "new_sos s' = new_sos s"
proof -
  from assms(1) obtain qs k chosen t where d: "draw_sample g qs k s = Inr (chosen, t)" "foldE (seed_damage g now managers) chosen t = Inr s'"
    unfolding build_damage_def Let_def by (auto simp: bind_elims)
  show ?thesis
  proof (rule foldE_invariant [OF d(2)])
    show "new_sos t = new_sos s" using draw_sampleD [OF d(1) assms(2)] by simp
    show "new_sos t2 = new_sos s" if "seed_damage g now managers p t1 = Inr t2" "new_sos t1 = new_sos s" for p t1 t2
      using seed_damage_Inr [OF that(1) assms(2)] that(2) by auto
  qed
qed

lemma plan_orders_succeeds:
  assumes "lawful_rng g" "3 \<le> length ps" "distinct (map p_id ps)" "filter (\<lambda>u. u_role u \<in> {ADMIN, MANAGER}) us \<noteq> []"
    and "completed_orders s = []" "new_sos s = []"
  shows "\<exists>s'. plan_orders g now m ps us s = Inr s' \<and> distinct (invoice_numbers (new_sos s'))
    \<and> (\<forall>x \<in> set (invoice_numbers (new_sos s')). \<exists>k. x = ''INV-DEMO'' @ k)"
proof -
  let ?managers = "filter (\<lambda>u. u_role u \<in> {ADMIN, MANAGER}) us"
  have us: "us \<noteq> []" using assms(4) by (cases us) simp_all
  from openings_succeed [OF assms(4,1)] assms(5,6) obtain s1 where s1: "foldE (opening_txn g now ?managers) ps s = Inr s1"
    "new_sos s1 = []" "completed_orders s1 = []" by metis
  then have "returnable s1" by (simp add: returnable_def)
  from seed_orders_loop [OF assms(1-4) this s1(2)] obtain s2 where s2: "foldE (seed_order g now ps us) [0..<m] s1 = Inr s2"
    "returnable s2" "distinct (invoice_numbers (new_sos s2))"
    "\<forall>x \<in> set (invoice_numbers (new_sos s2)). \<exists>k<m. x = ''INV-DEMO'' @ pad 6 k" by blast
  from build_returns_succeeds [OF assms(1) us s2(2)] obtain s3 where s3: "build_returns g now us s2 = Inr s3" by blast
  from build_damage_succeeds [OF assms(1,4,3)] obtain s4 where
    s4: "build_damage g now ps ?managers (max 1 (m div 40)) s3 = Inr s4" by blast
  have "new_sos s4 = new_sos s2" using build_returns_sos [OF s3 assms(1)] build_damage_sos [OF s4 assms(1)] by simp
  moreover have "plan_orders g now m ps us s = Inr s4" unfolding plan_orders_def Let_def using s1(1) s2(1) s3 s4 by simp
  ultimately show ?thesis using s2(3,4) by (auto simp del: filter_empty_conv)
qed

text \<open>The products get consecutive article numbers.\<close>

lemma seed_products_succeed:
  assumes "lawful_rng g" "cats \<noteq> []" "sups \<noteq> []" "us \<noteq> []"
  shows "\<exists>r'. foldE (seed_product g now cats sups us) ks r = Inr r'
    \<and> map p_sku (fst r') = map p_sku (fst r) @ map (\<lambda>k. demo_sku_prefix @ pad 5 k) ks"
proof (induction ks arbitrary: r)
  case (Cons k ks)
  have "\<exists>r1. seed_product g now cats sups us k r = Inr r1"
    using assms(2-4) by (cases r) (simp add: seed_product_def draws_succeed draw_key_def Let_def)
  then obtain r1 where r1: "seed_product g now cats sups us k (fst r, snd r) = Inr (fst r1, snd r1)" by auto
  from seed_product_Inr [OF this assms(1)] have "map p_sku (fst r1) = map p_sku (fst r) @ [demo_sku_prefix @ pad 5 k]" by auto
  with Cons.IH [of r1] r1 show ?case by simp
qed simp

text \<open>Creating the users; the addresses of the specifications differ.\<close>

lemma seed_users_succeed:
  assumes "distinct (map fst specs)"
    and "\<forall>spec \<in> set specs. normalize_email rules (fst spec @ demo_email_domain) = fst spec @ demo_email_domain"
    and "\<forall>spec \<in> set specs. \<forall>u \<in> set (users d). u_email u \<noteq> fst spec @ demo_email_domain"
  shows "\<exists>us d'. foldE (seed_user rules now) specs (found, d) = Inr (found @ us, d') \<and> map u_role us = map snd specs"
  using assms
proof (induction specs arbitrary: found d)
  case (Cons spec specs)
  obtain local_part role where spec: "spec = (local_part, role)" by (cases spec)
  let ?email = "local_part @ demo_email_domain"
  have ne: "?email \<noteq> []" by (simp add: demo_email_domain_def)
  have free: "get_row u_email ?email (users d) = None" "\<not> email_taken ?email d"
    using Cons.prems(3) by (auto simp: spec get_row_None email_taken_def)
  then obtain u where u: "create_user rules now ?email ''demopass123'' ((default_fields local_part)\<lparr>uf_role := role\<rparr>) d
      = Inr (u, draw_uuid (d\<lparr>users := users d @ [u]\<rparr>))" "u_email u = ?email" "u_role u = role"
    using ne Cons.prems(2) by (simp add: create_user_def spec Let_def)
  then have step: "seed_user rules now spec (found, d) = Inr (found @ [u], draw_uuid (d\<lparr>users := users d @ [u]\<rparr>))"
    using free(1) by (simp add: seed_user_def spec Let_def)
  have "\<forall>spec \<in> set specs. \<forall>v \<in> set (users (draw_uuid (d\<lparr>users := users d @ [u]\<rparr>))). u_email v \<noteq> fst spec @ demo_email_domain"
    using Cons.prems(1,3) u(2) by (auto simp: spec draw_uuid_def)
  with Cons.IH [of "draw_uuid (d\<lparr>users := users d @ [u]\<rparr>)" "found @ [u]"] Cons.prems(1,2) obtain us d' where
    "foldE (seed_user rules now) specs (found @ [u], draw_uuid (d\<lparr>users := users d @ [u]\<rparr>)) = Inr ((found @ [u]) @ us, d')"
    "map u_role us = map snd specs" by auto
  with step show ?case by (intro exI [of _ "u # us"] exI [of _ d']) (simp add: spec u(3))
qed simp

subsection \<open>The run\<close>

text \<open>The shop has none of the values the run puts into a unique column.\<close>

definition room_for_demo :: "db \<Rightarrow> bool" where
  "room_for_demo d \<longleftrightarrow> no_demo_rows d \<and> (\<forall>x \<in> set (suppliers d). \<not> ends_with demo_email_domain (s_email x))
     \<and> (\<forall>so \<in> set (sales_orders d). case so_invoice_number so of None \<Rightarrow> True | Some n \<Rightarrow> \<not> starts_with ''INV-DEMO'' n)"

lemma names_distinct:
  "distinct (map c_name (map (\<lambda>k. demo_category now (n + k) (Suc k)) [0..<num_categories]))"
  "distinct (map s_email (map (\<lambda>k. demo_supplier now (n + k) (Suc k)) [0..<num_suppliers]))"
  by (auto simp: distinct_map inj_on_def demo_category_def demo_supplier_def dest: str_nat_inj)

lemma seed_categories_succeeds:
  assumes "\<forall>c \<in> set (categories d). \<not> starts_with demo_category_prefix (c_name c)"
  shows "\<exists>cats d1. seed_categories now d = Inr (cats, d1) \<and> cats \<noteq> [] \<and> (\<exists>t n. d1 = d\<lparr>categories := t, next_uuid := n\<rparr>)"
proof -
  let ?cats = "map (\<lambda>k. demo_category now (next_uuid d + k) (Suc k)) [0..<num_categories]"
  have "\<forall>c \<in> set ?cats. starts_with demo_category_prefix (c_name c)" by (simp add: demo_category_def)
  with assms have "\<forall>c \<in> set ?cats. c_name c \<notin> c_name ` set (categories d)" by (metis (no_types, lifting) imageE)
  then have "bulk_unique ''name'' c_name (categories d) ?cats = Inr (categories d @ ?cats)"
    using names_distinct(1) by (simp add: bulk_unique_def)
  then show ?thesis unfolding seed_categories_def Let_def by (auto simp: num_categories_def)
qed

lemma seed_suppliers_succeeds:
  assumes "\<forall>x \<in> set (suppliers d). \<not> ends_with demo_email_domain (s_email x)"
  shows "\<exists>sups d1. seed_suppliers now d = Inr (sups, d1) \<and> sups \<noteq> [] \<and> (\<exists>t n. d1 = d\<lparr>suppliers := t, next_uuid := n\<rparr>)"
proof -
  let ?sups = "map (\<lambda>k. demo_supplier now (next_uuid d + k) (Suc k)) [0..<num_suppliers]"
  have "ends_with demo_email_domain (s_email (demo_supplier now i k))" for i k
    using ends_with_append [of demo_email_domain "''demo-supplier-'' @ str_nat k"] by (simp add: demo_supplier_def)
  then have "\<forall>x \<in> set ?sups. ends_with demo_email_domain (s_email x)" by simp
  with assms have "\<forall>x \<in> set ?sups. s_email x \<notin> s_email ` set (suppliers d)" by (metis (no_types, lifting) imageE)
  then have "bulk_unique ''email'' s_email (suppliers d) ?sups = Inr (suppliers d @ ?sups)"
    using names_distinct(2) by (simp add: bulk_unique_def)
  then show ?thesis unfolding seed_suppliers_def Let_def by (auto simp: num_suppliers_def)
qed

lemma demo_invoices_unique:
  assumes "room_for_demo d" "sales_orders e = sales_orders d" "distinct (invoice_numbers new)"
    and "\<forall>x \<in> set (invoice_numbers new). \<exists>k. x = ''INV-DEMO'' @ k"
  shows "invoices_unique e new"
proof -
  have mine: "starts_with ''INV-DEMO'' x" if x: "x \<in> set (invoice_numbers new)" for x
  proof -
    from assms(4) x obtain k where "x = ''INV-DEMO'' @ k" by blast
    then show ?thesis by (simp only: starts_with_append)
  qed
  have "\<forall>so \<in> set (sales_orders d). case so_invoice_number so of None \<Rightarrow> True | Some n \<Rightarrow> n \<notin> set (invoice_numbers new)"
  proof
    fix so assume "so \<in> set (sales_orders d)"
    with assms(1) have "case so_invoice_number so of None \<Rightarrow> True | Some n \<Rightarrow> \<not> starts_with ''INV-DEMO'' n"
      unfolding room_for_demo_def by blast
    with mine show "case so_invoice_number so of None \<Rightarrow> True | Some n \<Rightarrow> n \<notin> set (invoice_numbers new)"
      by (cases "so_invoice_number so") auto
  qed
  with assms(2,3) show ?thesis unfolding invoices_unique_def Let_def invoice_numbers_def by simp
qed

lemma seed_succeeds:
  assumes "lawful_rng g" "3 \<le> num_products" "room_for_demo d"
    and "\<forall>spec \<in> set user_specs. normalize_email rules (fst spec @ demo_email_domain) = fst spec @ demo_email_domain"
  shows "\<exists>d'. seed rules g now num_products num_orders d = Inr d'"
proof -
  have "\<forall>c \<in> set (categories d). \<not> starts_with demo_category_prefix (c_name c)"
    using assms(3) by (simp add: room_for_demo_def no_demo_rows_def)
  from seed_categories_succeeds [OF this] obtain cats d1 t n where
    c: "seed_categories now d = Inr (cats, d1)" "cats \<noteq> []" and d1: "d1 = d\<lparr>categories := t, next_uuid := n\<rparr>" by blast
  have "\<forall>x \<in> set (suppliers d1). \<not> ends_with demo_email_domain (s_email x)"
    using assms(3) by (simp add: d1 room_for_demo_def)
  from seed_suppliers_succeeds [OF this] obtain sups d2 t2 n2 where s: "seed_suppliers now d1 = Inr (sups, d2)" "sups \<noteq> []"
    and d2: "d2 = d1\<lparr>suppliers := t2, next_uuid := n2\<rparr>" by blast
  have "\<forall>spec \<in> set user_specs. \<forall>u \<in> set (users d2). u_email u \<noteq> fst spec @ demo_email_domain"
    using assms(3) by (auto simp: d1 d2 room_for_demo_def no_demo_rows_def)
  moreover have "distinct (map fst user_specs)" by (simp add: user_specs_def)
  ultimately obtain us d3 where u: "seed_users rules now d2 = Inr (us, d3)" "map u_role us = map snd user_specs"
    using seed_users_succeed [of user_specs rules d2 now "[]"] assms(4) unfolding seed_users_def by auto
  have "ADMIN \<in> set (map u_role us)" unfolding u(2) by (simp add: user_specs_def)
  then have managers: "filter (\<lambda>u. u_role u \<in> {ADMIN, MANAGER}) us \<noteq> []" by (force simp: filter_empty_conv)
  then have us: "us \<noteq> []" by (cases us) simp_all
  from seed_users_run [OF u(1)] have d3: "products d3 = products d" "sales_orders d3 = sales_orders d"
    by (auto simp: seeded_users_def d1 d2)
  from seed_products_succeed [OF assms(1) c(2) s(2) us, of now "[1..<Suc num_products]" "([], start_seeder (next_uuid d3))"]
  obtain ps s0 where p: "foldE (seed_product g now cats sups us) [1..<Suc num_products] ([], start_seeder (next_uuid d3)) = Inr (ps, s0)"
    "map p_sku ps = map (\<lambda>k. demo_sku_prefix @ pad 5 k) [1..<Suc num_products]" by (auto simp del: upt_Suc)
  note pd = seeded_productsD [OF seed_products_fold [OF p(1) assms(1)]]
  have "\<forall>q \<in> set ps. starts_with demo_sku_prefix (p_sku q)" using pd(6) by (simp add: seeded_row_def)
  then have "\<forall>q \<in> set ps. p_sku q \<notin> p_sku ` set (products d3)"
    using assms(3) unfolding d3 room_for_demo_def no_demo_rows_def by (metis imageE)
  moreover have "distinct (map p_sku ps)" unfolding p(2) by (auto simp: distinct_map inj_on_def dest: pad_inj)
  ultimately have prods: "seed_products g now num_products cats sups us d3 = Inr (ps, s0, d3\<lparr>products := products d3 @ ps\<rparr>)"
    using p(1) by (simp add: seed_products_def bulk_unique_def del: upt_Suc)
  have len: "3 \<le> length ps" using arg_cong [OF p(2), of length] assms(2) by simp
  have "completed_orders (s0\<lparr>shelf_of := stock_table ps\<rparr>) = []" "new_sos (s0\<lparr>shelf_of := stock_table ps\<rparr>) = []"
    using pd(4) by (auto simp: start_seeder_def)
  from plan_orders_succeeds [OF assms(1) len pd(1) managers this] obtain s1 where
    o: "plan_orders g now num_orders ps us (s0\<lparr>shelf_of := stock_table ps\<rparr>) = Inr s1" "distinct (invoice_numbers (new_sos s1))"
    "\<forall>x \<in> set (invoice_numbers (new_sos s1)). \<exists>k. x = ''INV-DEMO'' @ k" by blast
  have "invoices_unique (d3\<lparr>products := products d3 @ ps\<rparr>) (new_sos s1)"
    by (rule demo_invoices_unique [OF assms(3) _ o(2,3)]) (simp add: d3)
  with o(1) c(1) s(1) u(1) prods show ?thesis by (simp add: seed_def seed_orders_def)
qed

subsection \<open>A run\<close>

text \<open>A random source that always takes the first of what it may take.\<close>

definition sample_rng :: rng where
  "sample_rng = \<lparr>randint = (\<lambda>n a b. a), chance = (\<lambda>n p. p \<noteq> 50), choice = (\<lambda>n m. 0), sample = (\<lambda>n m k. [0..<k]),
     marked_up = (\<lambda>n c. 2 * c)\<rparr>"

lemma sample_rng_lawful: "lawful_rng sample_rng"
  by (auto simp: lawful_rng_def sample_rng_def)

definition plain_rules :: password_rules where
  "plain_rules = \<lparr>hash_password = (\<lambda>s. s), password_errors = (\<lambda>_. []), normalize_email = (\<lambda>s. s),
     identify = (\<lambda>email password d. None), issue_tokens = (\<lambda>i now. (''refresh'', ''access'')), rotate_token = (\<lambda>s now. None),
     revoke_token = (\<lambda>s now. False)\<rparr>"

lemma sample_room: "room_for_demo sample_db" "keys_drawn sample_db" "product_keys_drawn sample_db" "balanced sample_db"
  by code_simp+

lemma seeded_category:
  assumes "seed rules g now num_products num_orders d = Inr d'" "lawful_rng g"
  shows "\<exists>c \<in> set (categories d'). starts_with demo_category_prefix (c_name c)"
proof -
  have "demo_category now (next_uuid d) (Suc 0) \<in> set (categories d')"
    by (rule seed_run [OF assms]) (force simp: num_categories_def)
  moreover have "starts_with demo_category_prefix (c_name (demo_category now (next_uuid d) (Suc 0)))"
    by (simp add: demo_category_def)
  ultimately show ?thesis by blast
qed

subsection \<open>The command, again and again\<close>

text \<open>C19. The command can be repeated at will: for every lawful random source, a first run on a shop without
  demo rows that asks for three products or more completes; a run after it, whatever it asks for, finds the demo
  data and changes nothing; and a run with \<open>--flush\<close> after it completes, and is a run on the shop as
  it was before the first one. (The width of the stock column is not checked in the bulk writes of the
  command; it would take tens of millions of demo orders to exceed it.)\<close>
theorem seed_demo_is_repeatable:
  assumes "lawful_rng g" "3 \<le> num_products" "room_for_demo d" "keys_drawn d"
    and "\<forall>spec \<in> set user_specs. normalize_email rules (fst spec @ demo_email_domain) = fst spec @ demo_email_domain"
    and "\<And>x. ends_with demo_email_domain (normalize_email rules (x @ demo_email_domain))"
  shows "\<exists>d1 d2. seed_demo rules g now num_products num_orders False d = (None, d1)
    \<and> seed_demo rules g later other_products other_orders False d1 = (None, d1)
    \<and> seed_demo rules g later num_products num_orders True d1 = (None, d2)
    \<and> seed rules g later num_products num_orders (d\<lparr>next_uuid := next_uuid d1\<rparr>) = Inr d2"
proof -
  have none: "no_demo_rows d" using assms(3) by (simp add: room_for_demo_def)
  from seed_succeeds [OF assms(1-3,5)] obtain d1 where d1: "seed rules g now num_products num_orders d = Inr d1" by blast
  obtain us cats sups ps s where rows: "demo_rows (next_uuid d) us cats sups ps s" "d1 = with_demo_rows d us cats sups ps s"
    by (rule seed_demo_rows [OF d1 assms(1,4) none assms(6)])
  then have flush: "flush d1 = (None, d\<lparr>next_uuid := next_uuid d1\<rparr>)"
    using flush_demo_rows [OF assms(4) none] by (simp add: with_demo_rows_def)
  have "room_for_demo (d\<lparr>next_uuid := next_uuid d1\<rparr>)" using assms(3) by (simp add: room_for_demo_def no_demo_rows_def)
  from seed_succeeds [OF assms(1,2) this assms(5)] obtain d2 where
    d2: "seed rules g later num_products num_orders (d\<lparr>next_uuid := next_uuid d1\<rparr>) = Inr d2" by blast
  have here: "\<exists>c \<in> set (categories d1). starts_with demo_category_prefix (c_name c)"
    by (rule seeded_category [OF d1 assms(1)])
  have "\<not> (\<exists>c \<in> set (categories d). starts_with demo_category_prefix (c_name c))"
    using none by (simp add: no_demo_rows_def)
  with d1 d2 here flush show ?thesis by (simp add: seed_demo_def)
qed

text \<open>The hypotheses at the sample shop.\<close>

lemma sample_emails:
  "\<forall>spec \<in> set user_specs. normalize_email plain_rules (fst spec @ demo_email_domain) = fst spec @ demo_email_domain"
  "ends_with demo_email_domain (normalize_email plain_rules (x @ demo_email_domain))"
  by (simp_all add: plain_rules_def)

lemma sample_run: obtains d' where "seed plain_rules sample_rng 5 3 8 sample_db = Inr d'"
  using seed_succeeds [OF sample_rng_lawful order.refl sample_room(1) sample_emails(1)] by blast

theorem seed_demo_is_repeatable_witness:
  "\<exists>d1 d2. seed_demo plain_rules sample_rng 5 3 8 False sample_db = (None, d1)
    \<and> seed_demo plain_rules sample_rng 6 500 2000 False d1 = (None, d1)
    \<and> seed_demo plain_rules sample_rng 6 3 8 True d1 = (None, d2)"
  using seed_demo_is_repeatable [OF sample_rng_lawful order.refl sample_room(1,2) sample_emails, of 5 8 6 500 2000] by blast

theorem seeding_balances_the_books_witness:
  "\<exists>d'. seed plain_rules sample_rng 5 3 8 sample_db = Inr d' \<and> balanced d' \<and> stock_nonneg d'"
proof -
  obtain d' where d': "seed plain_rules sample_rng 5 3 8 sample_db = Inr d'" by (rule sample_run)
  have "\<forall>p \<in> set (products sample_db). case stock_of sample_db (p_id p) of None \<Rightarrow> False | Some n \<Rightarrow> 0 \<le> n" by code_simp
  then have "stock_nonneg sample_db" by (auto simp: stock_nonneg_def split: option.splits)
  from seeding_balances_the_books [OF d' sample_rng_lawful sample_room(3,4) this] d' show ?thesis by blast
qed

theorem flush_undoes_seeding_witness:
  "\<exists>d'. seed plain_rules sample_rng 5 3 8 sample_db = Inr d' \<and> flush d' = (None, sample_db\<lparr>next_uuid := next_uuid d'\<rparr>)"
proof -
  obtain d' where d': "seed plain_rules sample_rng 5 3 8 sample_db = Inr d'" by (rule sample_run)
  have "no_demo_rows sample_db" using sample_room(1) by (simp add: room_for_demo_def)
  from flush_undoes_seeding [OF d' sample_rng_lawful sample_room(2) this sample_emails(2)] d' show ?thesis by blast
qed

subsection \<open>A flush that is stopped\<close>

text \<open>The sample shop with a demo product that a colleague's purchase and sales orders name.\<close>

definition adopted_db :: db where
  "adopted_db = sample_db\<lparr>products := [sample_product 20 ''DEMO-00001'' 10, sample_product 21 ''W-2'' 3]\<rparr>"

text \<open>A flush is not atomic: when an order of a real user names a demo product, the database refuses to
  delete the product after its ledger rows are gone for good, and a shop whose books balanced is left
  with stock its ledger does not explain.\<close>
theorem stopped_flush_breaks_the_books:
  "balanced adopted_db \<and> fst (flush adopted_db) = Some (ProtectedError ''product'')
    \<and> stock_of (snd (flush adopted_db)) 20 = Some 10 \<and> ledger_total (snd (flush adopted_db)) 20 = 0"
  by code_simp

end
