(* ===== verification/Seed_Shop.thy ===== *)
theory Seed_Shop
  imports Seed_Total Server
begin

section \<open>A seeded shop is a sound shop\<close>

text \<open>
  The tables a run leaves satisfy the invariant the endpoints keep: keys are unique, no order
  has two lines for one product, what is returned was sold, the books balance. So everything that
  is proved of requests on a sound database holds on a seeded one.
\<close>

subsection \<open>Keys drawn in a range\<close>

definition keys_in :: "uuid \<Rightarrow> uuid \<Rightarrow> ('r \<Rightarrow> uuid) \<Rightarrow> 'r list \<Rightarrow> bool" where
  "keys_in lo hi key t \<longleftrightarrow> distinct (map key t) \<and> (\<forall>r \<in> set t. lo \<le> key r \<and> key r < hi)"

lemma keys_in_Nil [simp]: "keys_in lo hi key []"
  by (simp add: keys_in_def)

lemma keys_in_mono: "keys_in lo hi key t \<Longrightarrow> hi \<le> hi' \<Longrightarrow> keys_in lo hi' key t"
  by (force simp: keys_in_def)

lemma keys_in_append:
  assumes "keys_in lo mid key t" "keys_in mid hi key u" "lo \<le> mid" "mid \<le> hi"
  shows "keys_in lo hi key (t @ u)"
proof -
  have "key r \<noteq> key r'" if "r \<in> set t" "r' \<in> set u" for r r'
    using that assms(1,2) unfolding keys_in_def by (metis leD)
  then have "key ` set t \<inter> key ` set u = {}" by blast
  with assms show ?thesis by (fastforce simp: keys_in_def)
qed

lemma keys_in_one: "keys_in mid hi key [r] \<longleftrightarrow> mid \<le> key r \<and> key r < hi"
  by (simp add: keys_in_def)

subsection \<open>The rows of a run\<close>

definition purchases_drawn :: "uuid \<Rightarrow> seeder \<Rightarrow> bool" where
  "purchases_drawn lo s \<longleftrightarrow> keys_in lo (fresh s) po_id (new_pos s)
     \<and> (\<forall>x \<in> set (new_po_items s). poi_order x < fresh s \<and> 1 \<le> poi_quantity x)"

text \<open>A completed order is kept with all its lines.\<close>

definition sales_drawn :: "uuid \<Rightarrow> seeder \<Rightarrow> bool" where
  "sales_drawn lo s \<longleftrightarrow> keys_in lo (fresh s) so_id (new_sos s) \<and> keys_in lo (fresh s) soi_id (new_so_items s)
     \<and> (\<forall>x \<in> set (new_so_items s). lo \<le> soi_order x \<and> soi_order x < fresh s \<and> 1 \<le> soi_quantity x)
     \<and> (\<forall>oid. distinct (map soi_product (filter (\<lambda>x. soi_order x = oid) (new_so_items s))))
     \<and> keys_in lo (fresh s) (so_id \<circ> fst) (completed_orders s)
     \<and> (\<forall>c \<in> set (completed_orders s). fst c \<in> set (new_sos s) \<and> so_status (fst c) = COMPLETED
          \<and> snd c = filter (\<lambda>x. soi_order x = so_id (fst c)) (new_so_items s))"

text \<open>At most one return for an order, for at most what one of its lines sold.\<close>

definition returns_drawn :: "uuid \<Rightarrow> seeder \<Rightarrow> bool" where
  "returns_drawn lo s \<longleftrightarrow> keys_in lo (fresh s) r_id (new_returns s) \<and> distinct (map r_order (new_returns s))
     \<and> (\<forall>r \<in> set (new_returns s). 0 \<le> r_quantity r \<and> (\<exists>c \<in> set (completed_orders s). r_order r = so_id (fst c)
          \<and> (\<exists>x \<in> set (snd c). soi_product x = r_product r \<and> r_quantity r \<le> soi_quantity x)))"

definition sound_plan :: "uuid \<Rightarrow> seeder \<Rightarrow> bool" where
  "sound_plan lo s \<longleftrightarrow> lo \<le> fresh s \<and> purchases_drawn lo s \<and> sales_drawn lo s \<and> returns_drawn lo s"

lemma purchases_drawn_mono:
  assumes "purchases_drawn lo s" "new_pos s' = new_pos s" "new_po_items s' = new_po_items s" "fresh s \<le> fresh s'"
  shows "purchases_drawn lo s'"
  using assms by (force simp: purchases_drawn_def intro: keys_in_mono)

lemma sales_drawn_mono:
  assumes "sales_drawn lo s" "new_sos s' = new_sos s" "new_so_items s' = new_so_items s"
    "completed_orders s' = completed_orders s" "fresh s \<le> fresh s'"
  shows "sales_drawn lo s'"
proof -
  note d = assms(1) [unfolded sales_drawn_def]
  have "\<forall>x \<in> set (new_so_items s). lo \<le> soi_order x \<and> soi_order x < fresh s' \<and> 1 \<le> soi_quantity x"
    using d assms(5) by fastforce
  then show ?thesis unfolding sales_drawn_def assms(2-4) using d by (intro conjI) (blast intro: keys_in_mono [OF _ assms(5)])+
qed

lemma returns_drawn_mono:
  assumes "returns_drawn lo s" "new_returns s' = new_returns s" "set (completed_orders s) \<subseteq> set (completed_orders s')"
    "fresh s \<le> fresh s'"
  shows "returns_drawn lo s'"
  using assms(1) unfolding returns_drawn_def assms(2) by (intro conjI ballI) (blast intro: keys_in_mono [OF _ assms(4)] subsetD [OF assms(3)])+

lemma sound_plan_mono:
  assumes "sound_plan lo s" "new_pos s' = new_pos s" "new_po_items s' = new_po_items s" "new_sos s' = new_sos s"
    "new_so_items s' = new_so_items s" "completed_orders s' = completed_orders s" "new_returns s' = new_returns s"
    "fresh s \<le> fresh s'"
  shows "sound_plan lo s'"
  using assms purchases_drawn_mono [of lo s s'] sales_drawn_mono [of lo s s'] returns_drawn_mono [of lo s s']
  by (simp add: sound_plan_def)

subsection \<open>The lines of an order\<close>

lemma seed_po_items_new:
  assumes "foldE (seed_po_item g now received po) qs s = Inr s'" "lawful_rng g"
  shows "fresh s \<le> fresh s' \<and> new_returns s' = new_returns s \<and> new_so_items s' = new_so_items s \<and> new_pos s' = new_pos s
    \<and> (\<forall>x \<in> set (new_po_items s'). x \<in> set (new_po_items s) \<or> (poi_order x = po_id po \<and> 1 \<le> poi_quantity x))"
    (is "?P s'")
proof (rule foldE_invariant [OF assms(1), of ?P])
  show "?P s2" if "seed_po_item g now received po p s1 = Inr s2" "?P s1" for p s1 s2
    using seed_po_item_Inr [OF that(1) assms(2)] that(2) by (auto split: if_splits)
qed simp

text \<open>The lines of a sales order: new keys, the order's key, the sampled products one after the other.\<close>

definition lines_drawn :: "uuid \<Rightarrow> sales_order \<Rightarrow> so_item list \<times> seeder \<Rightarrow> bool" where
  "lines_drawn lo so r \<longleftrightarrow> lo \<le> fresh (snd r) \<and> keys_in lo (fresh (snd r)) soi_id (fst r)
     \<and> (\<forall>x \<in> set (fst r). soi_order x = so_id so \<and> 1 \<le> soi_quantity x)"

lemma seed_so_items_new:
  assumes "foldE (seed_so_item g now completed so) qs r = Inr r'" "lawful_rng g" "lines_drawn lo so r"
  shows "lines_drawn lo so r' \<and> map soi_product (fst r') = map soi_product (fst r) @ map p_id qs"
  using assms(1,3)
proof (induction qs arbitrary: r)
  case (Cons p qs)
  from Cons.prems obtain r1 where r1: "seed_so_item g now completed so p r = Inr r1"
    "foldE (seed_so_item g now completed so) qs r1 = Inr r'" by (auto simp: bind_elims)
  have "seed_so_item g now completed so p (fst r, snd r) = Inr (fst r1, snd r1)" using r1(1) by simp
  from seed_so_item_Inr [OF this assms(2)] obtain q item where item: "fst r1 = fst r @ [item]" "soi_id item = fresh (snd r)"
    "soi_order item = so_id so" "soi_product item = p_id p" "1 \<le> soi_quantity item" "fresh (snd r) < fresh (snd r1)"
    by (auto split: if_splits)
  have "keys_in lo (fresh (snd r1)) soi_id (fst r1)"
    unfolding item(1) using Cons.prems(2) item(2,6) by (intro keys_in_append [of _ "fresh (snd r)"]) (simp_all add: lines_drawn_def keys_in_one)
  then have "lines_drawn lo so r1" using Cons.prems(2) item by (auto simp: lines_drawn_def)
  with Cons.IH [OF r1(2)] item(1,4) show ?case by simp
qed simp

subsection \<open>The orders\<close>

lemma build_purchase_order_sound:
  assumes "build_purchase_order g now ps managers s = Inr s'" "lawful_rng g" "sound_plan lo s"
  shows "sound_plan lo s'"
proof -
  from build_purchase_order_Inr [OF assms(1,2)] obtain k received chosen v po t where
    po: "po = seed_po (fresh s) now received (p_supplier (hd chosen)) v"
    and f: "foldE (seed_po_item g now received po) chosen (s\<lparr>draws := k, fresh := Suc (fresh s)\<rparr>) = Inr t"
    and s': "s' = t\<lparr>new_pos := new_pos t @ [po]\<rparr>" by blast
  have id: "po_id po = fresh s" by (simp add: po seed_po_def)
  note new = seed_po_items_new [OF f assms(2)]
  note keep = seed_po_items_keep [OF f assms(2)]
  note d = assms(3) [unfolded sound_plan_def]
  have up: "fresh s < fresh s'" "lo \<le> fresh s" using new d by (simp_all add: s')
  have "keys_in lo (fresh s') po_id (new_pos s @ [po])"
    using d up by (intro keys_in_append [of _ "fresh s"]) (simp_all add: purchases_drawn_def keys_in_one id)
  moreover have "\<forall>x \<in> set (new_po_items s'). poi_order x < fresh s' \<and> 1 \<le> poi_quantity x"
  proof
    fix x assume "x \<in> set (new_po_items s')"
    with new have "x \<in> set (new_po_items s) \<or> (poi_order x = fresh s \<and> 1 \<le> poi_quantity x)" by (simp add: s' id)
    with d up show "poi_order x < fresh s' \<and> 1 \<le> poi_quantity x" by (force simp: purchases_drawn_def)
  qed
  ultimately have "purchases_drawn lo s'" using new by (simp add: purchases_drawn_def s')
  moreover have "sales_drawn lo s'" using d new keep up by (intro sales_drawn_mono [of lo s s']) (simp_all add: s')
  moreover have "returns_drawn lo s'" using d new keep up by (intro returns_drawn_mono [of lo s s']) (simp_all add: s')
  ultimately show ?thesis using up by (simp add: sound_plan_def)
qed

text \<open>An order with new lines, put beside the others.\<close>

lemma sales_drawn_add:
  assumes "sales_drawn lo s" "lo \<le> fresh s" "so_id so = fresh s" "lines_drawn (Suc (fresh s)) so (items, t)"
    and "distinct (map soi_product items)" "completed \<Longrightarrow> so_status so = COMPLETED"
    and s': "new_sos s' = new_sos s @ [so]" "new_so_items s' = new_so_items s @ items"
      "completed_orders s' = completed_orders s @ (if completed then [(so, items)] else [])" "fresh s' = fresh t"
  shows "sales_drawn lo s'"
proof -
  note d = assms(1) [unfolded sales_drawn_def]
  have up: "Suc (fresh s) \<le> fresh s'" and items: "keys_in (Suc (fresh s)) (fresh s') soi_id items"
    "\<forall>x \<in> set items. soi_order x = fresh s \<and> 1 \<le> soi_quantity x"
    using assms(4) by (simp_all add: lines_drawn_def assms(3) s'(4))
  have mine: "filter (\<lambda>x. soi_order x = oid) items = (if oid = fresh s then items else [])" for oid
    using items(2) by (auto simp: filter_id_conv filter_empty_conv)
  have none: "filter (\<lambda>x. soi_order x = fresh s) (new_so_items s) = []"
    using d by (force simp: filter_empty_conv)
  have "keys_in lo (fresh s') so_id (new_sos s @ [so])"
    using d assms(2,3) up by (intro keys_in_append [of _ "fresh s"]) (simp_all add: keys_in_one)
  moreover have "keys_in lo (Suc (fresh s)) soi_id (new_so_items s)"
    using d by (auto intro: keys_in_mono)
  then have "keys_in lo (fresh s') soi_id (new_so_items s @ items)"
    using items(1) assms(2) up by (intro keys_in_append [of _ "Suc (fresh s)"]) simp_all
  moreover have "\<forall>x \<in> set (new_so_items s @ items). lo \<le> soi_order x \<and> soi_order x < fresh s' \<and> 1 \<le> soi_quantity x"
    using d items(2) assms(2) up by (fastforce simp: ball_Un)
  moreover have "\<forall>oid. distinct (map soi_product (filter (\<lambda>x. soi_order x = oid) (new_so_items s @ items)))"
    using d assms(5) none by (auto simp: mine)
  moreover have "keys_in lo (fresh s') (so_id \<circ> fst) (completed_orders s @ (if completed then [(so, items)] else []))"
    using d assms(2,3) up by (intro keys_in_append [of _ "fresh s"]) (simp_all add: keys_in_one)
  moreover
  have "fst c \<in> set (new_sos s @ [so]) \<and> so_status (fst c) = COMPLETED
      \<and> snd c = filter (\<lambda>x. soi_order x = so_id (fst c)) (new_so_items s @ items)" if "c \<in> set (completed_orders s)" for c
  proof -
    from that d have c: "fst c \<in> set (new_sos s)" "so_status (fst c) = COMPLETED"
      "snd c = filter (\<lambda>x. soi_order x = so_id (fst c)) (new_so_items s)" by blast+
    with d have "so_id (fst c) < fresh s" by (simp add: keys_in_def)
    then have "so_id (fst c) \<noteq> fresh s" by simp
    with c show ?thesis by (simp add: mine)
  qed
  note old = this
  have "\<forall>c \<in> set (completed_orders s @ (if completed then [(so, items)] else [])). fst c \<in> set (new_sos s @ [so])
      \<and> so_status (fst c) = COMPLETED \<and> snd c = filter (\<lambda>x. soi_order x = so_id (fst c)) (new_so_items s @ items)"
  proof
    fix c assume c: "c \<in> set (completed_orders s @ (if completed then [(so, items)] else []))"
    show "fst c \<in> set (new_sos s @ [so]) \<and> so_status (fst c) = COMPLETED
      \<and> snd c = filter (\<lambda>x. soi_order x = so_id (fst c)) (new_so_items s @ items)"
    proof (cases "c \<in> set (completed_orders s)")
      case True
      then show ?thesis by (rule old)
    next
      case False
      with c have "c = (so, items)" "completed" by (simp_all split: if_splits)
      then show ?thesis using assms(3,6) none by (simp add: mine)
    qed
  qed
  ultimately show ?thesis unfolding sales_drawn_def s'(1-3) by blast
qed

lemma build_sales_order_sound:
  assumes "build_sales_order g now ps us n s = Inr s'" "lawful_rng g" "sound_plan lo s" "distinct (map p_id ps)"
  shows "sound_plan lo s'"
  using assms(1,2)
proof (cases rule: build_sales_order_Inr)
  case (skipped k)
  with assms(3) show ?thesis by (intro sound_plan_mono [of lo s s']) simp_all
next
  case (built k completed chosen v so t items)
  note d = assms(3) [unfolded sound_plan_def]
  let ?s = "s\<lparr>draws := k, fresh := Suc (fresh s)\<rparr>"
  have "lines_drawn (Suc (fresh s)) so ([], ?s)" by (simp add: lines_drawn_def)
  from seed_so_items_new [OF built(7) assms(2) this] have l: "lines_drawn (Suc (fresh s)) so (items, t)"
    "map soi_product items = map p_id chosen" by simp_all
  note f = seed_so_items_frame [OF built(7) assms(2)]
  have "distinct ps" "inj_on p_id (set ps)" using assms(4) by (simp_all add: distinct_map)
  with built(1,2) have "distinct (map soi_product items)" unfolding l(2) by (auto simp: distinct_map intro: inj_on_subset)
  then have "sales_drawn lo s'" using d f l(1) built(8)
    by (intro sales_drawn_add [of lo s so items t completed s']) (simp_all add: built(6) seed_so_def)
  moreover have "purchases_drawn lo s'" using d f by (intro purchases_drawn_mono [of lo s s']) (simp_all add: built(8))
  moreover have "returns_drawn lo s'"
    using d f by (intro returns_drawn_mono [of lo s s']) (auto simp: built(8))
  moreover have "lo \<le> fresh s'" using d f by (simp add: built(8))
  ultimately show ?thesis by (simp add: sound_plan_def)
qed

lemma seed_order_sound:
  assumes "seed_order g now ps us n s = Inr s'" "lawful_rng g" "sound_plan lo s" "distinct (map p_id ps)"
  shows "sound_plan lo s'"
proof -
  from assms(1) obtain purchase s1 where d: "draw_chance g 50 s = Inr (purchase, s1)"
    "(if purchase then build_purchase_order g now ps (filter (\<lambda>u. u_role u \<in> {ADMIN, MANAGER}) us) s1
       else build_sales_order g now ps us n s1) = Inr s'"
    unfolding seed_order_def by (auto simp: bind_elims)
  have "sound_plan lo s1" using assms(3) draw_chanceD [OF d(1)] by (intro sound_plan_mono [of lo s s1]) simp_all
  with d(2) build_purchase_order_sound [OF _ assms(2)] build_sales_order_sound [OF _ assms(2) _ assms(4)] show ?thesis
    by (cases purchase) auto
qed

lemma seed_order_no_returns:
  assumes "seed_order g now ps us n s = Inr s'" "lawful_rng g"
  shows "new_returns s' = new_returns s"
proof -
  from assms(1) obtain purchase s1 where d: "draw_chance g 50 s = Inr (purchase, s1)"
    "(if purchase then build_purchase_order g now ps (filter (\<lambda>u. u_role u \<in> {ADMIN, MANAGER}) us) s1
       else build_sales_order g now ps us n s1) = Inr s'"
    unfolding seed_order_def by (auto simp: bind_elims)
  note s1 = draw_chanceD [OF d(1)]
  show ?thesis
  proof (cases purchase)
    case True
    with d(2) have "build_purchase_order g now ps (filter (\<lambda>u. u_role u \<in> {ADMIN, MANAGER}) us) s1 = Inr s'" by simp
    from build_purchase_order_Inr [OF this assms(2)] obtain k received chosen po t where
      f: "foldE (seed_po_item g now received po) chosen (s1\<lparr>draws := k, fresh := Suc (fresh s1)\<rparr>) = Inr t"
      "s' = t\<lparr>new_pos := new_pos t @ [po]\<rparr>" by blast
    with seed_po_items_new [OF f(1) assms(2)] s1 show ?thesis by simp
  next
    case False
    with d(2) have "build_sales_order g now ps us n s1 = Inr s'" by simp
    from this assms(2) show ?thesis
    proof (cases rule: build_sales_order_Inr)
      case (built k completed chosen v so t items)
      from seed_so_items_frame [OF built(7) assms(2)] s1 show ?thesis by (simp add: built(8))
    qed (simp add: s1)
  qed
qed

subsection \<open>The returns and the damage\<close>

lemma seed_return_sound:
  assumes "seed_return g now us c s = Inr s'" "lawful_rng g" "sound_plan lo s" "c \<in> set (completed_orders s)"
    and "so_id (fst c) \<notin> r_order ` set (new_returns s)"
  shows "sound_plan lo s' \<and> completed_orders s' = completed_orders s
    \<and> r_order ` set (new_returns s') = insert (so_id (fst c)) (r_order ` set (new_returns s))"
proof -
  have "seed_return g now us (fst c, snd c) s = Inr s'" using assms(1) by simp
  from seed_return_Inr [OF this assms(2)] obtain item r where item: "item \<in> set (snd c)" "r_id r = fresh s" "r_order r = so_id (fst c)"
      "r_product r = soi_product item" "0 \<le> r_quantity r" "r_quantity r \<le> soi_quantity item"
    and s': "new_returns s' = new_returns s @ [r]" "completed_orders s' = completed_orders s" "fresh s < fresh s'"
      "new_pos s' = new_pos s" "new_po_items s' = new_po_items s" "new_sos s' = new_sos s" "new_so_items s' = new_so_items s"
    by (elim exE conjE disjE) (force, force)
  note d = assms(3) [unfolded sound_plan_def]
  have "keys_in lo (fresh s') r_id (new_returns s')"
    using d item(2) s'(3) unfolding s'(1) by (intro keys_in_append [of _ "fresh s"]) (simp_all add: returns_drawn_def keys_in_one)
  moreover have "distinct (map r_order (new_returns s'))" using d assms(5) item(3) by (simp add: returns_drawn_def s'(1))
  moreover have "0 \<le> r_quantity q \<and> (\<exists>c \<in> set (completed_orders s'). r_order q = so_id (fst c)
      \<and> (\<exists>x \<in> set (snd c). soi_product x = r_product q \<and> r_quantity q \<le> soi_quantity x))" if "q \<in> set (new_returns s')" for q
  proof (cases "q \<in> set (new_returns s)")
    case True
    with d show ?thesis unfolding returns_drawn_def s'(2) by blast
  next
    case False
    with that have "q = r" by (simp add: s'(1))
    with item assms(4) show ?thesis unfolding s'(2) by metis
  qed
  ultimately have "returns_drawn lo s'" unfolding returns_drawn_def by blast
  moreover have "purchases_drawn lo s'" "sales_drawn lo s'"
    using d s' by (auto intro: purchases_drawn_mono [of lo s] sales_drawn_mono [of lo s])
  ultimately show ?thesis using d item(3) s'(1-3) by (simp add: sound_plan_def)
qed

lemma seed_returns_sound:
  assumes "foldE (seed_return g now us) chosen s = Inr s'" "lawful_rng g" "sound_plan lo s"
    and "set chosen \<subseteq> set (completed_orders s)" "distinct (map (so_id \<circ> fst) chosen)"
    and "\<forall>c \<in> set chosen. so_id (fst c) \<notin> r_order ` set (new_returns s)"
  shows "sound_plan lo s'"
  using assms(1,3-6)
proof (induction chosen arbitrary: s)
  case (Cons c chosen)
  from Cons.prems(1) obtain t where t: "seed_return g now us c s = Inr t" "foldE (seed_return g now us) chosen t = Inr s'"
    by (auto simp: bind_elims)
  have "c \<in> set (completed_orders s)" "so_id (fst c) \<notin> r_order ` set (new_returns s)" using Cons.prems(3,5) by simp_all
  note one = seed_return_sound [OF t(1) assms(2) Cons.prems(2) this]
  have "so_id (fst c') \<noteq> so_id (fst c)" if "c' \<in> set chosen" for c'
  proof -
    have "(so_id \<circ> fst) c \<notin> (so_id \<circ> fst) ` set chosen" using Cons.prems(4) unfolding list.map distinct.simps set_map by blast
    with imageI [OF that, of "so_id \<circ> fst"] show ?thesis by (metis comp_apply)
  qed
  with one Cons.prems(5) have "\<forall>c' \<in> set chosen. so_id (fst c') \<notin> r_order ` set (new_returns t)" by simp
  with one Cons.prems(3,4) show ?case by (intro Cons.IH [OF t(2)]) simp_all
qed simp

text \<open>Opening balances and damage only book.\<close>

lemma only_bookings:
  shows "opening_txn g now managers p t = Inr t' \<Longrightarrow> lawful_rng g \<Longrightarrow> new_pos t' = new_pos t \<and> new_po_items t' = new_po_items t
      \<and> new_sos t' = new_sos t \<and> new_so_items t' = new_so_items t \<and> completed_orders t' = completed_orders t
      \<and> new_returns t' = new_returns t \<and> fresh t \<le> fresh t'"
    and "seed_damage g now managers p t = Inr t' \<Longrightarrow> lawful_rng g \<Longrightarrow> new_pos t' = new_pos t \<and> new_po_items t' = new_po_items t
      \<and> new_sos t' = new_sos t \<and> new_so_items t' = new_so_items t \<and> completed_orders t' = completed_orders t
      \<and> new_returns t' = new_returns t \<and> fresh t \<le> fresh t'"
  by (drule (1) opening_txn_Inr seed_damage_Inr, auto split: if_splits)+

lemma plan_orders_sound:
  assumes "plan_orders g now m ps us s = Inr s'" "lawful_rng g" "distinct (map p_id ps)" "sound_plan lo s" "new_returns s = []"
  shows "sound_plan lo s'"
proof -
  let ?managers = "filter (\<lambda>u. u_role u \<in> {ADMIN, MANAGER}) us"
  let ?I = "\<lambda>s. sound_plan lo s \<and> new_returns s = []"
  from assms(1) obtain s1 s2 s3 where r: "foldE (opening_txn g now ?managers) ps s = Inr s1"
    "foldE (seed_order g now ps us) [0..<m] s1 = Inr s2" "build_returns g now us s2 = Inr s3"
    "build_damage g now ps ?managers (max 1 (m div 40)) s3 = Inr s'"
    unfolding plan_orders_def Let_def by (auto simp: bind_elims)
  have "?I s1"
  proof (rule foldE_invariant [OF r(1), of ?I])
    show "?I s" using assms(4,5) by simp
    show "?I t'" if "opening_txn g now ?managers p t = Inr t'" "?I t" for p t t'
      using only_bookings(1) [OF that(1) assms(2)] that(2) sound_plan_mono [of lo t t'] by metis
  qed
  then have i2: "?I s2"
  proof (rule foldE_invariant [OF r(2), of ?I])
    show "?I t'" if "seed_order g now ps us n t = Inr t'" "?I t" for n t t'
      using seed_order_sound [OF that(1) assms(2) _ assms(3)] seed_order_no_returns [OF that(1) assms(2)] that(2) by simp
  qed
  have i3: "sound_plan lo s3"
  proof (cases "completed_orders s2 = []")
    case True
    with r(3) i2 show ?thesis by (simp add: build_returns_def Let_def)
  next
    case False
    with r(3) obtain k chosen t where d: "draw_sample g (completed_orders s2) k s2 = Inr (chosen, t)"
      "foldE (seed_return g now us) chosen t = Inr s3"
      unfolding build_returns_def Let_def by (auto simp: bind_elims)
    note e = draw_sampleD [OF d(1) assms(2)]
    have "distinct (map (so_id \<circ> fst) (completed_orders s2))" using i2 by (simp add: sound_plan_def sales_drawn_def keys_in_def)
    with e have "distinct (map (so_id \<circ> fst) chosen)" by (auto simp: distinct_map intro: inj_on_subset)
    with e i2 show ?thesis
      by (intro seed_returns_sound [OF d(2) assms(2)]) (auto intro: sound_plan_mono [of lo s2])
  qed
  from r(4) obtain qs k chosen t where d: "draw_sample g qs k s3 = Inr (chosen, t)"
    "foldE (seed_damage g now ?managers) chosen t = Inr s'"
    unfolding build_damage_def Let_def by (auto simp: bind_elims)
  show ?thesis
  proof (rule foldE_invariant [OF d(2)])
    show "sound_plan lo t" using draw_sampleD [OF d(1) assms(2)] i3 by (auto intro: sound_plan_mono [of lo s3])
    show "sound_plan lo t2" if "seed_damage g now ?managers p t1 = Inr t2" "sound_plan lo t1" for p t1 t2
      using only_bookings(2) [OF that(1) assms(2)] that(2) sound_plan_mono [of lo t1 t2] by metis
  qed
qed

subsection \<open>The tables after a run\<close>

lemma keys_in_below: "keys_in 0 n key t \<longleftrightarrow> distinct (map key t) \<and> (\<forall>i \<in> set (map key t). i < n)"
  by (auto simp: keys_in_def)

lemma keys_in_beside:
  assumes "keys_in 0 n key t" "keys_in lo hi key u" "n \<le> lo" "lo \<le> hi"
  shows "keys_in 0 hi key (t @ u)"
proof (rule keys_in_append)
  show "keys_in 0 lo key t" by (rule keys_in_mono [OF assms(1,3)])
qed (use assms in simp_all)

text \<open>The rows of a plan, put beside those of a sound database with smaller keys.\<close>

definition beside :: "db \<Rightarrow> seeder \<Rightarrow> db \<Rightarrow> bool" where
  "beside d s d' \<longleftrightarrow> purchase_orders d' = purchase_orders d @ new_pos s \<and> po_items d' = po_items d @ new_po_items s
     \<and> sales_orders d' = sales_orders d @ new_sos s \<and> so_items d' = so_items d @ new_so_items s
     \<and> return_requests d' = return_requests d @ new_returns s \<and> next_uuid d' = fresh s"

lemma beside_wf:
  assumes "beside d s d'" "sound_plan lo s" "next_uuid d \<le> lo" "wf_purchases d" "wf_sales d" "wf_returns d"
  shows "wf_purchases d'" "wf_sales d'" "wf_returns d'"
proof -
  note b = assms(1) [unfolded beside_def] and p = assms(2) [unfolded sound_plan_def]
  have up: "lo \<le> fresh s" "next_uuid d \<le> fresh s" using p assms(3) by simp_all
  have "keys_in 0 (fresh s) po_id (purchase_orders d @ new_pos s)"
    using p assms(4) by (intro keys_in_beside [OF _ _ assms(3) up(1)]) (simp_all add: wf_purchases_def purchases_drawn_def keys_in_below)
  moreover have "\<forall>x \<in> set (po_items d @ new_po_items s). poi_order x < fresh s \<and> 1 \<le> poi_quantity x"
    using p assms(4) up(2) by (fastforce simp: wf_purchases_def purchases_drawn_def)
  ultimately show "wf_purchases d'" using b by (simp add: wf_purchases_def keys_in_below)
  have "keys_in 0 (fresh s) so_id (sales_orders d @ new_sos s)"
    using p assms(5) by (intro keys_in_beside [OF _ _ assms(3) up(1)]) (simp_all add: wf_sales_def sales_drawn_def keys_in_below)
  moreover have "keys_in 0 (fresh s) soi_id (so_items d @ new_so_items s)"
    using p assms(5) by (intro keys_in_beside [OF _ _ assms(3) up(1)]) (simp_all add: wf_sales_def sales_drawn_def keys_in_below)
  moreover have "\<forall>x \<in> set (so_items d @ new_so_items s). soi_order x < fresh s \<and> 1 \<le> soi_quantity x"
    using p assms(5) up(2) by (fastforce simp: wf_sales_def sales_drawn_def)
  ultimately show "wf_sales d'" using b by (auto simp: wf_sales_def keys_in_below)
  have "keys_in 0 (fresh s) r_id (return_requests d @ new_returns s)"
    using p assms(6) by (intro keys_in_beside [OF _ _ assms(3) up(1)]) (simp_all add: wf_returns_def returns_drawn_def keys_in_below)
  moreover have "\<forall>x \<in> set (return_requests d @ new_returns s). 0 \<le> r_quantity x"
    using p assms(6) by (auto simp: wf_returns_def returns_drawn_def)
  ultimately show "wf_returns d'" using b by (auto simp: wf_returns_def keys_in_below)
qed

text \<open>The lines of an order are all old or all new.\<close>

lemma beside_lines:
  assumes "beside d s d'" "sound_plan lo s" "next_uuid d \<le> lo" "wf_sales d"
  shows "items_of_so oid d' = (if oid < next_uuid d then items_of_so oid d else filter (\<lambda>x. soi_order x = oid) (new_so_items s))"
proof -
  have "\<forall>x \<in> set (so_items d). soi_order x < next_uuid d" using assms(4) by (simp add: wf_sales_def)
  moreover have "\<forall>x \<in> set (new_so_items s). next_uuid d \<le> soi_order x"
    using assms(2,3) unfolding sound_plan_def sales_drawn_def by (meson order_trans)
  ultimately have "filter (\<lambda>x. soi_order x = oid) (so_items d) = [] \<or> oid < next_uuid d"
    "oid < next_uuid d \<Longrightarrow> filter (\<lambda>x. soi_order x = oid) (new_so_items s) = []" by (auto simp: filter_empty_conv)
  with assms(1) show ?thesis by (auto simp: beside_def)
qed

lemma beside_single_lines:
  assumes "beside d s d'" "sound_plan lo s" "next_uuid d \<le> lo" "wf_sales d" "single_lines d"
  shows "single_lines d'"
  using assms(2,5) by (auto simp: single_lines_def beside_lines [OF assms(1-4)] sound_plan_def sales_drawn_def)

text \<open>So is what is reserved, and what is new is one return.\<close>

lemma one_return:
  assumes "distinct (map r_order rs)" "\<And>r. r \<in> set rs \<Longrightarrow> r_order r = oid \<Longrightarrow> f r \<le> n" "0 \<le> n"
  shows "total f (filter (\<lambda>r. r_order r = oid \<and> P r) rs) \<le> (n::int)"
proof -
  have "length (filter (\<lambda>r. r_order r = oid \<and> P r) rs) \<le> 1"
    using assms(1)
  proof (induction rs)
    case (Cons r rs)
    then show ?case by (cases "r_order r = oid") (auto simp: filter_empty_conv image_iff)
  qed simp
  then obtain r where "filter (\<lambda>r. r_order r = oid \<and> P r) rs = [] \<or> filter (\<lambda>r. r_order r = oid \<and> P r) rs = [r]"
    by (cases "filter (\<lambda>r. r_order r = oid \<and> P r) rs") auto
  then show ?thesis
  proof
    assume one: "filter (\<lambda>r. r_order r = oid \<and> P r) rs = [r]"
    then have "r \<in> set (filter (\<lambda>r. r_order r = oid \<and> P r) rs)" by simp
    then have "f r \<le> n" by (intro assms(2)) simp_all
    then show ?thesis unfolding one by simp
  qed (use assms(3) in simp)
qed

lemma old_return_below:
  assumes "wf_sales d" "returns_covered d" "r \<in> set (return_requests d)"
  shows "r_order r < next_uuid d"
proof -
  from assms(2,3) obtain so where "get_so (r_order r) d = Some so" unfolding returns_covered_def by blast
  then have "so \<in> set (sales_orders d)" "so_id so = r_order r" by (auto dest: get_row_SomeD)
  with assms(1) show ?thesis by (force simp: wf_sales_def)
qed

lemma new_return_line:
  assumes "sound_plan lo s" "r \<in> set (new_returns s)"
  obtains so x where "so \<in> set (new_sos s)" "so_id so = r_order r" "so_status so = COMPLETED" "lo \<le> r_order r"
    "x \<in> set (filter (\<lambda>x. soi_order x = r_order r) (new_so_items s))" "soi_product x = r_product r" "r_quantity r \<le> soi_quantity x"
proof -
  note p = assms(1) [unfolded sound_plan_def]
  from assms(2) p obtain c x where c: "c \<in> set (completed_orders s)" "r_order r = so_id (fst c)" "x \<in> set (snd c)"
    "soi_product x = r_product r" "r_quantity r \<le> soi_quantity x" unfolding returns_drawn_def by blast
  moreover from c(1) p have so: "fst c \<in> set (new_sos s)" "so_status (fst c) = COMPLETED"
    "snd c = filter (\<lambda>x. soi_order x = so_id (fst c)) (new_so_items s)" unfolding sales_drawn_def by blast+
  moreover from so(1) p have "lo \<le> so_id (fst c)" unfolding sales_drawn_def keys_in_def by blast
  ultimately show thesis by (intro that [of "fst c" x]) simp_all
qed

lemma beside_return_orders:
  assumes "beside d s d'" "sound_plan lo s" "next_uuid d \<le> lo" "wf_sales d" "returns_covered d" "r \<in> set (return_requests d')"
  shows "\<exists>so. get_so (r_order r) d' = Some so \<and> so_status so = COMPLETED"
proof -
  note b = assms(1) [unfolded beside_def] and p = assms(2) [unfolded sound_plan_def]
  from assms(6) b consider "r \<in> set (return_requests d)" | "r \<in> set (new_returns s)" by auto
  then show ?thesis
  proof cases
    case 1
    with assms(5) obtain so where "get_so (r_order r) d = Some so" "so_status so = COMPLETED" unfolding returns_covered_def by blast
    with b show ?thesis by (simp add: get_row_append)
  next
    case 2
    from new_return_line [OF assms(2) this] obtain so where so: "so \<in> set (new_sos s)" "so_id so = r_order r"
      "so_status so = COMPLETED" "lo \<le> r_order r" by metis
    have "\<forall>so \<in> set (sales_orders d). so_id so < next_uuid d" using assms(4) by (simp add: wf_sales_def)
    with so(4) assms(3) have "get_row so_id (r_order r) (sales_orders d) = None" by (force simp: get_row_None)
    moreover have "distinct (map so_id (new_sos s))" using p by (simp add: sales_drawn_def keys_in_def)
    from get_row_eqI [OF this so(1)] have "get_row so_id (r_order r) (new_sos s) = Some so" by (simp add: so(2))
    ultimately show ?thesis using so(3) b by (simp add: get_row_append)
  qed
qed

lemma beside_reserved:
  assumes "beside d s d'" "sound_plan lo s" "next_uuid d \<le> lo" "wf_sales d" "returns_covered d"
  shows "already_reserved d' oid pid \<le> sold_quantity d' oid pid"
proof -
  note b = assms(1) [unfolded beside_def] and p = assms(2) [unfolded sound_plan_def]
  let ?P = "\<lambda>r. r_order r = oid \<and> r_product r = pid \<and> r_status r \<in> {PENDING, APPROVED}"
  let ?mine = "filter (\<lambda>x. soi_product x = pid) (filter (\<lambda>x. soi_order x = oid) (new_so_items s))"
  have sold: "sold_quantity d' oid pid = (if oid < next_uuid d then sold_quantity d oid pid else total soi_quantity ?mine)"
    by (simp add: sold_quantity_def beside_lines [OF assms(1-4)] del: filter_filter)
  have reserved: "already_reserved d' oid pid = already_reserved d oid pid + total r_quantity (filter ?P (new_returns s))"
    using b by (simp add: already_reserved_def)
  show ?thesis
  proof (cases "oid < next_uuid d")
    case True
    have "r_order r \<noteq> oid" if "r \<in> set (new_returns s)" for r
      using new_return_line [OF assms(2) that] True assms(3) by (metis leD le_trans)
    then have "filter ?P (new_returns s) = []" by (auto simp: filter_empty_conv)
    moreover have "already_reserved d oid pid \<le> sold_quantity d oid pid" using assms(5) by (simp add: returns_covered_def)
    ultimately show ?thesis using True by (simp add: sold reserved)
  next
    case False
    have "r_order r \<noteq> oid" if "r \<in> set (return_requests d)" for r
      using old_return_below [OF assms(4,5) that] False by auto
    then have old: "already_reserved d oid pid = 0" by (simp add: already_reserved_def filter_False)
    have pos: "0 \<le> soi_quantity x" if "x \<in> set (new_so_items s)" for x
      using p that unfolding sales_drawn_def by fastforce
    have "r_quantity r \<le> total soi_quantity ?mine" if r: "r \<in> set (new_returns s)" "r_order r = oid" "r_product r = pid" for r
    proof -
      obtain x where "x \<in> set (filter (\<lambda>x. soi_order x = r_order r) (new_so_items s))" "soi_product x = r_product r"
        "r_quantity r \<le> soi_quantity x" by (rule new_return_line [OF assms(2) r(1)])
      with r(2,3) have x: "x \<in> set ?mine" "r_quantity r \<le> soi_quantity x" by simp_all
      have "soi_quantity x \<le> total soi_quantity ?mine"
        using member_le_sum_list [of "soi_quantity x" "map soi_quantity ?mine"] x(1) pos by auto
      with x(2) show ?thesis by simp
    qed
    moreover have "0 \<le> total soi_quantity ?mine" by (rule total_nonneg) (use pos in auto)
    moreover have "distinct (map r_order (new_returns s))" using p by (simp add: returns_drawn_def)
    ultimately have "total (\<lambda>r. if r_product r = pid then r_quantity r else 0) (filter ?P (new_returns s)) \<le> total soi_quantity ?mine"
      by (intro one_return) auto
    moreover have "total (\<lambda>r. if r_product r = pid then r_quantity r else 0) (filter ?P (new_returns s)) = total r_quantity (filter ?P (new_returns s))"
      by (intro arg_cong [of _ _ sum_list] map_cong) auto
    ultimately show ?thesis using old False by (simp add: sold reserved)
  qed
qed

subsection \<open>The shop\<close>

text \<open>C17. A seeded shop is a sound shop: from a database that satisfies the invariant of the endpoints,
  every run that succeeds, for every lawful random source, leaves one that does; and it still
  does after any inventory requests that are then served, as long as none of them names a product
  in two lines of one sales order: the books balance, no stock is negative, and no more is
  returned than was sold.\<close>
theorem seeded_shops_are_sound:
  assumes "seed rules g now num_products num_orders d = Inr d'" "lawful_rng g" "inventory_inv d" "product_keys_drawn d"
    and "list_all (\<lambda>e. single_line_request (snd (snd e))) es"
  shows "inventory_inv d' \<and> product_keys_drawn d' \<and> inventory_inv (w_db (fold after es \<lparr>w_db = d', w_fired = [], w_log = []\<rparr>))"
proof -
  obtain cats sups us new ps s0 s lo where r:
    "lo = next_uuid d + num_categories + num_suppliers + length new" "seeded_products cats sups lo (ps, s0)"
    and o: "plan_orders g now num_orders ps us (s0\<lparr>shelf_of := stock_table ps\<rparr>) = Inr s"
    and d': "d' = d\<lparr>categories := categories d @ cats, suppliers := suppliers d @ sups, users := users d @ new,
       purchase_orders := purchase_orders d @ new_pos s, po_items := po_items d @ new_po_items s,
       sales_orders := sales_orders d @ new_sos s, so_items := so_items d @ new_so_items s,
       return_requests := return_requests d @ new_returns s, transactions := transactions d @ new_txns s,
       products := update_stocks ps (shelf_of s) (products d @ ps), next_uuid := fresh s\<rparr>"
    by (rule seed_run [OF assms(1,2)])
  note ps = seeded_productsD [OF r(2)]
  note inv = inventory_invD [OF assms(3)]
  have lo: "next_uuid d \<le> lo" using r(1) by simp
  have "sound_plan lo (s0\<lparr>shelf_of := stock_table ps\<rparr>) \<and> sound_plan (fresh s0) (s0\<lparr>shelf_of := stock_table ps\<rparr>)
      \<and> new_returns s0 = [] \<and> new_txns s0 = [] \<and> completed_orders s0 = []"
    using ps(4,5) by (auto simp: sound_plan_def purchases_drawn_def sales_drawn_def returns_drawn_def start_seeder_def)
  then have plan: "sound_plan lo s" and later: "sound_plan (fresh s0) s" and books: "in_books (p_id ` set ps) s"
    using plan_orders_sound [OF o assms(2) ps(1)] plan_orders_books [OF o assms(2) ps(1,2)] by simp_all
  then have up: "next_uuid d \<le> fresh s" "\<forall>q \<in> set ps. next_uuid d \<le> p_id q \<and> p_id q < fresh s"
    using lo ps(6) by (fastforce simp: sound_plan_def seeded_row_def)+
  have b: "beside d s d'" by (simp add: beside_def d')
  have old: "\<forall>q \<in> set (products d). p_id q < next_uuid d" using assms(4) by (simp add: product_keys_drawn_def)
  have ids: "map p_id (products d') = map p_id (products d) @ map p_id ps" by (simp add: d')
  have "wf_products d'"
    unfolding wf_products_def ids using inv(1) ps(1) old up(2) by (fastforce simp: wf_products_def)
  moreover have "product_keys_drawn d'"
  proof -
    have hi: "next_uuid d' = fresh s" by (simp add: d')
    have "\<forall>i \<in> set (map p_id (products d')). i < fresh s" unfolding ids using old up by auto
    then have "\<forall>q \<in> set (products d'). p_id q < next_uuid d'" unfolding set_map hi by blast
    moreover have "\<forall>t \<in> set (new_txns s). t_product t \<in> p_id ` set ps" using books unfolding in_books_def by blast
    then have "\<forall>t \<in> set (new_txns s). t_product t < fresh s" using up(2) by fastforce
    moreover have "\<forall>t \<in> set (transactions d). t_product t < fresh s" using assms(4) up(1) by (auto simp: product_keys_drawn_def)
    ultimately have "\<forall>t \<in> set (transactions d'). t_product t < next_uuid d'" by (auto simp: d')
    with \<open>\<forall>q \<in> set (products d'). p_id q < next_uuid d'\<close> show ?thesis by (simp add: product_keys_drawn_def)
  qed
  moreover have "balanced d'" "stock_nonneg d'" using seeding_balances_the_books [OF assms(1,2,4) inv(7,8)] by simp_all
  ultimately have "inventory_inv d'" "product_keys_drawn d'"
    using beside_wf [OF b plan lo inv(2-4)] beside_single_lines [OF b plan lo inv(3,5)]
      beside_return_orders [OF b plan lo inv(3,6)] beside_reserved [OF b plan lo inv(3,6)]
    by (simp_all add: inventory_invI returns_covered_def)
  with server.always_good [OF assms(5), of "\<lparr>w_db = d', w_fired = [], w_log = []\<rparr>" "length es"] show ?thesis by simp
qed

theorem seeded_shops_are_sound_witness:
  "\<exists>d'. seed plain_rules sample_rng 5 3 8 sample_db = Inr d'
     \<and> inventory_inv (w_db (fold after sample_events \<lparr>w_db = d', w_fired = [], w_log = []\<rparr>))"
proof -
  obtain d' where d': "seed plain_rules sample_rng 5 3 8 sample_db = Inr d'" by (rule sample_run)
  have "list_all (\<lambda>e. single_line_request (snd (snd e))) sample_events" by code_simp
  from seeded_shops_are_sound [OF d' sample_rng_lawful sample_inventory_inv sample_room(3) this] d' show ?thesis by blast
qed

end
