(* ===== verification/Loadtest.thy ===== *)
theory Loadtest
  imports Seed_Shop
begin

section \<open>Load test support\<close>

text \<open>
  The commands that prepare a load test, \<open>reset_loadtest_stock.py\<close> and
  \<open>generate_loadtest_tokens.py\<close> of \<open>apps/catalog/management/commands\<close>, and the task of the \<open>StockMutator\<close> user
  of \<open>loadtest/locustfile.py\<close>: create an order for one unit of the contended product, then complete it.
  The commands run outside any transaction: every statement commits on its own.
\<close>

subsection \<open>Resetting the contended product\<close>

definition contended_sku :: string where
  "contended_sku = ''LOADTEST-CONTENDED-001''"

text \<open>\<open>get_or_create\<close>, by a unique column; by \<open>name\<close>, which is not unique for suppliers; by \<open>sku\<close>.\<close>

definition loadtest_category :: "time \<Rightarrow> db \<Rightarrow> category \<times> db" where
  "loadtest_category now d = (case get_row c_name ''Load Test Category'' (categories d) of
     Some c \<Rightarrow> (c, d)
   | None \<Rightarrow>
       let c = \<lparr>c_id = next_uuid d, c_name = ''Load Test Category'', c_description = None, c_is_active = True,
                c_created_at = now, c_updated_at = now, c_created_by = None\<rparr>
       in (c, draw_uuid (d\<lparr>categories := categories d @ [c]\<rparr>)))"

definition loadtest_supplier :: "time \<Rightarrow> db \<Rightarrow> exn + supplier \<times> db" where
  "loadtest_supplier now d = (case filter (\<lambda>x. s_name x = ''Load Test Supplier'') (suppliers d) of
     [] \<Rightarrow>
       let x = \<lparr>s_id = next_uuid d, s_name = ''Load Test Supplier'', s_email = ''loadtest-supplier@example.com'',
                s_phone = None, s_address = None, s_is_active = True, s_created_at = now, s_updated_at = now,
                s_created_by = None\<rparr>
       in bindE (bulk_unique ''email'' s_email (suppliers d) [x]) (\<lambda>t. Inr (x, draw_uuid (d\<lparr>suppliers := t\<rparr>)))
   | [x] \<Rightarrow> Inr (x, d)
   | _ \<Rightarrow> Inl (MultipleObjectsReturned ''Supplier''))"

definition loadtest_product :: "time \<Rightarrow> int \<Rightarrow> category \<Rightarrow> supplier \<Rightarrow> db \<Rightarrow> exn + product \<times> db" where
  "loadtest_product now stock category supplier d = (case get_row p_sku contended_sku (products d) of
     Some p \<Rightarrow> Inr (p, d)
   | None \<Rightarrow>
       let p = \<lparr>p_id = next_uuid d, p_sku = contended_sku, p_name = ''Load Test Contended Product'', p_description = None,
                p_cost_price = 500, p_selling_price = 900, p_current_stock = stock, p_low_stock_threshold = 0,
                p_category = c_id category, p_supplier = s_id supplier, p_is_active = True, p_created_at = now,
                p_updated_at = now, p_created_by = None\<rparr>
       in bindE (check_integer stock) (\<lambda>_. Inr (p, draw_uuid (d\<lparr>products := products d @ [p]\<rparr>))))"

text \<open>The orders that are left without lines are deleted; a return protects its order.\<close>

definition delete_empty_orders :: "uuid list \<Rightarrow> db \<Rightarrow> exn + db" where
  "delete_empty_orders stale d =
     (let ids = set (map so_id (filter (\<lambda>so. so_id so \<in> set stale \<and> items_of_so (so_id so) d = []) (sales_orders d)))
      in bindE (guardE (\<forall>r \<in> set (return_requests d). r_order r \<notin> ids) (ProtectedError ''Return.sales_order'')) (\<lambda>_.
           Inr (d\<lparr>sales_orders := delete_rows (\<lambda>so. so_id so \<in> ids) (sales_orders d)\<rparr>)))"

definition save_reset_product :: "uuid \<Rightarrow> int \<Rightarrow> db \<Rightarrow> exn + db" where
  "save_reset_product pid stock d = bindE (check_integer stock) (\<lambda>_.
     Inr (d\<lparr>products := update_row p_id pid (\<lambda>r. r\<lparr>p_current_stock := stock, p_is_active := True\<rparr>) (products d)\<rparr>))"

definition reset_steps :: "uuid \<Rightarrow> int \<Rightarrow> uuid list \<Rightarrow> (db \<Rightarrow> exn + db) list" where
  "reset_steps pid stock stale =
     [\<lambda>d. Inr (d\<lparr>transactions := delete_rows (\<lambda>t. t_product t = pid) (transactions d)\<rparr>),
      \<lambda>d. Inr (d\<lparr>so_items := delete_rows (\<lambda>x. soi_product x = pid) (so_items d)\<rparr>),
      delete_empty_orders stale,
      save_reset_product pid stock]"

definition stale_order_ids :: "uuid \<Rightarrow> db \<Rightarrow> uuid list" where
  "stale_order_ids pid d = map soi_order (filter (\<lambda>x. soi_product x = pid) (so_items d))"

definition reset_loadtest_stock :: "time \<Rightarrow> int \<Rightarrow> db \<Rightarrow> exn option \<times> db" where
  "reset_loadtest_stock now stock d =
     (let (category, d) = loadtest_category now d
      in case loadtest_supplier now d of
           Inl e \<Rightarrow> (Some e, d)
         | Inr (supplier, d) \<Rightarrow>
             (case loadtest_product now stock category supplier d of
                Inl e \<Rightarrow> (Some e, d)
              | Inr (p, d) \<Rightarrow> autocommit (reset_steps (p_id p) stock (stale_order_ids (p_id p) d)) d))"

subsection \<open>The users of a load test\<close>

text \<open>\<open>_provision\<close>; \<open>token\<close> is the token library.\<close>

definition loadtest_email :: "string \<Rightarrow> nat \<Rightarrow> string" where
  "loadtest_email prefix i = prefix @ ''-'' @ pad 4 i @ ''@loadtest.local''"

fun provision_users ::
  "password_rules \<Rightarrow> (user \<Rightarrow> string) \<Rightarrow> time \<Rightarrow> role_name \<Rightarrow> string \<Rightarrow> nat list \<Rightarrow> string list \<times> db \<Rightarrow> exn option \<times> string list \<times> db" where
  "provision_users rules token now role prefix [] (tokens, d) = (None, tokens, d)"
| "provision_users rules token now role prefix (i # is) (tokens, d) =
     (let email = loadtest_email prefix i
      in case get_row u_email email (users d) of
           Some u \<Rightarrow> provision_users rules token now role prefix is (tokens @ [token u], d)
         | None \<Rightarrow>
             (case create_user rules now email ''loadtestpass123'' ((default_fields email)\<lparr>uf_role := role\<rparr>) d of
                Inl e \<Rightarrow> (Some e, tokens, d)
              | Inr (u, d) \<Rightarrow> provision_users rules token now role prefix is (tokens @ [token u], d)))"

definition provision ::
  "password_rules \<Rightarrow> (user \<Rightarrow> string) \<Rightarrow> time \<Rightarrow> role_name \<Rightarrow> string \<Rightarrow> nat \<Rightarrow> db \<Rightarrow> exn option \<times> string list \<times> db" where
  "provision rules token now role prefix number d = provision_users rules token now role prefix [0..<number] ([], d)"

text \<open>The command: the tokens it writes, if it comes that far.\<close>

definition generate_loadtest_tokens ::
  "password_rules \<Rightarrow> (user \<Rightarrow> string) \<Rightarrow> time \<Rightarrow> nat \<Rightarrow> nat \<Rightarrow> db \<Rightarrow> (exn + string list \<times> string list) \<times> db" where
  "generate_loadtest_tokens rules token now employees managers d =
     (case provision rules token now EMPLOYEE ''loadtest-employee'' employees d of
        (Some e, _, d) \<Rightarrow> (Inl e, d)
      | (None, es, d) \<Rightarrow>
          (case provision rules token now MANAGER ''loadtest-manager'' managers d of
             (Some e, _, d) \<Rightarrow> (Inl e, d)
           | (None, ms, d) \<Rightarrow> (Inr (es, ms), d)))"

subsection \<open>The task of a \<open>StockMutator\<close> user\<close>

definition one_unit :: "uuid \<Rightarrow> so_input" where
  "one_unit pid = \<lparr>soin_customer_name = Absent, soin_customer_phone = Absent,
     soin_items = Given [\<lparr>sii_product = Given pid, sii_quantity = Given 1\<rparr>]\<rparr>"

text \<open>
  The status of the completion, if the order was created. \<open>serial\<close> is the key the server draws for the
  invoice number. The locustfile buys the product that \<open>reset_loadtest_stock\<close> sets up, whose stock is written
  without a ledger row, so that the books do not balance there; what follows is about the same task on any
  product of a shop whose books do.
\<close>

fun order_id :: "body \<Rightarrow> uuid option" where
  "order_id (SOBody i _ _ _ _ _ _ _ _) = Some i"
| "order_id _ = None"

definition buy_one_unit :: "uuid \<Rightarrow> user \<times> time \<times> uuid \<Rightarrow> world \<Rightarrow> nat option \<times> world" where
  "buy_one_unit pid = (\<lambda>(u, now, serial) w.
     let (created, w) = serve u now (CreateSO (one_unit pid)) w
     in if status_code created \<noteq> 201 then (None, w)
        else (case order_id (payload created) of
                None \<Rightarrow> (None, w)
              | Some i \<Rightarrow> let (completed, w) = serve u now (Complete serial i) w in (Some (status_code completed), w)))"

fun buy_units :: "uuid \<Rightarrow> (user \<times> time \<times> uuid) list \<Rightarrow> world \<Rightarrow> nat option list \<times> world" where
  "buy_units pid [] w = ([], w)"
| "buy_units pid (b # bs) w =
     (let (r, w) = buy_one_unit pid b w; (rs, w) = buy_units pid bs w in (r # rs, w))"

subsection \<open>A flash sale\<close>

lemma create_one_unit:
  assumes "get_product pid d = Some p" "p_is_active p"
  shows "so_create u now (one_unit pid) d = Inr (answer
    (Response 201 (so_body (draw_uuid (draw_uuid (d\<lparr>sales_orders := sales_orders d @ [new_so u now (one_unit pid) d],
        so_items := so_items d @ [\<lparr>soi_id = Suc (next_uuid d), soi_order = next_uuid d, soi_product = pid, soi_quantity = 1,
          soi_unit_price = p_selling_price p, soi_created_at = now\<rparr>]\<rparr>))) (new_so u now (one_unit pid) d)))
    (draw_uuid (draw_uuid (d\<lparr>sales_orders := sales_orders d @ [new_so u now (one_unit pid) d],
        so_items := so_items d @ [\<lparr>soi_id = Suc (next_uuid d), soi_order = next_uuid d, soi_product = pid, soi_quantity = 1,
          soi_unit_price = p_selling_price p, soi_created_at = now\<rparr>]\<rparr>))))"
proof -
  have act: "\<exists>q \<in> set (products d). p_id q = pid \<and> p_is_active q"
    using get_row_SomeD [OF assms(1)] assms(2) by blast
  have one: "check_positive_integer 1 = Inr ()" by (simp add: check_positive_integer_eq max_int32_def)
  have v: "so_validate d False (one_unit pid) = Inr (one_unit pid)"
    using act by (simp add: so_validate_def one_unit_def field_errors_def items_errors_def so_item_errors_def min_value_def
        validate_items_def field_get_def missing_products_def)
  have c: "check_customer (new_so u now (one_unit pid) d) = Inr ()"
    by (simp add: check_customer_def check_varchar_def new_so_def one_unit_def field_default_def)
  show ?thesis
    using assms(1) by (simp add: so_create_def v c one_unit_def [of pid, THEN arg_cong, of soin_items] field_get_def Let_def
        insert_so_item_def one some_or_def draw_uuid_def new_so_def [of u now _ d, THEN arg_cong, of so_id])
qed

text \<open>Completing an order with one line of one unit.\<close>

lemma complete_one_unit:
  assumes "get_so i d = Some so" "so_status so = CREATED" "items_of_so i d = [item]" "soi_product item = pid" "soi_quantity item = 1"
    and "get_product pid d = Some p" "fits_integer (p_current_stock p)"
    and "\<forall>x \<in> set (sales_orders d). so_invoice_number x \<noteq> Some (invoice_number_of serial)"
  shows "\<exists>oc. complete u now serial i d = Inr oc \<and> status_code (rsp oc) = (if 1 \<le> p_current_stock p then 200 else 409)
    \<and> get_product pid (odb oc) = Some (p\<lparr>p_current_stock := (if 1 \<le> p_current_stock p then p_current_stock p - 1 else p_current_stock p)\<rparr>)
    \<and> (\<forall>x \<in> set (sales_orders (odb oc)). so_invoice_number x = Some (invoice_number_of serial)
        \<or> so_invoice_number x \<in> so_invoice_number ` set (sales_orders d))"
proof -
  have id: "so_id so = i" "p_id p = pid" using get_row_SomeD [OF assms(1)] get_row_SomeD [OF assms(6)] by simp_all
  show ?thesis
  proof (cases "1 \<le> p_current_stock p")
    case False
    then have "complete u now serial i d = Inr (answer (insufficient_stock p item) d)"
      using assms by (simp add: complete_def id some_or_def Let_def)
    with False assms(6) show ?thesis by (simp add: insufficient_stock_def)
  next
    case True
    then have "fits_integer (p_current_stock p - 1)" using assms(7) by (auto simp: fits_integer_def)
    moreover have "fits_integer 1" by (simp add: fits_integer_def max_int32_def)
    moreover have "\<not> p_current_stock p < 1" using True by simp
    ultimately have "\<exists>d1. deduct_line u now i [soi_id item \<mapsto> p] item d = Inr d1
      \<and> products d1 = update_row p_id pid (\<lambda>r. r\<lparr>p_current_stock := p_current_stock p - 1\<rparr>) (products d)
      \<and> sales_orders d1 = sales_orders d \<and> so_items d1 = so_items d"
      using assms(5) id by (simp add: deduct_line_def save_current_stock_def create_transaction_def check_integer_def some_or_def Let_def)
    then obtain d1 where d1: "foldE (deduct_line u now i (Map.empty(soi_id item \<mapsto> p))) [item] d = Inr d1"
      "products d1 = update_row p_id pid (\<lambda>r. r\<lparr>p_current_stock := p_current_stock p - 1\<rparr>) (products d)"
      "sales_orders d1 = sales_orders d" "so_items d1 = so_items d"
      by auto
    from assms(8) d1(3) have "\<exists>e. finish_complete now serial so d1 = Inr e \<and> products e = products d1
        \<and> sales_orders e = update_row so_id i (\<lambda>r. r\<lparr>so_status := COMPLETED,
             so_invoice_number := Some (invoice_number_of serial), so_invoiced_at := Some now\<rparr>) (sales_orders d)"
      by (auto simp: finish_complete_def id Let_def guardE_def split: option.split)
    then obtain e where e: "finish_complete now serial so d1 = Inr e" "products e = products d1"
      "sales_orders e = update_row so_id i (\<lambda>r. r\<lparr>so_status := COMPLETED,
             so_invoice_number := Some (invoice_number_of serial), so_invoiced_at := Some now\<rparr>) (sales_orders d)" by blast
    have run: "\<exists>l. complete u now serial i d = Inr \<lparr>rsp = so_refreshed 200 i e, odb = e, ohooks = [BumpVersion ''inventory''], olog = l\<rparr>"
      using assms True d1(1) e(1) by (simp add: complete_def id some_or_def Let_def)
    have code: "status_code (so_refreshed 200 i e) = 200"
      using assms(1) by (simp add: so_refreshed_def e(3) get_row_update)
    have "get_product pid e = Some (p\<lparr>p_current_stock := p_current_stock p - 1\<rparr>)"
      using assms(6) by (simp add: e(2) d1(2) get_row_update)
    moreover have "\<forall>x \<in> set (sales_orders e). so_invoice_number x = Some (invoice_number_of serial)
        \<or> so_invoice_number x \<in> so_invoice_number ` set (sales_orders d)"
      unfolding e(3) by (auto dest!: set_update_rowD)
    ultimately show ?thesis using run code True by auto
  qed
qed

text \<open>One buyer.\<close>

lemma buy_one_unit_step:
  assumes "inventory_inv (w_db w)" "get_product pid (w_db w) = Some p" "p_is_active p" "fits_integer (p_current_stock p)"
    and "Some (invoice_number_of serial) \<notin> so_invoice_number ` set (sales_orders (w_db w))"
    and "buy_one_unit pid (u, now, serial) w = (r, w')"
  shows "r = Some (if 1 \<le> p_current_stock p then 200 else 409)" "inventory_inv (w_db w')"
    "get_product pid (w_db w') = Some (p\<lparr>p_current_stock := (if 1 \<le> p_current_stock p then p_current_stock p - 1 else p_current_stock p)\<rparr>)"
    "so_invoice_number ` set (sales_orders (w_db w')) \<subseteq> {None, Some (invoice_number_of serial)} \<union> so_invoice_number ` set (sales_orders (w_db w))"
proof -
  let ?d = "w_db w"
  let ?so = "new_so u now (one_unit pid) ?d"
  let ?item = "\<lparr>soi_id = Suc (next_uuid ?d), soi_order = next_uuid ?d, soi_product = pid, soi_quantity = 1,
          soi_unit_price = p_selling_price p, soi_created_at = now\<rparr>"
  define d1 where "d1 = draw_uuid (draw_uuid (?d\<lparr>sales_orders := sales_orders ?d @ [?so], so_items := so_items ?d @ [?item]\<rparr>))"
  define w1 where "w1 = snd (serve u now (CreateSO (one_unit pid)) w)"
  note create = create_one_unit [OF assms(2,3), of u now, folded d1_def]
  have created: "serve u now (CreateSO (one_unit pid)) w = (Response 201 (so_body d1 ?so), w1)" "w_db w1 = d1"
    using create by (simp_all add: serve_def run_view_def w1_def)
  have so: "so_id ?so = next_uuid ?d" "so_status ?so = CREATED" "so_invoice_number ?so = None" by (simp_all add: new_so_def)
  have wf: "wf_sales ?d" by (rule inventory_invD(3) [OF assms(1)])
  then have none: "get_row so_id (next_uuid ?d) (sales_orders ?d) = None" "items_of_so (next_uuid ?d) ?d = []"
    by (auto simp: wf_sales_def get_row_None filter_empty_conv)
  have g: "get_so (next_uuid ?d) d1 = Some ?so" "items_of_so (next_uuid ?d) d1 = [?item]" "get_product pid d1 = Some p"
    using none assms(2) so(1) by (simp_all add: d1_def get_row_append get_row_Cons)
  have unused: "\<forall>x \<in> set (sales_orders d1). so_invoice_number x \<noteq> Some (invoice_number_of serial)"
    using assms(5) so(3) by (auto simp: d1_def image_iff)
  from complete_one_unit [OF g(1) so(2) g(2) _ _ g(3) assms(4) unused, of u now] obtain oc where oc:
    "complete u now serial (next_uuid ?d) d1 = Inr oc" "status_code (rsp oc) = (if 1 \<le> p_current_stock p then 200 else 409)"
    "get_product pid (odb oc) = Some (p\<lparr>p_current_stock := (if 1 \<le> p_current_stock p then p_current_stock p - 1 else p_current_stock p)\<rparr>)"
    "\<forall>x \<in> set (sales_orders (odb oc)). so_invoice_number x = Some (invoice_number_of serial)
        \<or> so_invoice_number x \<in> so_invoice_number ` set (sales_orders d1)" by auto
  have w': "r = Some (status_code (rsp oc))" "w' = snd (serve u now (Complete serial (next_uuid ?d)) w1)" "w_db w' = odb oc"
    using assms(6) created oc(1) so(1)
    by (auto simp: buy_one_unit_def Let_def so_body_def serve_def run_view_def split: prod.splits)
  show "r = Some (if 1 \<le> p_current_stock p then 200 else 409)" using w'(1) oc(2) by simp
  show "get_product pid (w_db w') = Some (p\<lparr>p_current_stock := (if 1 \<le> p_current_stock p then p_current_stock p - 1 else p_current_stock p)\<rparr>)"
    using oc(3) w'(3) by simp
  have "inventory_inv (w_db (fold after [(u, now, CreateSO (one_unit pid)), (u, now, Complete serial (next_uuid ?d))] w))"
    by (rule server.run_good [OF _ assms(1)]) (simp add: one_unit_def)
  then show "inventory_inv (w_db w')" by (simp add: w'(2) w1_def)
  show "so_invoice_number ` set (sales_orders (w_db w')) \<subseteq> {None, Some (invoice_number_of serial)} \<union> so_invoice_number ` set (sales_orders ?d)"
    using oc(4) so(3) unfolding w'(3) by (auto simp: d1_def)
qed

text \<open>The invoice numbers the buyers' orders would get are new and differ.\<close>

definition new_serials :: "(user \<times> time \<times> uuid) list \<Rightarrow> db \<Rightarrow> bool" where
  "new_serials bs d \<longleftrightarrow> distinct (map (\<lambda>(u, now, serial). invoice_number_of serial) bs)
     \<and> (\<forall>(u, now, serial) \<in> set bs. Some (invoice_number_of serial) \<notin> so_invoice_number ` set (sales_orders d))"

lemma new_serials_later:
  assumes "new_serials ((u, now, serial) # bs) d"
    and "so_invoice_number ` set (sales_orders d') \<subseteq> {None, Some (invoice_number_of serial)} \<union> so_invoice_number ` set (sales_orders d)"
  shows "new_serials bs d'"
proof -
  have "Some (invoice_number_of serial') \<notin> so_invoice_number ` set (sales_orders d')" if b: "(v, later, serial') \<in> set bs" for v later serial'
  proof
    assume "Some (invoice_number_of serial') \<in> so_invoice_number ` set (sales_orders d')"
    with assms(2) have "invoice_number_of serial' = invoice_number_of serial
        \<or> Some (invoice_number_of serial') \<in> so_invoice_number ` set (sales_orders d)" by auto
    with assms(1) b show False by (force simp: new_serials_def)
  qed
  with assms(1) show ?thesis by (auto simp: new_serials_def)
qed

text \<open>What a run of buyers relies on, and what its first buyer leaves to the others.\<close>

definition on_sale :: "uuid \<Rightarrow> product \<Rightarrow> (user \<times> time \<times> uuid) list \<Rightarrow> world \<Rightarrow> bool" where
  "on_sale pid p bs w \<longleftrightarrow> inventory_inv (w_db w) \<and> get_product pid (w_db w) = Some p \<and> p_is_active p
     \<and> 0 \<le> p_current_stock p \<and> p_current_stock p \<le> max_int32 \<and> new_serials bs (w_db w)"

lemma first_buyer:
  assumes "on_sale pid p (b # bs) w" "buy_units pid (b # bs) w = (rs, w')"
  obtains w1 rs1 where "buy_units pid bs w1 = (rs1, w')" "rs = Some (if 1 \<le> p_current_stock p then 200 else 409) # rs1"
    "on_sale pid (p\<lparr>p_current_stock := (if 1 \<le> p_current_stock p then p_current_stock p - 1 else p_current_stock p)\<rparr>) bs w1"
proof -
  obtain u now serial where b: "b = (u, now, serial)" by (cases b)
  note sale = assms(1) [unfolded on_sale_def b]
  obtain r w1 rs1 where run: "buy_one_unit pid b w = (r, w1)" "buy_units pid bs w1 = (rs1, w')" "rs = r # rs1"
    using assms(2) by (auto simp: Let_def split: prod.splits)
  have fits: "fits_integer (p_current_stock p)" using sale by (simp add: fits_integer_def max_int32_def)
  have new: "Some (invoice_number_of serial) \<notin> so_invoice_number ` set (sales_orders (w_db w))"
    using sale by (simp add: new_serials_def)
  note one = buy_one_unit_step [OF _ _ _ fits new run(1) [unfolded b]]
  show thesis
  proof (rule that [OF run(2)])
    show "rs = Some (if 1 \<le> p_current_stock p then 200 else 409) # rs1" using one(1) sale run(3) by blast
    have "new_serials ((u, now, serial) # bs) (w_db w)" using sale by blast
    from new_serials_later [OF this one(4)] sale have "new_serials bs (w_db w1)" by blast
    then show "on_sale pid (p\<lparr>p_current_stock := (if 1 \<le> p_current_stock p then p_current_stock p - 1 else p_current_stock p)\<rparr>) bs w1"
      using one(2,3) sale by (simp add: on_sale_def)
  qed
qed

lemma buy_units_run:
  assumes "on_sale pid p bs w" "buy_units pid bs w = (rs, w')" "p_current_stock p = int n"
  shows "rs = replicate (min (length bs) n) (Some 200) @ replicate (length bs - n) (Some 409)
    \<and> inventory_inv (w_db w') \<and> stock_of (w_db w') pid = Some (int (n - length bs))"
  using assms
proof (induction bs arbitrary: w p rs n)
  case Nil
  then show ?case by (simp add: on_sale_def stock_of_def)
next
  case (Cons b bs)
  let ?p = "p\<lparr>p_current_stock := (if 1 \<le> p_current_stock p then p_current_stock p - 1 else p_current_stock p)\<rparr>"
  obtain w1 rs1 where s: "buy_units pid bs w1 = (rs1, w')" "rs = Some (if 1 \<le> p_current_stock p then 200 else 409) # rs1"
    "on_sale pid ?p bs w1" by (rule first_buyer [OF Cons.prems(1,2)])
  have "p_current_stock ?p = int (n - 1)" using Cons.prems(3) by (auto simp: of_nat_diff)
  note rest = Cons.IH [OF s(3,1) this]
  show ?case
  proof (cases n)
    case 0
    with rest s(2) Cons.prems(3) show ?thesis by simp
  next
    case (Suc m)
    with rest s(2) Cons.prems(3) show ?thesis by simp
  qed
qed

text \<open>C10. A flash sale sells exactly the stock: on a database that satisfies the invariant of the
  endpoints, with the product active, its stock within the column, and invoice numbers drawn that
  are new and differ from each other, when any number of customers one after another order and
  complete one unit of the product, the first as many as there are units are sold theirs, every
  later one is answered 409, and the stock ends at what is left, with books that balance.\<close>
theorem flash_sale_sells_exactly_the_stock:
  assumes "inventory_inv (w_db w)" "get_product pid (w_db w) = Some p" "p_is_active p" "p_current_stock p = int n"
    "n \<le> 2147483647" "new_serials bs (w_db w)" "buy_units pid bs w = (rs, w')"
  shows "rs = replicate (min (length bs) n) (Some 200) @ replicate (length bs - n) (Some 409)
    \<and> stock_of (w_db w') pid = Some (int (n - length bs)) \<and> balanced (w_db w')"
proof -
  have "on_sale pid p bs w" using assms(1-6) by (simp add: on_sale_def max_int32_def)
  from buy_units_run [OF this assms(7,4)] show ?thesis using inventory_invD(7) [of "w_db w'"] by blast
qed

text \<open>Five buyers; the keys drawn for their invoices differ in the first ten digits.\<close>

definition sale_serial :: "nat \<Rightarrow> uuid" where
  "sale_serial k = (16 ^ 9 + k) * 16 ^ 22"

definition sale_buyers :: "(user \<times> time \<times> uuid) list" where
  "sale_buyers = map (\<lambda>k. (sample_employee, 5 + k, sale_serial k)) [0..<5]"

lemma digits_of_shift:
  assumes "2 \<le> b" "0 < n"
  shows "digits_of b (n * b ^ k) = digits_of b n @ replicate k 0"
proof (induction k)
  case (Suc k)
  have "0 < b ^ k" using assms(1) by simp
  then have "1 \<le> n * b ^ k" using assms(2) by (simp add: Suc_le_eq)
  then have "b * 1 \<le> b * (n * b ^ k)" by (rule mult_le_mono2)
  also have "b * (n * b ^ k) = n * b ^ Suc k" by (simp add: ac_simps)
  finally have "\<not> n * b ^ Suc k < b" unfolding mult_1_right not_less .
  moreover have "n * b ^ Suc k div b = n * b ^ k" "n * b ^ Suc k mod b = 0" using assms(1) by (simp_all add: ac_simps)
  ultimately show ?case using assms(1) Suc by (subst digits_of.simps) (simp add: replicate_append_same)
qed simp

lemma sale_invoice:
  assumes "k < 5"
  shows "invoice_number_of (sale_serial k) = ''INV-1'' @ replicate 8 CHR ''0'' @ [upper_char (digit_char k)]"
proof -
  have d: "digits_of 16 (68719476736 + k) = [1, 0, 0, 0, 0, 0, 0, 0, 0, k]"
  proof -
    have "k = 0 \<or> k = 1 \<or> k = 2 \<or> k = 3 \<or> k = 4" using assms by auto
    then show ?thesis by (elim disjE) (simp_all add: digits_of.simps)
  qed
  have "digits_of 16 (sale_serial k) = digits_of 16 (16 ^ 9 + k) @ replicate 22 0"
    unfolding sale_serial_def by (rule digits_of_shift) simp_all
  also have "(16::nat) ^ 9 + k = 68719476736 + k" by simp
  finally have "digits_of 16 (sale_serial k) = [1, 0, 0, 0, 0, 0, 0, 0, 0, k] @ replicate 22 0" using d by simp
  then have "map upper_char (take 10 (uuid_hex (sale_serial k))) = map upper_char (map digit_char [1, 0, 0, 0, 0, 0, 0, 0, 0, k])"
    by (simp add: uuid_hex_def)
  moreover have "upper_char (digit_char 0) = CHR ''0''" "upper_char (digit_char 1) = CHR ''1''" by code_simp+
  ultimately show ?thesis by (simp add: invoice_number_of_def numeral_eq_Suc)
qed

lemma sale_buyers_new: "new_serials sale_buyers sample_db"
proof -
  have last: "upper_char (digit_char j) \<noteq> upper_char (digit_char k)" if "j \<in> set [0..<5]" "k \<in> set [0..<5]" "j \<noteq> k" for j k
  proof -
    have "\<forall>j \<in> set [0..<5]. \<forall>k \<in> set [0..<5]. j \<noteq> k \<longrightarrow> upper_char (digit_char j) \<noteq> upper_char (digit_char k)" by code_simp
    with that show ?thesis by blast
  qed
  have "map (\<lambda>(u, now, serial). invoice_number_of serial) sale_buyers = map (\<lambda>k. invoice_number_of (sale_serial k)) [0..<5]"
    by (simp add: sale_buyers_def)
  moreover have "distinct (map (\<lambda>k. invoice_number_of (sale_serial k)) [0..<5])"
    unfolding distinct_map
  proof (intro conjI inj_onI)
    fix j k assume jk: "j \<in> set [0..<5]" "k \<in> set [0..<5]" "invoice_number_of (sale_serial j) = invoice_number_of (sale_serial k)"
    then have "upper_char (digit_char j) = upper_char (digit_char k)" by (simp add: sale_invoice)
    with last [OF jk(1,2)] show "j = k" by blast
  qed simp
  moreover have "so_invoice_number ` set (sales_orders sample_db) = {None, Some ''INV-0''}" by (simp add: sample_defs)
  ultimately show ?thesis by (auto simp: new_serials_def sale_buyers_def sale_invoice numeral_eq_Suc)
qed

theorem flash_sale_sells_exactly_the_stock_witness:
  "fst (buy_units 21 sale_buyers (sample_world sample_db)) = [Some 200, Some 200, Some 200, Some 409, Some 409]
    \<and> stock_of (w_db (snd (buy_units 21 sale_buyers (sample_world sample_db)))) 21 = Some 0"
proof -
  have w: "w_db (sample_world sample_db) = sample_db" by (simp add: sample_world_def)
  have p: "get_product 21 sample_db = Some (sample_product 21 ''W-2'' 3)" by code_simp
  have active: "p_is_active (sample_product 21 ''W-2'' 3)" by (simp add: sample_product_def)
  have stock: "p_current_stock (sample_product 21 ''W-2'' 3) = int 3" by (simp add: sample_product_def)
  have fits: "(3::nat) \<le> 2147483647" by simp
  have len: "length sale_buyers = 5" by (simp add: sale_buyers_def)
  obtain rs w' where run: "buy_units 21 sale_buyers (sample_world sample_db) = (rs, w')" by (rule prod.exhaust)
  note sold = flash_sale_sells_exactly_the_stock [of "sample_world sample_db", unfolded w, OF sample_inventory_inv p active stock fits sale_buyers_new run, unfolded len]
  then have "rs = replicate (min 5 3) (Some 200) @ replicate (5 - 3) (Some 409)" "stock_of (w_db w') 21 = Some (int (3 - 5))"
    by blast+
  moreover have "replicate (min 5 3) (Some 200) @ replicate (5 - 3) (Some 409) = [Some 200, Some 200, Some 200, Some 409, Some (409::nat)]"
    by code_simp
  ultimately show ?thesis unfolding run by simp
qed

subsection \<open>What a reset leaves\<close>

text \<open>The rows the three lookups add are no lines, orders or ledger rows.\<close>

lemma reset_run:
  assumes "reset_loadtest_stock now stock d = (None, d')"
  obtains p d0 where "get_row p_sku contended_sku (products d0) = Some p"
    "products d0 = products d \<or> (products d0 = products d @ [p] \<and> next_uuid d \<le> p_id p)"
    "transactions d0 = transactions d" "so_items d0 = so_items d" "sales_orders d0 = sales_orders d"
    "autocommit (reset_steps (p_id p) stock (stale_order_ids (p_id p) d0)) d0 = (None, d')"
proof -
  obtain c d1 where c: "loadtest_category now d = (c, d1)" by (rule prod.exhaust)
  from assms c obtain x d2 p d3 where s: "loadtest_supplier now d1 = Inr (x, d2)" "loadtest_product now stock c x d2 = Inr (p, d3)"
    and a: "autocommit (reset_steps (p_id p) stock (stale_order_ids (p_id p) d3)) d3 = (None, d')"
    by (auto simp: reset_loadtest_stock_def split: sum.splits)
  have f1: "products d1 = products d" "transactions d1 = transactions d" "so_items d1 = so_items d" "sales_orders d1 = sales_orders d"
    "next_uuid d \<le> next_uuid d1"
    using c by (auto simp: loadtest_category_def Let_def split: option.splits)
  have f2: "products d2 = products d1" "transactions d2 = transactions d1" "so_items d2 = so_items d1" "sales_orders d2 = sales_orders d1"
    "next_uuid d1 \<le> next_uuid d2"
    using s(1) by (auto simp: loadtest_supplier_def Let_def bind_elims split: list.splits)
  show thesis
  proof (cases "get_row p_sku contended_sku (products d2)")
    case (Some q)
    with s(2) have "q = p" "d3 = d2" by (simp_all add: loadtest_product_def)
    with Some f1 f2 a show thesis by (intro that [of d3 p]) simp_all
  next
    case None
    with s(2) have "products d3 = products d2 @ [p]" "p_sku p = contended_sku" "p_id p = next_uuid d2" "transactions d3 = transactions d2"
      "so_items d3 = so_items d2" "sales_orders d3 = sales_orders d2"
      by (auto simp: loadtest_product_def Let_def bind_elims)
    with None f1 f2 a show thesis by (intro that [of d3 p]) (simp_all add: get_row_append get_row_Cons)
  qed
qed

lemma get_row_sku_update:
  assumes "get_row p_sku k t = Some p" "distinct (map p_id t)"
  shows "get_row p_sku k (update_row p_id (p_id p) (\<lambda>r. r\<lparr>p_current_stock := n, p_is_active := b\<rparr>) t)
    = Some (p\<lparr>p_current_stock := n, p_is_active := b\<rparr>)"
  using assms
proof (induction t)
  case (Cons q t)
  show ?case
  proof (cases "p_sku q = k")
    case True
    with Cons.prems(1) show ?thesis by (simp add: get_row_Cons update_row_Cons)
  next
    case False
    with Cons.prems(1) have t: "get_row p_sku k t = Some p" by (simp add: get_row_Cons)
    have "p \<in> set t" using get_row_SomeD [OF t] by simp
    with Cons.prems(2) have "p_id q \<noteq> p_id p" by auto
    with Cons.IH [OF t] Cons.prems(2) False show ?thesis by (simp add: get_row_Cons update_row_Cons)
  qed
qed simp

text \<open>The four statements of a reset that succeeds.\<close>

lemma reset_steps_run:
  assumes "autocommit (reset_steps pid stock stale) d = (None, d')"
  shows "transactions d' = delete_rows (\<lambda>t. t_product t = pid) (transactions d)"
    and "so_items d' = delete_rows (\<lambda>x. soi_product x = pid) (so_items d)"
    and "sales_orders d' = delete_rows (\<lambda>so. so_id so \<in> so_id ` {so \<in> set (sales_orders d). so_id so \<in> set stale
      \<and> (\<forall>x \<in> set (so_items d). soi_order x = so_id so \<longrightarrow> soi_product x = pid)}) (sales_orders d)"
    and "products d' = update_row p_id pid (\<lambda>r. r\<lparr>p_current_stock := stock, p_is_active := True\<rparr>) (products d)"
proof -
  let ?d = "d\<lparr>transactions := delete_rows (\<lambda>t. t_product t = pid) (transactions d),
    so_items := delete_rows (\<lambda>x. soi_product x = pid) (so_items d)\<rparr>"
  from assms obtain d1 where d1: "delete_empty_orders stale ?d = Inr d1" "save_reset_product pid stock d1 = Inr d'"
    by (auto simp: reset_steps_def split: sum.splits)
  have empty: "items_of_so i ?d = [] \<longleftrightarrow> (\<forall>x \<in> set (so_items d). soi_order x = i \<longrightarrow> soi_product x = pid)" for i
    by (auto simp: delete_rows_def filter_empty_conv)
  from d1 show "transactions d' = delete_rows (\<lambda>t. t_product t = pid) (transactions d)"
    "so_items d' = delete_rows (\<lambda>x. soi_product x = pid) (so_items d)"
    "products d' = update_row p_id pid (\<lambda>r. r\<lparr>p_current_stock := stock, p_is_active := True\<rparr>) (products d)"
    by (auto simp: delete_empty_orders_def save_reset_product_def Let_def bind_elims)
  have "set (map so_id (filter (\<lambda>so. so_id so \<in> set stale \<and> items_of_so (so_id so) ?d = []) (sales_orders d)))
      = so_id ` {so \<in> set (sales_orders d). so_id so \<in> set stale \<and> (\<forall>x \<in> set (so_items d). soi_order x = so_id so \<longrightarrow> soi_product x = pid)}"
    unfolding set_map set_filter empty by simp
  with d1 show "sales_orders d' = delete_rows (\<lambda>so. so_id so \<in> so_id ` {so \<in> set (sales_orders d). so_id so \<in> set stale
      \<and> (\<forall>x \<in> set (so_items d). soi_order x = so_id so \<longrightarrow> soi_product x = pid)}) (sales_orders d)"
    by (auto simp: delete_empty_orders_def save_reset_product_def Let_def bind_elims)
qed

text \<open>A reset clears the slate of the contended product and of nothing else: when it comes to its end, the
  product is active with the stock asked for, has no ledger row and no order line left, every other
  product has the stock and the ledger it had, and an order is gone only if all its lines
  were for this product. But the stock it sets is unexplained: unless it is zero, the books
  of the shop do not balance, and the reconciliation task reports the product.\<close>
theorem reset_clears_the_slate:
  assumes "reset_loadtest_stock now stock d = (None, d')" "wf_products d" "product_keys_drawn d"
  shows "\<exists>p. get_row p_sku contended_sku (products d') = Some p \<and> p_is_active p
    \<and> stock_of d' (p_id p) = Some stock \<and> ledger_total d' (p_id p) = 0 \<and> stale_order_ids (p_id p) d' = []
    \<and> (\<forall>i. i \<noteq> p_id p \<longrightarrow> stock_of d' i = stock_of d i \<and> ledger_total d' i = ledger_total d i)
    \<and> (\<forall>so \<in> set (sales_orders d). so \<in> set (sales_orders d')
         \<or> (so_id so \<in> soi_order ` set (so_items d) \<and> (\<forall>x \<in> set (so_items d). soi_order x = so_id so \<longrightarrow> soi_product x = p_id p)))
    \<and> (stock \<noteq> 0 \<longrightarrow> \<not> balanced d')"
proof -
  obtain p d0 where p: "get_row p_sku contended_sku (products d0) = Some p"
    "products d0 = products d \<or> (products d0 = products d @ [p] \<and> next_uuid d \<le> p_id p)"
    and same: "transactions d0 = transactions d" "so_items d0 = so_items d" "sales_orders d0 = sales_orders d"
    and a: "autocommit (reset_steps (p_id p) stock (stale_order_ids (p_id p) d0)) d0 = (None, d')"
    by (rule reset_run [OF assms(1)])
  note r = reset_steps_run [OF a, unfolded same]
  let ?p = "p\<lparr>p_current_stock := stock, p_is_active := True\<rparr>"
  have dist: "distinct (map p_id (products d0))" using p(2) assms(2,3) by (fastforce simp: wf_products_def product_keys_drawn_def)
  have "p \<in> set (products d0)" "p_sku p = contended_sku" using get_row_SomeD [OF p(1)] by simp_all
  then have got: "get_row p_id (p_id p) (products d0) = Some p" using get_row_eqI [OF dist] by blast
  have sku: "get_row p_sku contended_sku (products d') = Some ?p"
    unfolding r(4) by (rule get_row_sku_update [OF p(1) dist])
  have st: "stock_of d' (p_id p) = Some stock" by (simp add: stock_of_def r(4) get_row_update got)
  have led: "ledger_total d' (p_id p) = 0" by (simp add: ledger_total_def r(1) delete_rows_def)
  have lines: "stale_order_ids (p_id p) d' = []" by (simp add: stale_order_ids_def r(2) delete_rows_def)
  have others: "stock_of d' i = stock_of d i \<and> ledger_total d' i = ledger_total d i" if i: "i \<noteq> p_id p" for i
  proof -
    have "get_row p_id i (products d0) = get_row p_id i (products d)"
      using p(2) i by (auto simp: get_row_append get_row_Cons split: option.split)
    moreover have "filter (\<lambda>t. t_product t = i) (transactions d') = filter (\<lambda>t. t_product t = i) (transactions d)"
      using i by (auto simp: r(1) delete_rows_def intro: filter_cong)
    ultimately show ?thesis using i by (simp add: stock_of_def ledger_total_def r(4) get_row_update)
  qed
  have orders: "so \<in> set (sales_orders d') \<or> (so_id so \<in> soi_order ` set (so_items d)
      \<and> (\<forall>x \<in> set (so_items d). soi_order x = so_id so \<longrightarrow> soi_product x = p_id p))" if "so \<in> set (sales_orders d)" for so
    using that by (auto simp: r(3) delete_rows_def stale_order_ids_def same)
  have "\<not> balanced d'" if "stock \<noteq> 0" using st led that by (auto simp: balanced_iff)
  with sku st led lines others orders show ?thesis by (intro exI [of _ ?p]) simp
qed

text \<open>The sample shop with the contended product on an order beside another product.\<close>

definition contended_db :: db where
  "contended_db = sample_db\<lparr>products := [sample_product 20 contended_sku 10, sample_product 21 ''W-2'' 3]\<rparr>"

theorem reset_clears_the_slate_witness:
  "\<exists>d'. reset_loadtest_stock 5 100 contended_db = (None, d') \<and> get_so 50 d' \<noteq> None
     \<and> stock_of d' 21 = stock_of contended_db 21 \<and> \<not> balanced d'"
proof -
  let ?r = "reset_loadtest_stock 5 100 contended_db"
  have r: "?r = (None, snd ?r)" by (rule prod_eqI) (simp, code_simp, simp)
  have d: "wf_products contended_db" "product_keys_drawn contended_db" by code_simp+
  have c: "get_row p_sku contended_sku (products (snd ?r)) = Some (sample_product 20 contended_sku 100)"
    "get_so 50 (snd ?r) = Some (sample_so 50 CREATED None)" by code_simp+
  have "p_id (sample_product 20 contended_sku 100) = 20" by (simp add: sample_product_def)
  with reset_clears_the_slate [OF r d] c(1) have "stock_of (snd ?r) 21 = stock_of contended_db 21 \<and> \<not> balanced (snd ?r)" by auto
  with r c(2) show ?thesis by (intro exI [of _ "snd ?r"]) simp
qed

subsection \<open>Provisioning twice\<close>

lemma provision_users_run:
  assumes "provision_users rules token now role prefix is (ts, d) = (None, ts', d')"
    and "\<forall>i \<in> set is. normalize_email rules (loadtest_email prefix i) = loadtest_email prefix i"
  shows "(\<exists>new. users d' = users d @ new) \<and> (\<forall>i \<in> set is. get_row u_email (loadtest_email prefix i) (users d') \<noteq> None)
    \<and> ts' = ts @ map (\<lambda>i. token (the (get_row u_email (loadtest_email prefix i) (users d')))) is"
  using assms
proof (induction "is" arbitrary: ts d)
  case (Cons i "is")
  let ?email = "loadtest_email prefix i"
  show ?case
  proof (cases "get_row u_email ?email (users d)")
    case (Some u)
    with Cons.prems(1) have rest: "provision_users rules token now role prefix is (ts @ [token u], d) = (None, ts', d')"
      by (simp add: Let_def)
    from Cons.IH [OF this] Cons.prems(2) obtain new where ih: "users d' = users d @ new"
      "\<forall>i \<in> set is. get_row u_email (loadtest_email prefix i) (users d') \<noteq> None"
      "ts' = (ts @ [token u]) @ map (\<lambda>i. token (the (get_row u_email (loadtest_email prefix i) (users d')))) is" by auto
    have "get_row u_email ?email (users d') = Some u" using Some by (simp add: ih(1) get_row_append)
    with ih show ?thesis by auto
  next
    case None
    with Cons.prems(1) obtain u d1 where u: "create_user rules now ?email ''loadtestpass123'' ((default_fields ?email)\<lparr>uf_role := role\<rparr>) d = Inr (u, d1)"
      and rest: "provision_users rules token now role prefix is (ts @ [token u], d1) = (None, ts', d')"
      by (auto simp: Let_def split: sum.splits)
    from u Cons.prems(2) have d1: "users d1 = users d @ [u]" "u_email u = ?email" by (auto simp: create_user_Inr)
    from Cons.IH [OF rest] Cons.prems(2) obtain new where ih: "users d' = users d1 @ new"
      "\<forall>i \<in> set is. get_row u_email (loadtest_email prefix i) (users d') \<noteq> None"
      "ts' = (ts @ [token u]) @ map (\<lambda>i. token (the (get_row u_email (loadtest_email prefix i) (users d')))) is" by auto
    have "get_row u_email ?email (users d') = Some u" using None d1 by (simp add: ih(1) get_row_append get_row_Cons)
    with ih d1(1) show ?thesis by auto
  qed
qed simp

lemma provision_users_present:
  assumes "\<forall>i \<in> set is. get_row u_email (loadtest_email prefix i) (users d) \<noteq> None"
  shows "provision_users rules token now role prefix is (ts, d)
    = (None, ts @ map (\<lambda>i. token (the (get_row u_email (loadtest_email prefix i) (users d)))) is, d)"
  using assms by (induction "is" arbitrary: ts) (auto simp: Let_def)

text \<open>Provisioning is idempotent: a second run creates no user and writes the tokens of the same users in the
  same order, whatever the time and the role it is given.\<close>
theorem provisioning_is_idempotent:
  assumes "provision rules token now role prefix number d = (None, tokens, d')"
    and "\<forall>i<number. normalize_email rules (loadtest_email prefix i) = loadtest_email prefix i"
  shows "provision rules token later role' prefix number d' = (None, tokens, d')"
  using provision_users_run [of rules token now role prefix "[0..<number]" "[]" d tokens d'] assms
    provision_users_present [of "[0..<number]" prefix d' rules token later role' "[]"]
  by (simp add: provision_def)

theorem provisioning_is_idempotent_witness:
  "\<exists>tokens d'. provision plain_rules u_email 5 EMPLOYEE ''loadtest-employee'' 2 sample_db = (None, tokens, d')
     \<and> provision plain_rules u_email 6 EMPLOYEE ''loadtest-employee'' 2 d' = (None, tokens, d')"
proof -
  let ?r = "provision plain_rules u_email 5 EMPLOYEE ''loadtest-employee'' 2 sample_db"
  have "fst ?r = None" by code_simp
  then have r: "?r = (None, fst (snd ?r), snd (snd ?r))" by (metis prod.collapse)
  have "\<forall>i<2. normalize_email plain_rules (loadtest_email ''loadtest-employee'' i) = loadtest_email ''loadtest-employee'' i"
    by (simp add: plain_rules_def)
  from provisioning_is_idempotent [OF r this] r show ?thesis by blast
qed

end
