(* ===== verification/Access.thy ===== *)
theory Access
  imports Accounts
begin

section \<open>Who may do what, and how often\<close>

text \<open>
  The endpoints the routers register, the actions each view offers, the permission class and the
  throttle scope each action runs under (\<open>permission_classes\<close>, \<open>get_permissions\<close>,
  \<open>ScopedByActionThrottleMixin\<close>), and the rate of each scope.
\<close>

datatype endpoint =
    RegisterView | TokenObtainView | TokenRefreshView | TokenBlacklistView | MeView | UserViewSet
  | CategoryViewSet | SupplierViewSet | ProductViewSet
  | PurchaseOrderViewSet | SalesOrderViewSet | ReturnViewSet | DamageWriteOffView | InventoryTransactionViewSet
  | DashboardView | ProductReportView | PurchaseReportView | SalesReportView | InventoryReportView
  | NotificationViewSet | TaskStatusView

datatype view_action =
    List | Retrieve | Create | Update | PartialUpdate | Destroy
  | RoleAction | PasswordAction | EnableAction | ReceiveAction | CompleteAction | InvoiceAction | ApproveAction | MarkRead
  | Get | Post

definition model_view_set :: "view_action list" where
  "model_view_set = [List, Retrieve, Create, Update, PartialUpdate, Destroy]"

definition read_only_view_set :: "view_action list" where
  "read_only_view_set = [List, Retrieve]"

fun actions_of :: "endpoint \<Rightarrow> view_action list" where
  "actions_of RegisterView = [Post]"
| "actions_of TokenObtainView = [Post]"
| "actions_of TokenRefreshView = [Post]"
| "actions_of TokenBlacklistView = [Post]"
| "actions_of MeView = [Get]"
| "actions_of UserViewSet = model_view_set @ [RoleAction, PasswordAction, EnableAction]"
| "actions_of CategoryViewSet = model_view_set"
| "actions_of SupplierViewSet = model_view_set"
| "actions_of ProductViewSet = model_view_set"
| "actions_of PurchaseOrderViewSet = model_view_set @ [ReceiveAction]"
| "actions_of SalesOrderViewSet = model_view_set @ [CompleteAction, InvoiceAction]"
| "actions_of ReturnViewSet = model_view_set @ [ApproveAction]"
| "actions_of DamageWriteOffView = [Post]"
| "actions_of InventoryTransactionViewSet = read_only_view_set"
| "actions_of NotificationViewSet = read_only_view_set @ [MarkRead]"
| "actions_of _ = [Get]"

text \<open>The actions that only read. \<open>invoice\<close> is a GET; it queues the rendering of a document.\<close>

definition reads :: "view_action \<Rightarrow> bool" where
  "reads a \<longleftrightarrow> a \<in> {List, Retrieve, Get, InvoiceAction}"

subsection \<open>Permissions\<close>

text \<open>\<open>_ReadForAllWriteForManagers.get_permissions\<close>.\<close>

definition read_for_all_write_for_managers :: "view_action \<Rightarrow> permission" where
  "read_for_all_write_for_managers a = (if a \<in> {List, Retrieve} then IsAuthenticated else IsManagerOrAdmin)"

fun permission_of :: "endpoint \<Rightarrow> view_action \<Rightarrow> permission" where
  "permission_of RegisterView a = AllowAny"
| "permission_of TokenObtainView a = AllowAny"
| "permission_of TokenRefreshView a = AllowAny"
| "permission_of TokenBlacklistView a = AllowAny"
| "permission_of MeView a = IsAuthenticated"
| "permission_of UserViewSet a = IsAdmin"
| "permission_of CategoryViewSet a = read_for_all_write_for_managers a"
| "permission_of SupplierViewSet a = read_for_all_write_for_managers a"
| "permission_of ProductViewSet a = read_for_all_write_for_managers a"
| "permission_of SalesOrderViewSet a = IsAnyRole"
| "permission_of NotificationViewSet a = IsAuthenticated"
| "permission_of TaskStatusView a = IsAuthenticated"
| "permission_of _ a = IsManagerOrAdmin"

definition allowed :: "user option \<Rightarrow> endpoint \<Rightarrow> view_action \<Rightarrow> bool" where
  "allowed who e a \<longleftrightarrow> a \<in> set (actions_of e) \<and> has_permission (permission_of e a) who"

subsection \<open>Throttling\<close>

text \<open>\<open>action_throttle_scopes\<close> of a view set, \<open>throttle_scope\<close> of any other view.\<close>

definition write_scopes :: "(view_action \<times> string) list" where
  "write_scopes = [(Create, ''write''), (Update, ''write''), (PartialUpdate, ''write''), (Destroy, ''write'')]"

fun action_throttle_scopes :: "endpoint \<Rightarrow> (view_action \<times> string) list" where
  "action_throttle_scopes UserViewSet
     = write_scopes @ [(RoleAction, ''write''), (PasswordAction, ''write''), (EnableAction, ''write'')]"
| "action_throttle_scopes CategoryViewSet = write_scopes"
| "action_throttle_scopes SupplierViewSet = write_scopes"
| "action_throttle_scopes ProductViewSet = write_scopes"
| "action_throttle_scopes PurchaseOrderViewSet = write_scopes @ [(ReceiveAction, ''stock_mutation'')]"
| "action_throttle_scopes SalesOrderViewSet = write_scopes @ [(CompleteAction, ''stock_mutation'')]"
| "action_throttle_scopes ReturnViewSet = write_scopes @ [(ApproveAction, ''stock_mutation'')]"
| "action_throttle_scopes NotificationViewSet = [(MarkRead, ''write'')]"
| "action_throttle_scopes _ = []"

fun fixed_scope :: "endpoint \<Rightarrow> string option" where
  "fixed_scope RegisterView = Some ''auth''"
| "fixed_scope TokenObtainView = Some ''auth''"
| "fixed_scope TokenRefreshView = Some ''auth''"
| "fixed_scope TokenBlacklistView = Some ''auth''"
| "fixed_scope MeView = Some ''read''"
| "fixed_scope DamageWriteOffView = Some ''stock_mutation''"
| "fixed_scope InventoryTransactionViewSet = Some ''read''"
| "fixed_scope DashboardView = Some ''reports''"
| "fixed_scope ProductReportView = Some ''reports''"
| "fixed_scope PurchaseReportView = Some ''reports''"
| "fixed_scope SalesReportView = Some ''reports''"
| "fixed_scope InventoryReportView = Some ''reports''"
| "fixed_scope TaskStatusView = Some ''read''"
| "fixed_scope _ = None"

text \<open>\<open>ScopedByActionThrottleMixin.get_throttles\<close>, and the class attribute where it is not mixed in.\<close>

definition throttle_scope :: "endpoint \<Rightarrow> view_action \<Rightarrow> string" where
  "throttle_scope e a = (case fixed_scope e of
     Some s \<Rightarrow> s
   | None \<Rightarrow> (case map_of (action_throttle_scopes e) a of Some s \<Rightarrow> s | None \<Rightarrow> ''read''))"

text \<open>\<open>DEFAULT_THROTTLE_RATES\<close>, requests per minute.\<close>

definition throttle_rates :: "(string \<times> nat) list" where
  "throttle_rates = [(''auth'', 10), (''read'', 200), (''write'', 60), (''stock_mutation'', 20),
     (''reports'', 30), (''anon'', 20)]"

subsection \<open>The rules\<close>

text \<open>The permission matrix: without logging in one can only register and obtain, refresh or
  revoke a token. An employee can in addition see their own profile and notifications and mark
  those read, read the catalog, ask for a task's status and do everything with sales orders. A
  manager can do everything but manage users; an administrator everything.\<close>
theorem permission_matrix:
  "(allowed None e a \<longleftrightarrow> a \<in> set (actions_of e) \<and>
      e \<in> {RegisterView, TokenObtainView, TokenRefreshView, TokenBlacklistView})
   \<and> (u_role u = EMPLOYEE \<longrightarrow> (allowed (Some u) e a \<longleftrightarrow> a \<in> set (actions_of e) \<and>
      (e \<in> {RegisterView, TokenObtainView, TokenRefreshView, TokenBlacklistView, MeView,
             SalesOrderViewSet, NotificationViewSet, TaskStatusView}
       \<or> e \<in> {CategoryViewSet, SupplierViewSet, ProductViewSet} \<and> a \<in> {List, Retrieve})))
   \<and> (u_role u = MANAGER \<longrightarrow> (allowed (Some u) e a \<longleftrightarrow> a \<in> set (actions_of e) \<and> e \<noteq> UserViewSet))
   \<and> (u_role u = ADMIN \<longrightarrow> (allowed (Some u) e a \<longleftrightarrow> a \<in> set (actions_of e)))"
  by (cases e) (auto simp: allowed_def read_for_all_write_for_managers_def)

theorem permission_matrix_witness:
  "\<not> allowed (Some sample_employee) ReturnViewSet ApproveAction \<and> allowed (Some sample_employee) SalesOrderViewSet Destroy
   \<and> \<not> allowed (Some sample_manager) UserViewSet RoleAction"
proof -
  have r: "u_role sample_employee = EMPLOYEE" "u_role sample_manager = MANAGER" by (simp_all add: sample_user_def)
  show ?thesis
    using permission_matrix [of ReturnViewSet ApproveAction sample_employee]
      permission_matrix [of SalesOrderViewSet Destroy sample_employee]
      permission_matrix [of UserViewSet RoleAction sample_manager] r
    by (simp add: model_view_set_def)
qed

text \<open>Rights grow with the role: what a user may do, every user of an equal or higher role may
  do as well.\<close>
theorem rights_grow_with_the_role:
  assumes "u_role u \<le> u_role v" "allowed (Some u) e a"
  shows "allowed (Some v) e a"
  using assms has_permission_mono [of "permission_of e a" u v] by (simp add: allowed_def)

theorem rights_grow_with_the_role_witness: "allowed (Some sample_admin) ProductViewSet Update"
proof (rule rights_grow_with_the_role)
  show "u_role sample_manager \<le> u_role sample_admin" "allowed (Some sample_manager) ProductViewSet Update"
    by code_simp+
qed

text \<open>Every action of every endpoint runs under a scope with a configured rate, no action that
  changes data runs at the read rate, and every action that moves stock is held to the stock
  mutation rate, at most a third of the write rate.\<close>
theorem writes_are_throttled:
  assumes "a \<in> set (actions_of e)"
  shows "\<exists>n. map_of throttle_rates (throttle_scope e a) = Some n
    \<and> (\<not> reads a \<longrightarrow> throttle_scope e a \<noteq> ''read'' \<and> n \<le> 60)
    \<and> (a \<in> {ReceiveAction, CompleteAction, ApproveAction} \<or> e = DamageWriteOffView \<longrightarrow>
         throttle_scope e a = ''stock_mutation'' \<and> 3 * n \<le> 60)"
  using assms
  by (cases e) (auto simp: throttle_scope_def throttle_rates_def reads_def model_view_set_def
      read_only_view_set_def write_scopes_def)

theorem writes_are_throttled_witness:
  "\<exists>n. map_of throttle_rates (throttle_scope SalesOrderViewSet CompleteAction) = Some n \<and> n \<le> 20"
proof -
  have "CompleteAction \<in> set (actions_of SalesOrderViewSet)" by simp
  from writes_are_throttled [OF this] show ?thesis by auto
qed

end
