(* ===== verification/Scenarios.thy ===== *)
theory Scenarios
  imports Loadtest Access
begin

section \<open>Load test scenarios\<close>

text \<open>
  The three kinds of simulated users of \<open>loadtest/locustfile.py\<close>: the pool they take their token from,
  how long they wait, the requests they begin with and the tasks they choose from by weight. Locust
  draws the tokens and tasks; which it draws is left open.
\<close>

type_synonym call = "endpoint \<times> view_action"

record scenario =
  sc_pool :: string
  sc_wait :: "nat \<times> nat"
  sc_on_start :: "call list"
  sc_tasks :: "(nat \<times> call list) list"

text \<open>The waits are in milliseconds, and a task has weight one unless it names another.\<close>

definition StockMutator :: scenario where
  "StockMutator = \<lparr>sc_pool = ''employee'', sc_wait = (0, 50), sc_on_start = [(ProductViewSet, List)],
     sc_tasks = [(1, [(SalesOrderViewSet, Create), (SalesOrderViewSet, CompleteAction)])]\<rparr>"

definition ReportReader :: scenario where
  "ReportReader = \<lparr>sc_pool = ''manager'', sc_wait = (100, 500), sc_on_start = [],
     sc_tasks = [(2, [(DashboardView, Get)]), (1, [(InventoryReportView, Get)])]\<rparr>"

definition MixedLoad :: scenario where
  "MixedLoad = \<lparr>sc_pool = ''manager'', sc_wait = (100, 500), sc_on_start = [(ProductViewSet, List)],
     sc_tasks = [(4, [(ProductViewSet, List)]), (3, [(DashboardView, Get)]), (1, [(SalesOrderViewSet, Create)])]\<rparr>"

definition scenarios :: "scenario list" where
  "scenarios = [StockMutator, ReportReader, MixedLoad]"

definition calls_of :: "scenario \<Rightarrow> call list" where
  "calls_of sc = sc_on_start sc @ concat (map snd (sc_tasks sc))"

text \<open>\<open>_token_pool\<close>: the file the command writes, read by its keys.\<close>

definition token_pool :: "string list \<times> string list \<Rightarrow> string \<Rightarrow> exn + string list" where
  "token_pool = (\<lambda>(es, ms) k. some_or (KeyError k) (map_of [(''employee'', es), (''manager'', ms)] k))"

text \<open>\<open>StockMutator.on_start\<close>: the product with exactly that sku among the results of the search, or an exception.\<close>

definition contended_product :: "product list \<Rightarrow> uuid option" where
  "contended_product results = (case filter (\<lambda>p. p_sku p = contended_sku) results of [] \<Rightarrow> None | p # _ \<Rightarrow> Some (p_id p))"

text \<open>How many of the tasks drawn, out of how many, only read.\<close>

definition read_share :: "scenario \<Rightarrow> nat \<times> nat" where
  "read_share sc = (sum_list (map fst (filter (\<lambda>(w, cs). list_all (\<lambda>(e, a). reads a) cs) (sc_tasks sc))),
     sum_list (map fst (sc_tasks sc)))"

subsection \<open>The users behind the tokens\<close>

text \<open>The role the command gives the users of a scenario's pool, and the prefix of their addresses.\<close>

definition pool_user :: "scenario \<Rightarrow> role_name \<times> string" where
  "pool_user sc = (if sc_pool sc = ''employee'' then (EMPLOYEE, ''loadtest-employee'') else (MANAGER, ''loadtest-manager''))"

text \<open>A user who is served whatever the scenario sends.\<close>

definition admitted_to :: "scenario \<Rightarrow> user \<Rightarrow> bool" where
  "admitted_to sc u \<longleftrightarrow> u_is_active u \<and> list_all (\<lambda>(e, a). allowed (Some u) e a) (calls_of sc)"

definition normal_addresses :: "password_rules \<Rightarrow> bool" where
  "normal_addresses rules \<longleftrightarrow> (\<forall>prefix \<in> {''loadtest-employee'', ''loadtest-manager''}. \<forall>i.
     normalize_email rules (loadtest_email prefix i) = loadtest_email prefix i)"

text \<open>A user of \<open>d'\<close> is one of \<open>d\<close>, or has the address, the role and the rights the command gives.\<close>

definition old_or_provisioned :: "role_name \<Rightarrow> string \<Rightarrow> db \<Rightarrow> user \<Rightarrow> bool" where
  "old_or_provisioned role prefix d u \<longleftrightarrow> u \<in> set (users d)
     \<or> u_is_active u \<and> u_role u = role \<and> (\<exists>i. u_email u = loadtest_email prefix i)"

lemma provisioned_users:
  assumes "provision_users rules token now role prefix is (ts, d) = (None, ts', d')"
    and "\<forall>i. normalize_email rules (loadtest_email prefix i) = loadtest_email prefix i"
  shows "\<forall>u \<in> set (users d'). old_or_provisioned role prefix d u"
  using assms(1)
proof (induction "is" arbitrary: ts d)
  case (Cons i "is")
  let ?email = "loadtest_email prefix i"
  show ?case
  proof (cases "get_row u_email ?email (users d)")
    case (Some u)
    with Cons show ?thesis by (simp add: Let_def)
  next
    case None
    with Cons.prems obtain u d1 where u: "create_user rules now ?email ''loadtestpass123'' ((default_fields ?email)\<lparr>uf_role := role\<rparr>) d = Inr (u, d1)"
      and rest: "provision_users rules token now role prefix is (ts @ [token u], d1) = (None, ts', d')"
      by (auto simp: Let_def split: sum.splits)
    from u assms(2) have d1: "users d1 = users d @ [u]" "u_email u = ?email" "u_role u = role" "u_is_active u"
      by (auto simp: create_user_Inr)
    from Cons.IH [OF rest] d1 show ?thesis by (auto simp: old_or_provisioned_def)
  qed
qed (auto simp: old_or_provisioned_def)

text \<open>The pool the command writes: the \<open>i\<close>th token is that of the user on file with the \<open>i\<close>th address.\<close>

definition pool_of :: "(user \<Rightarrow> string) \<Rightarrow> role_name \<Rightarrow> string \<Rightarrow> db \<Rightarrow> db \<Rightarrow> string list \<Rightarrow> bool" where
  "pool_of token role prefix d d' pool \<longleftrightarrow> (\<forall>i < length pool. \<exists>u \<in> set (users d'). pool ! i = token u
     \<and> u_email u = loadtest_email prefix i \<and> (u \<in> set (users d) \<or> u_is_active u \<and> u_role u = role))"

lemma provisioned_pool:
  assumes "provision rules token now role prefix n d = (None, pool, d')"
    and "\<forall>i. normalize_email rules (loadtest_email prefix i) = loadtest_email prefix i"
  shows "length pool = n \<and> (\<exists>new. users d' = users d @ new) \<and> pool_of token role prefix d d' pool
    \<and> (\<forall>u \<in> set (users d'). old_or_provisioned role prefix d u)"
proof -
  note run = provision_users_run [OF assms(1) [unfolded provision_def]]
  have on_file: "\<exists>u \<in> set (users d'). get_row u_email (loadtest_email prefix i) (users d') = Some u \<and> u_email u = loadtest_email prefix i"
    if "i < n" for i
  proof -
    from run assms(2) that obtain u where "get_row u_email (loadtest_email prefix i) (users d') = Some u" by fastforce
    with get_row_SomeD [OF this] show ?thesis by blast
  qed
  have pool: "pool = map (\<lambda>i. token (the (get_row u_email (loadtest_email prefix i) (users d')))) [0..<n]"
    and new: "\<exists>new. users d' = users d @ new" using run assms(2) by auto
  have "pool_of token role prefix d d' pool"
    unfolding pool_of_def
  proof (intro allI impI)
    fix i assume "i < length pool"
    then have "i < n" by (simp add: pool)
    with on_file obtain u where "u \<in> set (users d')" "get_row u_email (loadtest_email prefix i) (users d') = Some u"
      "u_email u = loadtest_email prefix i" by blast
    with \<open>i < n\<close> provisioned_users [OF assms(1) [unfolded provision_def] assms(2)]
    show "\<exists>u \<in> set (users d'). pool ! i = token u \<and> u_email u = loadtest_email prefix i
        \<and> (u \<in> set (users d) \<or> u_is_active u \<and> u_role u = role)"
      by (intro bexI [of _ u]) (auto simp: pool old_or_provisioned_def)
  qed
  with new provisioned_users [OF assms(1) [unfolded provision_def] assms(2)] show ?thesis by (simp add: pool)
qed

lemma pools_apart: "loadtest_email ''loadtest-employee'' i \<noteq> loadtest_email ''loadtest-manager'' j"
  by (simp add: loadtest_email_def)

lemma tokens_written:
  assumes "generate_loadtest_tokens rules token now employees managers d = (Inr (es, ms), d')" "normal_addresses rules"
  shows "length es = employees \<and> length ms = managers
    \<and> pool_of token EMPLOYEE ''loadtest-employee'' d d' es \<and> pool_of token MANAGER ''loadtest-manager'' d d' ms"
proof -
  from assms(1) obtain d1 where p: "provision rules token now EMPLOYEE ''loadtest-employee'' employees d = (None, es, d1)"
    "provision rules token now MANAGER ''loadtest-manager'' managers d1 = (None, ms, d')"
    by (auto simp: generate_loadtest_tokens_def split: prod.splits option.splits)
  have norm: "\<forall>i. normalize_email rules (loadtest_email ''loadtest-employee'' i) = loadtest_email ''loadtest-employee'' i"
    "\<forall>i. normalize_email rules (loadtest_email ''loadtest-manager'' i) = loadtest_email ''loadtest-manager'' i"
    using assms(2) by (auto simp: normal_addresses_def)
  note e = provisioned_pool [OF p(1) norm(1)] and m = provisioned_pool [OF p(2) norm(2)]
  have "set (users d1) \<subseteq> set (users d')" using m by auto
  then have "pool_of token EMPLOYEE ''loadtest-employee'' d d' es"
    using e unfolding pool_of_def by (meson subsetD)
  moreover have "u \<in> set (users d)" if "u \<in> set (users d1)" "u_email u = loadtest_email ''loadtest-manager'' i" for u i
    using e that pools_apart by (force simp: old_or_provisioned_def)
  then have "pool_of token MANAGER ''loadtest-manager'' d d' ms"
    using m unfolding pool_of_def by blast
  ultimately show ?thesis using e m by simp
qed

lemma calls_admitted:
  assumes "sc \<in> set scenarios"
  shows "admitted_to sc u \<longleftrightarrow> u_is_active u \<and> (sc_pool sc = ''employee'' \<or> u_role u \<noteq> EMPLOYEE)"
proof -
  have calls: "list_all (\<lambda>sc. list_all (\<lambda>(e, a). a \<in> set (actions_of e)
        \<and> permission_of e a \<in> {IsAuthenticated, IsAnyRole, IsManagerOrAdmin}
        \<and> (sc_pool sc = ''employee'' \<longrightarrow> permission_of e a \<noteq> IsManagerOrAdmin)) (calls_of sc)
      \<and> (sc_pool sc = ''employee'' \<or> (DashboardView, Get) \<in> set (calls_of sc))) scenarios"
    by code_simp
  have "allowed (Some u) e a \<longleftrightarrow> permission_of e a = IsManagerOrAdmin \<longrightarrow> u_role u \<noteq> EMPLOYEE"
    if "(e, a) \<in> set (calls_of sc)" for e a
    using calls assms that
    by (cases "u_role u"; cases "permission_of e a") (fastforce simp: list_all_iff allowed_def)+
  then have "list_all (\<lambda>(e, a). allowed (Some u) e a) (calls_of sc)
      \<longleftrightarrow> (\<forall>(e, a) \<in> set (calls_of sc). permission_of e a = IsManagerOrAdmin \<longrightarrow> u_role u \<noteq> EMPLOYEE)"
    by (auto simp: list_all_iff)
  also have "\<dots> \<longleftrightarrow> sc_pool sc = ''employee'' \<or> u_role u \<noteq> EMPLOYEE"
    using calls assms by (fastforce simp: list_all_iff)
  finally show ?thesis by (simp add: admitted_to_def)
qed

text \<open>C29. A load test measures what it sends. The tokens the command writes are read back under the keys
  the scenarios use, as many as were asked for; the \<open>i\<close>th of a pool is the token of a user on file
  with the pool's \<open>i\<close>th address. A user with that address who was on file before is taken as it is,
  in whatever role and disabled or not; any other is new, active and in the role of the pool. Every
  new user is admitted to each endpoint and action the scenarios of the pool call; one that was on
  file is admitted to all of them exactly when it is active and, in the manager scenarios, not in
  the role of an employee. The mixed scenario reads in seven of eight tasks. (The token library
  gives a token for every user, and normalisation leaves the addresses of the pools as they are.)\<close>
theorem load_tests_are_admitted:
  assumes "generate_loadtest_tokens rules token now employees managers d = (Inr written, d')" "normal_addresses rules"
    and "sc \<in> set scenarios"
  shows "\<exists>pool. token_pool written (sc_pool sc) = Inr pool
    \<and> length pool = (if sc = StockMutator then employees else managers)
    \<and> (\<forall>i < length pool. \<exists>u \<in> set (users d'). pool ! i = token u \<and> u_email u = loadtest_email (snd (pool_user sc)) i
         \<and> (u \<in> set (users d) \<or> u_is_active u \<and> u_role u = fst (pool_user sc) \<and> admitted_to sc u)
         \<and> (admitted_to sc u \<longleftrightarrow> u_is_active u \<and> (sc = StockMutator \<or> u_role u \<noteq> EMPLOYEE)))
    \<and> read_share MixedLoad = (7, 8)"
proof -
  obtain es ms where w: "written = (es, ms)" by (cases written)
  note t = tokens_written [OF assms(1) [unfolded w] assms(2)]
  have share: "read_share MixedLoad = (7, 8)" by code_simp
  have k: "sc_pool sc = (if sc = StockMutator then ''employee'' else ''manager'')"
    using assms(3) by (auto simp: scenarios_def StockMutator_def ReportReader_def MixedLoad_def)
  show ?thesis
  proof (cases "sc = StockMutator")
    case True
    with t k share calls_admitted [OF assms(3)] show ?thesis
      by (intro exI [of _ es]) (fastforce simp: token_pool_def w pool_user_def pool_of_def)
  next
    case False
    with t k share calls_admitted [OF assms(3)] show ?thesis
      by (intro exI [of _ ms]) (fastforce simp: token_pool_def w pool_user_def pool_of_def)
  qed
qed

text \<open>On a shop where the address of the first employee of the pool is that of a manager who was disabled,
  the first token is hers and admits nobody; the second one is a new employee's.\<close>

definition taken_db :: db where
  "taken_db = sample_db\<lparr>users := users sample_db
     @ [(sample_user 9 MANAGER)\<lparr>u_email := loadtest_email ''loadtest-employee'' 0, u_is_active := False\<rparr>]\<rparr>"

theorem load_tests_are_admitted_witness:
  "\<exists>written d' pool u v. generate_loadtest_tokens plain_rules u_email 5 2 1 taken_db = (Inr written, d')
     \<and> token_pool written (sc_pool StockMutator) = Inr pool \<and> length pool = 2
     \<and> pool ! 0 = u_email u \<and> pool ! 1 = u_email v \<and> \<not> admitted_to StockMutator u \<and> admitted_to StockMutator v"
proof -
  let ?r = "generate_loadtest_tokens plain_rules u_email 5 2 1 taken_db"
  have "case fst ?r of Inr x \<Rightarrow> True | Inl e \<Rightarrow> False" by code_simp
  then obtain written where "fst ?r = Inr written" by (auto split: sum.splits)
  then have r: "?r = (Inr written, snd ?r)" by (metis prod.collapse)
  have norm: "normal_addresses plain_rules" by (simp add: normal_addresses_def plain_rules_def)
  have "StockMutator \<in> set scenarios" by (simp add: scenarios_def)
  from load_tests_are_admitted [OF r norm this] obtain pool where
    p: "token_pool written (sc_pool StockMutator) = Inr pool" "length pool = 2"
    and "\<forall>i < length pool. \<exists>u \<in> set (users (snd ?r)). pool ! i = u_email u \<and> u_email u = loadtest_email ''loadtest-employee'' i
      \<and> (u \<in> set (users taken_db) \<or> u_is_active u \<and> u_role u = EMPLOYEE \<and> admitted_to StockMutator u)
      \<and> (admitted_to StockMutator u \<longleftrightarrow> u_is_active u)"
    by (auto simp: pool_user_def StockMutator_def)
  then obtain u v where "u \<in> set (users (snd ?r))" "pool ! 0 = u_email u" "u_email u = loadtest_email ''loadtest-employee'' 0"
    "admitted_to StockMutator u \<longleftrightarrow> u_is_active u" "pool ! 1 = u_email v" "u_email v = loadtest_email ''loadtest-employee'' 1"
    "v \<in> set (users taken_db) \<or> admitted_to StockMutator v"
    by (metis One_nat_def Suc_1 lessI zero_less_Suc)
  moreover have "list_all (\<lambda>u. u_email u = loadtest_email ''loadtest-employee'' 0 \<longrightarrow> \<not> u_is_active u) (users (snd ?r))
      \<and> list_all (\<lambda>u. u_email u \<noteq> loadtest_email ''loadtest-employee'' 1) (users taken_db)" by code_simp
  ultimately have "\<not> admitted_to StockMutator u" "admitted_to StockMutator v" "pool ! 0 = u_email u" "pool ! 1 = u_email v"
    by (auto simp: list_all_iff)
  with r p show ?thesis by blast
qed

end
