(* ===== verification/Migrations.thy ===== *)
theory Migrations
  imports Schema
begin

section \<open>Migrations and model declarations\<close>

text \<open>
  \<open>apps/*/migrations\<close>: the operations that create the tables, run in the order of their
  dependencies, and the fields the model classes of \<open>apps/*/models.py\<close> declare. Labels
  (\<open>verbose_name\<close>, \<open>help_text\<close>) are left out. The migrations of Django's own \<open>auth\<close> application
  are part of the starting point, as are its \<open>Group\<close> and \<open>Permission\<close> tables.
\<close>

subsection \<open>Fields\<close>

datatype on_delete = PROTECT | CASCADE | SET_NULL

datatype field_type =
    UUIDField
  | CharField nat
  | EmailField nat
  | IntegerField
  | PositiveIntegerField
  | DecimalField nat nat
  | BooleanField
  | DateTimeField
  | ForeignKey string on_delete
  | ManyToManyField string

text \<open>A value of a column.\<close>

datatype sql_value =
    Null
  | UuidV uuid
  | TextV string
  | IntV int
  | CentsV cents
  | BoolV bool
  | TimeV time

datatype column_default = NoDefault | Uuid4 | Default sql_value

datatype stamp = NoStamp | AutoNowAdd | AutoNow

record column =
  cl_type :: field_type
  cl_null :: bool
  cl_blank :: bool
  cl_unique :: bool
  cl_db_index :: bool
  cl_primary_key :: bool
  cl_editable :: bool
  cl_choices :: "(string \<times> string) list"
  cl_default :: column_default
  cl_stamp :: stamp
  cl_related_name :: "string option"

type_synonym table = "(string \<times> column) list"

text \<open>A field with no option given; the column of a foreign key is indexed unless it says otherwise.\<close>

definition column_of :: "field_type \<Rightarrow> column" where
  "column_of ty = \<lparr>cl_type = ty, cl_null = False, cl_blank = False, cl_unique = False,
     cl_db_index = (case ty of ForeignKey m od \<Rightarrow> True | _ \<Rightarrow> False), cl_primary_key = False, cl_editable = True,
     cl_choices = [], cl_default = NoDefault, cl_stamp = NoStamp, cl_related_name = None\<rparr>"

definition nullable :: "column \<Rightarrow> column" where
  "nullable c = c\<lparr>cl_null := True, cl_blank := True\<rparr>"

definition blankable :: "column \<Rightarrow> column" where
  "blankable c = c\<lparr>cl_blank := True\<rparr>"

definition unique_column :: "column \<Rightarrow> column" where
  "unique_column c = c\<lparr>cl_unique := True\<rparr>"

definition indexed :: "column \<Rightarrow> column" where
  "indexed c = c\<lparr>cl_db_index := True\<rparr>"

definition primary_key :: "column \<Rightarrow> column" where
  "primary_key c = c\<lparr>cl_primary_key := True\<rparr>"

definition not_editable :: "column \<Rightarrow> column" where
  "not_editable c = c\<lparr>cl_editable := False\<rparr>"

definition choosing :: "(string \<times> string) list \<Rightarrow> column \<Rightarrow> column" where
  "choosing cs c = c\<lparr>cl_choices := cs\<rparr>"

definition defaulting :: "column_default \<Rightarrow> column \<Rightarrow> column" where
  "defaulting v c = c\<lparr>cl_default := v\<rparr>"

definition stamped :: "stamp \<Rightarrow> column \<Rightarrow> column" where
  "stamped s c = c\<lparr>cl_stamp := s\<rparr>"

definition related_as :: "string \<Rightarrow> column \<Rightarrow> column" where
  "related_as n c = c\<lparr>cl_related_name := Some n\<rparr>"

lemmas column_defs = column_of_def nullable_def blankable_def unique_column_def indexed_def primary_key_def
  not_editable_def choosing_def defaulting_def stamped_def related_as_def

text \<open>\<open>settings.AUTH_USER_MODEL\<close>, as the name of its table.\<close>

definition AUTH_USER_MODEL :: string where
  "AUTH_USER_MODEL = ''accounts.user''"

subsection \<open>Operations\<close>

datatype operation =
    CreateModel string table "string list"
  | AlterField string string column

record migration =
  mg_app :: string
  mg_name :: string
  mg_dependencies :: "(string \<times> string) list"
  mg_operations :: "operation list"

text \<open>The tables by name, each with its fields and its default ordering, and the migrations applied.\<close>

record migrated =
  mg_tables :: "(string \<times> table \<times> string list) list"
  mg_applied :: "(string \<times> string) list"

definition table_name :: "string \<Rightarrow> string \<Rightarrow> string" where
  "table_name app model = app @ ''.'' @ map lower_char model"

text \<open>What a foreign key refers to must exist, or be the table itself.\<close>

definition targets :: "table \<Rightarrow> string list" where
  "targets t = concat (map (\<lambda>(n, c). case cl_type c of ForeignKey m od \<Rightarrow> [m] | ManyToManyField m \<Rightarrow> [m] | _ \<Rightarrow> []) t)"

definition replace_field :: "string \<Rightarrow> column \<Rightarrow> table \<Rightarrow> table" where
  "replace_field n c t = map (\<lambda>(m, x). if m = n then (m, c) else (m, x)) t"

fun apply_operation :: "string \<Rightarrow> operation \<Rightarrow> migrated \<Rightarrow> exn + migrated" where
  "apply_operation app (CreateModel name t sorting) s =
     (let n = table_name app name in
      bindE (guardE (n \<notin> set (map fst (mg_tables s))) (ValueError ''table exists'')) (\<lambda>_.
      bindE (guardE (list_all (\<lambda>m. m = n \<or> m \<in> set (map fst (mg_tables s))) (targets t)) (ValueError ''unknown table'')) (\<lambda>_.
        Inr (s\<lparr>mg_tables := mg_tables s @ [(n, t, sorting)]\<rparr>))))"
| "apply_operation app (AlterField model name c) s =
     (let n = table_name app model in
      bindE (some_or (KeyError n) (map_of (mg_tables s) n)) (\<lambda>(t, sorting).
      bindE (some_or (KeyError name) (map_of t name)) (\<lambda>_.
        Inr (s\<lparr>mg_tables := map (\<lambda>(m, t, o'). if m = n then (m, replace_field name c t, o') else (m, t, o')) (mg_tables s)\<rparr>))))"

definition apply_migration :: "migration \<Rightarrow> migrated \<Rightarrow> exn + migrated" where
  "apply_migration m s =
     bindE (guardE (set (mg_dependencies m) \<subseteq> set (mg_applied s)) (ValueError ''dependencies'')) (\<lambda>_.
     bindE (foldE (apply_operation (mg_app m)) (mg_operations m) s) (\<lambda>s.
       Inr (s\<lparr>mg_applied := mg_applied s @ [(mg_app m, mg_name m)]\<rparr>)))"

text \<open>What Django's own applications have created before.\<close>

definition django_tables :: migrated where
  "django_tables = \<lparr>mg_tables = [(''auth.group'', [], []), (''auth.permission'', [], [])],
     mg_applied = [(''auth'', ''0012_alter_user_first_name_max_length'')]\<rparr>"

text \<open>\<open>migrations.swappable_dependency(settings.AUTH_USER_MODEL)\<close>: the first migration of that application.\<close>

definition swappable_dependency :: "string \<times> string" where
  "swappable_dependency = (''accounts'', ''0001_initial'')"

subsection \<open>The tables the migrations create\<close>

definition account_fields :: table where
  "account_fields =
    [(''password'', column_of (CharField 128)),
     (''last_login'', nullable (column_of DateTimeField)),
     (''is_superuser'', defaulting (Default (BoolV False)) (column_of BooleanField)),
     (''id'', not_editable (defaulting Uuid4 (primary_key (column_of UUIDField)))),
     (''email'', indexed (unique_column (column_of (EmailField 254)))),
     (''full_name'', column_of (CharField 255)),
     (''role'', defaulting (Default (TextV ''employee'')) (choosing [(''admin'', ''Admin''),
          (''manager'', ''Manager''), (''employee'', ''Employee'')]
        (indexed (column_of (CharField 20))))),
     (''is_active'', defaulting (Default (BoolV True)) (column_of BooleanField)),
     (''is_staff'', defaulting (Default (BoolV False)) (column_of BooleanField)),
     (''created_at'', stamped AutoNowAdd (column_of DateTimeField)),
     (''updated_at'', stamped AutoNow (column_of DateTimeField)),
     (''created_by'', related_as ''created_users'' (nullable (column_of (ForeignKey AUTH_USER_MODEL SET_NULL)))),
     (''groups'', related_as ''user_set'' (blankable (column_of (ManyToManyField ''auth.group'')))),
     (''user_permissions'', related_as ''user_set'' (blankable (column_of (ManyToManyField ''auth.permission''))))]"

definition category_fields :: table where
  "category_fields =
    [(''id'', not_editable (defaulting Uuid4 (primary_key (column_of UUIDField)))),
     (''name'', unique_column (column_of (CharField 255))),
     (''description'', nullable (column_of (CharField 1000))),
     (''is_active'', defaulting (Default (BoolV True)) (column_of BooleanField)),
     (''created_at'', stamped AutoNowAdd (column_of DateTimeField)),
     (''updated_at'', stamped AutoNow (column_of DateTimeField)),
     (''created_by'', nullable (column_of (ForeignKey AUTH_USER_MODEL SET_NULL)))]"

definition supplier_fields :: table where
  "supplier_fields =
    [(''id'', not_editable (defaulting Uuid4 (primary_key (column_of UUIDField)))),
     (''name'', column_of (CharField 255)),
     (''email'', indexed (unique_column (column_of (EmailField 254)))),
     (''phone'', nullable (column_of (CharField 50))),
     (''address'', nullable (column_of (CharField 1000))),
     (''is_active'', defaulting (Default (BoolV True)) (column_of BooleanField)),
     (''created_at'', stamped AutoNowAdd (column_of DateTimeField)),
     (''updated_at'', stamped AutoNow (column_of DateTimeField)),
     (''created_by'', nullable (column_of (ForeignKey AUTH_USER_MODEL SET_NULL)))]"

definition product_fields :: table where
  "product_fields =
    [(''id'', not_editable (defaulting Uuid4 (primary_key (column_of UUIDField)))),
     (''sku'', indexed (unique_column (column_of (CharField 100)))),
     (''name'', indexed (column_of (CharField 255))),
     (''description'', nullable (column_of (CharField 2000))),
     (''cost_price'', column_of (DecimalField 10 2)),
     (''selling_price'', indexed (column_of (DecimalField 10 2))),
     (''current_stock'', defaulting (Default (IntV 0)) (indexed (column_of IntegerField))),
     (''low_stock_threshold'', defaulting (Default (IntV 0)) (column_of IntegerField)),
     (''is_active'', defaulting (Default (BoolV True)) (column_of BooleanField)),
     (''created_at'', stamped AutoNowAdd (column_of DateTimeField)),
     (''updated_at'', stamped AutoNow (column_of DateTimeField)),
     (''category'', related_as ''products'' (column_of (ForeignKey ''catalog.category'' PROTECT))),
     (''created_by'', nullable (column_of (ForeignKey AUTH_USER_MODEL SET_NULL))),
     (''supplier'', related_as ''products'' (column_of (ForeignKey ''catalog.supplier'' PROTECT)))]"

definition inventory_transaction_fields :: table where
  "inventory_transaction_fields =
    [(''id'', not_editable (defaulting Uuid4 (primary_key (column_of UUIDField)))),
     (''quantity'', column_of IntegerField),
     (''transaction_type'', choosing [(''purchase'', ''Purchase''), (''sale'', ''Sale''),
          (''return'', ''Return''), (''damage'', ''Damage'')]
        (indexed (column_of (CharField 20)))),
     (''reference_id'', nullable (column_of UUIDField)),
     (''reason'', nullable (column_of (CharField 1000))),
     (''created_at'', stamped AutoNowAdd (indexed (column_of DateTimeField))),
     (''created_by'', nullable (column_of (ForeignKey AUTH_USER_MODEL SET_NULL))),
     (''product'', related_as ''transactions'' (column_of (ForeignKey ''catalog.product'' PROTECT)))]"

definition purchase_order_fields :: table where
  "purchase_order_fields =
    [(''id'', not_editable (defaulting Uuid4 (primary_key (column_of UUIDField)))),
     (''status'', defaulting (Default (TextV ''ordered'')) (choosing [(''ordered'', ''Ordered''),
          (''received'', ''Received'')]
        (indexed (column_of (CharField 20))))),
     (''received_at'', nullable (column_of DateTimeField)),
     (''created_at'', stamped AutoNowAdd (indexed (column_of DateTimeField))),
     (''updated_at'', stamped AutoNow (column_of DateTimeField)),
     (''created_by'', nullable (column_of (ForeignKey AUTH_USER_MODEL SET_NULL))),
     (''supplier'', related_as ''purchase_orders'' (column_of (ForeignKey ''catalog.supplier'' PROTECT)))]"

definition purchase_order_item_fields :: table where
  "purchase_order_item_fields =
    [(''id'', not_editable (defaulting Uuid4 (primary_key (column_of UUIDField)))),
     (''quantity'', column_of PositiveIntegerField),
     (''unit_cost'', column_of (DecimalField 10 2)),
     (''created_at'', stamped AutoNowAdd (column_of DateTimeField)),
     (''product'', related_as ''+'' (column_of (ForeignKey ''catalog.product'' PROTECT))),
     (''purchase_order'', related_as ''items'' (column_of (ForeignKey ''inventory.purchaseorder'' CASCADE)))]"

definition sales_order_fields :: table where
  "sales_order_fields =
    [(''id'', not_editable (defaulting Uuid4 (primary_key (column_of UUIDField)))),
     (''status'', defaulting (Default (TextV ''created'')) (choosing [(''created'', ''Created''),
          (''completed'', ''Completed'')]
        (indexed (column_of (CharField 20))))),
     (''customer_name'', nullable (column_of (CharField 255))),
     (''customer_phone'', nullable (column_of (CharField 50))),
     (''invoice_number'', unique_column (nullable (column_of (CharField 50)))),
     (''invoiced_at'', nullable (column_of DateTimeField)),
     (''created_at'', stamped AutoNowAdd (indexed (column_of DateTimeField))),
     (''updated_at'', stamped AutoNow (column_of DateTimeField)),
     (''created_by'', nullable (column_of (ForeignKey AUTH_USER_MODEL SET_NULL)))]"

definition return_fields :: table where
  "return_fields =
    [(''id'', not_editable (defaulting Uuid4 (primary_key (column_of UUIDField)))),
     (''quantity'', column_of PositiveIntegerField),
     (''reason'', column_of (CharField 1000)),
     (''status'', defaulting (Default (TextV ''pending'')) (choosing [(''pending'', ''Pending''),
          (''approved'', ''Approved'')]
        (indexed (column_of (CharField 20))))),
     (''created_at'', stamped AutoNowAdd (indexed (column_of DateTimeField))),
     (''approved_by'', related_as ''approved_returns'' (nullable (column_of (ForeignKey AUTH_USER_MODEL SET_NULL)))),
     (''created_by'', related_as ''filed_returns'' (nullable (column_of (ForeignKey AUTH_USER_MODEL SET_NULL)))),
     (''product'', related_as ''+'' (column_of (ForeignKey ''catalog.product'' PROTECT))),
     (''sales_order'', related_as ''returns'' (column_of (ForeignKey ''inventory.salesorder'' PROTECT)))]"

definition sales_order_item_fields :: table where
  "sales_order_item_fields =
    [(''id'', not_editable (defaulting Uuid4 (primary_key (column_of UUIDField)))),
     (''quantity'', column_of PositiveIntegerField),
     (''unit_price'', column_of (DecimalField 10 2)),
     (''created_at'', stamped AutoNowAdd (column_of DateTimeField)),
     (''product'', related_as ''+'' (column_of (ForeignKey ''catalog.product'' PROTECT))),
     (''sales_order'', related_as ''items'' (column_of (ForeignKey ''inventory.salesorder'' CASCADE)))]"

definition notification_fields :: table where
  "notification_fields =
    [(''id'', not_editable (defaulting Uuid4 (primary_key (column_of UUIDField)))),
     (''type'', choosing [(''low_stock'', ''Low stock''), (''out_of_stock'', ''Out of stock''),
          (''purchase_completed'', ''Purchase completed''), (''sale_completed'', ''Sale completed'')]
        (column_of (CharField 30))),
     (''message'', column_of (CharField 1000)),
     (''reference_id'', nullable (column_of UUIDField)),
     (''is_read'', defaulting (Default (BoolV False)) (column_of BooleanField)),
     (''created_at'', stamped AutoNowAdd (column_of DateTimeField)),
     (''user'', related_as ''notifications'' (column_of (ForeignKey AUTH_USER_MODEL CASCADE)))]"

subsection \<open>The migrations\<close>

definition accounts_0001 :: migration where
  "accounts_0001 = \<lparr>mg_app = ''accounts'', mg_name = ''0001_initial'',
     mg_dependencies = [(''auth'', ''0012_alter_user_first_name_max_length'')],
     mg_operations = [CreateModel ''User'' account_fields [''-created_at'']]\<rparr>"

definition catalog_0001 :: migration where
  "catalog_0001 = \<lparr>mg_app = ''catalog'', mg_name = ''0001_initial'', mg_dependencies = [swappable_dependency],
     mg_operations = [CreateModel ''Category'' category_fields [''-created_at''],
       CreateModel ''Supplier'' supplier_fields [''-created_at''],
       CreateModel ''Product'' product_fields [''-created_at'']]\<rparr>"

definition inventory_0001 :: migration where
  "inventory_0001 = \<lparr>mg_app = ''inventory'', mg_name = ''0001_initial'',
     mg_dependencies = [(''catalog'', ''0001_initial''), swappable_dependency],
     mg_operations = [CreateModel ''InventoryTransaction'' inventory_transaction_fields [''-created_at''],
       CreateModel ''PurchaseOrder'' purchase_order_fields [''-created_at''],
       CreateModel ''PurchaseOrderItem'' purchase_order_item_fields [],
       CreateModel ''SalesOrder'' sales_order_fields [''-created_at''],
       CreateModel ''Return'' return_fields [''-created_at''],
       CreateModel ''SalesOrderItem'' sales_order_item_fields []]\<rparr>"

definition notifications_0001 :: migration where
  "notifications_0001 = \<lparr>mg_app = ''notifications'', mg_name = ''0001_initial'',
     mg_dependencies = [swappable_dependency],
     mg_operations = [CreateModel ''Notification'' notification_fields [''-created_at'']]\<rparr>"

definition altered_type_field :: column where
  "altered_type_field = choosing [(''low_stock'', ''Low stock''), (''out_of_stock'', ''Out of stock''),
     (''purchase_completed'', ''Purchase completed''), (''sale_completed'', ''Sale completed''),
     (''reconciliation_mismatch'', ''Ledger reconciliation mismatch'')] (column_of (CharField 30))"

definition notifications_0002 :: migration where
  "notifications_0002 = \<lparr>mg_app = ''notifications'', mg_name = ''0002_alter_notification_type'',
     mg_dependencies = [(''notifications'', ''0001_initial'')],
     mg_operations = [AlterField ''notification'' ''type'' altered_type_field]\<rparr>"

definition plan :: "migration list" where
  "plan = [accounts_0001, catalog_0001, inventory_0001, notifications_0001, notifications_0002]"

definition migrate :: "migration list \<Rightarrow> exn + migrated" where
  "migrate ms = foldE apply_migration ms django_tables"

subsection \<open>The declarations of the model classes\<close>

definition user_model :: table where
  "user_model =
    [(''id'', not_editable (defaulting Uuid4 (primary_key (column_of UUIDField)))),
     (''email'', indexed (unique_column (column_of (EmailField 254)))),
     (''full_name'', column_of (CharField 255)),
     (''role'', defaulting (Default (TextV ''employee'')) (choosing [(''admin'', ''Admin''),
          (''manager'', ''Manager''), (''employee'', ''Employee'')]
        (indexed (column_of (CharField 20))))),
     (''is_active'', defaulting (Default (BoolV True)) (column_of BooleanField)),
     (''is_staff'', defaulting (Default (BoolV False)) (column_of BooleanField)),
     (''created_at'', stamped AutoNowAdd (column_of DateTimeField)),
     (''updated_at'', stamped AutoNow (column_of DateTimeField)),
     (''created_by'', related_as ''created_users'' (nullable (column_of (ForeignKey AUTH_USER_MODEL SET_NULL))))]"

definition category_model :: table where
  "category_model =
    [(''id'', not_editable (defaulting Uuid4 (primary_key (column_of UUIDField)))),
     (''name'', unique_column (column_of (CharField 255))),
     (''description'', nullable (column_of (CharField 1000))),
     (''is_active'', defaulting (Default (BoolV True)) (column_of BooleanField)),
     (''created_at'', stamped AutoNowAdd (column_of DateTimeField)),
     (''updated_at'', stamped AutoNow (column_of DateTimeField)),
     (''created_by'', nullable (column_of (ForeignKey AUTH_USER_MODEL SET_NULL)))]"

definition supplier_model :: table where
  "supplier_model =
    [(''id'', not_editable (defaulting Uuid4 (primary_key (column_of UUIDField)))),
     (''name'', column_of (CharField 255)),
     (''email'', indexed (unique_column (column_of (EmailField 254)))),
     (''phone'', nullable (column_of (CharField 50))),
     (''address'', nullable (column_of (CharField 1000))),
     (''is_active'', defaulting (Default (BoolV True)) (column_of BooleanField)),
     (''created_at'', stamped AutoNowAdd (column_of DateTimeField)),
     (''updated_at'', stamped AutoNow (column_of DateTimeField)),
     (''created_by'', nullable (column_of (ForeignKey AUTH_USER_MODEL SET_NULL)))]"

definition product_model :: table where
  "product_model =
    [(''id'', not_editable (defaulting Uuid4 (primary_key (column_of UUIDField)))),
     (''sku'', indexed (unique_column (column_of (CharField 100)))),
     (''name'', indexed (column_of (CharField 255))),
     (''description'', nullable (column_of (CharField 2000))),
     (''cost_price'', column_of (DecimalField 10 2)),
     (''selling_price'', indexed (column_of (DecimalField 10 2))),
     (''current_stock'', defaulting (Default (IntV 0)) (indexed (column_of IntegerField))),
     (''low_stock_threshold'', defaulting (Default (IntV 0)) (column_of IntegerField)),
     (''category'', related_as ''products'' (column_of (ForeignKey ''catalog.category'' PROTECT))),
     (''supplier'', related_as ''products'' (column_of (ForeignKey ''catalog.supplier'' PROTECT))),
     (''is_active'', defaulting (Default (BoolV True)) (column_of BooleanField)),
     (''created_at'', stamped AutoNowAdd (column_of DateTimeField)),
     (''updated_at'', stamped AutoNow (column_of DateTimeField)),
     (''created_by'', nullable (column_of (ForeignKey AUTH_USER_MODEL SET_NULL)))]"

definition purchase_order_model :: table where
  "purchase_order_model =
    [(''id'', not_editable (defaulting Uuid4 (primary_key (column_of UUIDField)))),
     (''supplier'', related_as ''purchase_orders'' (column_of (ForeignKey ''catalog.supplier'' PROTECT))),
     (''status'', defaulting (Default (TextV ''ordered'')) (choosing [(''ordered'', ''Ordered''),
          (''received'', ''Received'')]
        (indexed (column_of (CharField 20))))),
     (''received_at'', nullable (column_of DateTimeField)),
     (''created_at'', stamped AutoNowAdd (indexed (column_of DateTimeField))),
     (''updated_at'', stamped AutoNow (column_of DateTimeField)),
     (''created_by'', nullable (column_of (ForeignKey AUTH_USER_MODEL SET_NULL)))]"

definition purchase_order_item_model :: table where
  "purchase_order_item_model =
    [(''id'', not_editable (defaulting Uuid4 (primary_key (column_of UUIDField)))),
     (''purchase_order'', related_as ''items'' (column_of (ForeignKey ''inventory.purchaseorder'' CASCADE))),
     (''product'', related_as ''+'' (column_of (ForeignKey ''catalog.product'' PROTECT))),
     (''quantity'', column_of PositiveIntegerField),
     (''unit_cost'', column_of (DecimalField 10 2)),
     (''created_at'', stamped AutoNowAdd (column_of DateTimeField))]"

definition sales_order_model :: table where
  "sales_order_model =
    [(''id'', not_editable (defaulting Uuid4 (primary_key (column_of UUIDField)))),
     (''status'', defaulting (Default (TextV ''created'')) (choosing [(''created'', ''Created''),
          (''completed'', ''Completed'')]
        (indexed (column_of (CharField 20))))),
     (''customer_name'', nullable (column_of (CharField 255))),
     (''customer_phone'', nullable (column_of (CharField 50))),
     (''invoice_number'', unique_column (nullable (column_of (CharField 50)))),
     (''invoiced_at'', nullable (column_of DateTimeField)),
     (''created_at'', stamped AutoNowAdd (indexed (column_of DateTimeField))),
     (''updated_at'', stamped AutoNow (column_of DateTimeField)),
     (''created_by'', nullable (column_of (ForeignKey AUTH_USER_MODEL SET_NULL)))]"

definition sales_order_item_model :: table where
  "sales_order_item_model =
    [(''id'', not_editable (defaulting Uuid4 (primary_key (column_of UUIDField)))),
     (''sales_order'', related_as ''items'' (column_of (ForeignKey ''inventory.salesorder'' CASCADE))),
     (''product'', related_as ''+'' (column_of (ForeignKey ''catalog.product'' PROTECT))),
     (''quantity'', column_of PositiveIntegerField),
     (''unit_price'', column_of (DecimalField 10 2)),
     (''created_at'', stamped AutoNowAdd (column_of DateTimeField))]"

definition inventory_transaction_model :: table where
  "inventory_transaction_model =
    [(''id'', not_editable (defaulting Uuid4 (primary_key (column_of UUIDField)))),
     (''product'', related_as ''transactions'' (column_of (ForeignKey ''catalog.product'' PROTECT))),
     (''quantity'', column_of IntegerField),
     (''transaction_type'', choosing [(''purchase'', ''Purchase''), (''sale'', ''Sale''),
          (''return'', ''Return''), (''damage'', ''Damage'')]
        (indexed (column_of (CharField 20)))),
     (''reference_id'', nullable (column_of UUIDField)),
     (''reason'', nullable (column_of (CharField 1000))),
     (''created_at'', stamped AutoNowAdd (indexed (column_of DateTimeField))),
     (''created_by'', nullable (column_of (ForeignKey AUTH_USER_MODEL SET_NULL)))]"

definition return_model :: table where
  "return_model =
    [(''id'', not_editable (defaulting Uuid4 (primary_key (column_of UUIDField)))),
     (''sales_order'', related_as ''returns'' (column_of (ForeignKey ''inventory.salesorder'' PROTECT))),
     (''product'', related_as ''+'' (column_of (ForeignKey ''catalog.product'' PROTECT))),
     (''quantity'', column_of PositiveIntegerField),
     (''reason'', column_of (CharField 1000)),
     (''status'', defaulting (Default (TextV ''pending'')) (choosing [(''pending'', ''Pending''),
          (''approved'', ''Approved'')]
        (indexed (column_of (CharField 20))))),
     (''approved_by'', related_as ''approved_returns'' (nullable (column_of (ForeignKey AUTH_USER_MODEL SET_NULL)))),
     (''created_at'', stamped AutoNowAdd (indexed (column_of DateTimeField))),
     (''created_by'', related_as ''filed_returns'' (nullable (column_of (ForeignKey AUTH_USER_MODEL SET_NULL))))]"

definition notification_model :: table where
  "notification_model =
    [(''id'', not_editable (defaulting Uuid4 (primary_key (column_of UUIDField)))),
     (''user'', related_as ''notifications'' (column_of (ForeignKey AUTH_USER_MODEL CASCADE))),
     (''type'', choosing [(''low_stock'', ''Low stock''), (''out_of_stock'', ''Out of stock''),
          (''purchase_completed'', ''Purchase completed''), (''sale_completed'', ''Sale completed''),
          (''reconciliation_mismatch'', ''Ledger reconciliation mismatch'')]
        (column_of (CharField 30))),
     (''message'', column_of (CharField 1000)),
     (''reference_id'', nullable (column_of UUIDField)),
     (''is_read'', defaulting (Default (BoolV False)) (column_of BooleanField)),
     (''created_at'', stamped AutoNowAdd (column_of DateTimeField))]"

text \<open>What \<open>AbstractBaseUser\<close> and \<open>PermissionsMixin\<close> add to the user is not declared in the repository.\<close>

definition inherited_fields :: "string list" where
  "inherited_fields = [''password'', ''last_login'', ''is_superuser'', ''groups'', ''user_permissions'']"

definition declared_models :: "(string \<times> table \<times> string list) list" where
  "declared_models =
     [(''accounts.user'', user_model, [''-created_at'']),
      (''catalog.category'', category_model, [''-created_at'']),
      (''catalog.supplier'', supplier_model, [''-created_at'']),
      (''catalog.product'', product_model, [''-created_at'']),
      (''inventory.purchaseorder'', purchase_order_model, [''-created_at'']),
      (''inventory.purchaseorderitem'', purchase_order_item_model, []),
      (''inventory.salesorder'', sales_order_model, [''-created_at'']),
      (''inventory.salesorderitem'', sales_order_item_model, []),
      (''inventory.inventorytransaction'', inventory_transaction_model, [''-created_at'']),
      (''inventory.return'', return_model, [''-created_at'']),
      (''notifications.notification'', notification_model, [''-created_at''])]"

subsection \<open>The migrations build what the models declare\<close>

text \<open>The declaration of a field of a model, the inherited ones of the user apart.\<close>

definition own_field :: "(string \<times> table \<times> string list) list \<Rightarrow> string \<Rightarrow> string \<Rightarrow> column option" where
  "own_field ts m f = (case map_of ts m of
     None \<Rightarrow> None
   | Some (t, _) \<Rightarrow> if m = AUTH_USER_MODEL \<and> f \<in> set inherited_fields then None else map_of t f)"

definition default_ordering :: "(string \<times> table \<times> string list) list \<Rightarrow> string \<Rightarrow> string list" where
  "default_ordering ts m = (case map_of ts m of None \<Rightarrow> [] | Some (_, sorting) \<Rightarrow> sorting)"

text \<open>All orders of a list.\<close>

fun insertions :: "'a \<Rightarrow> 'a list \<Rightarrow> 'a list list" where
  "insertions x [] = [[x]]"
| "insertions x (y # ys) = (x # y # ys) # map ((#) y) (insertions x ys)"

fun orders :: "'a list \<Rightarrow> 'a list list" where
  "orders [] = [[]]"
| "orders (x # xs) = concat (map (insertions x) (orders xs))"

lemma insertions_mem: "a @ x # b \<in> set (insertions x (a @ b))"
  by (induction a) (cases b, auto)

lemma orders_complete: "mset ys = mset xs \<Longrightarrow> ys \<in> set (orders xs)"
proof (induction xs arbitrary: ys)
  case (Cons x xs)
  then have "x \<in> set ys" by (metis list.set_intros(1) set_mset_mset)
  then obtain a b where ys: "ys = a @ x # b" by (meson split_list)
  with Cons.prems have "mset (a @ b) = mset xs" by simp
  from Cons.IH [OF this] ys insertions_mem [of a x b] show ?case by auto
qed simp

lemma map_of_mset_eq:
  assumes "mset ts = mset us" "distinct (map fst ts)"
  shows "map_of ts = map_of us"
proof -
  have "distinct (map fst us)" using assms by (metis mset_eq_imp_distinct_iff mset_map)
  moreover have "set ts = set us" using assms(1) by (rule mset_eq_setD)
  ultimately show ?thesis using assms(2) by (simp add: map_of_inject_set)
qed

definition final_tables :: "(string \<times> table \<times> string list) list" where
  "final_tables = [(''auth.group'', [], []), (''auth.permission'', [], []),
     (''accounts.user'', account_fields, [''-created_at'']),
     (''catalog.category'', category_fields, [''-created_at'']),
     (''catalog.supplier'', supplier_fields, [''-created_at'']),
     (''catalog.product'', product_fields, [''-created_at'']),
     (''inventory.inventorytransaction'', inventory_transaction_fields, [''-created_at'']),
     (''inventory.purchaseorder'', purchase_order_fields, [''-created_at'']),
     (''inventory.purchaseorderitem'', purchase_order_item_fields, []),
     (''inventory.salesorder'', sales_order_fields, [''-created_at'']),
     (''inventory.return'', return_fields, [''-created_at'']),
     (''inventory.salesorderitem'', sales_order_item_fields, []),
     (''notifications.notification'', replace_field ''type'' altered_type_field notification_fields, [''-created_at''])]"

lemma table_names:
  "table_name ''accounts'' ''User'' = ''accounts.user''"
  "table_name ''catalog'' ''Category'' = ''catalog.category''"
  "table_name ''catalog'' ''Supplier'' = ''catalog.supplier''"
  "table_name ''catalog'' ''Product'' = ''catalog.product''"
  "table_name ''inventory'' ''InventoryTransaction'' = ''inventory.inventorytransaction''"
  "table_name ''inventory'' ''PurchaseOrder'' = ''inventory.purchaseorder''"
  "table_name ''inventory'' ''PurchaseOrderItem'' = ''inventory.purchaseorderitem''"
  "table_name ''inventory'' ''SalesOrder'' = ''inventory.salesorder''"
  "table_name ''inventory'' ''Return'' = ''inventory.return''"
  "table_name ''inventory'' ''SalesOrderItem'' = ''inventory.salesorderitem''"
  "table_name ''notifications'' ''Notification'' = ''notifications.notification''"
  "table_name ''notifications'' ''notification'' = ''notifications.notification''"
  by code_simp+

lemma table_targets:
  "targets account_fields = [''accounts.user'', ''auth.group'', ''auth.permission'']"
  "targets category_fields = [''accounts.user'']"
  "targets supplier_fields = [''accounts.user'']"
  "targets product_fields = [''catalog.category'', ''accounts.user'', ''catalog.supplier'']"
  "targets inventory_transaction_fields = [''accounts.user'', ''catalog.product'']"
  "targets purchase_order_fields = [''accounts.user'', ''catalog.supplier'']"
  "targets purchase_order_item_fields = [''catalog.product'', ''inventory.purchaseorder'']"
  "targets sales_order_fields = [''accounts.user'']"
  "targets return_fields = [''accounts.user'', ''accounts.user'', ''catalog.product'', ''inventory.salesorder'']"
  "targets sales_order_item_fields = [''catalog.product'', ''inventory.salesorder'']"
  "targets notification_fields = [''accounts.user'']"
  by code_simp+

lemma type_declared: "\<exists>c. map_of notification_fields ''type'' = Some c"
  by (simp add: notification_fields_def)

lemmas migration_defs = accounts_0001_def catalog_0001_def inventory_0001_def notifications_0001_def
  notifications_0002_def swappable_dependency_def

lemma plan_runs: "\<exists>s. migrate plan = Inr s"
  using type_declared
  by (auto simp: migrate_def plan_def migration_defs apply_migration_def django_tables_def table_names
      table_targets Let_def)

fun in_dependency_order :: "(string \<times> string) list \<Rightarrow> migration list \<Rightarrow> bool" where
  "in_dependency_order past [] = True"
| "in_dependency_order past (m # ms) \<longleftrightarrow> list_all (\<lambda>x. x \<in> set past) (mg_dependencies m)
     \<and> in_dependency_order ((mg_app m, mg_name m) # past) ms"

lemma in_dependency_order_cong: "set a = set b \<Longrightarrow> in_dependency_order a ms = in_dependency_order b ms"
proof (induction ms arbitrary: a b)
  case (Cons m ms)
  from Cons.prems have "set ((mg_app m, mg_name m) # a) = set ((mg_app m, mg_name m) # b)" by simp
  from Cons.IH [OF this] Cons.prems show ?case by simp
qed simp

lemma apply_operations_applied: "foldE (apply_operation app) ops s = Inr t \<Longrightarrow> mg_applied t = mg_applied s"
proof (induction ops arbitrary: s)
  case (Cons p ops)
  then show ?case by (cases p) (fastforce simp: bind_elims Let_def)+
qed simp

lemma run_in_order: "foldE apply_migration ms s = Inr t \<Longrightarrow> in_dependency_order (mg_applied s) ms"
proof (induction ms arbitrary: s)
  case (Cons m ms)
  then obtain u where u: "apply_migration m s = Inr u" "foldE apply_migration ms u = Inr t"
    by (auto simp: bind_elims)
  then have "mg_applied u = mg_applied s @ [(mg_app m, mg_name m)]" "set (mg_dependencies m) \<subseteq> set (mg_applied s)"
    by (auto simp: apply_migration_def bind_elims dest!: apply_operations_applied)
  with Cons.IH [OF u(2)] in_dependency_order_cong [of "mg_applied u" "(mg_app m, mg_name m) # mg_applied s" ms]
  show ?case by (auto simp: list_all_iff)
qed simp

lemma migration_data:
  "mg_applied django_tables = [(''auth'', ''0012_alter_user_first_name_max_length'')]"
  "mg_dependencies accounts_0001 = [(''auth'', ''0012_alter_user_first_name_max_length'')]"
  "mg_dependencies catalog_0001 = [(''accounts'', ''0001_initial'')]"
  "mg_dependencies inventory_0001 = [(''catalog'', ''0001_initial''), (''accounts'', ''0001_initial'')]"
  "mg_dependencies notifications_0001 = [(''accounts'', ''0001_initial'')]"
  "mg_dependencies notifications_0002 = [(''notifications'', ''0001_initial'')]"
  "mg_app accounts_0001 = ''accounts''" "mg_app catalog_0001 = ''catalog''" "mg_app inventory_0001 = ''inventory''"
  "mg_app notifications_0001 = ''notifications''" "mg_app notifications_0002 = ''notifications''"
  "mg_name accounts_0001 = ''0001_initial''" "mg_name catalog_0001 = ''0001_initial''"
  "mg_name inventory_0001 = ''0001_initial''" "mg_name notifications_0001 = ''0001_initial''"
  "mg_name notifications_0002 = ''0002_alter_notification_type''"
  by (simp_all add: migration_defs django_tables_def)

lemma possible_orders:
  "filter (in_dependency_order (mg_applied django_tables)) (orders plan) =
     [[accounts_0001, catalog_0001, inventory_0001, notifications_0001, notifications_0002],
      [accounts_0001, catalog_0001, notifications_0001, inventory_0001, notifications_0002],
      [accounts_0001, notifications_0001, catalog_0001, inventory_0001, notifications_0002],
      [accounts_0001, catalog_0001, notifications_0001, notifications_0002, inventory_0001],
      [accounts_0001, notifications_0001, catalog_0001, notifications_0002, inventory_0001],
      [accounts_0001, notifications_0001, notifications_0002, catalog_0001, inventory_0001]]"
  by (simp add: plan_def migration_data)

lemma final_distinct: "distinct (map fst final_tables)" "distinct (map fst declared_models)"
  by (simp_all add: final_tables_def declared_models_def)

lemma same_fields:
  "mset category_fields = mset category_model"
  "mset supplier_fields = mset supplier_model"
  "mset product_fields = mset product_model"
  "mset inventory_transaction_fields = mset inventory_transaction_model"
  "mset purchase_order_fields = mset purchase_order_model"
  "mset purchase_order_item_fields = mset purchase_order_item_model"
  "mset sales_order_fields = mset sales_order_model"
  "mset return_fields = mset return_model"
  "mset sales_order_item_fields = mset sales_order_item_model"
  by (simp_all add: category_fields_def category_model_def supplier_fields_def supplier_model_def product_fields_def product_model_def inventory_transaction_fields_def inventory_transaction_model_def purchase_order_fields_def purchase_order_model_def purchase_order_item_fields_def purchase_order_item_model_def sales_order_fields_def sales_order_model_def return_fields_def return_model_def sales_order_item_fields_def sales_order_item_model_def
      add_mset_commute)

lemma distinct_fields:
  "distinct (map fst category_fields)"
  "distinct (map fst supplier_fields)"
  "distinct (map fst product_fields)"
  "distinct (map fst inventory_transaction_fields)"
  "distinct (map fst purchase_order_fields)"
  "distinct (map fst purchase_order_item_fields)"
  "distinct (map fst sales_order_fields)"
  "distinct (map fst return_fields)"
  "distinct (map fst sales_order_item_fields)"
  by (simp_all add: category_fields_def category_model_def supplier_fields_def supplier_model_def product_fields_def product_model_def inventory_transaction_fields_def inventory_transaction_model_def purchase_order_fields_def purchase_order_model_def purchase_order_item_fields_def purchase_order_item_model_def sales_order_fields_def sales_order_model_def return_fields_def return_model_def sales_order_item_fields_def sales_order_item_model_def)

lemma same_user_fields:
  "mset (filter (\<lambda>(f, _). f \<notin> set inherited_fields) account_fields) = mset user_model"
  "distinct (map fst account_fields)" "distinct (map fst user_model)"
  by (simp_all add: account_fields_def user_model_def inherited_fields_def add_mset_commute)

lemma same_notification_fields:
  "mset (replace_field ''type'' altered_type_field notification_fields) = mset notification_model"
  "distinct (map fst (replace_field ''type'' altered_type_field notification_fields))"
  by (simp_all add: notification_fields_def notification_model_def replace_field_def altered_type_field_def
      add_mset_commute)

lemma map_of_own: "map_of (filter (\<lambda>(f, _). f \<notin> set hidden) t) f = (if f \<in> set hidden then None else map_of t f)"
  by (induction t) auto

lemma final_declared:
  "own_field final_tables m f = own_field declared_models m f"
  "default_ordering final_tables m = default_ordering declared_models m"
proof -
  have u: "map_of user_model = map_of (filter (\<lambda>(f, _). f \<notin> set inherited_fields) account_fields)"
    by (rule map_of_mset_eq [OF same_user_fields(1) [symmetric] same_user_fields(3)])
  note maps = map_of_mset_eq [OF same_notification_fields]
    map_of_mset_eq [OF same_fields(1) distinct_fields(1)] map_of_mset_eq [OF same_fields(2) distinct_fields(2)] map_of_mset_eq [OF same_fields(3) distinct_fields(3)] map_of_mset_eq [OF same_fields(4) distinct_fields(4)]
    map_of_mset_eq [OF same_fields(5) distinct_fields(5)] map_of_mset_eq [OF same_fields(6) distinct_fields(6)] map_of_mset_eq [OF same_fields(7) distinct_fields(7)]
    map_of_mset_eq [OF same_fields(8) distinct_fields(8)] map_of_mset_eq [OF same_fields(9) distinct_fields(9)]
  show "own_field final_tables m f = own_field declared_models m f"
    using u maps by (simp add: own_field_def final_tables_def declared_models_def AUTH_USER_MODEL_def map_of_own)
  show "default_ordering final_tables m = default_ordering declared_models m"
    by (simp add: default_ordering_def final_tables_def declared_models_def)
qed
lemma orders_run:
  "list_all (\<lambda>ms. case migrate ms of Inl e \<Rightarrow> False | Inr s \<Rightarrow> mset (mg_tables s) = mset final_tables)
     [[accounts_0001, catalog_0001, inventory_0001, notifications_0001, notifications_0002],
      [accounts_0001, catalog_0001, notifications_0001, inventory_0001, notifications_0002],
      [accounts_0001, notifications_0001, catalog_0001, inventory_0001, notifications_0002],
      [accounts_0001, catalog_0001, notifications_0001, notifications_0002, inventory_0001],
      [accounts_0001, notifications_0001, catalog_0001, notifications_0002, inventory_0001],
      [accounts_0001, notifications_0001, notifications_0002, catalog_0001, inventory_0001]]"
  using type_declared
  by (auto simp: migrate_def migration_defs apply_migration_def django_tables_def table_names
      table_targets final_tables_def Let_def add_mset_commute)

text \<open>C20. The migrations can be run, and whatever order respects their dependencies they are run in,
  the tables they leave are those the model classes declare: every field of every model has the
  declared type, length, nullability, uniqueness, index, choices, default and deletion rule, and
  every model its default ordering. Only the fields the user inherits from Django are not declared in
  the repository.\<close>
theorem migrations_build_the_models:
  assumes "mset ms = mset plan" "migrate ms = Inr s"
  shows "(\<exists>t. migrate plan = Inr t)
    \<and> (\<forall>m f. own_field (mg_tables s) m f = own_field declared_models m f)
    \<and> (\<forall>m. default_ordering (mg_tables s) m = default_ordering declared_models m)"
proof -
  have "ms \<in> set (orders plan)" using assms(1) by (rule orders_complete)
  moreover have "in_dependency_order (mg_applied django_tables) ms"
    using assms(2) run_in_order by (simp add: migrate_def)
  ultimately have "ms \<in> set (filter (in_dependency_order (mg_applied django_tables)) (orders plan))" by simp
  with assms(2) orders_run have "mset (mg_tables s) = mset final_tables"
    unfolding possible_orders list_all_iff by fastforce
  from map_of_mset_eq [OF this [symmetric] final_distinct(1)] have "map_of (mg_tables s) = map_of final_tables" by simp
  with final_declared plan_runs show ?thesis by (simp add: own_field_def default_ordering_def)
qed

theorem migrations_build_the_models_witness:
  "\<exists>s. migrate [accounts_0001, notifications_0001, catalog_0001, notifications_0002, inventory_0001] = Inr s
     \<and> own_field (mg_tables s) ''catalog.product'' ''sku'' = Some (indexed (unique_column (column_of (CharField 100))))"
proof -
  let ?ms = "[accounts_0001, notifications_0001, catalog_0001, notifications_0002, inventory_0001]"
  obtain s where s: "migrate ?ms = Inr s"
    using orders_run by (auto simp: list_all_iff split: sum.splits)
  have "mset ?ms = mset plan" by (simp add: plan_def)
  from migrations_build_the_models [OF this s]
  have "own_field (mg_tables s) ''catalog.product'' ''sku'' = own_field declared_models ''catalog.product'' ''sku''"
    by blast
  moreover have "own_field declared_models ''catalog.product'' ''sku''
      = Some (indexed (unique_column (column_of (CharField 100))))" by code_simp
  ultimately show ?thesis using s by simp
qed

end
