(* ===== verification/Tasks.thy ===== *)
theory Tasks
  imports Server
begin

section \<open>Background tasks\<close>

text \<open>
  The Celery tasks of \<open>apps/inventory/tasks.py\<close>: the invoice document (as the list of canvas
  calls it makes), the low-stock sweep and the nightly ledger reconciliation.
\<close>

subsection \<open>generate_invoice_pdf\<close>

text \<open>The calls on the \<open>reportlab\<close> canvas; coordinates are points from the lower left
  corner. The height of the page, \<open>letter\<close> of \<open>reportlab.lib.pagesizes\<close>, is a parameter.\<close>

datatype canvas_op =
    SetFont string nat
  | DrawString int int string
  | ShowPage
  | Save

text \<open>\<open>f"{amount:.2f}"\<close> of an amount with two decimal places.\<close>

definition money :: "cents \<Rightarrow> string" where
  "money c = (if c < 0 then ''-'' else []) @ str_int (\<bar>c\<bar> div 100) @ ''.''
     @ (if \<bar>c\<bar> mod 100 < 10 then ''0'' else []) @ str_int (\<bar>c\<bar> mod 100)"

definition or_dash :: "string option \<Rightarrow> string" where
  "or_dash v = (case v of None \<Rightarrow> ''-'' | Some s \<Rightarrow> if s = [] then ''-'' else s)"

definition or_none :: "string option \<Rightarrow> string" where
  "or_none v = (case v of None \<Rightarrow> ''None'' | Some s \<Rightarrow> s)"

definition line_total :: "so_item \<Rightarrow> cents" where
  "line_total item = soi_quantity item * soi_unit_price item"

text \<open>The loop over the lines: the canvas calls, the last \<open>y\<close> and the running total.\<close>

fun draw_lines :: "so_item list \<Rightarrow> db \<Rightarrow> int \<Rightarrow> cents \<Rightarrow> exn + canvas_op list \<times> int \<times> cents" where
  "draw_lines [] d y amount = Inr ([], y, amount)"
| "draw_lines (item # items) d y amount =
     bindE (some_or (DoesNotExist ''Product'') (get_product (soi_product item) d)) (\<lambda>product.
       let y = y - 16;
           amount = amount + line_total item
       in bindE (draw_lines items d y amount) (\<lambda>(ops, y', amount').
            Inr ([DrawString 72 y (take 40 (p_name product)),
                  DrawString 320 y (str_int (soi_quantity item)),
                  DrawString 380 y (money (soi_unit_price item)),
                  DrawString 470 y (money (line_total item))] @ ops, y', amount')))"

definition invoice_header :: "int \<Rightarrow> (time \<Rightarrow> string) \<Rightarrow> sales_order \<Rightarrow> string \<Rightarrow> canvas_op list" where
  "invoice_header height show_time so number =
     [SetFont ''Helvetica-Bold'' 16, DrawString 72 (height - 72) (''Invoice '' @ number),
      SetFont ''Helvetica'' 10, DrawString 72 (height - 96) (''Sales order: '' @ str_uuid (so_id so)),
      DrawString 72 (height - 110) (''Invoiced at: '' @ or_none (map_option show_time (so_invoiced_at so))),
      DrawString 72 (height - 124)
        (''Customer: '' @ or_dash (so_customer_name so) @ '' ('' @ or_dash (so_customer_phone so) @ '')''),
      SetFont ''Helvetica-Bold'' 10, DrawString 72 (height - 152) ''Product'',
      DrawString 320 (height - 152) ''Qty'', DrawString 380 (height - 152) ''Unit price'',
      DrawString 470 (height - 152) ''Line total'', SetFont ''Helvetica'' 10]"

text \<open>
  The invoice number, the file name below the media root, and the canvas calls of the document. \<open>show_time\<close> is the
  text of a time stamp.
\<close>

definition generate_invoice_pdf ::
  "int \<Rightarrow> (time \<Rightarrow> string) \<Rightarrow> uuid \<Rightarrow> db \<Rightarrow> exn + string \<times> string \<times> canvas_op list" where
  "generate_invoice_pdf height show_time sales_order_id d =
     bindE (some_or (DoesNotExist ''SalesOrder'') (get_so sales_order_id d)) (\<lambda>so.
     if so_status so \<noteq> COMPLETED \<or> so_invoice_number so \<in> {None, Some []} then
       Inl (ValueError ''no invoice to generate'')
     else
       let number = the (so_invoice_number so) in
       bindE (draw_lines (items_of_so (so_id so) d) d (height - 152) 0) (\<lambda>(ops, y, amount).
         Inr (number, ''invoices/'' @ number @ ''.pdf'',
              invoice_header height show_time so number @ ops
              @ [SetFont ''Helvetica-Bold'' 12, DrawString 380 (y - 28) (''Total: '' @ money amount), ShowPage, Save])))"

fun op_height :: "canvas_op \<Rightarrow> int option" where
  "op_height (DrawString x y s) = Some y"
| "op_height _ = None"

definition on_page :: "int \<Rightarrow> canvas_op list \<Rightarrow> bool" where
  "on_page height ops \<longleftrightarrow> (\<forall>p \<in> set ops. case op_height p of None \<Rightarrow> True | Some y \<Rightarrow> 0 \<le> y \<and> y \<le> height)"

lemma draw_lines_end:
  assumes "draw_lines items d y t = Inr (ops, y', t')"
  shows "y' = y - 16 * int (length items)" and "t' = t + total line_total items"
    and "\<forall>p \<in> set ops. case op_height p of None \<Rightarrow> True | Some h \<Rightarrow> y' \<le> h \<and> h \<le> y"
  using assms
proof (induction items arbitrary: y t ops)
  case (Cons item items)
  case 1
  with Cons.IH(1) show ?case by (fastforce simp: bind_elims Let_def)
next
  case (Cons item items)
  case 2
  with Cons.IH(2) show ?case by (fastforce simp: bind_elims Let_def)
next
  case (Cons item items)
  case 3
  then obtain ops' where o: "draw_lines items d (y - 16) (t + line_total item) = Inr (ops', y', t')"
    by (auto simp: bind_elims Let_def)
  have "y' \<le> y - 16" using Cons.IH(1) [OF o] by simp
  with 3 o Cons.IH(3) [OF o] show ?case
    by (fastforce simp: bind_elims Let_def split: option.splits)
qed auto

lemma generate_invoice_ok:
  assumes "generate_invoice_pdf height show_time pk d = Inr (number, path, ops)"
  obtains so ops' y where "get_so pk d = Some so" "so_id so = pk" "so_status so = COMPLETED"
    "so_invoice_number so = Some number" "path = ''invoices/'' @ number @ ''.pdf''"
    "draw_lines (items_of_so pk d) d (height - 152) 0 = Inr (ops', y, total line_total (items_of_so pk d))"
    "y = height - 152 - 16 * int (length (items_of_so pk d))"
    "ops = invoice_header height show_time so number @ ops' @ [SetFont ''Helvetica-Bold'' 12,
       DrawString 380 (y - 28) (''Total: '' @ money (total line_total (items_of_so pk d))), ShowPage, Save]"
proof -
  from assms obtain so where so: "get_so pk d = Some so" "so_status so = COMPLETED"
    "so_invoice_number so \<notin> {None, Some []}"
    by (auto simp: generate_invoice_pdf_def bind_elims split: if_splits)
  have id: "so_id so = pk" using get_row_SomeD(2) [OF so(1)] .
  with assms so have number: "so_invoice_number so = Some number"
    by (cases "so_invoice_number so") (auto simp: generate_invoice_pdf_def bind_elims Let_def)
  from assms so id number obtain ops' y t where
    dl: "draw_lines (items_of_so pk d) d (height - 152) 0 = Inr (ops', y, t)"
    and r: "path = ''invoices/'' @ number @ ''.pdf''"
      "ops = invoice_header height show_time so number @ ops' @ [SetFont ''Helvetica-Bold'' 12,
       DrawString 380 (y - 28) (''Total: '' @ money t), ShowPage, Save]"
    by (auto simp: generate_invoice_pdf_def bind_elims Let_def)
  have t: "t = total line_total (items_of_so pk d)" using draw_lines_end(2) [OF dl] by simp
  show thesis
    by (rule that [OF so(1) id so(2) number r(1) dl [unfolded t] draw_lines_end(1) [OF dl] r(2) [unfolded t]])
qed

lemma invoice_must_fit_one_page_facts:
  assumes "generate_invoice_pdf height show_time pk d = Inr (number, path, ops)"
  shows "DrawString 380 (height - 180 - 16 * int (length (items_of_so pk d)))
      (''Total: '' @ money (total line_total (items_of_so pk d))) \<in> set ops"
    and "on_page height ops \<longleftrightarrow> 180 + 16 * int (length (items_of_so pk d)) \<le> height"
proof -
  obtain so ops' y where g: "draw_lines (items_of_so pk d) d (height - 152) 0
      = Inr (ops', y, total line_total (items_of_so pk d))"
    "y = height - 152 - 16 * int (length (items_of_so pk d))"
    "ops = invoice_header height show_time so number @ ops' @ [SetFont ''Helvetica-Bold'' 12,
       DrawString 380 (y - 28) (''Total: '' @ money (total line_total (items_of_so pk d))), ShowPage, Save]"
    by (rule generate_invoice_ok [OF assms])
  show "DrawString 380 (height - 180 - 16 * int (length (items_of_so pk d)))
      (''Total: '' @ money (total line_total (items_of_so pk d))) \<in> set ops"
    unfolding g(3) g(2) by simp
  have lines: "\<forall>p \<in> set ops'. case op_height p of None \<Rightarrow> True | Some h \<Rightarrow> y \<le> h \<and> h \<le> height - 152"
    by (rule draw_lines_end(3) [OF g(1)])
  show "on_page height ops \<longleftrightarrow> 180 + 16 * int (length (items_of_so pk d)) \<le> height"
  proof
    assume "on_page height ops"
    then have "0 \<le> y - 28" unfolding g(3) by (simp add: on_page_def)
    then show "180 + 16 * int (length (items_of_so pk d)) \<le> height" by (simp add: g(2))
  next
    assume "180 + 16 * int (length (items_of_so pk d)) \<le> height"
    then have y: "0 \<le> y - 28" "y \<le> height - 152" by (simp_all add: g(2))
    have "on_page height ops'" unfolding on_page_def
    proof
      fix p assume "p \<in> set ops'"
      with lines y show "case op_height p of None \<Rightarrow> True | Some h \<Rightarrow> 0 \<le> h \<and> h \<le> height"
        by (fastforce split: option.splits)
    qed
    moreover have "on_page height (invoice_header height show_time so number)"
      using y by (simp add: on_page_def invoice_header_def)
    ultimately show "on_page height ops" using y unfolding g(3) by (auto simp: on_page_def)
  qed
qed

text \<open>C40. The invoice of a completed order states the sum of quantity times price over all its lines
  as its total, and everything it draws is on the page exactly when the page has room for 16
  points per line and 180 more: the task never starts a second page, so on the 792 points of a
  letter page an order of 39 lines or more has its total, and then its last lines, below the
  edge.\<close>
theorem invoice_must_fit_one_page:
  assumes "generate_invoice_pdf height show_time pk d = Inr (number, path, ops)"
  shows "DrawString 380 (height - 180 - 16 * int (length (items_of_so pk d)))
      (''Total: '' @ money (total line_total (items_of_so pk d))) \<in> set ops
    \<and> (on_page height ops \<longleftrightarrow> 180 + 16 * int (length (items_of_so pk d)) \<le> height)"
  by (intro conjI invoice_must_fit_one_page_facts [OF assms])

theorem invoice_must_fit_one_page_witness:
  "\<exists>number path ops. generate_invoice_pdf 792 str_nat 70 sample_db = Inr (number, path, ops)
     \<and> DrawString 380 596 ''Total: 10.00'' \<in> set ops \<and> on_page 792 ops"
proof -
  let ?run = "generate_invoice_pdf 792 str_nat 70 sample_db"
  obtain number path ops where run: "?run = Inr (number, path, ops)" by (cases ?run) (auto, code_simp)
  have i: "items_of_so 70 sample_db = [sample_so_item 71 70 21 2]" by code_simp
  have m: "money (total line_total [sample_so_item 71 70 21 2]) = ''10.00''" by code_simp
  from invoice_must_fit_one_page [OF run] run show ?thesis unfolding i m by simp
qed

subsection \<open>Regenerating an invoice\<close>

text \<open>The columns of the products that a stock mutation does not write.\<close>

definition same_catalog :: "db \<Rightarrow> db \<Rightarrow> bool" where
  "same_catalog d d' \<longleftrightarrow> map (p_current_stock_update (\<lambda>_. 0)) (products d')
     = map (p_current_stock_update (\<lambda>_. 0)) (products d)"

lemma same_catalog_stock:
  "map (p_current_stock_update (\<lambda>_. 0)) (update_row p_id i (p_current_stock_update (\<lambda>_. n)) t)
     = map (p_current_stock_update (\<lambda>_. 0)) t"
  by (simp add: update_row_def)

lemma get_row_map: "(\<And>r. key (f r) = key r) \<Longrightarrow> get_row key k (map f t) = map_option f (get_row key k t)"
  by (induction t) (simp_all add: get_row_Cons)

lemma same_catalog_name:
  assumes "same_catalog d d'"
  shows "map_option p_name (get_product i d') = map_option p_name (get_product i d)"
proof -
  have z: "map_option p_name (get_row p_id i t)
      = map_option p_name (get_row p_id i (map (p_current_stock_update (\<lambda>_. 0)) t))" for t
    by (simp add: get_row_map option.map_comp o_def)
  show ?thesis using assms z [of "products d"] z [of "products d'"] by (simp add: same_catalog_def)
qed

lemma draw_lines_cong:
  assumes "\<And>i. map_option p_name (get_product i d') = map_option p_name (get_product i d)"
  shows "draw_lines items d' y t = draw_lines items d y t"
proof (induction items arbitrary: y t)
  case (Cons item items)
  from assms [of "soi_product item"] Cons show ?case
    by (cases "get_product (soi_product item) d"; cases "get_product (soi_product item) d'") (simp_all add: Let_def)
qed simp

lemma same_catalog_refl: "products d' = products d \<Longrightarrow> same_catalog d d'"
  by (simp add: same_catalog_def)

lemma same_catalog_step:
  assumes "same_catalog d e" "products e' = update_row p_id i (p_current_stock_update (\<lambda>_. n)) (products e)"
  shows "same_catalog d e'"
  using assms by (simp add: same_catalog_def same_catalog_stock del: map_map)

lemma stock_mutations_keep_catalog:
  "receive u now pk d = Inr oc \<Longrightarrow> same_catalog d (odb oc)"
  "complete u now drawn pk d = Inr oc \<Longrightarrow> same_catalog d (odb oc)"
  "approve u now pk d = Inr oc \<Longrightarrow> same_catalog d (odb oc)"
  "damage u now ddata d = Inr oc \<Longrightarrow> same_catalog d (odb oc)"
proof -
  show "same_catalog d (odb oc)" if "receive u now pk d = Inr oc"
    using that
  proof (cases rule: receive_cases)
    case (first po d1)
    have "same_catalog d d1"
      by (rule foldE_invariant [OF first(4)])
        (auto simp: same_catalog_refl receive_item_Inr intro: same_catalog_step)
    with first(5) show ?thesis by (simp add: same_catalog_def)
  qed (simp add: same_catalog_refl)
  show "same_catalog d (odb oc)" if "complete u now drawn pk d = Inr oc"
    using that
  proof (cases rule: complete_cases)
    case (sold so by_item d1)
    have "same_catalog d d1"
      by (rule foldE_invariant [OF sold(5)])
        (auto simp: same_catalog_refl deduct_line_Inr intro: same_catalog_step)
    with finish_complete_Inr(4) [OF sold(6)] show ?thesis by (simp add: same_catalog_def)
  qed (simp_all add: same_catalog_refl)
  show "same_catalog d (odb oc)" if "approve u now pk d = Inr oc"
    using that
  proof (cases rule: approve_cases)
    case (first r d1)
    have "same_catalog d d1"
      using first(4) same_catalog_refl [of d d] by (auto simp: restock_Inr intro: same_catalog_step)
    with first(5) show ?thesis by (simp add: same_catalog_def)
  qed (simp add: same_catalog_refl)
  show "same_catalog d (odb oc)" if "damage u now ddata d = Inr oc"
    using that
  proof (cases rule: damage_cases)
    case (written pid p q reason t)
    show ?thesis
      using written(9) same_catalog_refl [of d d] by (auto simp: write_off_Inr intro: same_catalog_step)
  qed (simp add: same_catalog_refl)
qed

lemma invoice_keeps_catalog: "invoice rid task q pk d = Inr oc \<Longrightarrow> same_catalog d (odb oc)"
  using invoice_same [of rid task q pk d oc] by (simp add: same_catalog_refl)

lemmas request_catalogs = stock_mutations_keep_catalog order_writes_keep_products [THEN same_catalog_refl]
  invoice_keeps_catalog

lemma request_keeps_catalog: "view_of u now r d = Inr oc \<Longrightarrow> same_catalog d (odb oc)"
  by (cases r; simp only: view_of.simps; erule request_catalogs)

text \<open>Running the invoice task again gives the same document under the same file name,
  whatever inventory request was served in between, other than the order's deletion.\<close>
theorem invoice_is_reproducible:
  assumes "generate_invoice_pdf height show_time pk d = Inr doc" "view_of u now r d = Inr oc" "wf_sales d"
    and "\<And>q. r \<noteq> DestroySO q pk"
  shows "generate_invoice_pdf height show_time pk (odb oc) = Inr doc"
proof -
  obtain number path ops where doc: "doc = (number, path, ops)" by (cases doc)
  obtain so where so: "get_so pk d = Some so" "so_id so = pk" "so_status so = COMPLETED"
    by (rule generate_invoice_ok [OF assms(1) [unfolded doc]])
  note final = completed_order_is_final_facts [OF assms(2,3) so(1,3) assms(4)]
  have "draw_lines xs (odb oc) y t = draw_lines xs d y t" for xs y t
    by (rule draw_lines_cong) (rule same_catalog_name [OF request_keeps_catalog [OF assms(2)]])
  with so final have "generate_invoice_pdf height show_time pk (odb oc) = generate_invoice_pdf height show_time pk d"
    by (simp add: generate_invoice_pdf_def)
  with assms(1) show ?thesis by simp
qed

theorem invoice_is_reproducible_witness:
  "\<exists>oc doc. view_of sample_manager 5 (WriteOff (sample_damage 1)) sample_db = Inr oc
     \<and> generate_invoice_pdf 792 str_nat 70 sample_db = Inr doc \<and> generate_invoice_pdf 792 str_nat 70 (odb oc) = Inr doc"
proof -
  let ?run = "generate_invoice_pdf 792 str_nat 70 sample_db"
  obtain doc where doc: "?run = Inr doc" by (cases ?run) (auto, code_simp)
  let ?view = "view_of sample_manager 5 (WriteOff (sample_damage 1)) sample_db"
  obtain oc where oc: "?view = Inr oc" by (cases ?view) (simp_all, code_simp)
  have "wf_sales sample_db" by code_simp
  from invoice_is_reproducible [OF doc oc this] doc oc show ?thesis by simp
qed

subsection \<open>sweep_low_stock\<close>

type_synonym candidate = "product \<times> notification_type \<times> string"

definition candidates :: "db \<Rightarrow> candidate list" where
  "candidates d =
     map (\<lambda>p. (p, OUT_OF_STOCK, out_of_stock_message p))
       (newest_first p_created_at (filter (\<lambda>p. p_is_active p \<and> p_current_stock p \<le> 0) (products d)))
   @ map (\<lambda>p. (p, LOW_STOCK, low_stock_message p))
       (newest_first p_created_at
         (filter (\<lambda>p. p_is_active p \<and> 0 < p_current_stock p \<and> p_current_stock p \<le> p_low_stock_threshold p) (products d)))"

definition already_flagged :: "notification_type \<Rightarrow> uuid \<Rightarrow> db \<Rightarrow> bool" where
  "already_flagged ty i d \<longleftrightarrow>
     (\<exists>n \<in> set (notifications d). n_type n = ty \<and> n_reference n = Some i \<and> \<not> n_is_read n)"

fun flag :: "time \<Rightarrow> candidate list \<Rightarrow> nat \<times> db \<Rightarrow> nat \<times> db" where
  "flag now [] (flagged, d) = (flagged, d)"
| "flag now ((product, ty, message) # cs) (flagged, d) =
     (if already_flagged ty (p_id product) d then flag now cs (flagged, d)
      else flag now cs (Suc flagged, notify_admins_and_managers ty message (Some (p_id product)) now d))"

text \<open>The number of candidates, the number flagged, and the database after the sweep.\<close>

definition sweep_low_stock :: "time \<Rightarrow> db \<Rightarrow> (nat \<times> nat) \<times> db" where
  "sweep_low_stock now d =
     (let cs = candidates d; (flagged, d') = flag now cs (0, d)
      in ((length cs, flagged), d'))"

lemma already_flagged_mono:
  "already_flagged ty i d \<Longrightarrow> already_flagged ty i (notify_admins_and_managers ty' m r now d)"
  by (auto simp: already_flagged_def notify_admins_rows)

lemma alert_flags:
  assumes "admins_and_managers d \<noteq> []"
  shows "already_flagged ty i (notify_admins_and_managers ty m (Some i) now d)"
proof -
  let ?rows = "alert_rows (next_uuid d) ty m (Some i) now (admins_and_managers d)"
  from assms obtain n where "n \<in> set ?rows" by (metis alert_rows_Nil list.set_intros(1) neq_Nil_conv)
  with alert_rows_fields [OF this] show ?thesis by (auto simp: already_flagged_def notify_admins_rows)
qed

lemma alert_nobody: "admins_and_managers d = [] \<Longrightarrow> notify_admins_and_managers ty m r now d = d"
  by (simp add: notify_admins_and_managers_def)

lemma flag_frame:
  "products (snd (flag now cs (k, d))) = products d"
  "admins_and_managers (snd (flag now cs (k, d))) = admins_and_managers d"
  by (induction now cs "(k, d)" arbitrary: k d rule: flag.induct) simp_all

lemma flag_mono: "already_flagged ty i d \<Longrightarrow> already_flagged ty i (snd (flag now cs (k, d)))"
  by (induction now cs "(k, d)" arbitrary: k d rule: flag.induct) (simp_all add: already_flagged_mono)

lemma flag_all:
  assumes "admins_and_managers d \<noteq> []" "(p, ty, m) \<in> set cs"
  shows "already_flagged ty (p_id p) (snd (flag now cs (k, d)))"
  using assms
proof (induction now cs "(k, d)" arbitrary: k d rule: flag.induct)
  case (2 now product ty' message cs flagged d)
  then show ?case by (auto simp: flag_mono alert_flags)
qed simp

lemma flag_none:
  "(\<And>p ty m. (p, ty, m) \<in> set cs \<Longrightarrow> already_flagged ty (p_id p) d) \<Longrightarrow> flag now cs (k, d) = (k, d)"
proof (induction cs)
  case (Cons c cs)
  obtain p ty m where c: "c = (p, ty, m)" by (cases c)
  have "flag now cs (k, d) = (k, d)" by (rule Cons.IH) (auto intro: Cons.prems)
  with Cons.prems [of p ty m] c show ?case by simp
qed simp

lemma flag_nobody: "admins_and_managers d = [] \<Longrightarrow> snd (flag now cs (k, d)) = d"
  by (induction now cs "(k, d)" arbitrary: k d rule: flag.induct) (simp_all add: alert_nobody)

lemma sweep_eq: "snd (sweep_low_stock now d) = snd (flag now (candidates d) (0, d))"
  by (simp add: sweep_low_stock_def Let_def split: prod.split)

lemma sweep_is_idempotent_facts:
  shows "snd (sweep_low_stock now' (snd (sweep_low_stock now d))) = snd (sweep_low_stock now d)"
    and "admins_and_managers d = [] \<or>
      fst (sweep_low_stock now' (snd (sweep_low_stock now d))) = (length (candidates d), 0)"
proof -
  let ?d = "snd (flag now (candidates d) (0, d))"
  have c: "candidates ?d = candidates d" by (simp add: candidates_def flag_frame)
  have "snd (sweep_low_stock now' ?d) = ?d \<and> (admins_and_managers d = [] \<or>
      fst (sweep_low_stock now' ?d) = (length (candidates d), 0))"
  proof (cases "admins_and_managers d = []")
    case True
    then have "?d = d" by (rule flag_nobody)
    with True show ?thesis by (simp add: sweep_eq flag_nobody)
  next
    case False
    have "flag now' (candidates d) (0, ?d) = (0, ?d)"
      by (rule flag_none) (rule flag_all [OF False])
    then show ?thesis using c by (simp add: sweep_low_stock_def Let_def)
  qed
  then show "snd (sweep_low_stock now' (snd (sweep_low_stock now d))) = snd (sweep_low_stock now d)"
    and "admins_and_managers d = [] \<or>
      fst (sweep_low_stock now' (snd (sweep_low_stock now d))) = (length (candidates d), 0)"
    by (simp_all add: sweep_eq)
qed

text \<open>The sweep is idempotent: run again over unchanged stock, at any time, it writes nothing
  more; and if there is anyone to tell, it counts nothing as newly flagged either.\<close>
theorem sweep_is_idempotent:
  shows "snd (sweep_low_stock now' (snd (sweep_low_stock now d))) = snd (sweep_low_stock now d)
    \<and> (admins_and_managers d = [] \<or>
      fst (sweep_low_stock now' (snd (sweep_low_stock now d))) = (length (candidates d), 0))"
  by (intro conjI sweep_is_idempotent_facts)

lemma sweep_alerts_every_low_product_facts:
  assumes "admins_and_managers d \<noteq> []" "p \<in> set (products d)" "p_is_active p"
  shows "p_current_stock p \<le> 0 \<Longrightarrow> already_flagged OUT_OF_STOCK (p_id p) (snd (sweep_low_stock now d))"
    and "0 < p_current_stock p \<Longrightarrow> p_current_stock p \<le> p_low_stock_threshold p \<Longrightarrow>
      already_flagged LOW_STOCK (p_id p) (snd (sweep_low_stock now d))"
proof -
  show "already_flagged OUT_OF_STOCK (p_id p) (snd (sweep_low_stock now d))" if "p_current_stock p \<le> 0"
    unfolding sweep_eq using that assms(2,3)
    by (intro flag_all [OF assms(1), where m = "out_of_stock_message p"]) (auto simp: candidates_def)
  show "already_flagged LOW_STOCK (p_id p) (snd (sweep_low_stock now d))"
    if "0 < p_current_stock p" "p_current_stock p \<le> p_low_stock_threshold p"
    unfolding sweep_eq using that assms(2,3)
    by (intro flag_all [OF assms(1), where m = "low_stock_message p"]) (auto simp: candidates_def)
qed

text \<open>The sweep misses nothing: afterwards every active product that is out of stock, or at or
  below its threshold, has an unread alert of that kind, if there is anyone to alert.\<close>
theorem sweep_alerts_every_low_product:
  assumes "admins_and_managers d \<noteq> []" "p \<in> set (products d)" "p_is_active p"
  shows "(p_current_stock p \<le> 0 \<longrightarrow> already_flagged OUT_OF_STOCK (p_id p) (snd (sweep_low_stock now d)))
    \<and> (0 < p_current_stock p \<and> p_current_stock p \<le> p_low_stock_threshold p \<longrightarrow>
      already_flagged LOW_STOCK (p_id p) (snd (sweep_low_stock now d)))"
  using sweep_alerts_every_low_product_facts [OF assms] by blast

definition low_db :: db where
  "low_db = sample_db\<lparr>products := [sample_product 20 ''W-1'' 0, sample_product 21 ''W-2'' 2]\<rparr>"

theorem sweep_alerts_every_low_product_witness:
  "already_flagged OUT_OF_STOCK 20 (snd (sweep_low_stock 5 low_db))
   \<and> already_flagged LOW_STOCK 21 (snd (sweep_low_stock 5 low_db))"
proof -
  have a: "admins_and_managers low_db \<noteq> []" by code_simp
  have p: "sample_product 20 ''W-1'' 0 \<in> set (products low_db)" "sample_product 21 ''W-2'' 2 \<in> set (products low_db)"
    by (simp_all add: low_db_def)
  show ?thesis
    using sweep_alerts_every_low_product [OF a p(1), of 5] sweep_alerts_every_low_product [OF a p(2), of 5]
    by (simp add: sample_product_def)
qed

subsection \<open>reconcile_ledger\<close>

text \<open>The rows of the \<open>GROUP BY product_id\<close> query as a dictionary.\<close>

definition ledger_totals :: "db \<Rightarrow> uuid \<Rightarrow> int option" where
  "ledger_totals d i = (case filter (\<lambda>t. t_product t = i) (transactions d) of
     [] \<Rightarrow> None | ts \<Rightarrow> Some (total signed_quantity ts))"

definition ledger_get :: "db \<Rightarrow> uuid \<Rightarrow> int" where
  "ledger_get d i = (case ledger_totals d i of None \<Rightarrow> 0 | Some n \<Rightarrow> n)"

definition mismatched :: "db \<Rightarrow> (uuid \<times> int \<times> int) list" where
  "mismatched d = map (\<lambda>p. (p_id p, p_current_stock p, ledger_get d (p_id p)))
     (filter (\<lambda>p. p_current_stock p \<noteq> ledger_get d (p_id p)) (newest_first p_created_at (products d)))"

record reconciliation =
  checked :: nat
  mismatched_count :: nat
  mismatched_product_ids :: "string list"

definition reconcile_ledger :: "time \<Rightarrow> db \<Rightarrow> reconciliation \<times> db" where
  "reconcile_ledger now d =
     (let m = mismatched d;
          d' = (if m \<noteq> [] then notify_admins_and_managers RECONCILIATION_MISMATCH
                  (''Ledger reconciliation found '' @ str_nat (length m)
                   @ '' product(s) with a stock/ledger mismatch'') None now d
                else d)
      in (\<lparr>checked = length (products d), mismatched_count = length m,
           mismatched_product_ids = map (\<lambda>(pid, _, _). str_uuid pid) m\<rparr>, d'))"

lemma ledger_get_total: "ledger_get d i = ledger_total d i"
  by (simp add: ledger_get_def ledger_totals_def ledger_total_def split: list.split)

lemma mismatched_Nil:
  assumes "wf_products d"
  shows "mismatched d = [] \<longleftrightarrow> balanced d"
proof -
  have "stock_of d (p_id p) = Some (p_current_stock p)" if "p \<in> set (products d)" for p
    using get_row_eqI [of p_id "products d" p] that assms by (simp add: stock_of_def wf_products_def)
  then show ?thesis by (simp add: mismatched_def filter_empty_conv ledger_get_total balanced_def)
qed

lemma reconcile_is_exact_facts:
  assumes "wf_products d"
  shows "mismatched_count (fst (reconcile_ledger now d)) = 0 \<longleftrightarrow> balanced d"
    and "balanced d \<Longrightarrow> snd (reconcile_ledger now d) = d"
    and "products (snd (reconcile_ledger now d)) = products d"
    and "transactions (snd (reconcile_ledger now d)) = transactions d"
    and "p \<in> set (products d) \<Longrightarrow> str_uuid (p_id p) \<in> set (mismatched_product_ids (fst (reconcile_ledger now d)))
      \<longleftrightarrow> p_current_stock p \<noteq> ledger_total d (p_id p)"
proof -
  note nil = mismatched_Nil [OF assms]
  show "mismatched_count (fst (reconcile_ledger now d)) = 0 \<longleftrightarrow> balanced d"
    "balanced d \<Longrightarrow> snd (reconcile_ledger now d) = d"
    "products (snd (reconcile_ledger now d)) = products d"
    "transactions (snd (reconcile_ledger now d)) = transactions d"
    using nil by (simp_all add: reconcile_ledger_def Let_def)
  have id: "p = q" if "p \<in> set (products d)" "q \<in> set (products d)" "str_uuid (p_id p) = str_uuid (p_id q)" for p q
    using that assms str_uuid_inj [OF that(3)] by (auto simp: wf_products_def distinct_map inj_on_def)
  show "str_uuid (p_id p) \<in> set (mismatched_product_ids (fst (reconcile_ledger now d)))
      \<longleftrightarrow> p_current_stock p \<noteq> ledger_total d (p_id p)" if "p \<in> set (products d)"
    using that id by (auto simp: reconcile_ledger_def Let_def mismatched_def ledger_get_total image_iff)
qed

text \<open>C34. The reconciliation is exact and read-only: it reports no mismatch precisely when every
  product's stock is the signed sum of its ledger rows, in that case it writes nothing at all,
  and in no case does it touch a product or a ledger row.\<close>
theorem reconcile_is_exact:
  assumes "wf_products d"
  shows "(mismatched_count (fst (reconcile_ledger now d)) = 0 \<longleftrightarrow> balanced d)
    \<and> (balanced d \<longrightarrow> snd (reconcile_ledger now d) = d)
    \<and> products (snd (reconcile_ledger now d)) = products d
    \<and> transactions (snd (reconcile_ledger now d)) = transactions d
    \<and> (\<forall>p \<in> set (products d). str_uuid (p_id p) \<in> set (mismatched_product_ids (fst (reconcile_ledger now d)))
      \<longleftrightarrow> p_current_stock p \<noteq> ledger_total d (p_id p))"
  by (intro conjI ballI impI reconcile_is_exact_facts [OF assms])

theorem reconcile_is_exact_witness:
  "mismatched_count (fst (reconcile_ledger 5 sample_db)) = 0 \<and> snd (reconcile_ledger 5 sample_db) = sample_db
   \<and> str_uuid 20 \<in> set (mismatched_product_ids (fst (reconcile_ledger 5 short_db)))"
proof -
  have wf: "wf_products sample_db" "wf_products short_db" and bal: "balanced sample_db" by code_simp+
  have p: "sample_product 20 ''W-1'' 3 \<in> set (products short_db)" by (simp add: short_db_def)
  have id: "p_id (sample_product 20 ''W-1'' 3) = 20" by (simp add: sample_product_def)
  have ne: "p_current_stock (sample_product 20 ''W-1'' 3) \<noteq> ledger_total short_db 20" by code_simp
  show ?thesis
    using reconcile_is_exact [OF wf(1), of 5] reconcile_is_exact [OF wf(2), of 5] p id bal ne
    by auto
qed

end
