(* ===== verification/Rows.thy ===== *)
theory Rows
  imports Migrations Reports Tasks
begin

section \<open>Rows and the schema they must fit\<close>

text \<open>
  What it means that a database obeys the tables the migrations created: every value is of the
  type of its column and within its bounds, a null is in a nullable column, a text with choices is
  one of them, a foreign key refers to a row of its table, and the values of a unique column are
  distinct. The rows are those of the records of \<open>Schema\<close>, column by column.
\<close>

subsection \<open>Values and rows\<close>

fun type_fits :: "(string \<Rightarrow> uuid list) \<Rightarrow> field_type \<Rightarrow> sql_value \<Rightarrow> bool" where
  "type_fits ids UUIDField (UuidV i) = (i < 2 ^ 128)"
| "type_fits ids (CharField n) (TextV s) = (length s \<le> n)"
| "type_fits ids (EmailField n) (TextV s) = (length s \<le> n)"
| "type_fits ids IntegerField (IntV n) = fits_integer n"
| "type_fits ids PositiveIntegerField (IntV n) = (0 \<le> n \<and> n \<le> max_int32)"
| "type_fits ids (DecimalField digits places) (CentsV c) = (places = 2 \<and> \<bar>c\<bar> < 10 ^ digits)"
| "type_fits ids BooleanField (BoolV b) = True"
| "type_fits ids DateTimeField (TimeV t) = True"
| "type_fits ids (ForeignKey m od) (UuidV i) = (i \<in> set (ids m))"
| "type_fits ids ty v = False"

definition value_fits :: "(string \<Rightarrow> uuid list) \<Rightarrow> column \<Rightarrow> sql_value \<Rightarrow> bool" where
  "value_fits ids c v = (case v of
     Null \<Rightarrow> cl_null c
   | TextV s \<Rightarrow> type_fits ids (cl_type c) v \<and> (cl_choices c = [] \<or> s \<in> set (map fst (cl_choices c)))
   | _ \<Rightarrow> type_fits ids (cl_type c) v)"

text \<open>A field the row has no value for must be nullable, or be kept in a table of its own.\<close>

definition optional :: "column \<Rightarrow> bool" where
  "optional c \<longleftrightarrow> cl_null c \<or> (case cl_type c of ManyToManyField m \<Rightarrow> True | _ \<Rightarrow> False)"

type_synonym row = "(string \<times> sql_value) list"

definition row_fits :: "(string \<Rightarrow> uuid list) \<Rightarrow> table \<Rightarrow> row \<Rightarrow> bool" where
  "row_fits ids t row \<longleftrightarrow>
     list_all (\<lambda>(n, v). case map_of t n of None \<Rightarrow> False | Some c \<Rightarrow> value_fits ids c v) row
   \<and> list_all (\<lambda>(n, c). n \<in> set (map fst row) \<or> optional c) t"

definition unique_names :: "table \<Rightarrow> string list" where
  "unique_names t = map fst (filter (\<lambda>(n, c). cl_unique c \<or> cl_primary_key c) t)"

definition cell :: "string \<Rightarrow> row \<Rightarrow> sql_value" where
  "cell n row = (case map_of row n of None \<Rightarrow> Null | Some v \<Rightarrow> v)"

definition keys_unique :: "table \<Rightarrow> row list \<Rightarrow> bool" where
  "keys_unique t rows \<longleftrightarrow>
     list_all (\<lambda>n. distinct (filter (\<lambda>v. v \<noteq> Null) (map (cell n) rows))) (unique_names t)"

subsection \<open>The rows of the database\<close>

fun opt_value :: "('a \<Rightarrow> sql_value) \<Rightarrow> 'a option \<Rightarrow> sql_value" where
  "opt_value f None = Null"
| "opt_value f (Some x) = f x"

fun po_status_value :: "po_status \<Rightarrow> string" where
  "po_status_value ORDERED = ''ordered''"
| "po_status_value RECEIVED = ''received''"

fun so_status_value :: "so_status \<Rightarrow> string" where
  "so_status_value CREATED = ''created''"
| "so_status_value COMPLETED = ''completed''"

fun notification_type_value :: "notification_type \<Rightarrow> string" where
  "notification_type_value LOW_STOCK = ''low_stock''"
| "notification_type_value OUT_OF_STOCK = ''out_of_stock''"
| "notification_type_value PURCHASE_COMPLETED = ''purchase_completed''"
| "notification_type_value SALE_COMPLETED = ''sale_completed''"
| "notification_type_value RECONCILIATION_MISMATCH = ''reconciliation_mismatch''"

definition user_row :: "user \<Rightarrow> row" where
  "user_row u = [(''id'', UuidV (u_id u)), (''email'', TextV (u_email u)), (''password'', TextV (u_password u)),
     (''last_login'', opt_value TimeV (u_last_login u)), (''full_name'', TextV (u_full_name u)), (''role'', TextV (role_value (u_role u))),
     (''is_active'', BoolV (u_is_active u)), (''is_staff'', BoolV (u_is_staff u)),
     (''is_superuser'', BoolV (u_is_superuser u)), (''created_at'', TimeV (u_created_at u)),
     (''updated_at'', TimeV (u_updated_at u)), (''created_by'', opt_value UuidV (u_created_by u))]"

definition category_row :: "category \<Rightarrow> row" where
  "category_row c = [(''id'', UuidV (c_id c)), (''name'', TextV (c_name c)),
     (''description'', opt_value TextV (c_description c)), (''is_active'', BoolV (c_is_active c)),
     (''created_at'', TimeV (c_created_at c)), (''updated_at'', TimeV (c_updated_at c)),
     (''created_by'', opt_value UuidV (c_created_by c))]"

definition supplier_row :: "supplier \<Rightarrow> row" where
  "supplier_row s = [(''id'', UuidV (s_id s)), (''name'', TextV (s_name s)), (''email'', TextV (s_email s)),
     (''phone'', opt_value TextV (s_phone s)), (''address'', opt_value TextV (s_address s)),
     (''is_active'', BoolV (s_is_active s)), (''created_at'', TimeV (s_created_at s)),
     (''updated_at'', TimeV (s_updated_at s)), (''created_by'', opt_value UuidV (s_created_by s))]"

definition product_row :: "product \<Rightarrow> row" where
  "product_row p = [(''id'', UuidV (p_id p)), (''sku'', TextV (p_sku p)), (''name'', TextV (p_name p)),
     (''description'', opt_value TextV (p_description p)), (''cost_price'', CentsV (p_cost_price p)),
     (''selling_price'', CentsV (p_selling_price p)), (''current_stock'', IntV (p_current_stock p)),
     (''low_stock_threshold'', IntV (p_low_stock_threshold p)), (''category'', UuidV (p_category p)),
     (''supplier'', UuidV (p_supplier p)), (''is_active'', BoolV (p_is_active p)),
     (''created_at'', TimeV (p_created_at p)), (''updated_at'', TimeV (p_updated_at p)),
     (''created_by'', opt_value UuidV (p_created_by p))]"

definition po_row :: "purchase_order \<Rightarrow> row" where
  "po_row x = [(''id'', UuidV (po_id x)), (''supplier'', UuidV (po_supplier x)),
     (''status'', TextV (po_status_value (po_status x))), (''received_at'', opt_value TimeV (po_received_at x)),
     (''created_at'', TimeV (po_created_at x)), (''updated_at'', TimeV (po_updated_at x)),
     (''created_by'', opt_value UuidV (po_created_by x))]"

definition po_item_row :: "po_item \<Rightarrow> row" where
  "po_item_row x = [(''id'', UuidV (poi_id x)), (''purchase_order'', UuidV (poi_order x)),
     (''product'', UuidV (poi_product x)), (''quantity'', IntV (poi_quantity x)),
     (''unit_cost'', CentsV (poi_unit_cost x)), (''created_at'', TimeV (poi_created_at x))]"

definition so_row :: "sales_order \<Rightarrow> row" where
  "so_row x = [(''id'', UuidV (so_id x)), (''status'', TextV (so_status_value (so_status x))),
     (''customer_name'', opt_value TextV (so_customer_name x)),
     (''customer_phone'', opt_value TextV (so_customer_phone x)),
     (''invoice_number'', opt_value TextV (so_invoice_number x)), (''invoiced_at'', opt_value TimeV (so_invoiced_at x)),
     (''created_at'', TimeV (so_created_at x)), (''updated_at'', TimeV (so_updated_at x)),
     (''created_by'', opt_value UuidV (so_created_by x))]"

definition so_item_row :: "so_item \<Rightarrow> row" where
  "so_item_row x = [(''id'', UuidV (soi_id x)), (''sales_order'', UuidV (soi_order x)),
     (''product'', UuidV (soi_product x)), (''quantity'', IntV (soi_quantity x)),
     (''unit_price'', CentsV (soi_unit_price x)), (''created_at'', TimeV (soi_created_at x))]"

definition transaction_row :: "inventory_transaction \<Rightarrow> row" where
  "transaction_row x = [(''id'', UuidV (t_id x)), (''product'', UuidV (t_product x)), (''quantity'', IntV (t_quantity x)),
     (''transaction_type'', TextV (txn_type_value (t_type x))), (''reference_id'', opt_value UuidV (t_reference x)),
     (''reason'', opt_value TextV (t_reason x)), (''created_at'', TimeV (t_created_at x)),
     (''created_by'', opt_value UuidV (t_created_by x))]"

definition return_row :: "return_request \<Rightarrow> row" where
  "return_row x = [(''id'', UuidV (r_id x)), (''sales_order'', UuidV (r_order x)), (''product'', UuidV (r_product x)),
     (''quantity'', IntV (r_quantity x)), (''reason'', TextV (r_reason x)),
     (''status'', TextV (return_status_value (r_status x))), (''approved_by'', opt_value UuidV (r_approved_by x)),
     (''created_at'', TimeV (r_created_at x)), (''created_by'', opt_value UuidV (r_created_by x))]"

definition notification_row :: "notification \<Rightarrow> row" where
  "notification_row x = [(''id'', UuidV (n_id x)), (''user'', UuidV (n_user x)),
     (''type'', TextV (notification_type_value (n_type x))), (''message'', TextV (n_message x)),
     (''reference_id'', opt_value UuidV (n_reference x)), (''is_read'', BoolV (n_is_read x)),
     (''created_at'', TimeV (n_created_at x))]"

text \<open>The tables of the database, by the names the migrations give them.\<close>

definition rows_of :: "db \<Rightarrow> (string \<times> row list) list" where
  "rows_of d =
     [(''accounts.user'', map user_row (users d)), (''catalog.category'', map category_row (categories d)),
      (''catalog.supplier'', map supplier_row (suppliers d)), (''catalog.product'', map product_row (products d)),
      (''inventory.purchaseorder'', map po_row (purchase_orders d)),
      (''inventory.purchaseorderitem'', map po_item_row (po_items d)),
      (''inventory.salesorder'', map so_row (sales_orders d)),
      (''inventory.salesorderitem'', map so_item_row (so_items d)),
      (''inventory.inventorytransaction'', map transaction_row (transactions d)),
      (''inventory.return'', map return_row (return_requests d)),
      (''notifications.notification'', map notification_row (notifications d))]"

text \<open>The primary keys of a table.\<close>

definition ids_of :: "db \<Rightarrow> string \<Rightarrow> uuid list" where
  "ids_of d m = (case map_of (rows_of d) m of
     None \<Rightarrow> []
   | Some rows \<Rightarrow> concat (map (\<lambda>r. case cell ''id'' r of UuidV i \<Rightarrow> [i] | _ \<Rightarrow> []) rows))"

definition conforms :: "(string \<times> table \<times> string list) list \<Rightarrow> db \<Rightarrow> bool" where
  "conforms ts d \<longleftrightarrow> list_all (\<lambda>(m, rows). case map_of ts m of
       None \<Rightarrow> False
     | Some (t, _) \<Rightarrow> list_all (row_fits (ids_of d) t) rows \<and> keys_unique t rows) (rows_of d)"

text \<open>The tables after all migrations.\<close>

definition schema :: "(string \<times> table \<times> string list) list" where
  "schema = (case migrate plan of Inl e \<Rightarrow> [] | Inr s \<Rightarrow> mg_tables s)"

text \<open>Every UUID in the database has been drawn.\<close>

definition uuids_drawn :: "db \<Rightarrow> bool" where
  "uuids_drawn d \<longleftrightarrow> list_all (\<lambda>(m, rows). list_all (list_all (\<lambda>(n, v). case v of
       UuidV i \<Rightarrow> i < next_uuid d | _ \<Rightarrow> True)) rows) (rows_of d)"

end
