(* ===== verification/Typed.thy ===== *)
theory Typed
  imports Rows
begin

section \<open>The schema, spelt out\<close>

text \<open>
  What conforming to the migrated tables amounts to for the rows of each record: the bounds, the
  references and the uniqueness as plain conditions (\<open>typed\<close>), equal to the check against the
  schema.
\<close>

lemma concat_singles: "concat (map (\<lambda>x. [f x]) xs) = map f xs"
  by (induction xs) auto

lemmas row_defs = user_row_def category_row_def supplier_row_def product_row_def po_row_def po_item_row_def
  so_row_def so_item_row_def transaction_row_def return_row_def notification_row_def

lemma ids_of_tables:
  "ids_of d ''accounts.user'' = map u_id (users d)"
  "ids_of d ''catalog.category'' = map c_id (categories d)"
  "ids_of d ''catalog.supplier'' = map s_id (suppliers d)"
  "ids_of d ''catalog.product'' = map p_id (products d)"
  "ids_of d ''inventory.purchaseorder'' = map po_id (purchase_orders d)"
  "ids_of d ''inventory.salesorder'' = map so_id (sales_orders d)"
  by (simp_all add: ids_of_def rows_of_def cell_def row_defs comp_def concat_singles)

definition user_ok :: "uuid set \<Rightarrow> user \<Rightarrow> bool" where
  "user_ok U u \<longleftrightarrow> length (u_email u) \<le> 254 \<and> length (u_password u) \<le> 128 \<and> length (u_full_name u) \<le> 255
     \<and> pred_option (\<lambda>i. i \<in> U) (u_created_by u)"

definition category_ok :: "uuid set \<Rightarrow> category \<Rightarrow> bool" where
  "category_ok U c \<longleftrightarrow> length (c_name c) \<le> 255 \<and> pred_option (\<lambda>s. length s \<le> 1000) (c_description c)
     \<and> pred_option (\<lambda>i. i \<in> U) (c_created_by c)"

definition supplier_ok :: "uuid set \<Rightarrow> supplier \<Rightarrow> bool" where
  "supplier_ok U s \<longleftrightarrow> length (s_name s) \<le> 255 \<and> length (s_email s) \<le> 254
     \<and> pred_option (\<lambda>x. length x \<le> 50) (s_phone s) \<and> pred_option (\<lambda>x. length x \<le> 1000) (s_address s)
     \<and> pred_option (\<lambda>i. i \<in> U) (s_created_by s)"

definition product_ok :: "uuid set \<Rightarrow> uuid set \<Rightarrow> uuid set \<Rightarrow> product \<Rightarrow> bool" where
  "product_ok U C S p \<longleftrightarrow> length (p_sku p) \<le> 100 \<and> length (p_name p) \<le> 255
     \<and> pred_option (\<lambda>x. length x \<le> 2000) (p_description p)
     \<and> \<bar>p_cost_price p\<bar> < 10 ^ 10 \<and> \<bar>p_selling_price p\<bar> < 10 ^ 10
     \<and> fits_integer (p_current_stock p) \<and> fits_integer (p_low_stock_threshold p)
     \<and> p_category p \<in> C \<and> p_supplier p \<in> S \<and> pred_option (\<lambda>i. i \<in> U) (p_created_by p)"

definition po_ok :: "uuid set \<Rightarrow> uuid set \<Rightarrow> purchase_order \<Rightarrow> bool" where
  "po_ok U S x \<longleftrightarrow> po_supplier x \<in> S \<and> pred_option (\<lambda>i. i \<in> U) (po_created_by x)"

definition po_item_ok :: "uuid set \<Rightarrow> uuid set \<Rightarrow> po_item \<Rightarrow> bool" where
  "po_item_ok P R x \<longleftrightarrow> poi_order x \<in> R \<and> poi_product x \<in> P \<and> 0 \<le> poi_quantity x \<and> poi_quantity x \<le> max_int32
     \<and> \<bar>poi_unit_cost x\<bar> < 10 ^ 10"

definition so_ok :: "uuid set \<Rightarrow> sales_order \<Rightarrow> bool" where
  "so_ok U x \<longleftrightarrow> pred_option (\<lambda>s. length s \<le> 255) (so_customer_name x)
     \<and> pred_option (\<lambda>s. length s \<le> 50) (so_customer_phone x)
     \<and> pred_option (\<lambda>s. length s \<le> 50) (so_invoice_number x) \<and> pred_option (\<lambda>i. i \<in> U) (so_created_by x)"

definition so_item_ok :: "uuid set \<Rightarrow> uuid set \<Rightarrow> so_item \<Rightarrow> bool" where
  "so_item_ok P R x \<longleftrightarrow> soi_order x \<in> R \<and> soi_product x \<in> P \<and> 0 \<le> soi_quantity x \<and> soi_quantity x \<le> max_int32
     \<and> \<bar>soi_unit_price x\<bar> < 10 ^ 10"

definition txn_ok :: "nat \<Rightarrow> uuid set \<Rightarrow> uuid set \<Rightarrow> inventory_transaction \<Rightarrow> bool" where
  "txn_ok n U P x \<longleftrightarrow> t_product x \<in> P \<and> fits_integer (t_quantity x) \<and> pred_option (\<lambda>i. i < n) (t_reference x)
     \<and> pred_option (\<lambda>s. length s \<le> 1000) (t_reason x) \<and> pred_option (\<lambda>i. i \<in> U) (t_created_by x)"

definition return_ok :: "uuid set \<Rightarrow> uuid set \<Rightarrow> uuid set \<Rightarrow> return_request \<Rightarrow> bool" where
  "return_ok U P R x \<longleftrightarrow> r_order x \<in> R \<and> r_product x \<in> P \<and> 0 \<le> r_quantity x \<and> r_quantity x \<le> max_int32
     \<and> length (r_reason x) \<le> 1000 \<and> pred_option (\<lambda>i. i \<in> U) (r_approved_by x) \<and> pred_option (\<lambda>i. i \<in> U) (r_created_by x)"

definition notification_ok :: "nat \<Rightarrow> uuid set \<Rightarrow> notification \<Rightarrow> bool" where
  "notification_ok n U x \<longleftrightarrow> n_user x \<in> U \<and> length (n_message x) \<le> 1000 \<and> pred_option (\<lambda>i. i < n) (n_reference x)"

lemmas ok_defs = user_ok_def category_ok_def supplier_ok_def product_ok_def po_ok_def po_item_ok_def so_ok_def
  so_item_ok_def txn_ok_def return_ok_def notification_ok_def

lemma value_fits_opt:
  "value_fits ids c (opt_value f x) \<longleftrightarrow> (x = None \<longrightarrow> cl_null c) \<and> pred_option (\<lambda>y. value_fits ids c (f y)) x"
  by (cases x) (simp_all add: value_fits_def)

lemma value_fits_simps:
  "value_fits ids c (UuidV i) = type_fits ids (cl_type c) (UuidV i)"
  "value_fits ids c (TextV s) = (type_fits ids (cl_type c) (TextV s) \<and> (cl_choices c = [] \<or> s \<in> set (map fst (cl_choices c))))"
  "value_fits ids c (IntV n) = type_fits ids (cl_type c) (IntV n)"
  "value_fits ids c (CentsV m) = type_fits ids (cl_type c) (CentsV m)"
  "value_fits ids c (BoolV b) = type_fits ids (cl_type c) (BoolV b)"
  "value_fits ids c (TimeV t) = type_fits ids (cl_type c) (TimeV t)"
  by (simp_all add: value_fits_def)

lemma pred_option_trivial: "pred_option (\<lambda>y. True) x"
  by (cases x) simp_all

lemmas fits_simps = pred_option_trivial row_fits_def value_fits_opt value_fits_simps column_defs optional_def AUTH_USER_MODEL_def
  ids_of_tables

lemma choice_values:
  "role_value r = ''admin'' \<or> role_value r = ''manager'' \<or> role_value r = ''employee''"
  "po_status_value ps = ''ordered'' \<or> po_status_value ps = ''received''"
  "so_status_value ss = ''created'' \<or> so_status_value ss = ''completed''"
  "txn_type_value ty = ''purchase'' \<or> txn_type_value ty = ''sale'' \<or> txn_type_value ty = ''return'' \<or> txn_type_value ty = ''damage''"
  "return_status_value rs = ''pending'' \<or> return_status_value rs = ''approved''"
  "notification_type_value nt = ''low_stock'' \<or> notification_type_value nt = ''out_of_stock''
   \<or> notification_type_value nt = ''purchase_completed'' \<or> notification_type_value nt = ''sale_completed''
   \<or> notification_type_value nt = ''reconciliation_mismatch''"
  subgoal by (cases r) simp_all
  subgoal by (cases ps) simp_all
  subgoal by (cases ss) simp_all
  subgoal by (cases ty) simp_all
  subgoal by (cases rs) simp_all
  subgoal by (cases nt) simp_all
  done

lemma choice_lengths:
  "length (role_value r) \<le> 20" "length (po_status_value ps) \<le> 20" "length (so_status_value ss) \<le> 20"
  "length (txn_type_value ty) \<le> 20" "length (return_status_value rs) \<le> 20" "length (notification_type_value nt) \<le> 30"
  subgoal by (cases r) simp_all
  subgoal by (cases ps) simp_all
  subgoal by (cases ss) simp_all
  subgoal by (cases ty) simp_all
  subgoal by (cases rs) simp_all
  subgoal by (cases nt) simp_all
  done

lemma user_fits:
  "row_fits (ids_of d) account_fields (user_row u) \<longleftrightarrow> u_id u < 2 ^ 128 \<and> user_ok (u_id ` set (users d)) u"
  using choice_values(1) [of "u_role u"] choice_lengths(1) [of "u_role u"]
  by (simp add: fits_simps account_fields_def user_row_def user_ok_def conj_ac)

lemma category_fits:
  "row_fits (ids_of d) category_fields (category_row x) \<longleftrightarrow> c_id x < 2 ^ 128 \<and> category_ok (u_id ` set (users d)) x"
  by (simp add: fits_simps category_fields_def category_row_def category_ok_def conj_ac)

lemma supplier_fits:
  "row_fits (ids_of d) supplier_fields (supplier_row x) \<longleftrightarrow> s_id x < 2 ^ 128 \<and> supplier_ok (u_id ` set (users d)) x"
  by (simp add: fits_simps supplier_fields_def supplier_row_def supplier_ok_def conj_ac)

lemma product_fits:
  "row_fits (ids_of d) product_fields (product_row p) \<longleftrightarrow> p_id p < 2 ^ 128 \<and>
     product_ok (u_id ` set (users d)) (c_id ` set (categories d)) (s_id ` set (suppliers d)) p"
  by (simp add: fits_simps product_fields_def product_row_def product_ok_def conj_ac)

lemma po_fits:
  "row_fits (ids_of d) purchase_order_fields (po_row x) \<longleftrightarrow> po_id x < 2 ^ 128 \<and>
     po_ok (u_id ` set (users d)) (s_id ` set (suppliers d)) x"
  using choice_values(2) [of "po_status x"] choice_lengths(2) [of "po_status x"]
  by (simp add: fits_simps purchase_order_fields_def po_row_def po_ok_def conj_ac)

lemma po_item_fits:
  "row_fits (ids_of d) purchase_order_item_fields (po_item_row x) \<longleftrightarrow> poi_id x < 2 ^ 128 \<and>
     po_item_ok (p_id ` set (products d)) (po_id ` set (purchase_orders d)) x"
  by (simp add: fits_simps purchase_order_item_fields_def po_item_row_def po_item_ok_def conj_ac)

lemma so_fits:
  "row_fits (ids_of d) sales_order_fields (so_row x) \<longleftrightarrow> so_id x < 2 ^ 128 \<and> so_ok (u_id ` set (users d)) x"
  using choice_values(3) [of "so_status x"] choice_lengths(3) [of "so_status x"]
  by (simp add: fits_simps sales_order_fields_def so_row_def so_ok_def conj_ac)

lemma so_item_fits:
  "row_fits (ids_of d) sales_order_item_fields (so_item_row x) \<longleftrightarrow> soi_id x < 2 ^ 128 \<and>
     so_item_ok (p_id ` set (products d)) (so_id ` set (sales_orders d)) x"
  by (simp add: fits_simps sales_order_item_fields_def so_item_row_def so_item_ok_def conj_ac)

lemma txn_fits:
  "row_fits (ids_of d) inventory_transaction_fields (transaction_row x) \<longleftrightarrow> t_id x < 2 ^ 128 \<and>
     txn_ok (2 ^ 128) (u_id ` set (users d)) (p_id ` set (products d)) x"
  using choice_values(4) [of "t_type x"] choice_lengths(4) [of "t_type x"]
  by (simp add: fits_simps inventory_transaction_fields_def transaction_row_def txn_ok_def conj_ac)

lemma return_fits:
  "row_fits (ids_of d) return_fields (return_row x) \<longleftrightarrow> r_id x < 2 ^ 128 \<and>
     return_ok (u_id ` set (users d)) (p_id ` set (products d)) (so_id ` set (sales_orders d)) x"
  using choice_values(5) [of "r_status x"] choice_lengths(5) [of "r_status x"]
  by (simp add: fits_simps return_fields_def return_row_def return_ok_def conj_ac)

lemma notification_fits:
  "row_fits (ids_of d) (replace_field ''type'' altered_type_field notification_fields) (notification_row x) \<longleftrightarrow> n_id x < 2 ^ 128 \<and>
     notification_ok (2 ^ 128) (u_id ` set (users d)) x"
  using choice_values(6) [of "n_type x"] choice_lengths(6) [of "n_type x"]
  by (simp add: fits_simps notification_fields_def replace_field_def altered_type_field_def notification_row_def
      notification_ok_def conj_ac)

lemma schema_tables: "map_of schema m = map_of final_tables m"
proof -
  obtain s where s: "migrate plan = Inr s" "mset (mg_tables s) = mset final_tables"
    using orders_run by (auto simp: plan_def list_all_iff split: sum.splits)
  from map_of_mset_eq [OF s(2) [symmetric] final_distinct(1)] s(1) show ?thesis by (simp add: schema_def)
qed

lemma unique_final:
  "unique_names account_fields = [''id'', ''email'']"
  "unique_names category_fields = [''id'', ''name'']"
  "unique_names supplier_fields = [''id'', ''email'']"
  "unique_names product_fields = [''id'', ''sku'']"
  "unique_names purchase_order_fields = [''id'']"
  "unique_names purchase_order_item_fields = [''id'']"
  "unique_names sales_order_fields = [''id'', ''invoice_number'']"
  "unique_names sales_order_item_fields = [''id'']"
  "unique_names inventory_transaction_fields = [''id'']"
  "unique_names return_fields = [''id'']"
  "unique_names (replace_field ''type'' altered_type_field notification_fields) = [''id'']"
  by code_simp+

definition keyed :: "nat \<Rightarrow> ('r \<Rightarrow> uuid) \<Rightarrow> ('r \<Rightarrow> bool) \<Rightarrow> 'r list \<Rightarrow> bool" where
  "keyed n key P t \<longleftrightarrow> distinct (map key t) \<and> (\<forall>r \<in> set t. key r < n \<and> P r)"

definition some_values :: "('r \<Rightarrow> 'v option) \<Rightarrow> 'r list \<Rightarrow> 'v option list" where
  "some_values f t = filter (\<lambda>v. v \<noteq> None) (map f t)"

definition typed :: "nat \<Rightarrow> db \<Rightarrow> bool" where
  "typed n d \<longleftrightarrow>
     (keyed n u_id (user_ok (u_id ` set (users d))) (users d) \<and> distinct (map u_email (users d)))
   \<and> (keyed n c_id (category_ok (u_id ` set (users d))) (categories d) \<and> distinct (map c_name (categories d)))
   \<and> (keyed n s_id (supplier_ok (u_id ` set (users d))) (suppliers d) \<and> distinct (map s_email (suppliers d)))
   \<and> (keyed n p_id (product_ok (u_id ` set (users d)) (c_id ` set (categories d)) (s_id ` set (suppliers d))) (products d)
      \<and> distinct (map p_sku (products d)))
   \<and> keyed n po_id (po_ok (u_id ` set (users d)) (s_id ` set (suppliers d))) (purchase_orders d)
   \<and> keyed n poi_id (po_item_ok (p_id ` set (products d)) (po_id ` set (purchase_orders d))) (po_items d)
   \<and> (keyed n so_id (so_ok (u_id ` set (users d))) (sales_orders d)
      \<and> distinct (some_values so_invoice_number (sales_orders d)))
   \<and> keyed n soi_id (so_item_ok (p_id ` set (products d)) (so_id ` set (sales_orders d))) (so_items d)
   \<and> keyed n t_id (txn_ok n (u_id ` set (users d)) (p_id ` set (products d))) (transactions d)
   \<and> keyed n r_id (return_ok (u_id ` set (users d)) (p_id ` set (products d)) (so_id ` set (sales_orders d))) (return_requests d)
   \<and> keyed n n_id (notification_ok n (u_id ` set (users d))) (notifications d)"

lemma distinct_values: "inj f \<Longrightarrow> distinct (map (\<lambda>x. f (g x)) t) = distinct (map g t)"
  by (induction t) (auto simp: image_iff inj_eq)

lemma opt_text_eq: "opt_value TextV a = opt_value TextV b \<longleftrightarrow> a = b" "opt_value TextV a = Null \<longleftrightarrow> a = None"
  by (cases a; cases b; simp)+

lemma distinct_opt_values:
  "distinct (filter (\<lambda>v. v \<noteq> Null) (map (\<lambda>x. opt_value TextV (g x)) t)) = distinct (some_values g t)"
proof -
  have "filter (\<lambda>v. v \<noteq> Null) (map (\<lambda>x. opt_value TextV (g x)) t) = map (\<lambda>v. opt_value TextV v) (some_values g t)"
    by (simp add: some_values_def filter_map comp_def opt_text_eq)
  moreover have "inj (\<lambda>v. opt_value TextV v)" by (simp add: inj_def opt_text_eq)
  ultimately show ?thesis by (simp add: distinct_values [where g = "\<lambda>v. v", simplified])
qed

lemma distinct_wrapped: "distinct (map (\<lambda>x. UuidV (g x)) t) = distinct (map g t)"
  "distinct (map (\<lambda>x. TextV (h x)) t) = distinct (map h t)"
  by (simp_all add: distinct_values inj_def)

lemma keys_unique_tables:
  "keys_unique account_fields (map user_row us) \<longleftrightarrow> distinct (map u_id us) \<and> distinct (map u_email us)"
  "keys_unique category_fields (map category_row cs) \<longleftrightarrow> distinct (map c_id cs) \<and> distinct (map c_name cs)"
  "keys_unique supplier_fields (map supplier_row ss) \<longleftrightarrow> distinct (map s_id ss) \<and> distinct (map s_email ss)"
  "keys_unique product_fields (map product_row ps) \<longleftrightarrow> distinct (map p_id ps) \<and> distinct (map p_sku ps)"
  "keys_unique purchase_order_fields (map po_row os) \<longleftrightarrow> distinct (map po_id os)"
  "keys_unique purchase_order_item_fields (map po_item_row is) \<longleftrightarrow> distinct (map poi_id is)"
  "keys_unique sales_order_fields (map so_row xs) \<longleftrightarrow> distinct (map so_id xs) \<and> distinct (some_values so_invoice_number xs)"
  "keys_unique sales_order_item_fields (map so_item_row ys) \<longleftrightarrow> distinct (map soi_id ys)"
  "keys_unique inventory_transaction_fields (map transaction_row ts) \<longleftrightarrow> distinct (map t_id ts)"
  "keys_unique return_fields (map return_row rs) \<longleftrightarrow> distinct (map r_id rs)"
  "keys_unique (replace_field ''type'' altered_type_field notification_fields) (map notification_row ns) \<longleftrightarrow> distinct (map n_id ns)"
  by (simp_all only: keys_unique_def unique_final list.pred_inject list.map_comp)
    (simp_all add: cell_def row_defs comp_def distinct_wrapped distinct_opt_values)

lemma list_all_rows: "list_all P (map f t) \<longleftrightarrow> (\<forall>x \<in> set t. P (f x))"
  by (simp add: list_all_iff)

lemma conforms_iff: "conforms schema d \<longleftrightarrow> typed (2 ^ 128) d"
proof -
  have names: "map_of final_tables ''accounts.user'' = Some (account_fields, [''-created_at''])"
    "map_of final_tables ''catalog.category'' = Some (category_fields, [''-created_at''])"
    "map_of final_tables ''catalog.supplier'' = Some (supplier_fields, [''-created_at''])"
    "map_of final_tables ''catalog.product'' = Some (product_fields, [''-created_at''])"
    "map_of final_tables ''inventory.purchaseorder'' = Some (purchase_order_fields, [''-created_at''])"
    "map_of final_tables ''inventory.purchaseorderitem'' = Some (purchase_order_item_fields, [])"
    "map_of final_tables ''inventory.salesorder'' = Some (sales_order_fields, [''-created_at''])"
    "map_of final_tables ''inventory.salesorderitem'' = Some (sales_order_item_fields, [])"
    "map_of final_tables ''inventory.inventorytransaction'' = Some (inventory_transaction_fields, [''-created_at''])"
    "map_of final_tables ''inventory.return'' = Some (return_fields, [''-created_at''])"
    "map_of final_tables ''notifications.notification''
       = Some (replace_field ''type'' altered_type_field notification_fields, [''-created_at''])"
    by (simp_all add: final_tables_def)
  show ?thesis
    by (simp only: conforms_def rows_of_def list.pred_inject prod.case schema_tables names option.case keys_unique_tables
      list_all_rows user_fits category_fits supplier_fits product_fits po_fits po_item_fits so_fits so_item_fits
      txn_fits return_fits notification_fits typed_def keyed_def) blast
qed

end
