(* ===== verification/Integrity.thy ===== *)
theory Integrity
  imports Typed
begin

section \<open>Every operation keeps the rows well-typed\<close>

text \<open>
  \<open>typed\<close> is kept by each statement that writes to the database, and so by every view and task:
  the code never stores a value its column cannot hold, and never leaves a foreign key dangling.
\<close>

subsection \<open>Tables with a key\<close>

abbreviation user_ids :: "db \<Rightarrow> uuid set" where "user_ids d \<equiv> u_id ` set (users d)"
abbreviation category_ids :: "db \<Rightarrow> uuid set" where "category_ids d \<equiv> c_id ` set (categories d)"
abbreviation supplier_ids :: "db \<Rightarrow> uuid set" where "supplier_ids d \<equiv> s_id ` set (suppliers d)"
abbreviation product_ids :: "db \<Rightarrow> uuid set" where "product_ids d \<equiv> p_id ` set (products d)"
abbreviation po_ids :: "db \<Rightarrow> uuid set" where "po_ids d \<equiv> po_id ` set (purchase_orders d)"
abbreviation so_ids :: "db \<Rightarrow> uuid set" where "so_ids d \<equiv> so_id ` set (sales_orders d)"

lemma keyed_mono:
  "keyed n key P t \<Longrightarrow> n \<le> m \<Longrightarrow> (\<And>r. r \<in> set t \<Longrightarrow> P r \<Longrightarrow> Q r) \<Longrightarrow> keyed m key Q t"
  by (fastforce simp: keyed_def)

lemma keyed_snoc: "keyed n key P t \<Longrightarrow> key r = n \<Longrightarrow> P r \<Longrightarrow> keyed (Suc n) key P (t @ [r])"
  by (fastforce simp: keyed_def)

lemma keyed_update:
  assumes "keyed n key P t" "\<And>r. r \<in> set t \<Longrightarrow> key r = k \<Longrightarrow> P r \<Longrightarrow> key (f r) = k \<and> P (f r)"
  shows "keyed n key P (update_row key k f t)"
proof -
  have "map key (update_row key k f t) = map key t" using assms by (auto simp: update_row_def keyed_def)
  moreover have "key x < n \<and> P x" if x: "x \<in> set (update_row key k f t)" for x
  proof -
    from set_update_rowD [OF x] obtain r where r: "r \<in> set t" "x = (if key r = k then f r else r)" by blast
    with assms show ?thesis by (auto simp: keyed_def)
  qed
  ultimately show ?thesis using assms(1) unfolding keyed_def by metis
qed

lemma keyed_delete: "keyed n key P t \<Longrightarrow> keyed n key P (delete_rows q t)"
  by (auto simp: keyed_def delete_rows_def distinct_map_filter)

lemma keyed_get:
  "keyed n key P t \<Longrightarrow> get_row key k t = Some r \<Longrightarrow> r \<in> set t \<and> key r = k \<and> key r < n \<and> P r"
  using get_row_SomeD [of key k t r] by (auto simp: keyed_def)

lemma keyed_fresh: "keyed n key P t \<Longrightarrow> n \<notin> key ` set t"
  by (auto simp: keyed_def)

lemma update_row_ids: "(\<And>r. key (f r) = key r) \<Longrightarrow> key ` set (update_row key k f t) = key ` set t"
  by (metis list.set_map update_row_keys)

lemma replace_row_ids:
  assumes "key r = k"
  shows "key ` set (update_row key k (\<lambda>_. r) t) = key ` set t"
proof -
  have "map key (update_row key k (\<lambda>_. r) t) = map key t" using assms by (auto simp: update_row_def)
  then show ?thesis by (metis list.set_map)
qed

text \<open>A unique column after a row has been replaced.\<close>

lemma distinct_replace:
  assumes "distinct (map key t)" "distinct (map f t)"
    and "\<And>r. r \<in> set t \<Longrightarrow> key r = k \<Longrightarrow> \<forall>y \<in> set t. f y = f (g r) \<longrightarrow> key y = k"
  shows "distinct (map f (update_row key k g t))"
  using assms
proof (induction t)
  case (Cons x t)
  have tail: "y \<in> set t \<Longrightarrow> key y \<noteq> key x" "y \<in> set t \<Longrightarrow> f y \<noteq> f x" for y
    using Cons.prems(1,2) by (auto simp: image_iff)
  show ?case
  proof (cases "key x = k")
    case True
    then have "update_row key k g t = t" using tail(1) by (intro update_row_absent) (metis imageE)
    moreover have "f (g x) \<notin> f ` set t" using Cons.prems(3) [of x] True tail(1) by fastforce
    ultimately show ?thesis using True Cons.prems(2) by (simp add: update_row_Cons)
  next
    case False
    have "f x \<notin> f ` set (update_row key k g t)"
    proof
      assume "f x \<in> f ` set (update_row key k g t)"
      then obtain y where y: "y \<in> set t" "f x = f (if key y = k then g y else y)" by (auto dest!: set_update_rowD)
      with tail(2) have "key y = k" "f x = f (g y)" by (auto split: if_splits)
      with Cons.prems(3) [of y] y(1) False show False by auto
    qed
    moreover have "distinct (map f (update_row key k g t))"
      using Cons.prems by (intro Cons.IH) auto
    ultimately show ?thesis using False by (simp add: update_row_Cons)
  qed
qed simp

lemma distinct_snoc: "distinct (map f t) \<Longrightarrow> f r \<notin> f ` set t \<Longrightarrow> distinct (map f (t @ [r]))"
  by simp

subsection \<open>The references\<close>

definition typed_in :: "nat \<Rightarrow> uuid set \<Rightarrow> uuid set \<Rightarrow> uuid set \<Rightarrow> uuid set \<Rightarrow> uuid set \<Rightarrow> uuid set \<Rightarrow> db \<Rightarrow> bool" where
  "typed_in n U C S P R X d \<longleftrightarrow>
     (keyed n u_id (user_ok U) (users d) \<and> distinct (map u_email (users d)))
   \<and> (keyed n c_id (category_ok U) (categories d) \<and> distinct (map c_name (categories d)))
   \<and> (keyed n s_id (supplier_ok U) (suppliers d) \<and> distinct (map s_email (suppliers d)))
   \<and> (keyed n p_id (product_ok U C S) (products d) \<and> distinct (map p_sku (products d)))
   \<and> keyed n po_id (po_ok U S) (purchase_orders d)
   \<and> keyed n poi_id (po_item_ok P R) (po_items d)
   \<and> (keyed n so_id (so_ok U) (sales_orders d) \<and> distinct (some_values so_invoice_number (sales_orders d)))
   \<and> keyed n soi_id (so_item_ok P X) (so_items d)
   \<and> keyed n t_id (txn_ok n U P) (transactions d)
   \<and> keyed n r_id (return_ok U P X) (return_requests d)
   \<and> keyed n n_id (notification_ok n U) (notifications d)"

lemma typed_iff: "typed n d \<longleftrightarrow>
   typed_in n (user_ids d) (category_ids d) (supplier_ids d) (product_ids d) (po_ids d) (so_ids d) d"
  by (simp add: typed_def typed_in_def)

lemma pred_option_mono': "pred_option P x \<Longrightarrow> (\<And>y. P y \<Longrightarrow> Q y) \<Longrightarrow> pred_option Q x"
  by (cases x) auto

lemma ok_mono:
  "user_ok U u \<Longrightarrow> U \<subseteq> U' \<Longrightarrow> user_ok U' u"
  "category_ok U c \<Longrightarrow> U \<subseteq> U' \<Longrightarrow> category_ok U' c"
  "supplier_ok U s \<Longrightarrow> U \<subseteq> U' \<Longrightarrow> supplier_ok U' s"
  "product_ok U C S p \<Longrightarrow> U \<subseteq> U' \<Longrightarrow> C \<subseteq> C' \<Longrightarrow> S \<subseteq> S' \<Longrightarrow> product_ok U' C' S' p"
  "po_ok U S po \<Longrightarrow> U \<subseteq> U' \<Longrightarrow> S \<subseteq> S' \<Longrightarrow> po_ok U' S' po"
  "po_item_ok P R poi \<Longrightarrow> P \<subseteq> P' \<Longrightarrow> R \<subseteq> R' \<Longrightarrow> po_item_ok P' R' poi"
  "so_ok U so \<Longrightarrow> U \<subseteq> U' \<Longrightarrow> so_ok U' so"
  "so_item_ok P X soi \<Longrightarrow> P \<subseteq> P' \<Longrightarrow> X \<subseteq> X' \<Longrightarrow> so_item_ok P' X' soi"
  "txn_ok n U P t \<Longrightarrow> n \<le> m \<Longrightarrow> U \<subseteq> U' \<Longrightarrow> P \<subseteq> P' \<Longrightarrow> txn_ok m U' P' t"
  "return_ok U P X r \<Longrightarrow> U \<subseteq> U' \<Longrightarrow> P \<subseteq> P' \<Longrightarrow> X \<subseteq> X' \<Longrightarrow> return_ok U' P' X' r"
  "notification_ok n U x \<Longrightarrow> n \<le> m \<Longrightarrow> U \<subseteq> U' \<Longrightarrow> notification_ok m U' x"
  by (auto simp: ok_defs option.pred_set)

lemma typed_in_mono:
  assumes "typed_in n U C S P R X d" "n \<le> m" "U \<subseteq> U'" "C \<subseteq> C'" "S \<subseteq> S'" "P \<subseteq> P'" "R \<subseteq> R'" "X \<subseteq> X'"
  shows "typed_in m U' C' S' P' R' X' d"
proof -
  note mono = keyed_mono [OF _ assms(2)]
  from assms(1) show ?thesis
    unfolding typed_in_def
    by (elim conjE)
      (intro conjI; (assumption | (rule mono, assumption, blast intro: ok_mono(1-3) [OF _ assms(3)] ok_mono(7) [OF _ assms(3)]
        ok_mono(4) [OF _ assms(3,4,5)] ok_mono(5) [OF _ assms(3,5)] ok_mono(6) [OF _ assms(6,7)]
        ok_mono(8) [OF _ assms(6,8)] ok_mono(9) [OF _ assms(2,3,6)] ok_mono(10) [OF _ assms(3,6,8)]
        ok_mono(11) [OF _ assms(2,3)])))
qed

lemma typed_mono: "typed n d \<Longrightarrow> n \<le> m \<Longrightarrow> typed m d"
  unfolding typed_iff by (rule typed_in_mono) (assumption | rule order_refl)+

lemma typed_draw [simp]: "typed n (draw_uuid d) = typed n d"
  by (simp add: typed_def)

subsection \<open>Adding a row\<close>

lemma keyed_add:
  assumes "keyed n key P t" "\<And>r. P r \<Longrightarrow> Q r" "key x = n" "Q x"
  shows "keyed (Suc n) key Q (t @ [x])"
  using keyed_snoc [OF keyed_mono [OF assms(1) order_refl, of Q]] assms(2-4) by blast

lemma typed_grow:
  assumes "typed n d" "user_ids d \<subseteq> U" "category_ids d \<subseteq> C" "supplier_ids d \<subseteq> S" "product_ids d \<subseteq> P"
    "po_ids d \<subseteq> R" "so_ids d \<subseteq> X"
  shows "typed_in (Suc n) U C S P R X d"
  using assms by (intro typed_in_mono [OF assms(1) [unfolded typed_iff]]) simp_all

lemma typed_add_user:
  assumes "typed n d" "u_id x = n" "user_ok (insert n (user_ids d)) x" "u_email x \<notin> u_email ` set (users d)"
  shows "typed (Suc n) (d\<lparr>users := users d @ [x]\<rparr>)"
proof -
  have "typed_in (Suc n) (insert n (user_ids d)) (category_ids d) (supplier_ids d) (product_ids d) (po_ids d) (so_ids d) d"
    using assms(1) by (rule typed_grow) (blast intro: order_refl)+
  moreover have "keyed (Suc n) u_id (user_ok (insert n (user_ids d))) (users d @ [x])"
    by (rule keyed_add [where P = "user_ok (user_ids d)"]) (use assms in \<open>auto simp: typed_def elim: ok_mono\<close>)
  ultimately show ?thesis using assms(2,4) by (simp add: typed_iff typed_in_def)
qed

lemma typed_add_category:
  assumes "typed n d" "c_id x = n" "category_ok (user_ids d) x" "c_name x \<notin> c_name ` set (categories d)"
  shows "typed (Suc n) (d\<lparr>categories := categories d @ [x]\<rparr>)"
proof -
  have "typed_in (Suc n) (user_ids d) (insert n (category_ids d)) (supplier_ids d) (product_ids d) (po_ids d) (so_ids d) d"
    using assms(1) by (rule typed_grow) (blast intro: order_refl)+
  moreover have "keyed (Suc n) c_id (category_ok (user_ids d)) (categories d @ [x])"
    by (rule keyed_snoc) (use assms in \<open>simp_all add: typed_def\<close>)
  ultimately show ?thesis using assms(2,4) by (simp add: typed_iff typed_in_def)
qed

lemma typed_add_supplier:
  assumes "typed n d" "s_id x = n" "supplier_ok (user_ids d) x" "s_email x \<notin> s_email ` set (suppliers d)"
  shows "typed (Suc n) (d\<lparr>suppliers := suppliers d @ [x]\<rparr>)"
proof -
  have "typed_in (Suc n) (user_ids d) (category_ids d) (insert n (supplier_ids d)) (product_ids d) (po_ids d) (so_ids d) d"
    using assms(1) by (rule typed_grow) (blast intro: order_refl)+
  moreover have "keyed (Suc n) s_id (supplier_ok (user_ids d)) (suppliers d @ [x])"
    by (rule keyed_snoc) (use assms in \<open>simp_all add: typed_def\<close>)
  ultimately show ?thesis using assms(2,4) by (simp add: typed_iff typed_in_def)
qed

lemma typed_add_product:
  assumes "typed n d" "p_id x = n" "product_ok (user_ids d) (category_ids d) (supplier_ids d) x"
    "p_sku x \<notin> p_sku ` set (products d)"
  shows "typed (Suc n) (d\<lparr>products := products d @ [x]\<rparr>)"
proof -
  have "typed_in (Suc n) (user_ids d) (category_ids d) (supplier_ids d) (insert n (product_ids d)) (po_ids d) (so_ids d) d"
    using assms(1) by (rule typed_grow) (blast intro: order_refl)+
  moreover have "keyed (Suc n) p_id (product_ok (user_ids d) (category_ids d) (supplier_ids d)) (products d @ [x])"
    by (rule keyed_snoc) (use assms in \<open>simp_all add: typed_def\<close>)
  ultimately show ?thesis using assms(2,4) by (simp add: typed_iff typed_in_def)
qed

lemma typed_add_po:
  assumes "typed n d" "po_id x = n" "po_ok (user_ids d) (supplier_ids d) x"
  shows "typed (Suc n) (d\<lparr>purchase_orders := purchase_orders d @ [x]\<rparr>)"
proof -
  have "typed_in (Suc n) (user_ids d) (category_ids d) (supplier_ids d) (product_ids d) (insert n (po_ids d)) (so_ids d) d"
    using assms(1) by (rule typed_grow) (blast intro: order_refl)+
  moreover have "keyed (Suc n) po_id (po_ok (user_ids d) (supplier_ids d)) (purchase_orders d @ [x])"
    by (rule keyed_snoc) (use assms in \<open>simp_all add: typed_def\<close>)
  ultimately show ?thesis using assms(2) by (simp add: typed_iff typed_in_def)
qed

lemma typed_add_so:
  assumes "typed n d" "so_id x = n" "so_ok (user_ids d) x" "so_invoice_number x = None"
  shows "typed (Suc n) (d\<lparr>sales_orders := sales_orders d @ [x]\<rparr>)"
proof -
  have "typed_in (Suc n) (user_ids d) (category_ids d) (supplier_ids d) (product_ids d) (po_ids d) (insert n (so_ids d)) d"
    using assms(1) by (rule typed_grow) (blast intro: order_refl)+
  moreover have "keyed (Suc n) so_id (so_ok (user_ids d)) (sales_orders d @ [x])"
    by (rule keyed_snoc) (use assms in \<open>simp_all add: typed_def\<close>)
  ultimately show ?thesis using assms(2,4) by (simp add: typed_iff typed_in_def some_values_def)
qed

text \<open>The tables no other table refers to.\<close>

lemma typed_add_po_item:
  assumes "typed n d" "poi_id x = n" "po_item_ok (product_ids d) (po_ids d) x"
  shows "typed (Suc n) (d\<lparr>po_items := po_items d @ [x]\<rparr>)"
proof -
  have "keyed (Suc n) poi_id (po_item_ok (product_ids d) (po_ids d)) (po_items d @ [x])"
    by (rule keyed_snoc) (use assms in \<open>simp_all add: typed_def\<close>)
  with typed_mono [OF assms(1), of "Suc n"] show ?thesis by (simp add: typed_def)
qed

lemma typed_add_so_item:
  assumes "typed n d" "soi_id x = n" "so_item_ok (product_ids d) (so_ids d) x"
  shows "typed (Suc n) (d\<lparr>so_items := so_items d @ [x]\<rparr>)"
proof -
  have "keyed (Suc n) soi_id (so_item_ok (product_ids d) (so_ids d)) (so_items d @ [x])"
    by (rule keyed_snoc) (use assms in \<open>simp_all add: typed_def\<close>)
  with typed_mono [OF assms(1), of "Suc n"] show ?thesis by (simp add: typed_def)
qed

lemma typed_add_transaction:
  assumes "typed n d" "t_id x = n" "txn_ok n (user_ids d) (product_ids d) x"
  shows "typed (Suc n) (d\<lparr>transactions := transactions d @ [x]\<rparr>)"
proof -
  have "keyed (Suc n) t_id (txn_ok (Suc n) (user_ids d) (product_ids d)) (transactions d @ [x])"
    by (rule keyed_add [where P = "txn_ok n (user_ids d) (product_ids d)"])
      (use assms in \<open>auto simp: typed_def elim: ok_mono\<close>)
  with typed_mono [OF assms(1), of "Suc n"] show ?thesis by (simp add: typed_def)
qed

lemma typed_add_return:
  assumes "typed n d" "r_id x = n" "return_ok (user_ids d) (product_ids d) (so_ids d) x"
  shows "typed (Suc n) (d\<lparr>return_requests := return_requests d @ [x]\<rparr>)"
proof -
  have "keyed (Suc n) r_id (return_ok (user_ids d) (product_ids d) (so_ids d)) (return_requests d @ [x])"
    by (rule keyed_snoc) (use assms in \<open>simp_all add: typed_def\<close>)
  with typed_mono [OF assms(1), of "Suc n"] show ?thesis by (simp add: typed_def)
qed

lemma typed_add_notification:
  assumes "typed n d" "n_id x = n" "notification_ok n (user_ids d) x"
  shows "typed (Suc n) (d\<lparr>notifications := notifications d @ [x]\<rparr>)"
proof -
  have "keyed (Suc n) n_id (notification_ok (Suc n) (user_ids d)) (notifications d @ [x])"
    by (rule keyed_add [where P = "notification_ok n (user_ids d)"])
      (use assms in \<open>auto simp: typed_def elim: ok_mono\<close>)
  with typed_mono [OF assms(1), of "Suc n"] show ?thesis by (simp add: typed_def)
qed

subsection \<open>Changing and deleting rows\<close>

lemma update_ids:
  assumes "\<And>r. r \<in> set t \<Longrightarrow> key r = k \<Longrightarrow> key (f r) = k"
  shows "key ` set (update_row key k f t) = key ` set t"
proof -
  have "map key (update_row key k f t) = map key t" using assms by (auto simp: update_row_def)
  then show ?thesis by (metis list.set_map)
qed

lemma typed_update_user:
  assumes "typed n d"
    and "\<And>r. r \<in> set (users d) \<Longrightarrow> u_id r = k \<Longrightarrow> user_ok (user_ids d) r \<Longrightarrow> u_id (f r) = k \<and> user_ok (user_ids d) (f r)"
    and "distinct (map u_email (update_row u_id k f (users d)))"
  shows "typed n (d\<lparr>users := update_row u_id k f (users d)\<rparr>)"
proof -
  have K: "keyed n u_id (user_ok (user_ids d)) (users d)" using assms(1) by (simp add: typed_def)
  then have "u_id ` set (update_row u_id k f (users d)) = user_ids d"
    using assms(2) by (intro update_ids) (auto simp: keyed_def)
  with keyed_update [OF K assms(2)] assms(1,3) show ?thesis by (simp add: typed_def)
qed

lemma typed_update_category:
  assumes "typed n d"
    and "\<And>r. r \<in> set (categories d) \<Longrightarrow> c_id r = k \<Longrightarrow> category_ok (user_ids d) r \<Longrightarrow> c_id (f r) = k \<and> category_ok (user_ids d) (f r)"
    and "distinct (map c_name (update_row c_id k f (categories d)))"
  shows "typed n (d\<lparr>categories := update_row c_id k f (categories d)\<rparr>)"
proof -
  have K: "keyed n c_id (category_ok (user_ids d)) (categories d)" using assms(1) by (simp add: typed_def)
  then have "c_id ` set (update_row c_id k f (categories d)) = category_ids d"
    using assms(2) by (intro update_ids) (auto simp: keyed_def)
  with keyed_update [OF K assms(2)] assms(1,3) show ?thesis by (simp add: typed_def)
qed

lemma typed_update_supplier:
  assumes "typed n d"
    and "\<And>r. r \<in> set (suppliers d) \<Longrightarrow> s_id r = k \<Longrightarrow> supplier_ok (user_ids d) r \<Longrightarrow> s_id (f r) = k \<and> supplier_ok (user_ids d) (f r)"
    and "distinct (map s_email (update_row s_id k f (suppliers d)))"
  shows "typed n (d\<lparr>suppliers := update_row s_id k f (suppliers d)\<rparr>)"
proof -
  have K: "keyed n s_id (supplier_ok (user_ids d)) (suppliers d)" using assms(1) by (simp add: typed_def)
  then have "s_id ` set (update_row s_id k f (suppliers d)) = supplier_ids d"
    using assms(2) by (intro update_ids) (auto simp: keyed_def)
  with keyed_update [OF K assms(2)] assms(1,3) show ?thesis by (simp add: typed_def)
qed

lemma typed_update_product:
  assumes "typed n d"
    and "\<And>r. r \<in> set (products d) \<Longrightarrow> p_id r = k \<Longrightarrow> product_ok (user_ids d) (category_ids d) (supplier_ids d) r
      \<Longrightarrow> p_id (f r) = k \<and> product_ok (user_ids d) (category_ids d) (supplier_ids d) (f r)"
    and "distinct (map p_sku (update_row p_id k f (products d)))"
  shows "typed n (d\<lparr>products := update_row p_id k f (products d)\<rparr>)"
proof -
  have K: "keyed n p_id (product_ok (user_ids d) (category_ids d) (supplier_ids d)) (products d)"
    using assms(1) by (simp add: typed_def)
  then have "p_id ` set (update_row p_id k f (products d)) = product_ids d"
    using assms(2) by (intro update_ids) (auto simp: keyed_def)
  with keyed_update [OF K assms(2)] assms(1,3) show ?thesis by (simp add: typed_def)
qed

lemma typed_update_po:
  assumes "typed n d"
    and "\<And>r. r \<in> set (purchase_orders d) \<Longrightarrow> po_id r = k \<Longrightarrow> po_ok (user_ids d) (supplier_ids d) r
      \<Longrightarrow> po_id (f r) = k \<and> po_ok (user_ids d) (supplier_ids d) (f r)"
  shows "typed n (d\<lparr>purchase_orders := update_row po_id k f (purchase_orders d)\<rparr>)"
proof -
  have K: "keyed n po_id (po_ok (user_ids d) (supplier_ids d)) (purchase_orders d)" using assms(1) by (simp add: typed_def)
  then have "po_id ` set (update_row po_id k f (purchase_orders d)) = po_ids d"
    using assms(2) by (intro update_ids) (auto simp: keyed_def)
  with keyed_update [OF K assms(2)] assms(1) show ?thesis by (simp add: typed_def)
qed

lemma typed_update_so:
  assumes "typed n d"
    and "\<And>r. r \<in> set (sales_orders d) \<Longrightarrow> so_id r = k \<Longrightarrow> so_ok (user_ids d) r \<Longrightarrow> so_id (f r) = k \<and> so_ok (user_ids d) (f r)"
    and "distinct (some_values so_invoice_number (update_row so_id k f (sales_orders d)))"
  shows "typed n (d\<lparr>sales_orders := update_row so_id k f (sales_orders d)\<rparr>)"
proof -
  have K: "keyed n so_id (so_ok (user_ids d)) (sales_orders d)" using assms(1) by (simp add: typed_def)
  then have "so_id ` set (update_row so_id k f (sales_orders d)) = so_ids d"
    using assms(2) by (intro update_ids) (auto simp: keyed_def)
  with keyed_update [OF K assms(2)] assms(1,3) show ?thesis by (simp add: typed_def)
qed

lemma typed_update_return:
  assumes "typed n d"
    and "\<And>r. r \<in> set (return_requests d) \<Longrightarrow> r_id r = k \<Longrightarrow> return_ok (user_ids d) (product_ids d) (so_ids d) r
      \<Longrightarrow> r_id (f r) = k \<and> return_ok (user_ids d) (product_ids d) (so_ids d) (f r)"
  shows "typed n (d\<lparr>return_requests := update_row r_id k f (return_requests d)\<rparr>)"
proof -
  have K: "keyed n r_id (return_ok (user_ids d) (product_ids d) (so_ids d)) (return_requests d)"
    using assms(1) by (simp add: typed_def)
  from keyed_update [OF K assms(2)] assms(1) show ?thesis by (simp add: typed_def)
qed

lemma typed_update_notification:
  assumes "typed n d"
    and "\<And>r. r \<in> set (notifications d) \<Longrightarrow> n_id r = k \<Longrightarrow> notification_ok n (user_ids d) r
      \<Longrightarrow> n_id (f r) = k \<and> notification_ok n (user_ids d) (f r)"
  shows "typed n (d\<lparr>notifications := update_row n_id k f (notifications d)\<rparr>)"
proof -
  have K: "keyed n n_id (notification_ok n (user_ids d)) (notifications d)" using assms(1) by (simp add: typed_def)
  from keyed_update [OF K assms(2)] assms(1) show ?thesis by (simp add: typed_def)
qed

lemma typed_delete_items:
  "typed n d \<Longrightarrow> typed n (d\<lparr>po_items := delete_rows q (po_items d)\<rparr>)"
  "typed n d \<Longrightarrow> typed n (d\<lparr>so_items := delete_rows q' (so_items d)\<rparr>)"
  "typed n d \<Longrightarrow> typed n (d\<lparr>return_requests := delete_rows q'' (return_requests d)\<rparr>)"
  by (simp_all add: typed_def keyed_delete)

text \<open>A deleted order takes its lines with it; no return may refer to it.\<close>

lemma deleted_ids: "key ` set (delete_rows (\<lambda>x. key x = k) t) = key ` set t - {k}"
  by (auto simp: delete_rows_def)

lemma typed_delete_po:
  assumes "typed n d"
  shows "typed n (d\<lparr>purchase_orders := delete_rows (\<lambda>x. po_id x = k) (purchase_orders d),
     po_items := delete_rows (\<lambda>x. poi_order x = k) (po_items d)\<rparr>)"
proof -
  have "keyed n poi_id (po_item_ok (product_ids d) (po_ids d)) (po_items d)" using assms by (simp add: typed_def)
  then have "keyed n poi_id (po_item_ok (product_ids d) (po_ids d - {k})) (delete_rows (\<lambda>x. poi_order x = k) (po_items d))"
    using keyed_delete [of n poi_id _ "po_items d" "\<lambda>x. poi_order x = k"]
    by (auto simp: keyed_def delete_rows_def po_item_ok_def)
  with assms show ?thesis by (simp add: typed_def keyed_delete deleted_ids)
qed

lemma some_values_map: "some_values f t = map f (filter (\<lambda>x. f x \<noteq> None) t)"
  by (simp add: some_values_def filter_map comp_def)

lemma some_values_delete: "distinct (some_values f t) \<Longrightarrow> distinct (some_values f (delete_rows q t))"
proof -
  have "filter (\<lambda>x. f x \<noteq> None) (delete_rows q t) = filter (\<lambda>x. \<not> q x) (filter (\<lambda>x. f x \<noteq> None) t)"
    by (auto simp: delete_rows_def intro: filter_cong)
  then show "distinct (some_values f t) \<Longrightarrow> distinct (some_values f (delete_rows q t))"
    by (simp add: some_values_map distinct_map_filter del: filter_filter)
qed

lemma typed_delete_so:
  assumes "typed n d" "\<forall>r \<in> set (return_requests d). r_order r \<noteq> k"
  shows "typed n (d\<lparr>sales_orders := delete_rows (\<lambda>x. so_id x = k) (sales_orders d),
     so_items := delete_rows (\<lambda>x. soi_order x = k) (so_items d)\<rparr>)"
proof -
  have "keyed n soi_id (so_item_ok (product_ids d) (so_ids d)) (so_items d)" using assms by (simp add: typed_def)
  then have "keyed n soi_id (so_item_ok (product_ids d) (so_ids d - {k})) (delete_rows (\<lambda>x. soi_order x = k) (so_items d))"
    using keyed_delete [of n soi_id _ "so_items d" "\<lambda>x. soi_order x = k"]
    by (auto simp: keyed_def delete_rows_def so_item_ok_def)
  moreover have "keyed n r_id (return_ok (user_ids d) (product_ids d) (so_ids d - {k})) (return_requests d)"
    using assms by (auto simp: typed_def return_ok_def intro: keyed_mono)
  ultimately show ?thesis using assms(1) by (simp add: typed_def keyed_delete deleted_ids some_values_delete)
qed

end
