(* ===== verification/Typed_Views.thy ===== *)
theory Typed_Views
  imports Integrity Access
begin

section \<open>The views and tasks keep the rows well-typed\<close>

definition wt :: "db \<Rightarrow> bool" where
  "wt d \<longleftrightarrow> typed (next_uuid d) d"

subsection \<open>Messages fit their column\<close>

lemma length_digits_of: "2 \<le> b \<Longrightarrow> n < b ^ Suc k \<Longrightarrow> length (digits_of b n) \<le> Suc k"
proof (induction k arbitrary: n)
  case 0
  then show ?case by (simp add: digits_of.simps [of b n])
next
  case (Suc k)
  show ?case
  proof (cases "n < b")
    case True
    then show ?thesis by (simp add: digits_of.simps [of b n])
  next
    case False
    have "n div b < b ^ Suc k" using Suc.prems by (simp add: less_mult_imp_div_less mult.commute)
    with Suc False show ?thesis by (simp add: digits_of.simps [of b n])
  qed
qed

lemma length_str_int: "fits_integer i \<Longrightarrow> length (str_int i) \<le> 11"
proof -
  assume f: "fits_integer i"
  have d: "length (str_nat n) \<le> 10" if "n \<le> 2147483648" for n
    using length_digits_of [of 10 n 9] that by (simp add: str_nat_def)
  have "nat i \<le> 2147483648" "nat (- i) \<le> 2147483648" using f by (auto simp: fits_integer_def max_int32_def nat_le_iff)
  from d [OF this(1)] d [OF this(2)] show ?thesis by (simp add: str_int_def)
qed

lemma length_str_uuid: "i < 2 ^ 128 \<Longrightarrow> length (str_uuid i) = 36"
proof -
  assume "i < 2 ^ 128"
  then have "length (digits_of 16 i) \<le> Suc 31" by (intro length_digits_of) simp_all
  then have "length (uuid_hex i) = 32" by (simp add: uuid_hex_def Let_def)
  then show ?thesis by (simp add: str_uuid_def Let_def)
qed

subsection \<open>Alerts\<close>

lemma wt_notify:
  assumes "wt d" "uid \<in> user_ids d" "length m \<le> 1000" "pred_option (\<lambda>i. i < next_uuid d) ref"
  shows "wt (notify uid ty m ref now d)"
proof -
  let ?x = "\<lparr>n_id = next_uuid d, n_user = uid, n_type = ty, n_message = m, n_reference = ref, n_is_read = False,
    n_created_at = now\<rparr>"
  have "typed (Suc (next_uuid d)) (d\<lparr>notifications := notifications d @ [?x]\<rparr>)"
    by (rule typed_add_notification [OF assms(1) [unfolded wt_def]]) (use assms in \<open>simp_all add: notification_ok_def\<close>)
  then show ?thesis by (simp add: notify_def wt_def)
qed

lemma wt_notify_all:
  assumes "wt d" "\<forall>uid \<in> set us. uid \<in> user_ids d" "length m \<le> 1000" "pred_option (\<lambda>i. i < next_uuid d) ref"
  shows "wt (fold (\<lambda>uid. notify uid ty m ref now) us d)"
  using assms
proof (induction us arbitrary: d)
  case (Cons u us)
  have "wt (notify u ty m ref now d)" by (rule wt_notify) (use Cons.prems in simp_all)
  moreover have "pred_option (\<lambda>i. i < next_uuid (notify u ty m ref now d)) ref"
    by (rule pred_option_mono' [OF Cons.prems(4)]) simp
  ultimately show ?case using Cons.IH [of "notify u ty m ref now d"] Cons.prems(2,3) by simp
qed simp

lemma wt_notify_admins:
  assumes "wt d" "length m \<le> 1000" "pred_option (\<lambda>i. i < next_uuid d) ref"
  shows "wt (notify_admins_and_managers ty m ref now d)"
  unfolding notify_admins_and_managers_def
  by (rule wt_notify_all) (use assms in \<open>auto simp: admins_and_managers_def\<close>)

lemma wt_check_and_notify:
  assumes "wt d" "length (p_name p) \<le> 255" "length (p_sku p) \<le> 100" "fits_integer (p_current_stock p)"
    "p_id p < next_uuid d"
  shows "wt (check_and_notify_stock p now d)"
proof -
  have "length (out_of_stock_message p) \<le> 1000" "length (low_stock_message p) \<le> 1000"
    using assms length_str_int [OF assms(4)] by (simp_all add: out_of_stock_message_def low_stock_message_def)
  with assms(1,5) show ?thesis by (simp add: check_and_notify_stock_def wt_notify_admins)
qed

subsection \<open>Stock movements\<close>

lemma typed_move:
  assumes "typed n d" "fits_integer s" "t_id t = n" "txn_ok n (user_ids d) (product_ids d) t"
  shows "typed (Suc n) (d\<lparr>products := update_row p_id k (\<lambda>r. r\<lparr>p_current_stock := s\<rparr>) (products d),
     transactions := transactions d @ [t]\<rparr>)"
proof -
  let ?e = "d\<lparr>products := update_row p_id k (\<lambda>r. r\<lparr>p_current_stock := s\<rparr>) (products d)\<rparr>"
  have "map p_sku (update_row p_id k (\<lambda>r. r\<lparr>p_current_stock := s\<rparr>) (products d)) = map p_sku (products d)"
    by (auto simp: update_row_def)
  then have e: "typed n ?e"
    using assms(1,2) by (intro typed_update_product) (simp_all add: product_ok_def typed_def del: map_map)
  have "p_id ` set (products ?e) = product_ids d"
    using update_row_ids [where key = p_id and f = "\<lambda>r. r\<lparr>p_current_stock := s\<rparr>"] by simp
  then have "txn_ok n (user_ids ?e) (product_ids ?e) t" using assms(4) by simp
  from typed_add_transaction [OF e assms(3) this] show ?thesis by simp
qed

lemma wt_move_and_notify:
  assumes "wt d" "p_id p = k" "p_id p < next_uuid d" "length (p_name p) \<le> 255" "length (p_sku p) \<le> 100" "fits_integer s"
    "t_id t = next_uuid d" "txn_ok (next_uuid d) (user_ids d) (product_ids d) t"
  shows "wt (check_and_notify_stock (p\<lparr>p_current_stock := s\<rparr>) now
     (draw_uuid (d\<lparr>products := update_row p_id k (\<lambda>r. r\<lparr>p_current_stock := s\<rparr>) (products d),
        transactions := transactions d @ [t]\<rparr>)))"
proof (rule wt_check_and_notify)
  show "wt (draw_uuid (d\<lparr>products := update_row p_id k (\<lambda>r. r\<lparr>p_current_stock := s\<rparr>) (products d),
        transactions := transactions d @ [t]\<rparr>))"
    using typed_move [OF assms(1) [unfolded wt_def] assms(6-8), of k] by (simp add: wt_def)
qed (use assms in simp_all)

lemma wt_product:
  assumes "wt d" "p \<in> set (products d)"
  shows "p_id p < next_uuid d" "length (p_name p) \<le> 255" "length (p_sku p) \<le> 100" "p_id p \<in> product_ids d"
    "\<bar>p_selling_price p\<bar> < 10 ^ 10"
  using assms by (auto simp: wt_def typed_def keyed_def product_ok_def)

lemma wt_receive_item:
  assumes "receive_item u now oid item d = Inr d'" "wt d" "u_id u \<in> user_ids d" "oid < next_uuid d"
  shows "wt d'"
proof -
  from assms(1) obtain p t where p: "get_product (poi_product item) d = Some p"
    and f: "fits_integer (p_current_stock p + poi_quantity item)" "fits_integer (poi_quantity item)"
    and t: "t = \<lparr>t_id = next_uuid d, t_product = p_id p, t_quantity = poi_quantity item,
             t_type = PURCHASE, t_reference = Some oid, t_reason = None, t_created_at = now,
             t_created_by = Some (u_id u)\<rparr>"
    and d': "d' = check_and_notify_stock (p\<lparr>p_current_stock := p_current_stock p + poi_quantity item\<rparr>) now
             (draw_uuid (d\<lparr>products := update_row p_id (p_id p)
             (\<lambda>r. r\<lparr>p_current_stock := p_current_stock p + poi_quantity item\<rparr>) (products d),
               transactions := transactions d @ [t]\<rparr>))"
    by (auto simp: receive_item_Inr)
  note g = wt_product [OF assms(2) get_row_SomeD(1) [OF p]]
  show ?thesis unfolding d'
    by (rule wt_move_and_notify [OF assms(2) refl g(1-3) f(1)])
      (use g assms(3,4) f(2) in \<open>simp_all add: t txn_ok_def\<close>)
qed

lemma wt_receive_items:
  assumes "foldE (receive_item u now oid) items d = Inr d'" "wt d" "u_id u \<in> user_ids d" "oid < next_uuid d"
  shows "wt d' \<and> next_uuid d \<le> next_uuid d'"
proof -
  let ?P = "\<lambda>e. wt e \<and> users e = users d \<and> next_uuid d \<le> next_uuid e"
  have "?P d'"
  proof (rule foldE_invariant [OF assms(1), of ?P])
    show "?P d" using assms(2) by simp
  next
    fix m s s' assume m: "receive_item u now oid m s = Inr s'" and s: "?P s"
    then have "wt s'" by (intro wt_receive_item [OF m]) (use assms(3,4) in simp_all)
    moreover have "next_uuid s \<le> next_uuid s'" using receive_items_next [of u now oid "[m]" s s'] m by simp
    ultimately show "?P s'" using s receive_item_frame(1) [OF m] by simp
  qed
  then show ?thesis by simp
qed

lemma wt_finish_receive:
  assumes "wt d" "po \<in> set (purchase_orders d)" "next_uuid d0 \<le> 2 ^ 128" "po_id po < next_uuid d0"
  shows "wt (finish_receive now po d)"
proof -
  let ?po = "po\<lparr>po_status := RECEIVED, po_received_at := Some now\<rparr>"
  have K: "po_ok (user_ids d) (supplier_ids d) po" "po_id po < next_uuid d"
    using assms(1,2) by (auto simp: wt_def typed_def keyed_def)
  have e: "wt (save_po_received ?po d)"
    unfolding wt_def save_po_received_def
    by (simp, rule typed_update_po) (use assms(1) in \<open>simp_all add: wt_def po_ok_def\<close>)
  have len: "length (''Purchase order '' @ str_uuid (po_id po) @ '' has been received'') \<le> 1000"
    using length_str_uuid [of "po_id po"] assms(3,4) by simp
  show ?thesis
  proof (cases "po_created_by po")
    case None
    with e show ?thesis by (simp add: finish_receive_def)
  next
    case (Some c)
    have "wt (notify c PURCHASE_COMPLETED (''Purchase order '' @ str_uuid (po_id po) @ '' has been received'')
        (Some (po_id po)) now (save_po_received ?po d))"
      by (rule wt_notify [OF e _ len]) (use K Some in \<open>simp_all add: po_ok_def save_po_received_def\<close>)
    with Some show ?thesis by (simp add: finish_receive_def Let_def)
  qed
qed

lemma wt_receive:
  assumes "receive u now pk d = Inr oc" "wt d" "u_id u \<in> user_ids d" "next_uuid d \<le> 2 ^ 128"
  shows "wt (odb oc) \<and> next_uuid d \<le> next_uuid (odb oc)"
  using assms(1)
proof (cases rule: receive_cases)
  case (replay po)
  with assms(2) show ?thesis by simp
next
  case (first po d1)
  have po: "po \<in> set (purchase_orders d)" "po_id po = pk" using get_row_SomeD [OF first(1)] by simp_all
  with assms(2) have lt: "pk < next_uuid d" by (auto simp: wt_def typed_def keyed_def)
  note run = wt_receive_items [OF first(4) assms(2,3) lt]
  have "po \<in> set (purchase_orders d1)" using receive_items_frame(1) [OF first(4)] po(1) by simp
  then have "wt (finish_receive now po d1)"
    using wt_finish_receive run assms(4) lt po(2) by blast
  with run first(5) finish_receive_next [of d1 now po] show ?thesis by simp
qed

lemma check_lines_objects:
  assumes "check_lines items d acc = Inr (Inr by_item)" "\<And>k p. acc k = Some p \<Longrightarrow> p \<in> set (products d)"
  shows "by_item k = Some p \<Longrightarrow> p \<in> set (products d)"
  using assms
proof (induction items arbitrary: acc)
  case (Cons x items)
  from Cons.prems(2) obtain q where q: "get_product (soi_product x) d = Some q"
    "check_lines items d (acc(soi_id x \<mapsto> q)) = Inr (Inr by_item)"
    by (auto simp: bind_elims split: if_splits)
  show ?case
    by (rule Cons.IH [OF Cons.prems(1) q(2)])
      (use get_row_SomeD(1) [OF q(1)] Cons.prems(3) in \<open>auto split: if_splits\<close>)
qed simp

lemma wt_deduct_line:
  assumes "deduct_line u now oid by_item item d = Inr d'" "wt d" "u_id u \<in> user_ids d" "oid < next_uuid d"
    and "\<And>k p. by_item k = Some p \<Longrightarrow> p_id p \<in> product_ids d \<and> length (p_name p) \<le> 255 \<and> length (p_sku p) \<le> 100"
  shows "wt d'"
proof -
  from assms(1) obtain p t where p: "by_item (soi_id item) = Some p"
    and f: "fits_integer (p_current_stock p - soi_quantity item)" "fits_integer (soi_quantity item)"
    and t: "t = \<lparr>t_id = next_uuid d, t_product = p_id p, t_quantity = soi_quantity item,
             t_type = SALE, t_reference = Some oid, t_reason = None, t_created_at = now,
             t_created_by = Some (u_id u)\<rparr>"
    and d': "d' = check_and_notify_stock (p\<lparr>p_current_stock := p_current_stock p - soi_quantity item\<rparr>) now
             (draw_uuid (d\<lparr>products := update_row p_id (p_id p)
             (\<lambda>r. r\<lparr>p_current_stock := p_current_stock p - soi_quantity item\<rparr>) (products d),
               transactions := transactions d @ [t]\<rparr>))"
    by (auto simp: deduct_line_Inr)
  note g = assms(5) [OF p]
  have lt: "p_id p < next_uuid d" using g assms(2) by (auto simp: wt_def typed_def keyed_def)
  show ?thesis unfolding d'
    by (rule wt_move_and_notify [OF assms(2) refl lt _ _ f(1)])
      (use g assms(3,4) f(2) in \<open>simp_all add: t txn_ok_def\<close>)
qed

lemma wt_deduct_lines:
  assumes "foldE (deduct_line u now oid by_item) items d = Inr d'" "wt d" "u_id u \<in> user_ids d" "oid < next_uuid d"
    and "\<And>k p. by_item k = Some p \<Longrightarrow> p \<in> set (products d)"
  shows "wt d' \<and> next_uuid d \<le> next_uuid d'"
proof -
  let ?P = "\<lambda>e. wt e \<and> users e = users d \<and> product_ids e = product_ids d \<and> next_uuid d \<le> next_uuid e"
  have "?P d'"
  proof (rule foldE_invariant [OF assms(1), of ?P])
    show "?P d" using assms(2) by simp
  next
    fix m s s' assume m: "deduct_line u now oid by_item m s = Inr s'" and s: "?P s"
    then have "wt s'"
      by (intro wt_deduct_line [OF m]) (use assms(3,4) wt_product [OF assms(2) assms(5)] in auto)
    moreover have "next_uuid s \<le> next_uuid s'" "users s' = users s" "map p_id (products s') = map p_id (products s)"
      using deduct_lines_next [of u now oid by_item "[m]" s s'] deduct_lines_frame [of u now oid by_item "[m]" s s'] m
      by simp_all
    ultimately show "?P s'" using s by (metis list.set_map order_trans)
  qed
  then show ?thesis by simp
qed

text \<open>The unique invoice numbers.\<close>

lemma some_values_inj:
  "distinct (some_values f t) \<Longrightarrow> x \<in> set t \<Longrightarrow> y \<in> set t \<Longrightarrow> f x = f y \<Longrightarrow> f x \<noteq> None \<Longrightarrow> x = y"
  by (auto simp: some_values_map distinct_map inj_on_def)

lemma some_values_replace:
  assumes "distinct (map key t)" "distinct (some_values f t)"
    and "\<And>r. r \<in> set t \<Longrightarrow> key r = k \<Longrightarrow> f (g r) \<noteq> None \<Longrightarrow> \<forall>y \<in> set t. f y = f (g r) \<longrightarrow> key y = k"
  shows "distinct (some_values f (update_row key k g t))"
  using assms
proof (induction t)
  case (Cons x t)
  have tail: "y \<in> set t \<Longrightarrow> key y \<noteq> key x" for y using Cons.prems(1) by (auto simp: image_iff)
  have dist: "f x = None \<or> f x \<notin> f ` set t"
    using Cons.prems(2) by (auto simp: some_values_def split: if_splits)
  show ?case
  proof (cases "key x = k")
    case True
    then have t: "update_row key k g t = t" using tail by (intro update_row_absent) (metis imageE)
    have "f (g x) = None \<or> f (g x) \<notin> f ` set t" using Cons.prems(3) [of x] True tail by fastforce
    moreover have "distinct (some_values f t)" using Cons.prems(2) by (simp add: some_values_def split: if_splits)
    ultimately show ?thesis using True t by (auto simp: update_row_Cons some_values_def)
  next
    case False
    have "f x \<noteq> None \<Longrightarrow> f x \<notin> f ` set (update_row key k g t)"
    proof
      assume nn: "f x \<noteq> None" and "f x \<in> f ` set (update_row key k g t)"
      then obtain y where y: "y \<in> set t" "f x = f (if key y = k then g y else y)" by (auto dest!: set_update_rowD)
      have "f x \<notin> f ` set t" using dist nn by simp
      then have "key y = k" using y by (metis imageI)
      moreover have "f x = f (g y)" using y(2) \<open>key y = k\<close> by simp
      ultimately show False using Cons.prems(3) [of y] y(1) nn False by auto
    qed
    moreover have "distinct (some_values f (update_row key k g t))"
    proof (rule Cons.IH)
      show "distinct (map key t)" "distinct (some_values f t)"
        using Cons.prems(1,2) by (simp_all add: some_values_def split: if_splits)
      fix r assume "r \<in> set t" "key r = k" "f (g r) \<noteq> None"
      with Cons.prems(3) [of r] show "\<forall>y \<in> set t. f y = f (g r) \<longrightarrow> key y = k" by simp
    qed
    ultimately show ?thesis using False by (auto simp: update_row_Cons some_values_def)
  qed
qed (simp add: some_values_def)

lemma length_invoice_number: "length (invoice_number_of i) \<le> 50"
  by (simp add: invoice_number_of_def)

lemma wt_finish_complete:
  assumes "finish_complete now drawn so d = Inr d'" "wt d" "so \<in> set (sales_orders d)" "so_id so < 2 ^ 128"
  shows "wt d'"
proof -
  let ?f = "\<lambda>r. r\<lparr>so_status := COMPLETED, so_invoice_number := Some (invoice_number_of drawn), so_invoiced_at := Some now\<rparr>"
  let ?d = "d\<lparr>sales_orders := update_row so_id (so_id so) ?f (sales_orders d)\<rparr>"
  have T: "distinct (map so_id (sales_orders d))" "distinct (some_values so_invoice_number (sales_orders d))"
    "so_ok (user_ids d) so" "so_id so < next_uuid d"
    using assms(2,3) by (auto simp: wt_def typed_def keyed_def)
  from assms(1) have "\<forall>x \<in> set (sales_orders d). so_id x \<noteq> so_id so \<longrightarrow> so_invoice_number x \<noteq> Some (invoice_number_of drawn)"
    by (auto simp: finish_complete_def bind_elims)
  then have "distinct (some_values so_invoice_number (update_row so_id (so_id so) ?f (sales_orders d)))"
    by (intro some_values_replace T) auto
  then have e: "wt ?d"
    unfolding wt_def
    by (simp, intro typed_update_so) (use assms(2) length_invoice_number [of drawn] in \<open>simp_all add: wt_def so_ok_def\<close>)
  have len: "length (''Sales order '' @ str_uuid (so_id so) @ '' has been completed'') \<le> 1000"
    using length_str_uuid [OF assms(4)] by simp
  show ?thesis
  proof (cases "so_created_by so")
    case None
    with assms(1) e show ?thesis by (auto simp: finish_complete_def bind_elims)
  next
    case (Some c)
    have "wt (notify c SALE_COMPLETED (''Sales order '' @ str_uuid (so_id so) @ '' has been completed'')
        (Some (so_id so)) now ?d)"
      by (rule wt_notify [OF e _ len]) (use T Some in \<open>simp_all add: so_ok_def\<close>)
    with Some assms(1) show ?thesis by (auto simp: finish_complete_def bind_elims Let_def)
  qed
qed

lemma wt_complete:
  assumes "complete u now drawn pk d = Inr oc" "wt d" "u_id u \<in> user_ids d" "next_uuid d \<le> 2 ^ 128"
  shows "wt (odb oc) \<and> next_uuid d \<le> next_uuid (odb oc)"
  using assms(1)
proof (cases rule: complete_cases)
  case (sold so by_item d1)
  have so: "so \<in> set (sales_orders d)" "so_id so = pk" using get_row_SomeD [OF sold(1)] by simp_all
  with assms(2) have lt: "pk < next_uuid d" by (auto simp: wt_def typed_def keyed_def)
  have run: "wt d1 \<and> next_uuid d \<le> next_uuid d1"
    by (rule wt_deduct_lines [OF sold(5) assms(2,3) lt]) (rule check_lines_objects [OF sold(4)], simp_all)
  have "so \<in> set (sales_orders d1)" using deduct_lines_frame(3) [OF sold(5)] so(1) by simp
  then have "wt (odb oc)" using wt_finish_complete [OF sold(6)] run lt so(2) assms(4) by simp
  with run finish_complete_next [OF sold(6)] show ?thesis by simp
qed (use assms(2) in simp_all)

lemma wt_restock:
  assumes "restock u now ret d = Inr d'" "wt d" "u_id u \<in> user_ids d" "ret \<in> set (return_requests d)"
  shows "wt d' \<and> next_uuid d \<le> next_uuid d'"
proof -
  from assms(1) obtain p t where p: "get_product (r_product ret) d = Some p"
    and f: "fits_integer (p_current_stock p + r_quantity ret)" "fits_integer (r_quantity ret)"
    and t: "t = \<lparr>t_id = next_uuid d, t_product = p_id p, t_quantity = r_quantity ret,
             t_type = RETURN, t_reference = Some (r_id ret), t_reason = None, t_created_at = now,
             t_created_by = Some (u_id u)\<rparr>"
    and d': "d' = draw_uuid (d\<lparr>products := update_row p_id (p_id p)
             (\<lambda>r. r\<lparr>p_current_stock := p_current_stock p + r_quantity ret\<rparr>) (products d),
             transactions := transactions d @ [t]\<rparr>)"
    by (auto simp: restock_Inr)
  have "r_id ret < next_uuid d" using assms(2,4) by (auto simp: wt_def typed_def keyed_def)
  then have "txn_ok (next_uuid d) (user_ids d) (product_ids d) t"
    using wt_product(4) [OF assms(2) get_row_SomeD(1) [OF p]] f(2) assms(3) by (simp add: t txn_ok_def)
  from typed_move [OF assms(2) [unfolded wt_def] f(1) _ this, of "p_id p"] show ?thesis
    by (simp add: d' wt_def t)
qed

lemma wt_approve:
  assumes "approve u now pk d = Inr oc" "wt d" "u_id u \<in> user_ids d"
  shows "wt (odb oc) \<and> next_uuid d \<le> next_uuid (odb oc)"
  using assms(1)
proof (cases rule: approve_cases)
  case (replay r)
  with assms(2) show ?thesis by simp
next
  case (first r d1)
  note run = wt_restock [OF first(4) assms(2,3) get_row_SomeD(1) [OF first(1)]]
  have "users d1 = users d" using first(4) by (auto simp: restock_Inr)
  then have "wt (save_return_approved u r d1)"
    using run assms(3) unfolding save_return_approved_def wt_def
    by (simp, intro typed_update_return) (simp_all add: return_ok_def)
  with first(5) run show ?thesis by (simp add: save_return_approved_def)
qed

lemma wt_damage:
  assumes "damage u now data d = Inr oc" "wt d" "u_id u \<in> user_ids d"
  shows "wt (odb oc) \<and> next_uuid d \<le> next_uuid (odb oc)"
proof -
  from assms(1) have v: "damage_validate data = Inr data" using damage_validate_Inr(1)
    by (auto simp: damage_def bind_elims)
  obtain pid q reason where f: "din_product data = Given pid" "din_quantity data = Given q" "1 \<le> q"
    "din_reason data = Given reason" "length reason \<le> 1000"
    using damage_validate_Inr [OF v] by blast
  show ?thesis
  proof (cases "odb oc = d")
    case False
    with assms(1) v f obtain p t where p: "get_row p_id pid (filter p_is_active (products d)) = Some p"
      and w: "write_off u now reason (p, q) d = Inr (t, odb oc)"
      by (auto simp: damage_def field_get_def bind_elims split: option.splits if_splits)
    have "p \<in> set (products d)" using get_row_SomeD(1) [OF p] by simp
    note g = wt_product [OF assms(2) this]
    from w have s: "fits_integer (p_current_stock p - q)" "fits_integer q"
      and t: "t = \<lparr>t_id = next_uuid d, t_product = p_id p, t_quantity = q, t_type = DAMAGE, t_reference = None,
          t_reason = Some reason, t_created_at = now, t_created_by = Some (u_id u)\<rparr>"
      and d': "odb oc = check_and_notify_stock (p\<lparr>p_current_stock := p_current_stock p - q\<rparr>) now
             (draw_uuid (d\<lparr>products := update_row p_id (p_id p)
               (\<lambda>r. r\<lparr>p_current_stock := p_current_stock p - q\<rparr>) (products d),
               transactions := transactions d @ [t]\<rparr>))"
      unfolding write_off_Inr by blast+
    have "wt (odb oc)" unfolding d'
      by (rule wt_move_and_notify [OF assms(2) refl g(1-3) s(1)])
        (use g assms(3) s(2) f(5) in \<open>simp_all add: t txn_ok_def\<close>)
    moreover have "Suc (next_uuid d) \<le> next_uuid (odb oc)"
      unfolding d' by (rule order_trans [OF _ check_and_notify_next]) simp
    ultimately show ?thesis by simp
  qed (use assms(2) in simp)
qed

subsection \<open>Orders\<close>

lemma items_errors_ok:
  assumes "items_errors d partial ie pf f = Inr []" "f = Given items" "it \<in> set items" "pf it = Given i"
  shows "i \<in> product_ids d" "ie it = []"
  using items_errors_Nil [OF assms(1)] assms(2-4) by fastforce+

lemma wt_insert_po_items:
  assumes "foldE (insert_po_item oid now) its d = Inr d'" "wt d" "oid \<in> po_ids d"
    and "\<And>it i. it \<in> set its \<Longrightarrow> pii_product it = Given i \<Longrightarrow> i \<in> product_ids d \<and> po_item_errors partial it = []"
  shows "wt d'"
proof -
  let ?P = "\<lambda>e. wt e \<and> products e = products d \<and> purchase_orders e = purchase_orders d"
  have "?P d'"
  proof (rule foldE_invariant [OF assms(1), of ?P])
    show "?P d" using assms(2) by simp
  next
    fix it s s' assume it: "it \<in> set its" and m: "insert_po_item oid now it s = Inr s'" and s: "?P s"
    from m obtain pid q c where f: "pii_product it = Given pid" "pii_quantity it = Given q" "pii_unit_cost it = Given c"
      "0 \<le> q" "q \<le> max_int32"
      and s': "s' = draw_uuid (s\<lparr>po_items := po_items s @
         [\<lparr>poi_id = next_uuid s, poi_order = oid, poi_product = pid, poi_quantity = q,
           poi_unit_cost = c, poi_created_at = now\<rparr>]\<rparr>)"
      by (auto simp: insert_po_item_def bind_elims)
    from assms(4) [OF it f(1)] f(3) have "pid \<in> product_ids d" "0 \<le> c" "c < 10 ^ 10"
      by (auto simp: po_item_errors_def field_errors_Nil price_errors_def split: if_splits)
    then have "typed (Suc (next_uuid s)) (s\<lparr>po_items := po_items s @
         [\<lparr>poi_id = next_uuid s, poi_order = oid, poi_product = pid, poi_quantity = q,
           poi_unit_cost = c, poi_created_at = now\<rparr>]\<rparr>)"
      using s f(4,5) assms(3) by (intro typed_add_po_item) (simp_all add: wt_def po_item_ok_def)
    then show "?P s'" using s by (simp add: s' wt_def)
  qed
  then show ?thesis by simp
qed

lemma wt_insert_so_items:
  assumes "foldE (insert_so_item oid now) its d = Inr d'" "wt d" "oid \<in> so_ids d"
  shows "wt d'"
proof -
  let ?P = "\<lambda>e. wt e \<and> sales_orders e = sales_orders d"
  have "?P d'"
  proof (rule foldE_invariant [OF assms(1), of ?P])
    show "?P d" using assms(2) by simp
  next
    fix it s s' assume m: "insert_so_item oid now it s = Inr s'" and s: "?P s"
    from m obtain pid q p where f: "get_product pid s = Some p" "0 \<le> q" "q \<le> max_int32"
      and s': "s' = draw_uuid (s\<lparr>so_items := so_items s @
         [\<lparr>soi_id = next_uuid s, soi_order = oid, soi_product = pid, soi_quantity = q,
           soi_unit_price = p_selling_price p, soi_created_at = now\<rparr>]\<rparr>)"
      by (auto simp: insert_so_item_def bind_elims)
    have w: "wt s" using s by simp
    have "typed (Suc (next_uuid s)) (s\<lparr>so_items := so_items s @
         [\<lparr>soi_id = next_uuid s, soi_order = oid, soi_product = pid, soi_quantity = q,
           soi_unit_price = p_selling_price p, soi_created_at = now\<rparr>]\<rparr>)"
      using s f(2,3) assms(3) wt_product(4,5) [OF w get_row_SomeD(1) [OF f(1)]] get_row_SomeD(2) [OF f(1)]
      by (intro typed_add_so_item) (simp_all add: wt_def so_item_ok_def)
    then show "?P s'" using s by (simp add: s' wt_def)
  qed
  then show ?thesis by simp
qed

lemma po_validate_ok:
  assumes "po_validate d partial data = Inr data'"
  shows "data' = data" "poin_supplier data = Given sid \<Longrightarrow> sid \<in> supplier_ids d"
    "poin_items data = Given its \<Longrightarrow> it \<in> set its \<Longrightarrow> pii_product it = Given i
      \<Longrightarrow> i \<in> product_ids d \<and> po_item_errors partial it = []"
proof -
  from assms have v: "items_errors d partial (po_item_errors partial) pii_product (poin_items data) = Inr []"
    "field_errors partial ''supplier_id'' (validate_supplier_id d) (poin_supplier data) = []" "data' = data"
    by (auto simp: po_validate_def bind_elims Let_def split: if_splits)
  show "data' = data" by (rule v(3))
  show "poin_supplier data = Given sid \<Longrightarrow> sid \<in> supplier_ids d"
    using v(2) by (auto simp: field_errors_Nil validate_supplier_id_def split: if_splits)
  show "poin_items data = Given its \<Longrightarrow> it \<in> set its \<Longrightarrow> pii_product it = Given i
      \<Longrightarrow> i \<in> product_ids d \<and> po_item_errors partial it = []"
    using items_errors_ok [OF v(1)] by blast
qed

lemma wt_po_create:
  assumes "po_create u now data d = Inr oc" "wt d" "u_id u \<in> user_ids d"
  shows "wt (odb oc) \<and> next_uuid d \<le> next_uuid (odb oc)"
proof -
  from assms(1) obtain data' where v: "po_validate d False data = Inr data'"
    by (auto simp: po_create_def bind_elims)
  with assms(1) po_validate_ok(1) [OF v] obtain sid its where its: "poin_items data = Given its" "poin_supplier data = Given sid"
    and f: "foldE (insert_po_item (po_id (new_po u now sid d)) now) its
      (draw_uuid (d\<lparr>purchase_orders := purchase_orders d @ [new_po u now sid d]\<rparr>)) = Inr (odb oc)"
    by (auto simp: po_create_def bind_elims Let_def)
  let ?e = "draw_uuid (d\<lparr>purchase_orders := purchase_orders d @ [new_po u now sid d]\<rparr>)"
  have "typed (Suc (next_uuid d)) (d\<lparr>purchase_orders := purchase_orders d @ [new_po u now sid d]\<rparr>)"
    using assms(2,3) po_validate_ok(2) [OF v its(2)]
    by (intro typed_add_po) (simp_all add: wt_def new_po_def po_ok_def)
  then have e: "wt ?e" by (simp add: wt_def)
  have "wt (odb oc)"
    by (rule wt_insert_po_items [OF f e, of False]) (use po_validate_ok(3) [OF v its(1)] in auto)
  with insert_po_items(2) [OF f] show ?thesis by simp
qed

lemma wt_po_update:
  assumes "po_update u now partial q pk data d = Inr oc" "wt d"
  shows "wt (odb oc) \<and> next_uuid d \<le> next_uuid (odb oc)"
proof (cases "odb oc = d")
  case False
  from assms(1) obtain po where po: "get_row po_id pk (po_queryset q d) = Some po"
    by (auto simp: po_update_def bind_elims)
  have mem: "po \<in> set (purchase_orders d)"
    using get_row_SomeD(1) [OF po] by (auto simp: po_queryset_def filter_date_range_def)
  from assms(1) po False obtain data' where v: "po_validate d partial data = Inr data'"
    and w': "po_write_items now data' po (po_write_supplier data' po d) = Inr (odb oc)"
    by (auto simp: po_update_def bind_elims split: if_splits)
  have w: "po_write_items now data po (po_write_supplier data po d) = Inr (odb oc)"
    using w' po_validate_ok(1) [OF v] by simp
  let ?e = "po_write_supplier data po d"
  have e: "wt ?e \<and> products ?e = products d \<and> po_ids ?e = po_ids d \<and> next_uuid ?e = next_uuid d"
  proof (cases "poin_supplier data")
    case (Given sid)
    have "wt (save_po_supplier (po\<lparr>po_supplier := sid\<rparr>) d)"
      using assms(2) po_validate_ok(2) [OF v Given] unfolding wt_def save_po_supplier_def
      by (simp, intro typed_update_po) (simp_all add: po_ok_def)
    moreover have "po_ids (save_po_supplier (po\<lparr>po_supplier := sid\<rparr>) d) = po_ids d"
      using update_row_ids [where key = po_id and f = "\<lambda>r. r\<lparr>po_supplier := sid\<rparr>"] by (simp add: save_po_supplier_def)
    ultimately show ?thesis using Given by (simp add: po_write_supplier_def save_po_supplier_def)
  qed (use assms(2) in \<open>simp_all add: po_write_supplier_def\<close>)
  show ?thesis
  proof (cases "poin_items data")
    case (Given its)
    let ?f = "?e\<lparr>po_items := delete_rows (\<lambda>x. poi_order x = po_id po) (po_items ?e)\<rparr>"
    from w Given have run: "foldE (insert_po_item (po_id po) now) its ?f = Inr (odb oc)"
      by (simp add: po_write_items_def)
    have "wt ?e" using e by blast
    then have "wt ?f" by (simp add: wt_def typed_delete_items(1))
    then have "wt (odb oc)"
      by (rule wt_insert_po_items [OF run, of partial]) (use e mem po_validate_ok(3) [OF v Given] in auto)
    with insert_po_items(2) [OF run] e show ?thesis by simp
  qed (use w e in \<open>simp_all add: po_write_items_def\<close>)
qed (use assms(2) in simp)

lemma wt_po_destroy:
  "po_destroy q pk d = Inr oc \<Longrightarrow> wt d \<Longrightarrow> wt (odb oc) \<and> next_uuid d \<le> next_uuid (odb oc)"
  by (auto simp: po_destroy_def bind_elims wt_def typed_delete_po)

lemma check_customer_eq: "check_customer so = Inr v \<longleftrightarrow> pred_option (\<lambda>s. length s \<le> 255) (so_customer_name so)
    \<and> pred_option (\<lambda>s. length s \<le> 50) (so_customer_phone so)"
  by (cases "so_customer_name so"; cases "so_customer_phone so") (simp_all add: check_customer_def bind_elims)

lemma wt_so_create:
  assumes "so_create u now data d = Inr oc" "wt d" "u_id u \<in> user_ids d"
  shows "wt (odb oc) \<and> next_uuid d \<le> next_uuid (odb oc)"
proof -
  from assms(1) obtain data' its where c: "check_customer (new_so u now data' d) = Inr ()"
    and f: "foldE (insert_so_item (so_id (new_so u now data' d)) now) its
      (draw_uuid (d\<lparr>sales_orders := sales_orders d @ [new_so u now data' d]\<rparr>)) = Inr (odb oc)"
    by (auto simp: so_create_def bind_elims Let_def)
  have "typed (Suc (next_uuid d)) (d\<lparr>sales_orders := sales_orders d @ [new_so u now data' d]\<rparr>)"
    using assms(2,3) c by (intro typed_add_so) (simp_all add: wt_def new_so_def so_ok_def check_customer_eq)
  then have e: "wt (draw_uuid (d\<lparr>sales_orders := sales_orders d @ [new_so u now data' d]\<rparr>))" by (simp add: wt_def)
  have "wt (odb oc)" by (rule wt_insert_so_items [OF f e]) simp
  with insert_so_items(1) [OF f] show ?thesis by auto
qed

lemma wt_so_update:
  assumes "so_update u now partial q pk data d = Inr oc" "wt d"
  shows "wt (odb oc) \<and> next_uuid d \<le> next_uuid (odb oc)"
proof (cases "odb oc = d")
  case False
  from assms(1) obtain so where so: "get_row so_id pk (so_queryset q d) = Some so"
    by (auto simp: so_update_def bind_elims)
  have mem: "so \<in> set (sales_orders d)"
    using get_row_SomeD(1) [OF so] by (auto simp: so_queryset_def filter_date_range_def)
  from assms(1) so False obtain data' e where w: "save_so now (so_write_customer data' so) d = Inr e"
    "so_write_items now data' so e = Inr (odb oc)"
    by (auto simp: so_update_def bind_elims split: if_splits)
  let ?so = "so_write_customer data' so"
  from w(1) have c: "check_customer ?so = Inr ()"
    and e: "e = d\<lparr>sales_orders := update_row so_id (so_id ?so) (\<lambda>_. ?so\<lparr>so_updated_at := now\<rparr>) (sales_orders d)\<rparr>"
    by (auto simp: save_so_def bind_elims)
  have id: "so_id ?so = so_id so" "so_invoice_number ?so = so_invoice_number so" "so_created_by ?so = so_created_by so"
    by (simp_all add: so_write_customer_def)
  have T: "distinct (map so_id (sales_orders d))" "distinct (some_values so_invoice_number (sales_orders d))" "so_ok (user_ids d) so"
    using assms(2) mem by (auto simp: wt_def typed_def keyed_def)
  have "distinct (some_values so_invoice_number (update_row so_id (so_id ?so) (\<lambda>_. ?so\<lparr>so_updated_at := now\<rparr>) (sales_orders d)))"
    by (rule some_values_replace [OF T(1,2)]) (use some_values_inj [OF T(2) _ mem] id in auto)
  then have we: "wt e"
    unfolding e wt_def
    by (simp, intro typed_update_so) (use assms(2) T(3) c id in \<open>simp_all add: wt_def so_ok_def check_customer_eq\<close>)
  have ids: "so_ids e = so_ids d" unfolding e using replace_row_ids [of so_id "?so\<lparr>so_updated_at := now\<rparr>"] by simp
  have nx: "next_uuid e = next_uuid d" by (simp add: e)
  show ?thesis
  proof (cases "soin_items data'")
    case (Given its)
    let ?f = "e\<lparr>so_items := delete_rows (\<lambda>x. soi_order x = so_id so) (so_items e)\<rparr>"
    from w(2) Given have run: "foldE (insert_so_item (so_id so) now) its ?f = Inr (odb oc)"
      by (simp add: so_write_items_def)
    have "wt ?f" using we by (simp add: wt_def typed_delete_items(2))
    then have "wt (odb oc)" by (rule wt_insert_so_items [OF run]) (use ids mem in auto)
    with insert_so_items(1) [OF run] nx show ?thesis by auto
  qed (use w(2) we nx in \<open>simp_all add: so_write_items_def\<close>)
qed (use assms(2) in simp)

lemma wt_so_destroy:
  "so_destroy q pk d = Inr oc \<Longrightarrow> wt d \<Longrightarrow> wt (odb oc) \<and> next_uuid d \<le> next_uuid (odb oc)"
  by (auto simp: so_destroy_def bind_elims wt_def typed_delete_so)

subsection \<open>Returns\<close>

lemma wt_return_create:
  assumes "return_create u now data d = Inr oc" "wt d" "u_id u \<in> user_ids d"
  shows "wt (odb oc) \<and> next_uuid d \<le> next_uuid (odb oc)"
proof (cases "odb oc = d")
  case False
  from assms(1) obtain oid so where so: "rin_sales_order data = Some oid" "get_so oid d = Some so"
    by (auto simp: return_create_def bind_elims split: option.splits)
  from assms(1) so False have "so_status so = COMPLETED"
    by (cases "so_status so") (auto simp: return_create_def)
  with assms(1) so obtain q where iq: "int_of_quantity (rin_quantity data) = Inr q"
    by (auto simp: return_create_def bind_elims)
  from assms(1) so False iq \<open>so_status so = COMPLETED\<close> obtain pid where pid: "rin_product data = Some pid"
    "sold_quantity d (so_id so) pid \<noteq> 0" "\<not> q > sold_quantity d (so_id so) pid - already_reserved d (so_id so) pid"
    by (cases "rin_product data") (auto simp: return_create_def Let_def split: if_splits)
  with assms(1) so iq \<open>so_status so = COMPLETED\<close> obtain reason where
    q: "sold_quantity d (so_id so) pid \<noteq> 0" "0 \<le> q" "q \<le> max_int32" and r: "reason_of (rin_reason data) = Inr reason"
    and d': "odb oc = draw_uuid (d\<lparr>return_requests := return_requests d @ [\<lparr>r_id = next_uuid d, r_order = so_id so,
        r_product = pid, r_quantity = q, r_reason = reason, r_status = PENDING, r_approved_by = None, r_created_at = now,
        r_created_by = Some (u_id u)\<rparr>]\<rparr>)"
    by (auto simp: return_create_def bind_elims Let_def)
  from q(1) have "filter (\<lambda>i. soi_product i = pid) (items_of_so (so_id so) d) \<noteq> []"
    by (auto simp: sold_quantity_def)
  then obtain i where "i \<in> set (so_items d)" "soi_product i = pid" by (auto simp: filter_empty_conv)
  with assms(2) have p: "pid \<in> product_ids d" by (auto simp: wt_def typed_def keyed_def so_item_ok_def)
  have "length reason \<le> 1000" using r by (auto simp: reason_of_def bind_elims split: option.splits)
  with p q(2,3) assms(2,3) get_row_SomeD(1) [OF so(2)] show ?thesis
    unfolding d' wt_def by (simp, intro typed_add_return) (simp_all add: return_ok_def)
qed (use assms(2) in simp)

lemma wt_wf_returns: "wt d \<Longrightarrow> wf_returns d"
  by (auto simp: wt_def typed_def keyed_def wf_returns_def return_ok_def)

lemma wt_return_update:
  "return_update sf pk d = Inr oc \<Longrightarrow> wt d \<Longrightarrow> wt (odb oc) \<and> next_uuid d \<le> next_uuid (odb oc)"
  using return_update_same [OF _ wt_wf_returns] by simp

lemma wt_return_destroy:
  "return_destroy sf pk d = Inr oc \<Longrightarrow> wt d \<Longrightarrow> wt (odb oc) \<and> next_uuid d \<le> next_uuid (odb oc)"
  by (auto simp: return_destroy_def bind_elims wt_def typed_delete_items)

lemma wt_invoice: "invoice rid task q pk d = Inr oc \<Longrightarrow> wt d \<Longrightarrow> wt (odb oc) \<and> next_uuid d \<le> next_uuid (odb oc)"
  using invoice_same [of rid task q pk d oc] by simp

lemma wt_view_of:
  assumes "view_of u now r d = Inr oc" "wt d" "u_id u \<in> user_ids d" "next_uuid d \<le> 2 ^ 128"
  shows "wt (odb oc) \<and> next_uuid d \<le> next_uuid (odb oc)"
  by ((insert assms, cases r); simp only: view_of.simps; (rule wt_po_create wt_po_update wt_po_destroy wt_receive wt_so_create
      wt_so_update wt_so_destroy wt_complete wt_return_create wt_return_update wt_return_destroy wt_approve wt_damage
      wt_invoice; assumption))

subsection \<open>Notifications\<close>

lemma wt_mark_read:
  "mark_read u unread pk d = Inr oc \<Longrightarrow> wt d \<Longrightarrow> wt (odb oc) \<and> next_uuid d \<le> next_uuid (odb oc)"
  by (auto simp: mark_read_def bind_elims Let_def wt_def notification_ok_def intro!: typed_update_notification)

subsection \<open>Catalog\<close>

lemma unique_errors_Nil: "unique_errors name clash t = [] \<longleftrightarrow> (\<forall>r \<in> set t. \<not> clash r)"
  by (auto simp: unique_errors_def)

lemma text_errors_Nil: "text_errors name n s = [] \<longleftrightarrow> s \<noteq> [] \<and> length s \<le> n"
  by (simp add: text_errors_def)

lemma optional_text_errors_Nil: "optional_text_errors name n v = [] \<longleftrightarrow> pred_option (\<lambda>s. length s \<le> n) v"
  by (cases v) (auto simp: optional_text_errors_def)

lemma field_or_ok: "field_errors True name check f = [] \<Longrightarrow> (\<And>x. check x = [] \<longleftrightarrow> P x) \<Longrightarrow> P y \<Longrightarrow> P (field_or y f)"
  by (cases f) (simp_all add: field_errors_def field_or_def)

lemma field_or_ok': "field_errors partial name check f = [] \<Longrightarrow> (\<And>x. check x = [] \<Longrightarrow> P x) \<Longrightarrow> P y \<Longrightarrow> P (field_or y f)"
  by (cases f) (simp_all add: field_errors_def field_or_def split: if_splits)

lemma decimal_errors_Nil: "decimal_errors name c = [] \<longleftrightarrow> \<bar>c\<bar> < 10 ^ 10"
  by (simp add: decimal_errors_def)

lemma integer_errors_Nil: "integer_errors name n = [] \<longleftrightarrow> fits_integer n"
  by (simp add: integer_errors_def)

lemma related_errors_Nil: "related_errors name ids i = [] \<longleftrightarrow> i \<in> set ids"
  by (simp add: related_errors_def)

lemmas checks_Nil = unique_errors_Nil text_errors_Nil optional_text_errors_Nil decimal_errors_Nil integer_errors_Nil
  related_errors_Nil

lemma wt_category_create:
  assumes "category_create now data d = Inr oc" "wt d"
  shows "wt (odb oc) \<and> next_uuid d \<le> next_uuid (odb oc)"
proof -
  from assms(1) obtain name where ok: "category_errors False None d data = []" "ci_name data = Given name"
    and d': "odb oc = draw_uuid (d\<lparr>categories := categories d @ [\<lparr>c_id = next_uuid d, c_name = name,
      c_description = field_or None (ci_description data), c_is_active = field_or True (ci_is_active data),
      c_created_at = now, c_updated_at = now, c_created_by = None\<rparr>]\<rparr>)"
    by (auto simp: category_create_def bind_elims Let_def)
  from ok have n: "length name \<le> 255" "name \<notin> c_name ` set (categories d)"
    by (auto simp: category_errors_def field_errors_def checks_Nil)
  have "pred_option (\<lambda>s. length s \<le> 1000) (field_or None (ci_description data))"
    by (rule field_or_ok') (use ok in \<open>auto simp: category_errors_def checks_Nil\<close>)
  with n assms(2) show ?thesis
    unfolding d' wt_def by (simp, intro typed_add_category) (simp_all add: category_ok_def)
qed

lemma wt_category_update:
  assumes "category_update now partial pk data d = Inr oc" "wt d"
  shows "wt (odb oc) \<and> next_uuid d \<le> next_uuid (odb oc)"
proof -
  from assms(1) obtain c where c: "get_row c_id pk (category_queryset d) = Some c"
    and ok: "category_errors partial (Some pk) d data = []"
    and d': "odb oc = d\<lparr>categories := update_row c_id pk (\<lambda>_. c\<lparr>c_name := field_or (c_name c) (ci_name data),
                 c_description := field_or (c_description c) (ci_description data),
                 c_is_active := field_or (c_is_active c) (ci_is_active data), c_updated_at := now\<rparr>) (categories d)\<rparr>"
    by (auto simp: category_update_def bind_elims Let_def)
  have mem: "c \<in> set (categories d)" "c_id c = pk" using get_row_SomeD [OF c] by (auto simp: category_queryset_def)
  have T: "distinct (map c_id (categories d))" "distinct (map c_name (categories d))" "category_ok (user_ids d) c"
    using assms(2) mem by (auto simp: wt_def typed_def keyed_def)
  have a: "length (field_or (c_name c) (ci_name data)) \<le> 255
      \<and> (\<forall>y \<in> set (categories d). c_name y = field_or (c_name c) (ci_name data) \<longrightarrow> c_id y = pk)"
    by (rule field_or_ok' [where P = "\<lambda>s. length s \<le> 255 \<and> (\<forall>y \<in> set (categories d). c_name y = s \<longrightarrow> c_id y = pk)"])
      (use ok T mem in \<open>auto simp: category_errors_def checks_Nil category_ok_def distinct_map inj_on_def\<close>)
  have b: "pred_option (\<lambda>s. length s \<le> 1000) (field_or (c_description c) (ci_description data))"
    by (rule field_or_ok') (use ok T(3) in \<open>auto simp: category_errors_def checks_Nil category_ok_def\<close>)
  show ?thesis
    unfolding d' wt_def
    by (simp, intro typed_update_category distinct_replace [OF T(1,2)])
      (use assms(2) T(3) a b mem in \<open>auto simp: wt_def category_ok_def\<close>)
qed

lemma update_keeps: "(\<And>r. f (g r) = f r) \<Longrightarrow> map f (update_row key k g t) = map f t"
  by (simp add: update_row_def)

lemma wt_unique:
  assumes "wt d"
  shows "distinct (map u_email (users d))" "distinct (map c_name (categories d))" "distinct (map s_email (suppliers d))"
    "distinct (map p_sku (products d))"
  using assms by (simp_all add: wt_def typed_def)

lemma wt_category_destroy:
  assumes "category_destroy pk d = Inr oc" "wt d"
  shows "wt (odb oc) \<and> next_uuid d \<le> next_uuid (odb oc)"
proof -
  from assms(1) have d': "odb oc = d\<lparr>categories := update_row c_id pk (\<lambda>r. r\<lparr>c_is_active := False\<rparr>) (categories d)\<rparr>"
    by (auto simp: category_destroy_def bind_elims)
  have "map c_name (update_row c_id pk (\<lambda>r. r\<lparr>c_is_active := False\<rparr>) (categories d)) = map c_name (categories d)"
    by (rule update_keeps) simp
  with assms(2) wt_unique [OF assms(2)] show ?thesis
    unfolding d' wt_def by (simp del: map_map, intro typed_update_category) (simp_all add: category_ok_def del: map_map)
qed

lemma wt_supplier_create:
  assumes "supplier_create now data d = Inr oc" "wt d"
  shows "wt (odb oc) \<and> next_uuid d \<le> next_uuid (odb oc)"
proof -
  from assms(1) obtain name email where ok: "supplier_errors False None d data = []" "sp_name data = Given name"
    "sp_email data = Given email"
    and d': "odb oc = draw_uuid (d\<lparr>suppliers := suppliers d @ [\<lparr>s_id = next_uuid d, s_name = name, s_email = email,
      s_phone = field_or None (sp_phone data), s_address = field_or None (sp_address data),
      s_is_active = field_or True (sp_is_active data), s_created_at = now, s_updated_at = now, s_created_by = None\<rparr>]\<rparr>)"
    by (auto simp: supplier_create_def bind_elims Let_def)
  from ok have n: "length name \<le> 255" "length email \<le> 254" "email \<notin> s_email ` set (suppliers d)"
    by (auto simp: supplier_errors_def field_errors_def checks_Nil)
  have "pred_option (\<lambda>s. length s \<le> 50) (field_or None (sp_phone data))"
    "pred_option (\<lambda>s. length s \<le> 1000) (field_or None (sp_address data))"
    by (rule field_or_ok', use ok in \<open>auto simp: supplier_errors_def checks_Nil\<close>)+
  with n assms(2) show ?thesis
    unfolding d' wt_def by (simp, intro typed_add_supplier) (simp_all add: supplier_ok_def)
qed

lemma wt_supplier_update:
  assumes "supplier_update now partial pk data d = Inr oc" "wt d"
  shows "wt (odb oc) \<and> next_uuid d \<le> next_uuid (odb oc)"
proof -
  from assms(1) obtain s where s: "get_row s_id pk (supplier_queryset d) = Some s"
    and ok: "supplier_errors partial (Some pk) d data = []"
    and d': "odb oc = d\<lparr>suppliers := update_row s_id pk (\<lambda>_. s\<lparr>s_name := field_or (s_name s) (sp_name data),
                 s_email := field_or (s_email s) (sp_email data), s_phone := field_or (s_phone s) (sp_phone data),
                 s_address := field_or (s_address s) (sp_address data),
                 s_is_active := field_or (s_is_active s) (sp_is_active data), s_updated_at := now\<rparr>) (suppliers d)\<rparr>"
    by (auto simp: supplier_update_def bind_elims Let_def)
  have mem: "s \<in> set (suppliers d)" "s_id s = pk" using get_row_SomeD [OF s] by (auto simp: supplier_queryset_def)
  have T: "distinct (map s_id (suppliers d))" "distinct (map s_email (suppliers d))" "supplier_ok (user_ids d) s"
    using assms(2) mem by (auto simp: wt_def typed_def keyed_def)
  have a: "length (field_or (s_email s) (sp_email data)) \<le> 254
      \<and> (\<forall>y \<in> set (suppliers d). s_email y = field_or (s_email s) (sp_email data) \<longrightarrow> s_id y = pk)"
    by (rule field_or_ok' [where P = "\<lambda>e. length e \<le> 254 \<and> (\<forall>y \<in> set (suppliers d). s_email y = e \<longrightarrow> s_id y = pk)"])
      (use ok T mem in \<open>auto simp: supplier_errors_def checks_Nil supplier_ok_def distinct_map inj_on_def\<close>)
  have b: "length (field_or (s_name s) (sp_name data)) \<le> 255"
    "pred_option (\<lambda>s. length s \<le> 50) (field_or (s_phone s) (sp_phone data))"
    "pred_option (\<lambda>s. length s \<le> 1000) (field_or (s_address s) (sp_address data))"
    by (rule field_or_ok', use ok T(3) in \<open>auto simp: supplier_errors_def checks_Nil supplier_ok_def\<close>)+
  show ?thesis
    unfolding d' wt_def
    by (simp, intro typed_update_supplier distinct_replace [OF T(1,2)])
      (use assms(2) T(3) a b mem in \<open>auto simp: wt_def supplier_ok_def\<close>)
qed

lemma wt_supplier_destroy:
  assumes "supplier_destroy pk d = Inr oc" "wt d"
  shows "wt (odb oc) \<and> next_uuid d \<le> next_uuid (odb oc)"
proof -
  from assms(1) have d': "odb oc = d\<lparr>suppliers := update_row s_id pk (\<lambda>r. r\<lparr>s_is_active := False\<rparr>) (suppliers d)\<rparr>"
    by (auto simp: supplier_destroy_def bind_elims)
  have "map s_email (update_row s_id pk (\<lambda>r. r\<lparr>s_is_active := False\<rparr>) (suppliers d)) = map s_email (suppliers d)"
    by (rule update_keeps) simp
  with assms(2) wt_unique [OF assms(2)] show ?thesis
    unfolding d' wt_def by (simp del: map_map, intro typed_update_supplier) (simp_all add: supplier_ok_def del: map_map)
qed

lemma wt_product_create:
  assumes "product_create now data d = Inr oc" "wt d"
  shows "wt (odb oc) \<and> next_uuid d \<le> next_uuid (odb oc)"
proof -
  from assms(1) obtain sku name cost price cat sup where ok: "product_errors False None d data = []"
    "pi_sku data = Given sku" "pi_name data = Given name" "pi_cost_price data = Given cost"
    "pi_selling_price data = Given price" "pi_category data = Given cat" "pi_supplier data = Given sup"
    and d': "odb oc = draw_uuid (d\<lparr>products := products d @ [\<lparr>p_id = next_uuid d, p_sku = sku, p_name = name,
                p_description = field_or None (pi_description data),
                p_cost_price = cost, p_selling_price = price, p_current_stock = field_or 0 (pi_current_stock data),
                p_low_stock_threshold = field_or 0 (pi_low_stock_threshold data), p_category = cat, p_supplier = sup,
                p_is_active = field_or True (pi_is_active data), p_created_at = now, p_updated_at = now,
                p_created_by = None\<rparr>]\<rparr>)"
    by (auto simp: product_create_def bind_elims Let_def)
  from ok have n: "length sku \<le> 100" "length name \<le> 255" "sku \<notin> p_sku ` set (products d)"
    "\<bar>cost\<bar> < 10 ^ 10" "\<bar>price\<bar> < 10 ^ 10" "cat \<in> category_ids d" "sup \<in> supplier_ids d"
    by (auto simp: product_errors_def field_errors_def checks_Nil)
  have "pred_option (\<lambda>s. length s \<le> 2000) (field_or None (pi_description data))"
    "fits_integer (field_or 0 (pi_current_stock data))" "fits_integer (field_or 0 (pi_low_stock_threshold data))"
    by (rule field_or_ok', use ok(1) in \<open>auto simp: product_errors_def checks_Nil fits_integer_def max_int32_def\<close>)+
  with n assms(2) show ?thesis
    unfolding d' wt_def by (simp, intro typed_add_product) (simp_all add: product_ok_def)
qed

lemma wt_product_update:
  assumes "product_update now partial pk data d = Inr oc" "wt d"
  shows "wt (odb oc) \<and> next_uuid d \<le> next_uuid (odb oc)"
proof -
  from assms(1) obtain p where p: "get_row p_id pk (product_queryset d) = Some p"
    and ok: "product_errors partial (Some pk) d data = []"
    and d': "odb oc = d\<lparr>products := update_row p_id pk (\<lambda>_. product_apply now data p) (products d)\<rparr>"
    by (auto simp: product_update_def bind_elims Let_def)
  have mem: "p \<in> set (products d)" "p_id p = pk" using get_row_SomeD [OF p] by (auto simp: product_queryset_def)
  have T: "distinct (map p_id (products d))" "distinct (map p_sku (products d))"
    "product_ok (user_ids d) (category_ids d) (supplier_ids d) p"
    using assms(2) mem by (auto simp: wt_def typed_def keyed_def)
  let ?q = "product_apply now data p"
  have a: "length (field_or (p_sku p) (pi_sku data)) \<le> 100
      \<and> (\<forall>y \<in> set (products d). p_sku y = field_or (p_sku p) (pi_sku data) \<longrightarrow> p_id y = pk)"
    by (rule field_or_ok' [where P = "\<lambda>e. length e \<le> 100 \<and> (\<forall>y \<in> set (products d). p_sku y = e \<longrightarrow> p_id y = pk)"])
      (use ok T mem in \<open>auto simp: product_errors_def checks_Nil product_ok_def distinct_map inj_on_def\<close>)
  have b: "length (field_or (p_name p) (pi_name data)) \<le> 255"
    "pred_option (\<lambda>s. length s \<le> 2000) (field_or (p_description p) (pi_description data))"
    "\<bar>field_or (p_cost_price p) (pi_cost_price data)\<bar> < 10 ^ 10"
    "\<bar>field_or (p_selling_price p) (pi_selling_price data)\<bar> < 10 ^ 10"
    "fits_integer (field_or (p_current_stock p) (pi_current_stock data))"
    "fits_integer (field_or (p_low_stock_threshold p) (pi_low_stock_threshold data))"
    "field_or (p_category p) (pi_category data) \<in> category_ids d"
    "field_or (p_supplier p) (pi_supplier data) \<in> supplier_ids d"
    by (rule field_or_ok', use ok T(3) in \<open>auto simp: product_errors_def checks_Nil product_ok_def\<close>)+
  have q: "product_ok (user_ids d) (category_ids d) (supplier_ids d) ?q" "p_id ?q = pk"
      "\<forall>y \<in> set (products d). p_sku y = p_sku ?q \<longrightarrow> p_id y = pk"
    using a b T(3) mem(2) by (simp_all add: product_ok_def product_apply_def)
  show ?thesis
    unfolding d' wt_def
    by (simp, intro typed_update_product distinct_replace [OF T(1,2)]) (use assms(2) q in \<open>auto simp: wt_def\<close>)
qed

lemma wt_product_destroy:
  assumes "product_destroy pk d = Inr oc" "wt d"
  shows "wt (odb oc) \<and> next_uuid d \<le> next_uuid (odb oc)"
proof -
  from assms(1) have d': "odb oc = d\<lparr>products := update_row p_id pk (\<lambda>r. r\<lparr>p_is_active := False\<rparr>) (products d)\<rparr>"
    by (auto simp: product_destroy_def bind_elims)
  have "map p_sku (update_row p_id pk (\<lambda>r. r\<lparr>p_is_active := False\<rparr>) (products d)) = map p_sku (products d)"
    by (rule update_keeps) simp
  with assms(2) wt_unique [OF assms(2)] show ?thesis
    unfolding d' wt_def by (simp del: map_map, intro typed_update_product) (simp_all add: product_ok_def del: map_map)
qed

end
