(* ===== verification/Typed_Users.thy ===== *)
theory Typed_Users
  imports Typed_Views
begin

section \<open>Accounts and tasks keep the rows well-typed\<close>

text \<open>
  What the schema needs of the parts of Django the accounts rest on: the text of a hashed password
  fits its column, and normalising an address does not lengthen it.
\<close>

definition rules_fit :: "password_rules \<Rightarrow> bool" where
  "rules_fit rules \<longleftrightarrow> (\<forall>s. length (hash_password rules s) \<le> 128) \<and> (\<forall>s. length (normalize_email rules s) \<le> length s)"

lemma wt_create_user:
  assumes "create_user rules now email password f d = Inr (u, d')" "wt d" "rules_fit rules" "length email \<le> 254"
    "length (uf_full_name f) \<le> 255" "pred_option (\<lambda>i. i \<in> user_ids d) (uf_created_by f)"
  shows "wt d' \<and> next_uuid d \<le> next_uuid d'"
proof -
  from assms(1) have u: "u_id u = next_uuid d" "u_email u = normalize_email rules email" "u_password u = hash_password rules password"
    "u_full_name u = uf_full_name f" "u_created_by u = uf_created_by f"
    and taken: "\<not> email_taken (normalize_email rules email) d" and d': "d' = draw_uuid (d\<lparr>users := users d @ [u]\<rparr>)"
    by (auto simp: create_user_Inr)
  have "pred_option (\<lambda>i. i \<in> insert (next_uuid d) (user_ids d)) (uf_created_by f)"
    using assms(6) by (rule pred_option_mono') simp
  moreover have "length (normalize_email rules email) \<le> 254"
    using assms(3,4) unfolding rules_fit_def by (meson order_trans)
  ultimately have "user_ok (insert (next_uuid d) (user_ids d)) u"
    using assms(3,5) u by (simp add: user_ok_def rules_fit_def)
  moreover have "u_email u \<notin> u_email ` set (users d)" using taken u(2) by (auto simp: email_taken_def)
  ultimately show ?thesis
    using typed_add_user [OF assms(2) [unfolded wt_def] u(1)] by (simp add: d' wt_def)
qed

lemma register_errors_ok:
  assumes "register_errors rules d data = []" "rg_email data = Given email" "rg_full_name data = Given full_name"
  shows "length email \<le> 254" "length full_name \<le> 255"
  using assms by (auto simp: register_errors_def field_errors_def email_errors_def full_name_errors_def split: if_splits)

lemma wt_register:
  assumes "register rules now data d = Inr oc" "wt d" "rules_fit rules"
  shows "wt (odb oc) \<and> next_uuid d \<le> next_uuid (odb oc)"
proof -
  from assms(1) obtain email password full_name u where ok: "register_errors rules d data = []"
    "rg_email data = Given email" "rg_full_name data = Given full_name"
    and c: "create_user rules now email password ((default_fields full_name)\<lparr>uf_role := EMPLOYEE\<rparr>) d = Inr (u, odb oc)"
    by (auto simp: register_def bind_elims)
  show ?thesis
    by (rule wt_create_user [OF c assms(2,3)]) (use register_errors_ok [OF ok] in \<open>simp_all add: default_fields_def\<close>)
qed

lemma wt_user_create:
  assumes "user_create rules now requester data d = Inr oc" "wt d" "rules_fit rules" "u_id requester \<in> user_ids d"
  shows "wt (odb oc) \<and> next_uuid d \<le> next_uuid (odb oc)"
proof -
  let ?f = "\<lambda>full_name. case uc_role data of Given r \<Rightarrow> (default_fields full_name)\<lparr>uf_created_by := Some (u_id requester), uf_role := r\<rparr>
     | _ \<Rightarrow> (default_fields full_name)\<lparr>uf_created_by := Some (u_id requester)\<rparr>"
  from assms(1) obtain email password full_name u where ok: "register_errors rules d data = []"
    "rg_email data = Given email" "rg_full_name data = Given full_name"
    and c: "create_user rules now email password (?f full_name) d = Inr (u, odb oc)"
    by (auto simp: user_create_def bind_elims Let_def)
  have "uf_full_name (?f full_name) = full_name" "uf_created_by (?f full_name) = Some (u_id requester)"
    by (simp_all add: default_fields_def split: field.split)
  with register_errors_ok [OF ok] assms(4) show ?thesis by (intro wt_create_user [OF c assms(2,3)]) simp_all
qed

lemma wt_wf_users: "wt d \<Longrightarrow> wf_users d"
  by (auto simp: wt_def typed_def keyed_def wf_users_def)

lemma wt_user_update:
  assumes "user_update now partial pk data d = Inr oc" "wt d"
  shows "wt (odb oc) \<and> next_uuid d \<le> next_uuid (odb oc)"
proof -
  from assms(1) obtain u where u: "get_user pk d = Some u" and ok: "user_update_errors partial pk d data = []"
    by (auto simp: user_update_def bind_elims)
  have id: "u_id u = pk" "u \<in> set (users d)" using get_row_SomeD [OF u] by simp_all
  let ?u = "(case uu_full_name data of Given s \<Rightarrow> u\<lparr>u_full_name := s\<rparr> | _ \<Rightarrow> u)"
  let ?v = "(case uu_email data of Given s \<Rightarrow> ?u\<lparr>u_email := s\<rparr> | _ \<Rightarrow> ?u)\<lparr>u_updated_at := now\<rparr>"
  have v: "u_id ?v = pk" using id by (auto split: field.split)
  have d': "odb oc = d\<lparr>users := update_row u_id pk (\<lambda>_. ?v) (users d)\<rparr>"
    using assms(1) u ok v by (auto simp: user_update_def bind_elims write_user_def Let_def)
  have T: "user_ok (user_ids d) u" using assms(2) id(2) by (auto simp: wt_def typed_def keyed_def)
  have "user_ok (user_ids d) ?v"
    using T ok by (cases "uu_full_name data"; cases "uu_email data")
      (auto simp: user_ok_def user_update_errors_def field_errors_def email_errors_def full_name_errors_def split: if_splits)
  moreover have "distinct (map u_email (update_row u_id pk (\<lambda>_. ?v) (users d)))"
    using user_update_wf [OF assms(1) wt_wf_users [OF assms(2)]] d' by (simp add: wf_users_def)
  ultimately show ?thesis
    unfolding d' wt_def by (simp, intro typed_update_user) (use assms(2) v in \<open>simp_all add: wt_def\<close>)
qed

lemma wt_user_column:
  assumes "wt d" "\<And>r. u_id (f r) = u_id r" "\<And>r. u_email (f r) = u_email r" "\<And>r. user_ok (user_ids d) r \<Longrightarrow> user_ok (user_ids d) (f r)"
  shows "wt (d\<lparr>users := update_row u_id pk f (users d)\<rparr>)"
proof -
  have "map u_email (update_row u_id pk f (users d)) = map u_email (users d)" by (rule update_keeps) (rule assms(3))
  then show ?thesis
    using assms wt_unique(1) [OF assms(1)] unfolding wt_def
    by (simp del: map_map, intro typed_update_user) (simp_all del: map_map)
qed

lemma wt_account_columns:
  "assign_role pk role d = Inr oc \<Longrightarrow> wt d \<Longrightarrow> wt (odb oc) \<and> next_uuid d \<le> next_uuid (odb oc)"
  "rules_fit rules \<Longrightarrow> reset_password rules pk pw d = Inr oc \<Longrightarrow> wt d \<Longrightarrow> wt (odb oc) \<and> next_uuid d \<le> next_uuid (odb oc)"
  "set_active b pk d = Inr oc \<Longrightarrow> wt d \<Longrightarrow> wt (odb oc) \<and> next_uuid d \<le> next_uuid (odb oc)"
  by (auto simp: assign_role_def reset_password_def set_active_def bind_elims Let_def user_ok_def rules_fit_def
      intro!: wt_user_column)

lemma wt_account_view:
  assumes "account_view rules now who r d = Inr oc" "wt d" "rules_fit rules"
    and "\<And>u. who = Some u \<Longrightarrow> u_id u \<in> user_ids d"
  shows "wt (odb oc) \<and> next_uuid d \<le> next_uuid (odb oc)"
proof (cases "(rules, now, who, r)" rule: account_view.cases)
  case (1 rules' now' who' data)
  with assms wt_register show ?thesis by auto
next
  case (2 rules' now' u)
  with assms show ?thesis by (auto simp: me_def)
next
  case (3 rules' now' u data)
  with assms wt_user_create show ?thesis by auto
next
  case (4 rules' now' who' partial pk data)
  with assms wt_user_update show ?thesis by auto
qed (use assms wt_account_columns in \<open>auto simp: enable_def user_destroy_def\<close>)

subsection \<open>The periodic tasks\<close>

lemma wt_flag:
  assumes "wt d" "\<forall>(p, ty, m) \<in> set cs. p_id p < next_uuid d \<and> length m \<le> 1000"
  shows "wt (snd (flag now cs (k, d))) \<and> next_uuid d \<le> next_uuid (snd (flag now cs (k, d)))"
  using assms
proof (induction cs arbitrary: k d)
  case (Cons c cs)
  obtain p ty m where c: "c = (p, ty, m)" by (cases c)
  show ?case
  proof (cases "already_flagged ty (p_id p) d")
    case True
    with Cons c show ?thesis by simp
  next
    case False
    let ?e = "notify_admins_and_managers ty m (Some (p_id p)) now d"
    have "wt ?e" using Cons.prems c by (intro wt_notify_admins) simp_all
    moreover have "\<forall>(p, ty, m) \<in> set cs. p_id p < next_uuid ?e \<and> length m \<le> 1000"
      using Cons.prems(2) by (auto simp: trans_less_add1)
    ultimately have "wt (snd (flag now cs (Suc k, ?e))) \<and> next_uuid ?e \<le> next_uuid (snd (flag now cs (Suc k, ?e)))"
      by (rule Cons.IH)
    with False c show ?thesis by simp
  qed
qed simp

lemma wt_sweep:
  assumes "wt d"
  shows "wt (snd (sweep_low_stock now d)) \<and> next_uuid d \<le> next_uuid (snd (sweep_low_stock now d))"
proof -
  have "p_id p < next_uuid d \<and> length (out_of_stock_message p) \<le> 1000 \<and> length (low_stock_message p) \<le> 1000"
    if "p \<in> set (products d)" for p
  proof -
    have "fits_integer (p_current_stock p)" using assms that by (auto simp: wt_def typed_def keyed_def product_ok_def)
    from length_str_int [OF this] wt_product [OF assms that] show ?thesis
      by (simp add: out_of_stock_message_def low_stock_message_def)
  qed
  then have "\<forall>(p, ty, m) \<in> set (candidates d). p_id p < next_uuid d \<and> length m \<le> 1000"
    by (auto simp: candidates_def)
  from wt_flag [OF assms this, of now 0] show ?thesis
    by (cases "flag now (candidates d) (0, d)") (simp add: sweep_low_stock_def Let_def)
qed

lemma wt_reconcile:
  assumes "wt d" "next_uuid d \<le> 2 ^ 128"
  shows "wt (snd (reconcile_ledger now d)) \<and> next_uuid d \<le> next_uuid (snd (reconcile_ledger now d))"
proof -
  have "length (mismatched d) \<le> length (newest_first p_created_at (products d))"
    unfolding mismatched_def length_map by (rule length_filter_le)
  then have "length (mismatched d) \<le> length (products d)" by simp
  also have "length (products d) = card (product_ids d)"
    using assms(1) by (metis (no_types) distinct_card keyed_def length_map list.set_map typed_def wt_def)
  also have "\<dots> \<le> card {..<next_uuid d}"
    using assms(1) by (intro card_mono) (auto simp: wt_def typed_def keyed_def)
  finally have "length (mismatched d) \<le> 2 ^ 128" using assms(2) by simp
  then have "length (mismatched d) < 10 ^ Suc 49" by (rule order_le_less_trans) simp
  then have "length (digits_of 10 (length (mismatched d))) \<le> Suc 49" by (intro length_digits_of) simp_all
  then have "length (''Ledger reconciliation found '' @ str_nat (length (mismatched d))
      @ '' product(s) with a stock/ledger mismatch'') \<le> 1000" by (simp add: str_nat_def)
  from wt_notify_admins [OF assms(1) this, of None] assms(1) show ?thesis
    by (simp add: reconcile_ledger_def Let_def)
qed

end
