(* ===== verification/Tokens.thy ===== *)
theory Tokens
  imports Access
begin

section \<open>Logging in and out\<close>

text \<open>
  The token views of \<open>accounts/urls.py\<close>. They are SimpleJWT's, subclassed for their throttle scope; what
  the library makes of credentials and tokens is in the \<open>password_rules\<close> record, and its own tables, of
  outstanding and blacklisted tokens, are not part of the database of the model. What the repository
  decides is that a login is recorded in the user's row (\<open>UPDATE_LAST_LOGIN\<close>). These views authenticate
  nobody: a request to them is anonymous whatever token comes with it.
\<close>

datatype token_request =
    Login "string field" "string field"
  | RefreshToken "string field"
  | Logout "string field"

definition UPDATE_LAST_LOGIN :: bool where
  "UPDATE_LAST_LOGIN = True"

definition record_login :: "time \<Rightarrow> uuid \<Rightarrow> db \<Rightarrow> db" where
  "record_login now i d = d\<lparr>users := update_row u_id i (\<lambda>u. u\<lparr>u_last_login := Some now\<rparr>) (users d)\<rparr>"

definition text_errors :: "string \<Rightarrow> string field \<Rightarrow> field_error list" where
  "text_errors name f = field_errors False name (\<lambda>s. if s = [] then [BadValue name] else []) f"

definition token_body :: "string \<times> string \<Rightarrow> body" where
  "token_body pair = TokenBody [(''refresh'', fst pair), (''access'', snd pair)]"

definition login :: "password_rules \<Rightarrow> time \<Rightarrow> string field \<Rightarrow> string field \<Rightarrow> view" where
  "login rules now email password d =
     bindE (checked (text_errors ''email'' email @ text_errors ''password'' password)) (\<lambda>_.
     bindE (field_get ''email'' email) (\<lambda>email.
     bindE (field_get ''password'' password) (\<lambda>password.
     case identify rules email password d of
       None \<Rightarrow> Inr (answer (Response 401 (Detail ''No active account found with the given credentials'')) d)
     | Some i \<Rightarrow> Inr (answer (Response 200 (token_body (issue_tokens rules i now)))
         (if UPDATE_LAST_LOGIN then record_login now i d else d)))))"

definition refresh_token :: "password_rules \<Rightarrow> time \<Rightarrow> string field \<Rightarrow> view" where
  "refresh_token rules now refresh d =
     bindE (checked (text_errors ''refresh'' refresh)) (\<lambda>_.
     bindE (field_get ''refresh'' refresh) (\<lambda>s.
     case rotate_token rules s now of
       None \<Rightarrow> Inr (answer (Response 401 (Detail ''Token is invalid'')) d)
     | Some pair \<Rightarrow> Inr (answer (Response 200 (token_body pair)) d)))"

definition logout :: "password_rules \<Rightarrow> time \<Rightarrow> string field \<Rightarrow> view" where
  "logout rules now refresh d =
     bindE (checked (text_errors ''refresh'' refresh)) (\<lambda>_.
     bindE (field_get ''refresh'' refresh) (\<lambda>s.
     if revoke_token rules s now then Inr (answer (Response 200 (TokenBody [])) d)
     else Inr (answer (Response 401 (Detail ''Token is invalid'')) d)))"

fun token_view :: "password_rules \<Rightarrow> time \<Rightarrow> token_request \<Rightarrow> view" where
  "token_view rules now (Login email password) = login rules now email password"
| "token_view rules now (RefreshToken refresh) = refresh_token rules now refresh"
| "token_view rules now (Logout refresh) = logout rules now refresh"

fun token_route :: "token_request \<Rightarrow> endpoint \<times> view_action" where
  "token_route (Login _ _) = (TokenObtainView, Post)"
| "token_route (RefreshToken _) = (TokenRefreshView, Post)"
| "token_route (Logout _) = (TokenBlacklistView, Post)"

definition token_endpoints :: "endpoint list" where
  "token_endpoints = [TokenObtainView, TokenRefreshView, TokenBlacklistView]"

lemma token_route_endpoint: "fst (token_route r) \<in> set token_endpoints"
  by (cases r) (simp_all add: token_endpoints_def)

text \<open>All they change in the database is the moment of the last login of one user.\<close>

lemma token_view_cases:
  assumes "token_view rules now r d = Inr oc"
  obtains "odb oc = d"
    | email password i where "r = Login (Given email) (Given password)" "identify rules email password d = Some i"
        "odb oc = record_login now i d"
  using assms
  by (cases r) (auto simp: login_def refresh_token_def logout_def bind_elims UPDATE_LAST_LOGIN_def split: option.splits if_splits)

lemma record_login_frame:
  "record_login now i d = d\<lparr>users := users (record_login now i d)\<rparr>"
  by (simp add: record_login_def)

end
