(* ===== verification/Site.thy ===== *)
theory Site
  imports Typed_Users Tokens
begin

section \<open>The site\<close>

text \<open>
  Every endpoint of the API that changes data, logging in included, and the reports, behind the one
  path a request takes (the admin site is apart, in Admin): the framework authenticates it, the view's permission class and throttle let it through, the view
  runs in its transaction. The periodic tasks run in between. What authentication makes of the
  credentials and what the throttle has counted are the framework's (\<open>auth\<close> and \<open>admits\<close>); the
  permission classes, throttle scopes and views are the repository's.
\<close>

subsection \<open>Requests\<close>

datatype catalog_request =
    CreateCategory category_input | UpdateCategory bool uuid category_input | DeleteCategory uuid
  | CreateSupplier supplier_input | UpdateSupplier bool uuid supplier_input | DeleteSupplier uuid
  | CreateProduct product_input | UpdateProduct bool uuid product_input | DeleteProduct uuid | RetrieveProduct uuid

fun catalog_view :: "time \<Rightarrow> catalog_request \<Rightarrow> view" where
  "catalog_view now (CreateCategory data) = category_create now data"
| "catalog_view now (UpdateCategory partial pk data) = category_update now partial pk data"
| "catalog_view now (DeleteCategory pk) = category_destroy pk"
| "catalog_view now (CreateSupplier data) = supplier_create now data"
| "catalog_view now (UpdateSupplier partial pk data) = supplier_update now partial pk data"
| "catalog_view now (DeleteSupplier pk) = supplier_destroy pk"
| "catalog_view now (CreateProduct data) = product_create now data"
| "catalog_view now (UpdateProduct partial pk data) = product_update now partial pk data"
| "catalog_view now (DeleteProduct pk) = product_destroy pk"
| "catalog_view now (RetrieveProduct pk) = product_retrieve pk"

datatype site_request =
    ToAccounts account_request
  | ToTokens token_request
  | ToCatalog catalog_request
  | ToInventory request
  | ToNotifications "string option" uuid
  | ToReports report range

subsection \<open>Routes\<close>

definition update_action :: "bool \<Rightarrow> view_action" where
  "update_action partial = (if partial then PartialUpdate else Update)"

fun account_route :: "account_request \<Rightarrow> endpoint \<times> view_action" where
  "account_route (Register _) = (RegisterView, Post)"
| "account_route Me = (MeView, Get)"
| "account_route (CreateUser _) = (UserViewSet, Create)"
| "account_route (UpdateUser partial _ _) = (UserViewSet, update_action partial)"
| "account_route (AssignRole _ _) = (UserViewSet, RoleAction)"
| "account_route (ResetPassword _ _) = (UserViewSet, PasswordAction)"
| "account_route (Enable _) = (UserViewSet, EnableAction)"
| "account_route (DisableUser _) = (UserViewSet, Destroy)"

fun catalog_route :: "catalog_request \<Rightarrow> endpoint \<times> view_action" where
  "catalog_route (CreateCategory _) = (CategoryViewSet, Create)"
| "catalog_route (UpdateCategory partial _ _) = (CategoryViewSet, update_action partial)"
| "catalog_route (DeleteCategory _) = (CategoryViewSet, Destroy)"
| "catalog_route (CreateSupplier _) = (SupplierViewSet, Create)"
| "catalog_route (UpdateSupplier partial _ _) = (SupplierViewSet, update_action partial)"
| "catalog_route (DeleteSupplier _) = (SupplierViewSet, Destroy)"
| "catalog_route (CreateProduct _) = (ProductViewSet, Create)"
| "catalog_route (UpdateProduct partial _ _) = (ProductViewSet, update_action partial)"
| "catalog_route (DeleteProduct _) = (ProductViewSet, Destroy)"
| "catalog_route (RetrieveProduct _) = (ProductViewSet, Retrieve)"

fun inventory_route :: "request \<Rightarrow> endpoint \<times> view_action" where
  "inventory_route (CreatePO _) = (PurchaseOrderViewSet, Create)"
| "inventory_route (UpdatePO partial _ _ _) = (PurchaseOrderViewSet, update_action partial)"
| "inventory_route (DestroyPO _ _) = (PurchaseOrderViewSet, Destroy)"
| "inventory_route (Receive _) = (PurchaseOrderViewSet, ReceiveAction)"
| "inventory_route (CreateSO _) = (SalesOrderViewSet, Create)"
| "inventory_route (UpdateSO partial _ _ _) = (SalesOrderViewSet, update_action partial)"
| "inventory_route (DestroySO _ _) = (SalesOrderViewSet, Destroy)"
| "inventory_route (Complete _ _) = (SalesOrderViewSet, CompleteAction)"
| "inventory_route (Invoice _ _ _ _) = (SalesOrderViewSet, InvoiceAction)"
| "inventory_route (CreateReturn _) = (ReturnViewSet, Create)"
| "inventory_route (UpdateReturn _ _) = (ReturnViewSet, Update)"
| "inventory_route (DestroyReturn _ _) = (ReturnViewSet, Destroy)"
| "inventory_route (Approve _) = (ReturnViewSet, ApproveAction)"
| "inventory_route (WriteOff _) = (DamageWriteOffView, Post)"

fun report_route :: "report \<Rightarrow> endpoint \<times> view_action" where
  "report_route Dashboard = (DashboardView, Get)"
| "report_route Products = (ProductReportView, Get)"
| "report_route Purchases = (PurchaseReportView, Get)"
| "report_route Sales = (SalesReportView, Get)"
| "report_route Inventory = (InventoryReportView, Get)"

fun route :: "site_request \<Rightarrow> endpoint \<times> view_action" where
  "route (ToAccounts r) = account_route r"
| "route (ToTokens r) = token_route r"
| "route (ToCatalog r) = catalog_route r"
| "route (ToInventory r) = inventory_route r"
| "route (ToNotifications _ _) = (NotificationViewSet, MarkRead)"
| "route (ToReports rep _) = report_route rep"

text \<open>A view that needs a user is not run without one.\<close>

fun site_view :: "password_rules \<Rightarrow> time \<Rightarrow> user option \<Rightarrow> site_request \<Rightarrow> view" where
  "site_view rules now who (ToAccounts r) = account_view rules now who r"
| "site_view rules now who (ToTokens r) = token_view rules now r"
| "site_view rules now who (ToCatalog r) = catalog_view now r"
| "site_view rules now (Some u) (ToInventory r) = view_of u now r"
| "site_view rules now (Some u) (ToNotifications unread pk) = mark_read u unread pk"
| "site_view rules now who (ToReports rep q) = (\<lambda>d. Inr (answer (report_view rep now q d) d))"
| "site_view rules now None _ = (\<lambda>d. Inl PermissionDenied)"

subsection \<open>The path of a request\<close>

text \<open>
  \<open>auth\<close> is the framework's reading of the credentials against the users on file: \<open>None\<close> for a
  token it rejects, \<open>Some None\<close> for none at all. The token views do not ask. \<open>admits scope who now\<close> tells whether the throttle
  has room left. \<open>APIView.initial\<close> authenticates, then checks permissions, then throttles.
\<close>

definition requester :: "('c \<Rightarrow> db \<Rightarrow> user option option) \<Rightarrow> 'c \<Rightarrow> site_request \<Rightarrow> db \<Rightarrow> user option option" where
  "requester auth cred r d = (if fst (route r) \<in> set token_endpoints then Some None else auth cred d)"

definition handle ::
  "('c \<Rightarrow> db \<Rightarrow> user option option) \<Rightarrow> (string \<Rightarrow> user option \<Rightarrow> time \<Rightarrow> bool) \<Rightarrow> password_rules
     \<Rightarrow> 'c \<Rightarrow> time \<Rightarrow> site_request \<Rightarrow> world \<Rightarrow> response \<times> world" where
  "handle auth admits rules cred now r w =
     (case requester auth cred r (w_db w) of
        None \<Rightarrow> (Response 401 (Detail ''Given token not valid for any token type''), w)
      | Some who \<Rightarrow> (case route r of (e, a) \<Rightarrow>
          if \<not> has_permission (permission_of e a) who then (denied who, w)
          else if \<not> admits (throttle_scope e a) who now then (Response 429 (Detail ''Request was throttled.''), w)
          else run_view (site_view rules now who r) w))"

text \<open>What the site relies on: a request is given an active user that is on file.\<close>

definition authentic :: "('c \<Rightarrow> db \<Rightarrow> user option option) \<Rightarrow> bool" where
  "authentic auth \<longleftrightarrow> (\<forall>c d u. auth c d = Some (Some u) \<longrightarrow> u \<in> set (users d) \<and> u_is_active u)"

datatype 'c site_event =
    Visit 'c time site_request
  | Sweep time
  | Reconcile time

fun site_after ::
  "('c \<Rightarrow> db \<Rightarrow> user option option) \<Rightarrow> (string \<Rightarrow> user option \<Rightarrow> time \<Rightarrow> bool) \<Rightarrow> password_rules
     \<Rightarrow> 'c site_event \<Rightarrow> world \<Rightarrow> world" where
  "site_after auth admits rules (Visit cred now r) w = snd (handle auth admits rules cred now r w)"
| "site_after auth admits rules (Sweep now) w = w\<lparr>w_db := snd (sweep_low_stock now (w_db w))\<rparr>"
| "site_after auth admits rules (Reconcile now) w = w\<lparr>w_db := snd (reconcile_ledger now (w_db w))\<rparr>"

text \<open>A request that is let through changes the world as its view does.\<close>

lemma handle_preserves:
  assumes "P (w_db w)"
    and "\<And>who oc. requester auth cred r (w_db w) = Some who \<Longrightarrow> has_permission (permission_of (fst (route r)) (snd (route r))) who
           \<Longrightarrow> site_view rules now who r (w_db w) = Inr oc \<Longrightarrow> P (odb oc)"
  shows "P (w_db (snd (handle auth admits rules cred now r w)))"
proof (cases "requester auth cred r (w_db w)")
  case None
  with assms(1) show ?thesis by (simp add: handle_def)
next
  case (Some who)
  then show ?thesis
    using assms run_view_preserves [of P w "site_view rules now who r"]
    by (simp add: handle_def split: prod.split)
qed

lemma requester_authentic:
  "authentic auth \<Longrightarrow> requester auth cred r d = Some (Some u) \<Longrightarrow> u \<in> set (users d) \<and> u_is_active u"
  by (auto simp: requester_def authentic_def split: if_splits)

text \<open>The requests are routed to actions their endpoint has, and the account gate is the route's.\<close>

lemma route_actions: "route r = (e, a) \<Longrightarrow> a \<in> set (actions_of e)"
proof (cases r)
  case (ToAccounts x)
  then show "route r = (e, a) \<Longrightarrow> ?thesis" by (cases x) (auto simp: update_action_def model_view_set_def split: if_splits)
next
  case (ToTokens x)
  then show "route r = (e, a) \<Longrightarrow> ?thesis" by (cases x) auto
next
  case (ToCatalog x)
  then show "route r = (e, a) \<Longrightarrow> ?thesis" by (cases x) (auto simp: update_action_def model_view_set_def split: if_splits)
next
  case (ToInventory x)
  then show "route r = (e, a) \<Longrightarrow> ?thesis" by (cases x) (auto simp: update_action_def model_view_set_def split: if_splits)
next
  case (ToReports x q)
  then show "route r = (e, a) \<Longrightarrow> ?thesis" by (cases x) auto
qed auto

lemma account_route_permission: "(case account_route r of (e, a) \<Rightarrow> permission_of e a) = account_permission r"
  by (cases r) simp_all

end
