(* ===== verification/Site_Rows.thy ===== *)
theory Site_Rows
  imports Site
begin

section \<open>The rows stay well-typed\<close>

text \<open>
  Every row the site holds has a value of the type, length and range its column was migrated
  with, every foreign key names a row, and unique columns stay unique, whatever requests and
  tasks run.
\<close>

lemma wt_catalog_view:
  assumes "catalog_view now r d = Inr oc" "wt d"
  shows "wt (odb oc) \<and> next_uuid d \<le> next_uuid (odb oc)"
  by ((insert assms, cases r); simp only: catalog_view.simps; ((rule wt_category_create wt_category_update
      wt_category_destroy wt_supplier_create wt_supplier_update wt_supplier_destroy wt_product_create wt_product_update
      wt_product_destroy; assumption) | (auto simp: product_retrieve_def bind_elims)))

lemma wt_site_view:
  assumes "site_view rules now who r d = Inr oc" "wt d" "rules_fit rules" "next_uuid d \<le> 2 ^ 128"
    and who: "\<And>u. who = Some u \<Longrightarrow> u_id u \<in> user_ids d"
  shows "wt (odb oc) \<and> next_uuid d \<le> next_uuid (odb oc)"
proof (cases r)
  case (ToAccounts x)
  with assms show ?thesis by (intro wt_account_view [where rules = rules and who = who]) simp_all
next
  case (ToTokens x)
  with assms(1) have "token_view rules now x d = Inr oc" by simp
  then show ?thesis
  proof (cases rule: token_view_cases)
    case (2 email password i)
    with assms(2) wt_user_column [of d "\<lambda>u. u\<lparr>u_last_login := Some now\<rparr>" i] show ?thesis
      by (simp add: record_login_def user_ok_def)
  qed (use assms(2) in simp)
next
  case (ToCatalog x)
  with assms show ?thesis by (intro wt_catalog_view) simp_all
next
  case (ToInventory x)
  with assms obtain u where "who = Some u" "view_of u now x d = Inr oc" by (cases who) auto
  with assms(2,4) who show ?thesis by (intro wt_view_of) simp_all
next
  case (ToNotifications unread pk)
  with assms obtain u where "mark_read u unread pk d = Inr oc" by (cases who) auto
  with assms(2) show ?thesis by (intro wt_mark_read)
next
  case (ToReports rep q)
  with assms(1,2) show ?thesis by auto
qed

lemma wt_site_after:
  assumes "wt (w_db w)" "next_uuid (w_db w) \<le> 2 ^ 128" "authentic auth" "rules_fit rules"
  shows "wt (w_db (site_after auth admits rules e w))"
proof (cases e)
  case (Visit cred now r)
  have "wt (w_db (snd (handle auth admits rules cred now r w)))"
  proof (rule handle_preserves [where P = wt, OF assms(1)])
    fix who oc
    assume a: "requester auth cred r (w_db w) = Some who" and v: "site_view rules now who r (w_db w) = Inr oc"
    have "u_id u \<in> user_ids (w_db w)" if "who = Some u" for u
      using requester_authentic [OF assms(3), of cred r "w_db w" u] a that by blast
    from wt_site_view [OF v assms(1,4,2) this] show "wt (odb oc)" by simp
  qed
  with Visit show ?thesis by simp
qed (use assms wt_sweep wt_reconcile in simp_all)

lemma drawn_reference: "(case opt_value UuidV x of UuidV i \<Rightarrow> i < n | _ \<Rightarrow> True) = pred_option (\<lambda>i. i < n) x"
  by (cases x) simp_all

lemma typed_drawn:
  assumes "typed n d" "uuids_drawn d"
  shows "wt d"
  using assms unfolding wt_def typed_def keyed_def uuids_drawn_def
  by (simp add: rows_of_def list_all_iff row_defs drawn_reference) (auto simp: txn_ok_def notification_ok_def)

lemma conforms_wt: "conforms schema d \<Longrightarrow> uuids_drawn d \<Longrightarrow> wt d"
  unfolding conforms_iff by (rule typed_drawn)

lemma wt_conforms: "wt d \<Longrightarrow> next_uuid d \<le> 2 ^ 128 \<Longrightarrow> conforms schema d"
  unfolding wt_def conforms_iff by (rule typed_mono)

lemma wt_events:
  assumes "authentic auth" "rules_fit rules" "wt (w_db w)"
    and "\<And>j. j < k \<Longrightarrow> next_uuid (w_db (fold (site_after auth admits rules) (take j es) w)) \<le> 2 ^ 128"
  shows "wt (w_db (fold (site_after auth admits rules) (take k es) w))"
  using assms(4)
proof (induction k)
  case (Suc k)
  then have IH: "wt (w_db (fold (site_after auth admits rules) (take k es) w))" by simp
  show ?case
  proof (cases "k < length es")
    case True
    then have "fold (site_after auth admits rules) (take (Suc k) es) w
        = site_after auth admits rules (es ! k) (fold (site_after auth admits rules) (take k es) w)"
      by (simp add: take_Suc_conv_app_nth)
    with wt_site_after [OF IH _ assms(1,2)] Suc.prems [of k] show ?thesis by simp
  next
    case False
    with IH show ?thesis by simp
  qed
qed (use assms(3) in simp)

text \<open>C21. Every row stays well-typed. Start from tables that conform to the schema the migrations
  build: after any sequence of requests by anyone and of periodic tasks, every row still has a
  value of its column's type, length, range and choices in every column, every foreign key names
  a row that exists, and every unique column is unique, as long as UUIDs have not run out.\<close>
theorem rows_stay_well_typed:
  assumes "conforms schema (w_db w)" "uuids_drawn (w_db w)" "authentic auth" "rules_fit rules"
    and "\<forall>j \<le> k. next_uuid (w_db (fold (site_after auth admits rules) (take j es) w)) \<le> 2 ^ 128"
  shows "conforms schema (w_db (fold (site_after auth admits rules) (take k es) w))"
proof (rule wt_conforms)
  show "wt (w_db (fold (site_after auth admits rules) (take k es) w))"
    by (rule wt_events [OF assms(3,4) conforms_wt [OF assms(1,2)]]) (use assms(5) in simp)
qed (use assms(5) in simp)


text \<open>The small shop with an address of its own for everyone, and tokens that name a user.\<close>

definition clean_db :: db where
  "clean_db = sample_db\<lparr>users := [sample_admin\<lparr>u_email := ''ann@inventra.io''\<rparr>, sample_manager\<lparr>u_email := ''max@inventra.io''\<rparr>,
     sample_employee\<lparr>u_email := ''eve@inventra.io''\<rparr>]\<rparr>"

fun sample_auth :: "uuid option \<Rightarrow> db \<Rightarrow> user option option" where
  "sample_auth None d = Some None"
| "sample_auth (Some i) d = map_option Some (get_row u_id i (filter u_is_active (users d)))"

lemma sample_authentic: "authentic sample_auth"
  unfolding authentic_def
proof (intro allI impI)
  fix c d u assume "sample_auth c d = Some (Some u)"
  then obtain i where "get_row u_id i (filter u_is_active (users d)) = Some u" by (cases c) auto
  from get_row_SomeD(1) [OF this] show "u \<in> set (users d) \<and> u_is_active u" by simp
qed

definition sample_site_events :: "uuid option site_event list" where
  "sample_site_events = [Visit None 5 (ToAccounts (Register (sample_registration ''bob@inventra.io''))),
     Visit (Some 3) 6 (ToInventory (Complete 200 50)), Visit (Some 3) 6 (ToInventory (Receive 40)),
     Visit (Some 2) 7 (ToInventory (Receive 40)), Sweep 8]"

lemma clean_conforms: "conforms schema clean_db" "uuids_drawn clean_db"
proof -
  show "conforms schema clean_db"
    unfolding conforms_iff typed_def keyed_def
    by (simp add: clean_db_def sample_defs ok_defs some_values_def fits_integer_def max_int32_def)
  show "uuids_drawn clean_db"
    by (simp add: uuids_drawn_def rows_of_def row_defs clean_db_def sample_defs)
qed

definition fitting_rules :: password_rules where
  "fitting_rules = \<lparr>hash_password = take 128, password_errors = (\<lambda>_. []), normalize_email = map lower_char,
     identify = (\<lambda>email password d. map_option u_id (get_row u_email email (filter u_is_active (users d)))),
     issue_tokens = (\<lambda>i now. (''refresh'', ''access'')), rotate_token = (\<lambda>s now. Some (s, ''access'')), revoke_token = (\<lambda>s now. True)\<rparr>"

lemma fitting_rules_fit: "rules_fit fitting_rules"
  by (simp add: rules_fit_def fitting_rules_def)

lemma thousand: "(1000 :: nat) \<le> 2 ^ 128"
  by simp

theorem rows_stay_well_typed_witness:
  "conforms schema (w_db (fold (site_after sample_auth (\<lambda>_ _ _. True) fitting_rules) (take 5 sample_site_events) (sample_world clean_db)))"
proof (rule rows_stay_well_typed [OF _ _ sample_authentic fitting_rules_fit])
  show "conforms schema (w_db (sample_world clean_db))" "uuids_drawn (w_db (sample_world clean_db))"
    using clean_conforms by (simp_all add: sample_world_def)
  have "list_all (\<lambda>j. next_uuid (w_db (fold (site_after sample_auth (\<lambda>_ _ _. True) fitting_rules) (take j sample_site_events)
      (sample_world clean_db))) \<le> 1000) [0, 1, 2, 3, 4, 5]" by code_simp
  moreover have "set [0, 1, 2, 3, 4, 5] = {j :: nat. j \<le> 5}" by auto
  ultimately show "\<forall>j \<le> 5. next_uuid (w_db (fold (site_after sample_auth (\<lambda>_ _ _. True) fitting_rules) (take j sample_site_events)
      (sample_world clean_db))) \<le> 2 ^ 128" by (auto simp only: list_all_iff mem_Collect_eq Ball_def intro: order_trans [OF _ thousand])
qed

end
