(* ===== verification/Site_Rights.thy ===== *)
theory Site_Rights
  imports Site_Rows
begin

section \<open>What each role can reach\<close>

text \<open>
  The permission classes are checked per view; here is what they add up to: the tables a request
  can change, by the role of the user who sends it.
\<close>

text \<open>What only managers and administrators write: the catalog with everything of a product but
  its stock, suppliers, purchase orders and returns.\<close>

definition managed :: "db \<Rightarrow> category list \<times> supplier list \<times> product list \<times> purchase_order list \<times> po_item list \<times> return_request list" where
  "managed d = (categories d, suppliers d, map (p_current_stock_update (\<lambda>_. 0)) (products d), purchase_orders d,
     po_items d, return_requests d)"

definition only_sales :: "db \<Rightarrow> db \<Rightarrow> bool" where
  "only_sales d d' \<longleftrightarrow> users d' = users d \<and> managed d' = managed d
     \<and> (\<exists>ts. transactions d' = transactions d @ ts \<and> (\<forall>t \<in> set ts. t_type t = SALE))"

lemma only_sales_refl [simp]: "only_sales d d"
  by (simp add: only_sales_def)

lemma so_create_only_sales: "so_create u now data d = Inr oc \<Longrightarrow> only_sales d (odb oc)"
  by (auto simp: so_create_def bind_elims Let_def only_sales_def managed_def dest!: insert_so_items(2))

lemma so_update_only_sales:
  assumes "so_update u now partial q pk data d = Inr oc"
  shows "only_sales d (odb oc)"
proof -
  from assms obtain so where so: "get_row so_id pk (so_queryset q d) = Some so"
    by (auto simp: so_update_def bind_elims)
  show ?thesis
  proof (cases "so_status so = CREATED")
    case True
    with assms so obtain data' e where w: "save_so now (so_write_customer data' so) d = Inr e"
      "so_write_items now data' so e = Inr (odb oc)" by (auto simp: so_update_def bind_elims)
    have "only_sales d e" using w(1) by (auto simp: save_so_def bind_elims only_sales_def managed_def)
    moreover have "only_sales e (odb oc)"
      using w(2) by (cases "soin_items data'") (auto simp: so_write_items_def only_sales_def managed_def dest!: insert_so_items(2))
    ultimately show ?thesis by (auto simp: only_sales_def)
  qed (use assms so in \<open>auto simp: so_update_def\<close>)
qed

lemma so_destroy_only_sales: "so_destroy q pk d = Inr oc \<Longrightarrow> only_sales d (odb oc)"
  by (auto simp: so_destroy_def bind_elims only_sales_def managed_def)

lemma complete_only_sales:
  assumes "complete u now drawn pk d = Inr oc"
  shows "only_sales d (odb oc)"
  using assms
proof (cases rule: complete_cases)
  case (sold so by_item d1)
  note f = deduct_lines_frame [OF sold(5)] and c = finish_complete_Inr [OF sold(6)]
  let ?P = "\<lambda>e. \<exists>ts. transactions e = transactions d @ ts \<and> (\<forall>t \<in> set ts. t_type t = SALE)"
  have "?P d1" by (rule foldE_invariant [OF sold(5), of ?P]) (auto simp: deduct_line_Inr)
  moreover have "map (p_current_stock_update (\<lambda>_. 0)) (products (odb oc)) = map (p_current_stock_update (\<lambda>_. 0)) (products d)"
    using stock_mutations_keep_catalog(2) [OF assms] by (simp add: same_catalog_def)
  ultimately show ?thesis using f c by (auto simp: only_sales_def managed_def)
qed simp_all

text \<open>What a request that an employee may send does.\<close>

lemma employee_request:
  assumes "has_permission (permission_of (fst (route r)) (snd (route r))) who" "site_view rules now who r d = Inr oc"
    and "\<not> has_permission IsManagerOrAdmin who" "\<not> (\<exists>a. r = ToAccounts a)" "\<not> (\<exists>t. r = ToTokens t)"
  shows "only_sales d (odb oc)"
proof (cases r)
  case (ToCatalog x)
  with assms(1-3) show ?thesis
    by (cases x) (auto simp: read_for_all_write_for_managers_def update_action_def product_retrieve_def bind_elims split: if_splits)
next
  case (ToInventory x)
  with assms obtain u where u: "who = Some u" "view_of u now x d = Inr oc" by (cases who) auto
  with assms(1,3) ToInventory show ?thesis
    by (cases x) (auto dest: so_create_only_sales so_update_only_sales so_destroy_only_sales complete_only_sales invoice_same)
next
  case (ToNotifications unread pk)
  with assms show ?thesis
    by (cases who) (auto simp: mark_read_def bind_elims Let_def only_sales_def managed_def)
next
  case (ToReports rep q)
  with assms show ?thesis by auto
qed (use assms(4,5) in auto)

text \<open>Registration is the only request that adds a user without an administrator.\<close>

definition only_registers :: "db \<Rightarrow> db \<Rightarrow> bool" where
  "only_registers d d' \<longleftrightarrow> (\<exists>new n. d' = d\<lparr>users := users d @ new, next_uuid := n\<rparr>
     \<and> (\<forall>u \<in> set new. u_role u = EMPLOYEE \<and> \<not> u_is_staff u \<and> \<not> u_is_superuser u))"

lemma only_registers_refl: "only_registers d d"
  unfolding only_registers_def by (intro exI [of _ "[]"] exI [of _ "next_uuid d"]) simp

lemma register_only:
  assumes "register rules now data d = Inr oc"
  shows "only_registers d (odb oc)"
proof -
  from assms obtain email password full_name u where c:
    "create_user rules now email password ((default_fields full_name)\<lparr>uf_role := EMPLOYEE\<rparr>) d = Inr (u, odb oc)"
    by (auto simp: register_def bind_elims)
  then show ?thesis
    unfolding only_registers_def
    by (intro exI [of _ "[u]"] exI [of _ "Suc (next_uuid d)"]) (auto simp: create_user_Inr default_fields_def draw_uuid_def)
qed

lemma account_request_registers:
  assumes "has_permission (account_permission r) who" "account_view rules now who r d = Inr oc"
    and "\<not> has_permission IsAdmin who"
  shows "only_registers d (odb oc)"
proof (cases r)
  case (Register data)
  with assms(2) show ?thesis using register_only by auto
next
  case Me
  with assms(2) show ?thesis by (cases who) (auto simp: me_def only_registers_refl)
qed (use assms(1,3) in \<open>cases who; auto\<close>)+


subsection \<open>Only the account views write users\<close>

lemma order_requests_keep_users:
  "po_create u now pdata d = Inr oc \<Longrightarrow> users (odb oc) = users d"
  "po_update u now partial pq pk pdata d = Inr oc \<Longrightarrow> users (odb oc) = users d"
  "po_destroy pq pk d = Inr oc \<Longrightarrow> users (odb oc) = users d"
  "return_create u now rdata d = Inr oc \<Longrightarrow> users (odb oc) = users d"
  "return_update sf pk d = Inr oc \<Longrightarrow> users (odb oc) = users d"
  "return_destroy sf pk d = Inr oc \<Longrightarrow> users (odb oc) = users d"
proof -
  show "users (odb oc) = users d" if c: "po_update u now partial pq pk pdata d = Inr oc"
  proof -
    from c obtain po where po: "get_row po_id pk (po_queryset pq d) = Some po" by (auto simp: po_update_def bind_elims)
    show ?thesis
    proof (cases "po_status po = ORDERED")
      case True
      with c po obtain data' where w: "po_write_items now data' po (po_write_supplier data' po d) = Inr (odb oc)"
        by (auto simp: po_update_def bind_elims)
      have "users (po_write_supplier data' po d) = users d"
        by (simp add: po_write_supplier_def save_po_supplier_def split: field.split)
      with w show ?thesis by (cases "poin_items data'") (auto simp: po_write_items_def dest!: insert_po_items(2))
    qed (use c po in \<open>auto simp: po_update_def\<close>)
  qed
qed (auto simp: po_create_def po_destroy_def return_create_def return_update_def return_destroy_def bind_elims Let_def
    split: if_splits dest!: insert_po_items(2))

lemma mutations_keep_users:
  "receive u now pk d = Inr oc \<Longrightarrow> users (odb oc) = users d"
  "approve u now pk d = Inr oc \<Longrightarrow> users (odb oc) = users d"
  "damage u now ddata d = Inr oc \<Longrightarrow> users (odb oc) = users d"
  by (erule receive_cases; auto simp: finish_receive_def save_po_received_def Let_def receive_items_frame split: option.splits)
    (erule approve_cases damage_cases; auto simp: restock_Inr write_off_Inr save_return_approved_def)+

lemma view_keeps_users: "view_of u now r d = Inr oc \<Longrightarrow> users (odb oc) = users d"
proof (cases r)
  case (Invoice rid task q pk)
  then show "view_of u now r d = Inr oc \<Longrightarrow> ?thesis" using invoice_same by fastforce
qed (use so_create_only_sales so_update_only_sales so_destroy_only_sales complete_only_sales
    in \<open>auto simp: order_requests_keep_users mutations_keep_users only_sales_def\<close>)

lemma catalog_keeps_users: "catalog_view now r d = Inr oc \<Longrightarrow> users (odb oc) = users d"
  by (cases r) (auto simp: category_create_def category_update_def category_destroy_def supplier_create_def
      supplier_update_def supplier_destroy_def product_create_def product_update_def product_destroy_def
      product_retrieve_def bind_elims Let_def)

lemma other_requests_keep_users:
  assumes "site_view rules now who r d = Inr oc" "\<not> (\<exists>a. r = ToAccounts a)" "\<not> (\<exists>t. r = ToTokens t)"
  shows "users (odb oc) = users d"
  using assms
  by (cases r; cases who) (auto simp: view_keeps_users catalog_keeps_users mark_read_def bind_elims Let_def)

subsection \<open>The bound\<close>

lemma account_gate:
  "has_permission (permission_of (fst (route (ToAccounts r))) (snd (route (ToAccounts r)))) who = has_permission (account_permission r) who"
  using account_route_permission [of r] by (simp add: case_prod_beta)

lemma anonymous_gate:
  assumes "has_permission (permission_of (fst (route r)) (snd (route r))) None"
  shows "(\<exists>data. r = ToAccounts (Register data)) \<or> (\<exists>t. r = ToTokens t)"
proof (cases r)
  case (ToAccounts a)
  with assms show ?thesis by (cases a) auto
next
  case (ToCatalog x)
  with assms show ?thesis by (cases x) (auto simp: read_for_all_write_for_managers_def update_action_def split: if_splits)
next
  case (ToInventory x)
  with assms show ?thesis by (cases x) auto
next
  case (ToReports x q)
  with assms show ?thesis by (cases x) auto
qed (use assms in auto)

text \<open>A login writes the moment into the row of the user its credentials identify.\<close>

definition logged_in :: "password_rules \<Rightarrow> time \<Rightarrow> site_request \<Rightarrow> db \<Rightarrow> user list \<Rightarrow> bool" where
  "logged_in rules now r d us \<longleftrightarrow> (\<exists>email password i. r = ToTokens (Login (Given email) (Given password))
     \<and> identify rules email password d = Some i
     \<and> us = update_row u_id i (\<lambda>u. u\<lparr>u_last_login := Some now\<rparr>) (users d))"

lemma token_request_bound:
  assumes "site_view rules now who (ToTokens t) d = Inr oc"
  shows "odb oc = d \<or> (\<exists>us. odb oc = d\<lparr>users := us\<rparr> \<and> logged_in rules now (ToTokens t) d us)"
proof -
  from assms have "token_view rules now t d = Inr oc" by simp
  then show ?thesis by (cases rule: token_view_cases) (auto simp: logged_in_def record_login_def)
qed

lemma non_admin_bound:
  assumes "has_permission (permission_of (fst (route r)) (snd (route r))) who" "site_view rules now who r d = Inr oc"
    and "\<not> has_permission IsAdmin who"
  shows "\<exists>old new. users (odb oc) = old @ new \<and> (old = users d \<or> logged_in rules now r d old)
    \<and> (\<forall>u \<in> set new. u_role u = EMPLOYEE \<and> \<not> u_is_staff u \<and> \<not> u_is_superuser u)"
proof -
  consider a where "r = ToAccounts a" | t where "r = ToTokens t" | "\<not> (\<exists>a. r = ToAccounts a)" "\<not> (\<exists>t. r = ToTokens t)" by blast
  then show ?thesis
  proof cases
    case 1
    with assms account_request_registers [of a who rules now d oc] obtain new where
      "users (odb oc) = users d @ new" "\<forall>u \<in> set new. u_role u = EMPLOYEE \<and> \<not> u_is_staff u \<and> \<not> u_is_superuser u"
      unfolding 1 account_gate by (auto simp: only_registers_def)
    then show ?thesis by blast
  next
    case 2
    from token_request_bound [OF assms(2) [unfolded 2]] have "users (odb oc) = users d \<or> logged_in rules now r d (users (odb oc))"
      unfolding 2 by auto
    then show ?thesis by (intro exI [of _ "users (odb oc)"] exI [of _ "[]"]) simp
  next
    case 3
    with other_requests_keep_users [OF assms(2)] show ?thesis by (intro exI [of _ "users d"] exI [of _ "[]"]) simp
  qed
qed

lemma non_manager_bound:
  assumes "has_permission (permission_of (fst (route r)) (snd (route r))) who" "site_view rules now who r d = Inr oc"
    and "\<not> has_permission IsManagerOrAdmin who"
  shows "managed (odb oc) = managed d \<and> (\<exists>ts. transactions (odb oc) = transactions d @ ts \<and> (\<forall>t \<in> set ts. t_type t = SALE))"
proof -
  consider a where "r = ToAccounts a" | t where "r = ToTokens t" | "\<not> (\<exists>a. r = ToAccounts a)" "\<not> (\<exists>t. r = ToTokens t)" by blast
  then show ?thesis
  proof cases
    case 1
    have "\<not> has_permission IsAdmin who" using assms(3) by (cases who) auto
    with 1 assms account_request_registers [of a who rules now d oc] show ?thesis
      unfolding 1 account_gate by (auto simp: only_registers_def managed_def)
  next
    case 2
    from token_request_bound [OF assms(2) [unfolded 2]] show ?thesis by (auto simp: managed_def)
  next
    case 3
    with employee_request [OF assms] show ?thesis by (auto simp: only_sales_def)
  qed
qed

lemma anonymous_bound:
  assumes "has_permission (permission_of (fst (route r)) (snd (route r))) None" "site_view rules now None r d = Inr oc"
  shows "\<exists>us n. odb oc = d\<lparr>users := us, next_uuid := n\<rparr>"
proof -
  have same: "d = d\<lparr>users := users d, next_uuid := next_uuid d\<rparr>" by simp
  from anonymous_gate [OF assms(1)] show ?thesis
  proof (elim disjE exE)
    fix data assume "r = ToAccounts (Register data)"
    with assms(2) register_only [of rules now data d oc] show ?thesis by (auto simp: only_registers_def)
  next
    fix t assume t: "r = ToTokens t"
    from token_request_bound [OF assms(2) [unfolded t]] show ?thesis
    proof (elim disjE exE conjE)
      assume "odb oc = d"
      with same show ?thesis by (metis (no_types))
    next
      fix us assume "odb oc = d\<lparr>users := us\<rparr>"
      then have "odb oc = d\<lparr>users := us, next_uuid := next_uuid d\<rparr>" by simp
      then show ?thesis by blast
    qed
  qed
qed

text \<open>C22. What a request can change is bounded by the role of the user it is authenticated as, through
  every endpoint of the API, registration included, and login, refresh and logout, which run as nobody.
  Without an administrator, the only user row that changes is that of a user who logs in with their
  credentials, and of it only the moment of the last login; and the only rows added are employees
  without staff or superuser rights. Without a manager or administrator, in addition the catalog
  (but for stock levels), suppliers, purchase orders and returns stay as they are, and the ledger
  gains nothing but sales. Of an anonymous request, no table of the repository but the users'
  changes. (The tables of issued and revoked tokens belong to SimpleJWT and are not modelled.)\<close>
theorem rights_bound_every_request:
  assumes "requester auth cred r (w_db w) = Some who" "w' = snd (handle auth admits rules cred now r w)"
  shows "(\<not> (\<exists>u. who = Some u \<and> u_role u = ADMIN) \<longrightarrow> (\<exists>old new. users (w_db w') = old @ new
        \<and> (old = users (w_db w) \<or> logged_in rules now r (w_db w) old)
        \<and> (\<forall>u \<in> set new. u_role u = EMPLOYEE \<and> \<not> u_is_staff u \<and> \<not> u_is_superuser u)))
    \<and> (\<not> (\<exists>u. who = Some u \<and> u_role u \<in> {ADMIN, MANAGER}) \<longrightarrow> managed (w_db w') = managed (w_db w)
        \<and> (\<exists>ts. transactions (w_db w') = transactions (w_db w) @ ts \<and> (\<forall>t \<in> set ts. t_type t = SALE)))
    \<and> (who = None \<longrightarrow> (\<exists>us n. w_db w' = (w_db w)\<lparr>users := us, next_uuid := n\<rparr>))"
proof (intro conjI impI)
  have roles: "has_permission IsAdmin who \<longleftrightarrow> (\<exists>u. who = Some u \<and> u_role u = ADMIN)"
    "has_permission IsManagerOrAdmin who \<longleftrightarrow> (\<exists>u. who = Some u \<and> u_role u \<in> {ADMIN, MANAGER})" by (cases who; simp)+
  show "\<exists>old new. users (w_db w') = old @ new \<and> (old = users (w_db w) \<or> logged_in rules now r (w_db w) old)
      \<and> (\<forall>u \<in> set new. u_role u = EMPLOYEE \<and> \<not> u_is_staff u \<and> \<not> u_is_superuser u)"
    if "\<not> (\<exists>u. who = Some u \<and> u_role u = ADMIN)"
    unfolding assms(2)
  proof (rule handle_preserves)
    show "\<exists>old new. users (w_db w) = old @ new \<and> (old = users (w_db w) \<or> logged_in rules now r (w_db w) old)
      \<and> (\<forall>u \<in> set new. u_role u = EMPLOYEE \<and> \<not> u_is_staff u \<and> \<not> u_is_superuser u)"
      by (intro exI [of _ "users (w_db w)"] exI [of _ "[]"]) simp
  qed (use assms(1) that non_admin_bound in \<open>auto simp: roles\<close>)
  have "managed (w_db w') = managed (w_db w)
      \<and> (\<exists>ts. transactions (w_db w') = transactions (w_db w) @ ts \<and> (\<forall>t \<in> set ts. t_type t = SALE))"
    if "\<not> (\<exists>u. who = Some u \<and> u_role u \<in> {ADMIN, MANAGER})"
    unfolding assms(2) by (rule handle_preserves) (use assms(1) that non_manager_bound in \<open>auto simp: roles\<close>)
  then show "managed (w_db w') = managed (w_db w)"
    "\<exists>ts. transactions (w_db w') = transactions (w_db w) @ ts \<and> (\<forall>t \<in> set ts. t_type t = SALE)"
    if "\<not> (\<exists>u. who = Some u \<and> u_role u \<in> {ADMIN, MANAGER})" using that by blast+
  show "\<exists>us n. w_db w' = (w_db w)\<lparr>users := us, next_uuid := n\<rparr>" if "who = None"
    unfolding assms(2)
  proof (rule handle_preserves)
    show "\<exists>us n. w_db w = (w_db w)\<lparr>users := us, next_uuid := n\<rparr>"
      by (rule exI [of _ "users (w_db w)"], rule exI [of _ "next_uuid (w_db w)"]) simp
  qed (use assms(1) that anonymous_bound in auto)
qed

definition sample_login :: site_request where
  "sample_login = ToTokens (Login (Given ''max@inventra.io'') (Given ''s3cretpass''))"

theorem rights_bound_every_request_witness:
  "managed (w_db (snd (handle sample_auth (\<lambda>_ _ _. True) fitting_rules (Some 3) 6 (ToInventory (Approve 80)) (sample_world clean_db))))
     = managed clean_db
   \<and> (\<exists>new. users (w_db (snd (handle sample_auth (\<lambda>_ _ _. True) fitting_rules (Some 2) 6
        (ToAccounts (AssignRole 2 (Given ADMIN))) (sample_world clean_db)))) = users clean_db @ new)
   \<and> (\<exists>us n. w_db (snd (handle sample_auth (\<lambda>_ _ _. True) fitting_rules None 6 sample_login (sample_world clean_db)))
        = clean_db\<lparr>users := us, next_uuid := n\<rparr> \<and> map u_last_login us = [None, Some 6, None])"
proof -
  let ?eve = "sample_employee\<lparr>u_email := ''eve@inventra.io''\<rparr>" and ?max = "sample_manager\<lparr>u_email := ''max@inventra.io''\<rparr>"
  let ?after = "w_db (snd (handle sample_auth (\<lambda>_ _ _. True) fitting_rules None 6 sample_login (sample_world clean_db)))"
  have a: "requester sample_auth (Some 3) (ToInventory (Approve 80)) (w_db (sample_world clean_db)) = Some (Some ?eve)"
    "requester sample_auth (Some 2) (ToAccounts (AssignRole 2 (Given ADMIN))) (w_db (sample_world clean_db)) = Some (Some ?max)"
    "requester sample_auth None sample_login (w_db (sample_world clean_db)) = Some None"
    by (simp_all add: requester_def token_endpoints_def sample_login_def sample_world_def clean_db_def sample_db_def sample_user_def get_row_Cons)
  have r: "u_role ?eve = EMPLOYEE" "u_role ?max = MANAGER" by (simp_all add: sample_user_def)
  note bound = rights_bound_every_request [where auth = sample_auth and w = "sample_world clean_db" and rules = fitting_rules
      and admits = "\<lambda>_ _ _. True" and now = 6, OF _ refl]
  have "map u_last_login (users ?after) = [None, Some 6, None]" by code_simp
  moreover obtain us n where "?after = clean_db\<lparr>users := us, next_uuid := n\<rparr>"
    using bound [OF a(3)] by (auto simp: sample_world_def)
  ultimately have "\<exists>us n. ?after = clean_db\<lparr>users := us, next_uuid := n\<rparr> \<and> map u_last_login us = [None, Some 6, None]"
    by (intro exI [of _ us] exI [of _ n]) simp
  with bound [OF a(1)] bound [OF a(2)] r show ?thesis by (auto simp: sample_world_def logged_in_def)
qed

end
