(* ===== verification/Site_Books.thy ===== *)
theory Site_Books
  imports Site_Rights
begin

section \<open>The books of the whole site\<close>

text \<open>
  Stock, ledger and return reservations stay consistent through every endpoint of the site and the
  periodic tasks together, not only the inventory ones: account, catalog and notification requests
  do not touch them, except a product write that sets the stock itself.
\<close>

definition levels_of :: "db \<Rightarrow> (uuid \<times> int) list" where
  "levels_of d = map (\<lambda>p. (p_id p, p_current_stock p)) (products d)"

definition same_books :: "db \<Rightarrow> db \<Rightarrow> bool" where
  "same_books d d' \<longleftrightarrow> levels_of d' = levels_of d \<and> purchase_orders d' = purchase_orders d \<and> po_items d' = po_items d
     \<and> sales_orders d' = sales_orders d \<and> so_items d' = so_items d \<and> transactions d' = transactions d
     \<and> return_requests d' = return_requests d \<and> next_uuid d \<le> next_uuid d'"

lemma stock_of_levels: "stock_of d i = map_of (levels_of d) i"
proof -
  have "map_option p_current_stock (get_row p_id i t) = map_of (map (\<lambda>p. (p_id p, p_current_stock p)) t) i" for t
    by (induction t) (simp_all add: get_row_Cons)
  then show ?thesis by (simp add: stock_of_def levels_of_def)
qed

lemma product_ids_levels: "map p_id (products d) = map fst (levels_of d)"
  by (simp add: levels_of_def)

lemma all_products_levels: "(\<forall>p \<in> set (products d). P (p_id p)) \<longleftrightarrow> (\<forall>(i, n) \<in> set (levels_of d). P i)"
  by (simp add: levels_of_def)

lemma balanced_levels: "balanced d \<longleftrightarrow> (\<forall>(i, n) \<in> set (levels_of d). map_of (levels_of d) i = Some (ledger_total d i))"
  unfolding balanced_def stock_of_levels by (rule all_products_levels)

lemma stock_nonneg_levels: "stock_nonneg d \<longleftrightarrow> (\<forall>(i, n) \<in> set (levels_of d). \<exists>m \<ge> 0. map_of (levels_of d) i = Some m)"
  unfolding stock_nonneg_def stock_of_levels by (rule all_products_levels)

lemma same_books_inv:
  assumes "same_books d d'" "inventory_inv d"
  shows "inventory_inv d'"
proof -
  note s = assms(1) [unfolded same_books_def]
  note inv = inventory_invD [OF assms(2)]
  have lv: "ledger_total d' = ledger_total d" using s by (simp add: ledger_total_def fun_eq_iff)
  show ?thesis
  proof (rule inventory_inv_levels [OF assms(2)])
    show "map p_id (products d') = map p_id (products d)" using s by (simp only: product_ids_levels)
    show "wf_returns d'" by (rule wf_returns_mono [OF _ _ inv(4)]) (use s in simp_all)
    show "returns_covered d'" using inv(6) returns_covered_cong [of d' d] s by simp
    show "balanced d'" using inv(7) s by (simp add: balanced_levels lv)
    show "stock_nonneg d'" using inv(8) s by (simp add: stock_nonneg_levels)
  qed (use s in simp_all)
qed

subsection \<open>Requests that leave the books alone\<close>

lemma same_books_I:
  assumes "next_uuid d \<le> next_uuid d'" "levels_of d' = levels_of d"
    "purchase_orders d' = purchase_orders d \<and> po_items d' = po_items d \<and> sales_orders d' = sales_orders d
     \<and> so_items d' = so_items d \<and> transactions d' = transactions d \<and> return_requests d' = return_requests d"
  shows "same_books d d'"
  using assms by (simp add: same_books_def)

lemma account_same_books: "account_view rules now who r d = Inr oc \<Longrightarrow> same_books d (odb oc)"
  by (cases "(rules, now, who, r)" rule: account_view.cases)
    (auto simp: register_def user_create_def user_update_def assign_role_def reset_password_def enable_def user_destroy_def
      set_active_def me_def write_user_def create_user_Inr bind_elims Let_def same_books_def levels_of_def)

lemma token_same_books: "token_view rules now r d = Inr oc \<Longrightarrow> same_books d (odb oc)"
  by (erule token_view_cases) (simp_all add: record_login_def same_books_def levels_of_def)

lemma category_same_books:
  "category_create now cdata d = Inr oc \<Longrightarrow> same_books d (odb oc)"
  "category_update now partial pk cdata d = Inr oc \<Longrightarrow> same_books d (odb oc)"
  "category_destroy pk d = Inr oc \<Longrightarrow> same_books d (odb oc)"
  "supplier_create now sdata d = Inr oc \<Longrightarrow> same_books d (odb oc)"
  "supplier_update now partial pk sdata d = Inr oc \<Longrightarrow> same_books d (odb oc)"
  "supplier_destroy pk d = Inr oc \<Longrightarrow> same_books d (odb oc)"
  "product_retrieve pk d = Inr oc \<Longrightarrow> same_books d (odb oc)"
  by (auto simp: category_create_def category_update_def category_destroy_def supplier_create_def supplier_update_def
      supplier_destroy_def product_retrieve_def bind_elims Let_def same_books_def levels_of_def)

lemma product_destroy_same_books: "product_destroy pk d = Inr oc \<Longrightarrow> same_books d (odb oc)"
  by (auto simp: product_destroy_def bind_elims same_books_def levels_of_def intro!: update_keeps)

lemma product_update_same_books:
  assumes "product_update now partial pk data d = Inr oc" "distinct (map p_id (products d))" "\<forall>n. pi_current_stock data \<noteq> Given n"
  shows "same_books d (odb oc)"
proof -
  from assms(1) obtain p where p: "get_row p_id pk (product_queryset d) = Some p"
    and d': "odb oc = d\<lparr>products := update_row p_id pk (\<lambda>_. product_apply now data p) (products d)\<rparr>"
    by (auto simp: product_update_def bind_elims Let_def)
  have mem: "p \<in> set (products d)" "p_id p = pk" using get_row_SomeD [OF p] by (auto simp: product_queryset_def)
  have same: "p_id (product_apply now data p) = p_id p" "p_current_stock (product_apply now data p) = p_current_stock p"
    using assms(3) by (cases "pi_current_stock data"; simp add: product_apply_def field_or_def)+
  have "r = p" if "r \<in> set (products d)" "p_id r = pk" for r
    using inj_onD [of p_id "set (products d)" r p] assms(2) mem that by (simp add: distinct_map)
  then have "levels_of (odb oc) = levels_of d"
    using same by (auto simp: d' levels_of_def update_row_def)
  then show ?thesis by (auto simp: same_books_def d')
qed

lemma product_create_books:
  assumes "product_create now data d = Inr oc" "field_or 0 (pi_current_stock data) = 0" "wt d" "inventory_inv d"
  shows "inventory_inv (odb oc)"
proof -
  note inv = inventory_invD [OF assms(4)]
  have "\<exists>p. p_id p = next_uuid d \<and> p_current_stock p = field_or 0 (pi_current_stock data)
      \<and> odb oc = draw_uuid (d\<lparr>products := products d @ [p]\<rparr>)"
    by (rule exI [of _ "last (products (odb oc))"]) (use assms(1) in \<open>auto simp: product_create_def bind_elims Let_def\<close>)
  then obtain p where p: "p_id p = next_uuid d" "p_current_stock p = field_or 0 (pi_current_stock data)"
    and d': "odb oc = draw_uuid (d\<lparr>products := products d @ [p]\<rparr>)" by blast
  have fresh: "next_uuid d \<notin> product_ids d" and booked: "\<forall>t \<in> set (transactions d). t_product t \<in> product_ids d"
    using assms(3) by (auto simp: wt_def typed_def keyed_def txn_ok_def)
  have zero: "ledger_total d (next_uuid d) = 0"
  proof -
    have "filter (\<lambda>t. t_product t = next_uuid d) (transactions d) = []"
      using fresh booked by (metis (mono_tags, lifting) filter_False)
    then show ?thesis by (simp add: ledger_total_def)
  qed
  have lv: "ledger_total (odb oc) = ledger_total d"
    "stock_of (odb oc) i = (if i = next_uuid d then Some 0 else stock_of d i)" for i
  proof -
    show "ledger_total (odb oc) = ledger_total d" by (simp add: d' ledger_total_def fun_eq_iff)
    have "map_of (levels_of d) (next_uuid d) = None"
      using fresh by (simp add: levels_of_def map_of_eq_None_iff image_image)
    then show "stock_of (odb oc) i = (if i = next_uuid d then Some 0 else stock_of d i)"
      using p assms(2) by (auto simp: stock_of_levels levels_of_def d' map_add_def split: option.split)
  qed
  show ?thesis
  proof (rule inventory_invI)
    show "wf_products (odb oc)" using inv(1) fresh p(1) by (simp add: wf_products_def d')
    show "wf_purchases (odb oc)" by (rule wf_purchases_mono [OF _ _ _ inv(2)]) (simp_all add: d')
    show "wf_sales (odb oc)" by (rule wf_sales_mono [OF _ _ _ inv(3)]) (simp_all add: d')
    show "wf_returns (odb oc)" by (rule wf_returns_mono [OF _ _ inv(4)]) (simp_all add: d')
    show "single_lines (odb oc)" using inv(5) single_lines_cong [of "odb oc" d] by (simp add: d')
    show "returns_covered (odb oc)" using inv(6) returns_covered_cong [of "odb oc" d] by (simp add: d')
    show "balanced (odb oc)" using inv(7) zero fresh p(1) unfolding balanced_def lv by (auto simp: d')
    show "stock_nonneg (odb oc)" using inv(8) p(1) unfolding stock_nonneg_def lv by (auto simp: d')
  qed
qed

subsection \<open>The requests that keep the books\<close>

text \<open>No order with two lines for one product, and no product write that sets the stock.\<close>

fun book_keeping :: "site_request \<Rightarrow> bool" where
  "book_keeping (ToInventory r) = single_line_request r"
| "book_keeping (ToCatalog (CreateProduct data)) = (field_or 0 (pi_current_stock data) = 0)"
| "book_keeping (ToCatalog (UpdateProduct partial pk data)) = (case pi_current_stock data of Given n \<Rightarrow> False | _ \<Rightarrow> True)"
| "book_keeping _ = True"

fun keeps_books :: "'c site_event \<Rightarrow> bool" where
  "keeps_books (Visit cred now r) = book_keeping r"
| "keeps_books _ = True"

lemma catalog_books:
  assumes "catalog_view now r d = Inr oc" "book_keeping (ToCatalog r)" "wt d" "inventory_inv d"
  shows "inventory_inv (odb oc)"
proof (cases r)
  case (CreateProduct data)
  with assms show ?thesis by (auto intro: product_create_books)
next
  case (UpdateProduct partial pk data)
  with assms(2) have "\<forall>n. pi_current_stock data \<noteq> Given n" by (auto split: field.splits)
  moreover have "distinct (map p_id (products d))" using inventory_invD(1) [OF assms(4)] by (simp add: wf_products_def)
  ultimately have "same_books d (odb oc)"
    using assms(1) UpdateProduct by (intro product_update_same_books) simp_all
  then show ?thesis using assms(4) by (rule same_books_inv)
qed (insert assms, simp_all only: catalog_view.simps, (rule same_books_inv [rotated], assumption, (rule category_same_books
      product_destroy_same_books; assumption))+)

lemma site_view_books:
  assumes "site_view rules now who r d = Inr oc" "book_keeping r" "wt d" "inventory_inv d"
  shows "inventory_inv (odb oc)"
proof (cases r)
  case (ToAccounts x)
  with assms(1) have "same_books d (odb oc)" by (intro account_same_books) simp
  then show ?thesis using assms(4) by (rule same_books_inv)
next
  case (ToTokens x)
  with assms(1) have "same_books d (odb oc)" by (intro token_same_books) simp
  then show ?thesis using assms(4) by (rule same_books_inv)
next
  case (ToCatalog x)
  with assms show ?thesis by (intro catalog_books) simp_all
next
  case (ToInventory x)
  with assms obtain u where "view_of u now x d = Inr oc" by (cases who) auto
  from request_inv [OF this assms(4)] assms(2) ToInventory show ?thesis by simp
next
  case (ToNotifications unread pk)
  with assms(1) have "same_books d (odb oc)"
    by (cases who) (auto simp: mark_read_def bind_elims Let_def same_books_def levels_of_def)
  then show ?thesis using assms(4) by (rule same_books_inv)
qed (use assms in auto)

lemma flag_same_books: "same_books d (snd (flag now cs (k, d)))"
  by (induction now cs "(k, d)" arbitrary: k d rule: flag.induct) (auto simp: same_books_def levels_of_def)

lemma tasks_same_books:
  "same_books d (snd (sweep_low_stock now d))" "same_books d (snd (reconcile_ledger now d))"
proof -
  show "same_books d (snd (sweep_low_stock now d))" unfolding sweep_eq by (rule flag_same_books)
  show "same_books d (snd (reconcile_ledger now d))"
    by (simp add: reconcile_ledger_def Let_def same_books_def levels_of_def)
qed

lemma site_after_books:
  assumes "inventory_inv (w_db w)" "wt (w_db w)" "keeps_books e"
  shows "inventory_inv (w_db (site_after auth admits rules e w))"
proof (cases e)
  case (Visit cred now r)
  have "inventory_inv (w_db (snd (handle auth admits rules cred now r w)))"
  proof (rule handle_preserves [where P = inventory_inv, OF assms(1)])
    fix who oc assume "site_view rules now who r (w_db w) = Inr oc"
    from site_view_books [OF this _ assms(2,1)] assms(3) Visit show "inventory_inv (odb oc)" by simp
  qed
  with Visit show ?thesis by simp
qed (simp_all add: same_books_inv [OF tasks_same_books(1) assms(1)] same_books_inv [OF tasks_same_books(2) assms(1)])


lemma site_events_books:
  assumes "list_all keeps_books es" "inventory_inv (w_db w)" "wt (w_db w)" "authentic auth" "rules_fit rules"
    and "\<forall>j < k. next_uuid (w_db (fold (site_after auth admits rules) (take j es) w)) \<le> 2 ^ 128"
  shows "inventory_inv (w_db (fold (site_after auth admits rules) (take k es) w))"
  using assms(6)
proof (induction k)
  case (Suc k)
  have IH: "inventory_inv (w_db (fold (site_after auth admits rules) (take k es) w))" using Suc by simp
  have T: "wt (w_db (fold (site_after auth admits rules) (take k es) w))"
    by (rule wt_events [OF assms(4,5,3)]) (use Suc.prems in simp)
  show ?case
  proof (cases "k < length es")
    case True
    then have "fold (site_after auth admits rules) (take (Suc k) es) w
        = site_after auth admits rules (es ! k) (fold (site_after auth admits rules) (take k es) w)"
      by (simp add: take_Suc_conv_app_nth)
    moreover have "keeps_books (es ! k)" using assms(1) True by (simp add: list_all_length)
    ultimately show ?thesis using site_after_books [OF IH T] by (simp only:)
  qed (use IH in simp)
qed (use assms(2) in simp)

text \<open>C1. The books of the whole site: mix requests of anyone to any endpoint of the API, let through or not,
  with runs of the periodic tasks. As long as no order names a product in two lines and no product
  write sets a stock level, at every point in between stock equals the signed sum of the ledger
  for every product, new ones included, and is not negative, keys are unique, and no product of
  an order has more pending and approved returns than the order sold.\<close>
theorem the_site_keeps_the_books:
  assumes "list_all keeps_books es" "inventory_inv (w_db w)" "conforms schema (w_db w)" "uuids_drawn (w_db w)"
    and "authentic auth" "rules_fit rules"
    and "\<forall>j < k. next_uuid (w_db (fold (site_after auth admits rules) (take j es) w)) \<le> 2 ^ 128"
  shows "balanced (w_db (fold (site_after auth admits rules) (take k es) w))
    \<and> stock_nonneg (w_db (fold (site_after auth admits rules) (take k es) w))
    \<and> returns_covered (w_db (fold (site_after auth admits rules) (take k es) w))
    \<and> wf_tables (w_db (fold (site_after auth admits rules) (take k es) w))"
  using site_events_books [OF assms(1,2) conforms_wt [OF assms(3,4)] assms(5,6)] assms(7)
  by (simp add: inventory_inv_def)


subsection \<open>The ledger of the whole site\<close>

lemma catalog_keeps_ledger: "catalog_view now r d = Inr oc \<Longrightarrow> transactions (odb oc) = transactions d"
  by (cases r) (auto simp: category_create_def category_update_def category_destroy_def supplier_create_def supplier_update_def
      supplier_destroy_def product_create_def product_update_def product_destroy_def product_retrieve_def bind_elims Let_def)

lemma site_view_appends:
  assumes "site_view rules now who r d = Inr oc"
  shows "\<exists>ts. transactions (odb oc) = transactions d @ ts"
proof (cases r)
  case (ToAccounts x)
  with account_same_books [of rules now who x d oc] assms show ?thesis by (simp add: same_books_def)
next
  case (ToTokens x)
  with token_same_books [of rules now x d oc] assms show ?thesis by (simp add: same_books_def)
next
  case (ToCatalog x)
  with catalog_keeps_ledger [of now x d oc] assms show ?thesis by simp
next
  case (ToInventory x)
  with assms show ?thesis by (cases who) (auto dest: request_appends)
next
  case (ToNotifications unread pk)
  with assms show ?thesis by (cases who) (auto simp: mark_read_def bind_elims Let_def)
next
  case (ToReports rep q)
  with assms show ?thesis by auto
qed

lemma site_after_appends: "\<exists>ts. transactions (w_db (site_after auth admits rules e w)) = transactions (w_db w) @ ts"
proof (cases e)
  case (Visit cred now r)
  have "\<exists>ts. transactions (w_db (snd (handle auth admits rules cred now r w))) = transactions (w_db w) @ ts"
    by (rule handle_preserves [where P = "\<lambda>d. \<exists>ts. transactions d = transactions (w_db w) @ ts"])
      (simp, rule site_view_appends)
  with Visit show ?thesis by simp
next
  case (Sweep now)
  with tasks_same_books(1) [of "w_db w" now] show ?thesis by (simp add: same_books_def)
next
  case (Reconcile now)
  with tasks_same_books(2) [of "w_db w" now] show ?thesis by (simp add: same_books_def)
qed

text \<open>C15. The ledger only grows. Through every endpoint of the API and every periodic task, in any
  sequence, let through or refused, whoever sends the requests and whatever is in the tables: the
  rows of the ledger stay as they were written and in their order, and new ones come after them.\<close>
theorem the_ledger_only_grows:
  "\<exists>ts. transactions (w_db (fold (site_after auth admits rules) es w)) = transactions (w_db w) @ ts"
proof (induction es arbitrary: w)
  case (Cons e es)
  obtain ts where ts: "transactions (w_db (site_after auth admits rules e w)) = transactions (w_db w) @ ts"
    using site_after_appends by blast
  from Cons.IH [of "site_after auth admits rules e w"] show ?case by (auto simp: ts)
qed simp


definition new_product_input :: product_input where
  "new_product_input = \<lparr>pi_sku = Given ''W-3'', pi_name = Given ''Sprocket'', pi_description = Absent, pi_cost_price = Given 300,
     pi_selling_price = Given 450, pi_current_stock = Absent, pi_low_stock_threshold = Given 4,
     pi_category = Given 11, pi_supplier = Given 10, pi_is_active = Absent\<rparr>"

definition sample_book_events :: "uuid option site_event list" where
  "sample_book_events = [Visit (Some 3) 6 (ToInventory (Complete 200 50)), Visit (Some 2) 7 (ToCatalog (CreateProduct new_product_input)),
     Visit (Some 2) 8 (ToInventory (Receive 40)), Reconcile 9]"

lemma clean_books: "inventory_inv clean_db"
proof (rule same_books_inv [OF _ sample_inventory_inv])
  show "same_books sample_db clean_db" by (simp add: same_books_def levels_of_def clean_db_def)
qed

theorem the_site_keeps_the_books_witness:
  "balanced (w_db (fold (site_after sample_auth (\<lambda>_ _ _. True) fitting_rules) (take 4 sample_book_events) (sample_world clean_db)))
   \<and> stock_of (w_db (fold (site_after sample_auth (\<lambda>_ _ _. True) fitting_rules) (take 4 sample_book_events)
       (sample_world clean_db))) 20 = Some 13"
proof
  let ?after = "\<lambda>j. w_db (fold (site_after sample_auth (\<lambda>_ _ _. True) fitting_rules) (take j sample_book_events) (sample_world clean_db))"
  have "list_all (\<lambda>j. next_uuid (?after j) \<le> 1000) [0, 1, 2, 3]" by code_simp
  moreover have "set [0, 1, 2, 3] = {j :: nat. j < 4}" by auto
  ultimately have bound: "\<forall>j < 4. next_uuid (?after j) \<le> 2 ^ 128"
    by (auto simp only: list_all_iff mem_Collect_eq Ball_def intro: order_trans [OF _ thousand])
  have "list_all keeps_books sample_book_events" by code_simp
  moreover have "inventory_inv (w_db (sample_world clean_db))" "conforms schema (w_db (sample_world clean_db))"
    "uuids_drawn (w_db (sample_world clean_db))"
    using clean_books clean_conforms by (simp_all add: sample_world_def)
  ultimately show "balanced (?after 4)"
    using the_site_keeps_the_books [OF _ _ _ _ sample_authentic fitting_rules_fit bound] by blast
  show "stock_of (?after 4) 20 = Some 13" by code_simp
qed

end
