(* ===== verification/Deletion.thy ===== *)
theory Deletion
  imports Site_Books
begin

section \<open>Deleting rows\<close>

text \<open>
  What \<open>on_delete\<close> in the migrated schema makes of the deletion of a row: the rows that cascade
  from it go with it, a protecting reference to any of them refuses the deletion, every other
  reference is set to null. It is stated once for any schema, on rows as lists of columns; the
  deletions the views and the admin site do on the records of the model agree with it.
\<close>

subsection \<open>on_delete\<close>

definition fields_of :: "(string \<times> table \<times> string list) list \<Rightarrow> string \<Rightarrow> table" where
  "fields_of ts m = (case map_of ts m of None \<Rightarrow> [] | Some (t, _) \<Rightarrow> t)"

text \<open>A row with a reference of the given kind to one of the rows \<open>gone\<close>.\<close>

definition refers :: "on_delete \<Rightarrow> table \<Rightarrow> (string \<times> sql_value) list \<Rightarrow> row \<Rightarrow> bool" where
  "refers od t gone r \<longleftrightarrow> list_ex (\<lambda>(n, c). case cl_type c of
     ForeignKey m od' \<Rightarrow> od' = od \<and> (m, cell n r) \<in> set gone | _ \<Rightarrow> False) t"

definition nullify :: "table \<Rightarrow> (string \<times> sql_value) list \<Rightarrow> row \<Rightarrow> row" where
  "nullify t gone r = map (\<lambda>(n, v). case map_of t n of
     None \<Rightarrow> (n, v)
   | Some c \<Rightarrow> (case cl_type c of
       ForeignKey m od \<Rightarrow> if od = SET_NULL \<and> (m, v) \<in> set gone then (n, Null) else (n, v)
     | _ \<Rightarrow> (n, v))) r"

type_synonym store = "(string \<times> row list) list"

text \<open>The rows that go when \<open>gone\<close> do: those with a cascading reference to them, and so on; a chain of
  cascades is no longer than the schema has tables unless it runs in a circle.\<close>

fun cascaded :: "nat \<Rightarrow> (string \<times> table \<times> string list) list \<Rightarrow> store \<Rightarrow> (string \<times> sql_value) list \<Rightarrow> (string \<times> sql_value) list" where
  "cascaded 0 ts st gone = gone"
| "cascaded (Suc k) ts st gone =
     (let more = concat (map (\<lambda>(m, rows). map (\<lambda>r. (m, cell ''id'' r)) (filter (refers CASCADE (fields_of ts m) gone) rows)) st)
      in if more = [] then gone else gone @ cascaded k ts st more)"

definition delete_object :: "(string \<times> table \<times> string list) list \<Rightarrow> string \<Rightarrow> uuid \<Rightarrow> store \<Rightarrow> store option" where
  "delete_object ts m i st =
     (let gone = cascaded (length ts) ts st [(m, UuidV i)]
      in if list_ex (\<lambda>(m, rows). list_ex (refers PROTECT (fields_of ts m) gone) rows) st then None
         else Some (map (\<lambda>(m, rows). (m, map (nullify (fields_of ts m) gone)
           (filter (\<lambda>r. (m, cell ''id'' r) \<notin> set gone) rows))) st))"

subsection \<open>The deletions of the model\<close>

datatype deletable = DelUser | DelCategory | DelSupplier | DelProduct | DelPurchaseOrder | DelSalesOrder | DelReturn | DelNotification

fun label_of :: "deletable \<Rightarrow> string" where
  "label_of DelUser = ''accounts.user''"
| "label_of DelCategory = ''catalog.category''"
| "label_of DelSupplier = ''catalog.supplier''"
| "label_of DelProduct = ''catalog.product''"
| "label_of DelPurchaseOrder = ''inventory.purchaseorder''"
| "label_of DelSalesOrder = ''inventory.salesorder''"
| "label_of DelReturn = ''inventory.return''"
| "label_of DelNotification = ''notifications.notification''"

definition drop_ref :: "uuid \<Rightarrow> uuid option \<Rightarrow> uuid option" where
  "drop_ref i x = (if x = Some i then None else x)"

definition forget_user :: "uuid \<Rightarrow> db \<Rightarrow> db" where
  "forget_user i d = d\<lparr>
     users := map (\<lambda>r. r\<lparr>u_created_by := drop_ref i (u_created_by r)\<rparr>) (delete_rows (\<lambda>r. u_id r = i) (users d)),
     categories := map (\<lambda>r. r\<lparr>c_created_by := drop_ref i (c_created_by r)\<rparr>) (categories d),
     suppliers := map (\<lambda>r. r\<lparr>s_created_by := drop_ref i (s_created_by r)\<rparr>) (suppliers d),
     products := map (\<lambda>r. r\<lparr>p_created_by := drop_ref i (p_created_by r)\<rparr>) (products d),
     purchase_orders := map (\<lambda>r. r\<lparr>po_created_by := drop_ref i (po_created_by r)\<rparr>) (purchase_orders d),
     sales_orders := map (\<lambda>r. r\<lparr>so_created_by := drop_ref i (so_created_by r)\<rparr>) (sales_orders d),
     transactions := map (\<lambda>r. r\<lparr>t_created_by := drop_ref i (t_created_by r)\<rparr>) (transactions d),
     return_requests := map (\<lambda>r. r\<lparr>r_approved_by := drop_ref i (r_approved_by r), r_created_by := drop_ref i (r_created_by r)\<rparr>)
       (return_requests d),
     notifications := delete_rows (\<lambda>r. n_user r = i) (notifications d)\<rparr>"

fun delete_record :: "deletable \<Rightarrow> uuid \<Rightarrow> db \<Rightarrow> db option" where
  "delete_record DelUser i d = Some (forget_user i d)"
| "delete_record DelCategory i d =
     (if list_ex (\<lambda>p. p_category p = i) (products d) then None
      else Some (d\<lparr>categories := delete_rows (\<lambda>r. c_id r = i) (categories d)\<rparr>))"
| "delete_record DelSupplier i d =
     (if list_ex (\<lambda>p. p_supplier p = i) (products d) \<or> list_ex (\<lambda>x. po_supplier x = i) (purchase_orders d) then None
      else Some (d\<lparr>suppliers := delete_rows (\<lambda>r. s_id r = i) (suppliers d)\<rparr>))"
| "delete_record DelProduct i d =
     (if list_ex (\<lambda>x. poi_product x = i) (po_items d) \<or> list_ex (\<lambda>x. soi_product x = i) (so_items d)
         \<or> list_ex (\<lambda>x. t_product x = i) (transactions d) \<or> list_ex (\<lambda>x. r_product x = i) (return_requests d) then None
      else Some (d\<lparr>products := delete_rows (\<lambda>r. p_id r = i) (products d)\<rparr>))"
| "delete_record DelPurchaseOrder i d =
     Some (d\<lparr>purchase_orders := delete_rows (\<lambda>r. po_id r = i) (purchase_orders d),
             po_items := delete_rows (\<lambda>x. poi_order x = i) (po_items d)\<rparr>)"
| "delete_record DelSalesOrder i d =
     (if list_ex (\<lambda>x. r_order x = i) (return_requests d) then None
      else Some (d\<lparr>sales_orders := delete_rows (\<lambda>r. so_id r = i) (sales_orders d),
                   so_items := delete_rows (\<lambda>x. soi_order x = i) (so_items d)\<rparr>))"
| "delete_record DelReturn i d = Some (d\<lparr>return_requests := delete_rows (\<lambda>r. r_id r = i) (return_requests d)\<rparr>)"
| "delete_record DelNotification i d = Some (d\<lparr>notifications := delete_rows (\<lambda>r. n_id r = i) (notifications d)\<rparr>)"

subsection \<open>The schema's references, table by table\<close>

lemma schema_fields:
  "fields_of schema ''accounts.user'' = account_fields"
  "fields_of schema ''catalog.category'' = category_fields"
  "fields_of schema ''catalog.supplier'' = supplier_fields"
  "fields_of schema ''catalog.product'' = product_fields"
  "fields_of schema ''inventory.purchaseorder'' = purchase_order_fields"
  "fields_of schema ''inventory.purchaseorderitem'' = purchase_order_item_fields"
  "fields_of schema ''inventory.salesorder'' = sales_order_fields"
  "fields_of schema ''inventory.salesorderitem'' = sales_order_item_fields"
  "fields_of schema ''inventory.inventorytransaction'' = inventory_transaction_fields"
  "fields_of schema ''inventory.return'' = return_fields"
  "fields_of schema ''notifications.notification'' = replace_field ''type'' altered_type_field notification_fields"
  by (simp_all add: fields_of_def schema_tables final_tables_def)

lemmas field_defs = account_fields_def category_fields_def supplier_fields_def product_fields_def purchase_order_fields_def
  purchase_order_item_fields_def sales_order_fields_def sales_order_item_fields_def inventory_transaction_fields_def
  return_fields_def notification_fields_def replace_field_def altered_type_field_def AUTH_USER_MODEL_def column_defs

lemma cascading:
  "refers CASCADE account_fields gone (user_row u) = False"
  "refers CASCADE category_fields gone (category_row c) = False"
  "refers CASCADE supplier_fields gone (supplier_row s) = False"
  "refers CASCADE product_fields gone (product_row p) = False"
  "refers CASCADE purchase_order_fields gone (po_row x1) = False"
  "refers CASCADE purchase_order_item_fields gone (po_item_row x2) = ((''inventory.purchaseorder'', UuidV (poi_order x2)) \<in> set gone)"
  "refers CASCADE sales_order_fields gone (so_row x3) = False"
  "refers CASCADE sales_order_item_fields gone (so_item_row x4) = ((''inventory.salesorder'', UuidV (soi_order x4)) \<in> set gone)"
  "refers CASCADE inventory_transaction_fields gone (transaction_row t) = False"
  "refers CASCADE return_fields gone (return_row r) = False"
  "refers CASCADE (replace_field ''type'' altered_type_field notification_fields) gone (notification_row n)
     = ((''accounts.user'', UuidV (n_user n)) \<in> set gone)"
  by (simp_all add: refers_def field_defs cell_def row_defs)

lemma protecting:
  "refers PROTECT account_fields gone (user_row u) = False"
  "refers PROTECT category_fields gone (category_row c) = False"
  "refers PROTECT supplier_fields gone (supplier_row s) = False"
  "refers PROTECT product_fields gone (product_row p)
     = ((''catalog.category'', UuidV (p_category p)) \<in> set gone \<or> (''catalog.supplier'', UuidV (p_supplier p)) \<in> set gone)"
  "refers PROTECT purchase_order_fields gone (po_row x1) = ((''catalog.supplier'', UuidV (po_supplier x1)) \<in> set gone)"
  "refers PROTECT purchase_order_item_fields gone (po_item_row x2) = ((''catalog.product'', UuidV (poi_product x2)) \<in> set gone)"
  "refers PROTECT sales_order_fields gone (so_row x3) = False"
  "refers PROTECT sales_order_item_fields gone (so_item_row x4) = ((''catalog.product'', UuidV (soi_product x4)) \<in> set gone)"
  "refers PROTECT inventory_transaction_fields gone (transaction_row t) = ((''catalog.product'', UuidV (t_product t)) \<in> set gone)"
  "refers PROTECT return_fields gone (return_row r)
     = ((''catalog.product'', UuidV (r_product r)) \<in> set gone \<or> (''inventory.salesorder'', UuidV (r_order r)) \<in> set gone)"
  "refers PROTECT (replace_field ''type'' altered_type_field notification_fields) gone (notification_row n) = False"
  by (simp_all add: refers_def field_defs cell_def row_defs)


definition drop_refs :: "(string \<times> sql_value) list \<Rightarrow> uuid option \<Rightarrow> uuid option" where
  "drop_refs gone x = (case x of None \<Rightarrow> None | Some i \<Rightarrow> if (''accounts.user'', UuidV i) \<in> set gone then None else Some i)"

lemma nullified_reference:
  "(if (''accounts.user'', opt_value UuidV x) \<in> set gone then (n, Null) else (n, opt_value UuidV x)) = (n, opt_value UuidV (drop_refs gone x))"
  by (cases x) (simp_all add: drop_refs_def)

lemma nullifying:
  "nullify account_fields gone (user_row u) = user_row (u\<lparr>u_created_by := drop_refs gone (u_created_by u)\<rparr>)"
  "nullify category_fields gone (category_row c) = category_row (c\<lparr>c_created_by := drop_refs gone (c_created_by c)\<rparr>)"
  "nullify supplier_fields gone (supplier_row s) = supplier_row (s\<lparr>s_created_by := drop_refs gone (s_created_by s)\<rparr>)"
  "nullify product_fields gone (product_row p) = product_row (p\<lparr>p_created_by := drop_refs gone (p_created_by p)\<rparr>)"
  "nullify purchase_order_fields gone (po_row x1) = po_row (x1\<lparr>po_created_by := drop_refs gone (po_created_by x1)\<rparr>)"
  "nullify purchase_order_item_fields gone (po_item_row x2) = po_item_row x2"
  "nullify sales_order_fields gone (so_row x3) = so_row (x3\<lparr>so_created_by := drop_refs gone (so_created_by x3)\<rparr>)"
  "nullify sales_order_item_fields gone (so_item_row x4) = so_item_row x4"
  "nullify inventory_transaction_fields gone (transaction_row t) = transaction_row (t\<lparr>t_created_by := drop_refs gone (t_created_by t)\<rparr>)"
  "nullify return_fields gone (return_row r)
     = return_row (r\<lparr>r_approved_by := drop_refs gone (r_approved_by r), r_created_by := drop_refs gone (r_created_by r)\<rparr>)"
  "nullify (replace_field ''type'' altered_type_field notification_fields) gone (notification_row n) = notification_row n"
  by (simp_all add: nullify_def field_defs row_defs nullified_reference)

lemma row_ids:
  "cell ''id'' (user_row u) = UuidV (u_id u)" "cell ''id'' (category_row c) = UuidV (c_id c)"
  "cell ''id'' (supplier_row s) = UuidV (s_id s)" "cell ''id'' (product_row p) = UuidV (p_id p)"
  "cell ''id'' (po_row x1) = UuidV (po_id x1)" "cell ''id'' (po_item_row x2) = UuidV (poi_id x2)"
  "cell ''id'' (so_row x3) = UuidV (so_id x3)" "cell ''id'' (so_item_row x4) = UuidV (soi_id x4)"
  "cell ''id'' (transaction_row t) = UuidV (t_id t)" "cell ''id'' (return_row r) = UuidV (r_id r)"
  "cell ''id'' (notification_row n) = UuidV (n_id n)"
  by (simp_all add: cell_def row_defs)

text \<open>The rows that cascade from others, in the schema.\<close>

definition dependents :: "(string \<times> sql_value) list \<Rightarrow> db \<Rightarrow> (string \<times> sql_value) list" where
  "dependents gone d =
     map (\<lambda>x. (''inventory.purchaseorderitem'', UuidV (poi_id x)))
       (filter (\<lambda>x. (''inventory.purchaseorder'', UuidV (poi_order x)) \<in> set gone) (po_items d))
   @ map (\<lambda>x. (''inventory.salesorderitem'', UuidV (soi_id x)))
       (filter (\<lambda>x. (''inventory.salesorder'', UuidV (soi_order x)) \<in> set gone) (so_items d))
   @ map (\<lambda>x. (''notifications.notification'', UuidV (n_id x)))
       (filter (\<lambda>x. (''accounts.user'', UuidV (n_user x)) \<in> set gone) (notifications d))"

lemma cascade_step:
  "concat (map (\<lambda>(m, rows). map (\<lambda>r. (m, cell ''id'' r)) (filter (refers CASCADE (fields_of schema m) gone) rows)) (rows_of d))
     = dependents gone d"
  by (simp add: rows_of_def schema_fields dependents_def filter_map comp_def cascading row_ids)

lemma dependents_dependents: "dependents (dependents gone d) d = []"
  by (auto simp: dependents_def filter_empty_conv)

lemma schema_length: "length schema = 13"
proof -
  obtain s where s: "migrate plan = Inr s" "mset (mg_tables s) = mset final_tables"
    using orders_run by (auto simp: plan_def list_all_iff split: sum.splits)
  from mset_eq_length [OF s(2)] s(1) show ?thesis by (simp add: schema_def final_tables_def)
qed

lemma cascade_all: "cascaded (length schema) schema (rows_of d) gone = gone @ dependents gone d"
proof -
  have "cascaded (Suc (Suc k)) schema (rows_of d) gone = gone @ dependents gone d" for k
    by (simp add: Let_def cascade_step dependents_dependents)
  moreover have "length schema = Suc (Suc 11)" by (simp add: schema_length)
  ultimately show ?thesis by (simp only:)
qed

lemma dropped_dependents:
  assumes "distinct (map key t)"
  shows "filter (\<lambda>x. \<not> (\<exists>y \<in> set t. P y \<and> key x = key y)) t = delete_rows P t"
  unfolding delete_rows_def
proof (rule filter_cong [OF refl])
  fix x assume "x \<in> set t"
  with assms show "(\<not> (\<exists>y \<in> set t. P y \<and> key x = key y)) = (\<not> P x)"
    by (metis distinct_map inj_onD)
qed


lemma protected_rows:
  "list_ex (\<lambda>(m, rows). list_ex (refers PROTECT (fields_of schema m) gone) rows) (rows_of d) \<longleftrightarrow> (\<exists>p \<in> set (products d). (''catalog.category'', UuidV (p_category p)) \<in> set gone
             \<or> (''catalog.supplier'', UuidV (p_supplier p)) \<in> set gone)
         \<or> (\<exists>x \<in> set (purchase_orders d). (''catalog.supplier'', UuidV (po_supplier x)) \<in> set gone)
         \<or> (\<exists>x \<in> set (po_items d). (''catalog.product'', UuidV (poi_product x)) \<in> set gone)
         \<or> (\<exists>x \<in> set (so_items d). (''catalog.product'', UuidV (soi_product x)) \<in> set gone)
         \<or> (\<exists>x \<in> set (transactions d). (''catalog.product'', UuidV (t_product x)) \<in> set gone)
         \<or> (\<exists>x \<in> set (return_requests d). (''catalog.product'', UuidV (r_product x)) \<in> set gone
             \<or> (''inventory.salesorder'', UuidV (r_order x)) \<in> set gone)"
  by (simp add: rows_of_def schema_fields list_ex_iff protecting disj_ac)

lemma remaining_rows:
  "map (\<lambda>(m, rows). (m, map (nullify (fields_of schema m) gone) (filter (\<lambda>r. (m, cell ''id'' r) \<notin> set gone) rows))) (rows_of d)
     = rows_of (d\<lparr>
         users := map (\<lambda>r. r\<lparr>u_created_by := drop_refs gone (u_created_by r)\<rparr>)
           (filter (\<lambda>r. (''accounts.user'', UuidV (u_id r)) \<notin> set gone) (users d)),
         categories := map (\<lambda>r. r\<lparr>c_created_by := drop_refs gone (c_created_by r)\<rparr>)
           (filter (\<lambda>r. (''catalog.category'', UuidV (c_id r)) \<notin> set gone) (categories d)),
         suppliers := map (\<lambda>r. r\<lparr>s_created_by := drop_refs gone (s_created_by r)\<rparr>)
           (filter (\<lambda>r. (''catalog.supplier'', UuidV (s_id r)) \<notin> set gone) (suppliers d)),
         products := map (\<lambda>r. r\<lparr>p_created_by := drop_refs gone (p_created_by r)\<rparr>)
           (filter (\<lambda>r. (''catalog.product'', UuidV (p_id r)) \<notin> set gone) (products d)),
         purchase_orders := map (\<lambda>r. r\<lparr>po_created_by := drop_refs gone (po_created_by r)\<rparr>)
           (filter (\<lambda>r. (''inventory.purchaseorder'', UuidV (po_id r)) \<notin> set gone) (purchase_orders d)),
         po_items := filter (\<lambda>r. (''inventory.purchaseorderitem'', UuidV (poi_id r)) \<notin> set gone) (po_items d),
         sales_orders := map (\<lambda>r. r\<lparr>so_created_by := drop_refs gone (so_created_by r)\<rparr>)
           (filter (\<lambda>r. (''inventory.salesorder'', UuidV (so_id r)) \<notin> set gone) (sales_orders d)),
         so_items := filter (\<lambda>r. (''inventory.salesorderitem'', UuidV (soi_id r)) \<notin> set gone) (so_items d),
         transactions := map (\<lambda>r. r\<lparr>t_created_by := drop_refs gone (t_created_by r)\<rparr>)
           (filter (\<lambda>r. (''inventory.inventorytransaction'', UuidV (t_id r)) \<notin> set gone) (transactions d)),
         return_requests := map (\<lambda>r. r\<lparr>r_approved_by := drop_refs gone (r_approved_by r), r_created_by := drop_refs gone (r_created_by r)\<rparr>)
           (filter (\<lambda>r. (''inventory.return'', UuidV (r_id r)) \<notin> set gone) (return_requests d)),
         notifications := filter (\<lambda>r. (''notifications.notification'', UuidV (n_id r)) \<notin> set gone) (notifications d)\<rparr>)"
  by (simp add: rows_of_def schema_fields filter_map comp_def row_ids nullifying)

lemma drop_refs_user: "drop_refs ((''accounts.user'', UuidV i) # gone) x = (if x = Some i then None else drop_refs gone x)"
  by (cases x) (auto simp: drop_refs_def)

lemma drop_refs_other: "(\<And>j. (''accounts.user'', UuidV j) \<notin> set gone) \<Longrightarrow> drop_refs gone x = x"
  by (cases x) (simp_all add: drop_refs_def)

lemma dependents_of:
  "dependents [(''accounts.user'', UuidV i)] d = map (\<lambda>x. (''notifications.notification'', UuidV (n_id x)))
     (filter (\<lambda>x. n_user x = i) (notifications d))"
  "dependents [(''inventory.purchaseorder'', UuidV i)] d = map (\<lambda>x. (''inventory.purchaseorderitem'', UuidV (poi_id x)))
     (filter (\<lambda>x. poi_order x = i) (po_items d))"
  "dependents [(''inventory.salesorder'', UuidV i)] d = map (\<lambda>x. (''inventory.salesorderitem'', UuidV (soi_id x)))
     (filter (\<lambda>x. soi_order x = i) (so_items d))"
  "m \<in> {''catalog.category'', ''catalog.supplier'', ''catalog.product'', ''inventory.return'', ''notifications.notification''}
     \<Longrightarrow> dependents [(m, UuidV i)] d = []"
  by (auto simp: dependents_def)

lemma deletions_agree:
  assumes "distinct (map poi_id (po_items d))" "distinct (map soi_id (so_items d))" "distinct (map n_id (notifications d))"
  shows "map_option rows_of (delete_record m i d) = delete_object schema (label_of m) i (rows_of d)"
proof (cases m)
  case DelUser
  have gone: "(''notifications.notification'', UuidV k) \<in> set (dependents [(''accounts.user'', UuidV i)] d)
      \<longleftrightarrow> (\<exists>y \<in> set (notifications d). n_user y = i \<and> k = n_id y)" for k
    by (auto simp: dependents_of)
  have refs: "drop_refs ((''accounts.user'', UuidV i) # dependents [(''accounts.user'', UuidV i)] d) x = drop_ref i x" for x
    by (subst drop_refs_user, subst drop_refs_other) (auto simp: dependents_of drop_ref_def)
  have other: "(l, UuidV k) \<notin> set (dependents [(''accounts.user'', UuidV i)] d)" if "l \<noteq> ''notifications.notification''" for l k
    using that by (auto simp: dependents_of)
  show ?thesis
    using dropped_dependents [OF assms(3), of "\<lambda>y. n_user y = i"]
    unfolding DelUser label_of.simps delete_object_def cascade_all Let_def protected_rows remaining_rows
    by (simp add: other gone refs forget_user_def
        delete_rows_def)
next
  case DelPurchaseOrder
  have gone: "(''inventory.purchaseorderitem'', UuidV k) \<in> set (dependents [(''inventory.purchaseorder'', UuidV i)] d)
      \<longleftrightarrow> (\<exists>y \<in> set (po_items d). poi_order y = i \<and> k = poi_id y)" for k
    by (auto simp: dependents_of)
  have other: "(l, UuidV k) \<notin> set (dependents [(''inventory.purchaseorder'', UuidV i)] d)" if "l \<noteq> ''inventory.purchaseorderitem''" for l k
    using that by (auto simp: dependents_of)
  show ?thesis
    using dropped_dependents [OF assms(1), of "\<lambda>y. poi_order y = i"]
    unfolding DelPurchaseOrder label_of.simps delete_object_def cascade_all Let_def protected_rows remaining_rows
    by (simp add: other gone drop_refs_other
        delete_rows_def)
next
  case DelSalesOrder
  have gone: "(''inventory.salesorderitem'', UuidV k) \<in> set (dependents [(''inventory.salesorder'', UuidV i)] d)
      \<longleftrightarrow> (\<exists>y \<in> set (so_items d). soi_order y = i \<and> k = soi_id y)" for k
    by (auto simp: dependents_of)
  have other: "(l, UuidV k) \<notin> set (dependents [(''inventory.salesorder'', UuidV i)] d)" if "l \<noteq> ''inventory.salesorderitem''" for l k
    using that by (auto simp: dependents_of)
  show ?thesis
    using dropped_dependents [OF assms(2), of "\<lambda>y. soi_order y = i"]
    unfolding DelSalesOrder label_of.simps delete_object_def cascade_all Let_def protected_rows remaining_rows
    by (simp add: other gone drop_refs_other
        delete_rows_def list_ex_iff)
qed (simp only: label_of.simps delete_object_def cascade_all Let_def protected_rows remaining_rows,
    auto simp: dependents_of drop_refs_other delete_rows_def list_ex_iff)+

lemma destroys_delete_records:
  "po_destroy pq pk d = Inr oc \<Longrightarrow> delete_record DelPurchaseOrder pk d = Some (odb oc)"
  "so_destroy sq pk d = Inr oc \<Longrightarrow> delete_record DelSalesOrder pk d = Some (odb oc)"
  "return_destroy sf pk d = Inr oc \<Longrightarrow> delete_record DelReturn pk d = Some (odb oc)"
  by (auto simp: po_destroy_def so_destroy_def return_destroy_def bind_elims list_ex_iff dest: get_row_SomeD(2))
    (metis get_row_SomeD(2))

lemma deletions_follow_the_schema_facts:
  assumes "conforms schema d"
  shows "map_option rows_of (delete_record m i d) = delete_object schema (label_of m) i (rows_of d)"
proof (rule deletions_agree)
  from assms have "typed (2 ^ 128) d" by (simp add: conforms_iff)
  then show "distinct (map poi_id (po_items d))" "distinct (map soi_id (so_items d))" "distinct (map n_id (notifications d))"
    by (simp_all add: typed_def keyed_def)
qed

text \<open>C23. Deletions are those the schema prescribes. For every kind of row, the deletion of the model
  takes from the tables exactly what \<open>on_delete\<close> in the migrated schema says: it is refused when a
  protecting reference remains, else the dependent rows go with the row and every other reference
  to it becomes null. So do the endpoints that delete purchase orders, sales orders and returns.\<close>
theorem deletions_follow_the_schema:
  assumes "conforms schema d"
  shows "map_option rows_of (delete_record m i d) = delete_object schema (label_of m) i (rows_of d)
    \<and> (po_destroy pq i d = Inr oc \<longrightarrow> delete_object schema ''inventory.purchaseorder'' i (rows_of d) = Some (rows_of (odb oc)))
    \<and> (so_destroy sq i d = Inr oc \<longrightarrow> delete_object schema ''inventory.salesorder'' i (rows_of d) = Some (rows_of (odb oc)))
    \<and> (return_destroy sf i d = Inr oc \<longrightarrow> delete_object schema ''inventory.return'' i (rows_of d) = Some (rows_of (odb oc)))"
  using deletions_follow_the_schema_facts [OF assms] destroys_delete_records [of _ i d oc]
  by (metis label_of.simps(5-7) option.simps(9))

theorem deletions_follow_the_schema_witness:
  "map_option rows_of (delete_record DelSalesOrder 50 clean_db) = delete_object schema ''inventory.salesorder'' 50 (rows_of clean_db)
   \<and> delete_record DelSalesOrder 70 clean_db = None \<and> delete_record DelSalesOrder 50 clean_db \<noteq> None"
proof -
  have "delete_record DelSalesOrder 70 clean_db = None" "delete_record DelSalesOrder 50 clean_db \<noteq> None"
    by (simp_all add: clean_db_def sample_defs)
  with deletions_follow_the_schema [OF clean_conforms(1), of DelSalesOrder 50] show ?thesis by simp
qed


subsection \<open>Deletions leave no dangling reference\<close>

lemma keyed_map:
  assumes "keyed n key P t" "\<And>r. key (f r) = key r" "\<And>r. r \<in> set t \<Longrightarrow> P r \<Longrightarrow> Q (f r)"
  shows "keyed n key Q (map f t)"
  using assms by (simp add: keyed_def comp_def)

lemma keyed_weaken: "keyed n key P t \<Longrightarrow> (\<And>r. r \<in> set t \<Longrightarrow> P r \<Longrightarrow> Q r) \<Longrightarrow> keyed n key Q t"
  by (simp add: keyed_def)

lemma drop_ref_fits:
  "pred_option (\<lambda>j. j \<in> U) x \<Longrightarrow> pred_option (\<lambda>j. j \<in> U - {i}) (drop_ref i x)"
  "pred_option (\<lambda>j. j \<in> U) x \<Longrightarrow> pred_option (\<lambda>j. j \<in> U \<and> j \<noteq> i) (drop_ref i x)"
  by (cases x; simp add: drop_ref_def)+

lemma map_unchanged: "(\<And>r. g (f r) = g r) \<Longrightarrow> map g (map f t) = map g t"
  by simp

lemma user_ids_forget: "user_ids (forget_user i d) = user_ids d - {i}"
  by (auto simp: forget_user_def delete_rows_def image_iff)

lemma map_ids_forget:
  "category_ids (forget_user i d) = category_ids d" "supplier_ids (forget_user i d) = supplier_ids d"
  "product_ids (forget_user i d) = product_ids d" "po_ids (forget_user i d) = po_ids d" "so_ids (forget_user i d) = so_ids d"
  by (simp_all add: forget_user_def image_image)

lemma typed_parts:
  assumes "typed n d"
  shows "keyed n u_id (user_ok (user_ids d)) (users d) \<and> distinct (map u_email (users d))"
    "keyed n c_id (category_ok (user_ids d)) (categories d) \<and> distinct (map c_name (categories d))"
    "keyed n s_id (supplier_ok (user_ids d)) (suppliers d) \<and> distinct (map s_email (suppliers d))"
    "keyed n p_id (product_ok (user_ids d) (category_ids d) (supplier_ids d)) (products d) \<and> distinct (map p_sku (products d))"
    "keyed n po_id (po_ok (user_ids d) (supplier_ids d)) (purchase_orders d)"
    "keyed n poi_id (po_item_ok (product_ids d) (po_ids d)) (po_items d)"
    "keyed n so_id (so_ok (user_ids d)) (sales_orders d) \<and> distinct (some_values so_invoice_number (sales_orders d))"
    "keyed n soi_id (so_item_ok (product_ids d) (so_ids d)) (so_items d)"
    "keyed n t_id (txn_ok n (user_ids d) (product_ids d)) (transactions d)"
    "keyed n r_id (return_ok (user_ids d) (product_ids d) (so_ids d)) (return_requests d)"
    "keyed n n_id (notification_ok n (user_ids d)) (notifications d)"
  using assms unfolding typed_def by simp_all

lemma typed_forget_user:
  assumes "typed n d"
  shows "typed n (forget_user i d)"
proof -
  note t = typed_parts [OF assms]
  have "keyed n u_id (user_ok (user_ids d)) (delete_rows (\<lambda>r. u_id r = i) (users d))"
    using t(1) keyed_delete by blast
  then have "keyed n u_id (user_ok (user_ids d - {i})) (users (forget_user i d))"
    by (simp add: forget_user_def, elim keyed_map) (simp_all add: user_ok_def drop_ref_fits)
  moreover have "keyed n c_id (category_ok (user_ids d - {i})) (categories (forget_user i d))"
    using t(2) by (simp add: forget_user_def, elim conjE keyed_map) (simp_all add: category_ok_def drop_ref_fits)
  moreover have "keyed n s_id (supplier_ok (user_ids d - {i})) (suppliers (forget_user i d))"
    using t(3) by (simp add: forget_user_def, elim conjE keyed_map) (simp_all add: supplier_ok_def drop_ref_fits)
  moreover have "keyed n p_id (product_ok (user_ids d - {i}) (category_ids d) (supplier_ids d)) (products (forget_user i d))"
    using t(4) by (simp add: forget_user_def, elim conjE keyed_map) (simp_all add: product_ok_def drop_ref_fits)
  moreover have "keyed n po_id (po_ok (user_ids d - {i}) (supplier_ids d)) (purchase_orders (forget_user i d))"
    using t(5) by (simp add: forget_user_def, elim conjE keyed_map) (simp_all add: po_ok_def drop_ref_fits)
  moreover have "keyed n so_id (so_ok (user_ids d - {i})) (sales_orders (forget_user i d))"
    using t(7) by (simp add: forget_user_def, elim conjE keyed_map) (simp_all add: so_ok_def drop_ref_fits)
  moreover have "keyed n t_id (txn_ok n (user_ids d - {i}) (product_ids d)) (transactions (forget_user i d))"
    using t(9) by (simp add: forget_user_def, elim conjE keyed_map) (simp_all add: txn_ok_def drop_ref_fits)
  moreover have "keyed n r_id (return_ok (user_ids d - {i}) (product_ids d) (so_ids d)) (return_requests (forget_user i d))"
    using t(10) by (simp add: forget_user_def, elim conjE keyed_map) (simp_all add: return_ok_def drop_ref_fits)
  moreover have "keyed n n_id (notification_ok n (user_ids d)) (delete_rows (\<lambda>r. n_user r = i) (notifications d))"
    using t(11) by (rule keyed_delete)
  then have "keyed n n_id (notification_ok n (user_ids d - {i})) (notifications (forget_user i d))"
    by (simp add: forget_user_def, elim keyed_weaken) (simp add: notification_ok_def delete_rows_def)
  moreover have "distinct (map u_email (users (forget_user i d)))"
    using t(1) by (simp add: forget_user_def delete_rows_def comp_def distinct_map_filter)
  moreover have "distinct (map c_name (categories (forget_user i d)))" "distinct (map s_email (suppliers (forget_user i d)))"
    "distinct (map p_sku (products (forget_user i d)))" "distinct (some_values so_invoice_number (sales_orders (forget_user i d)))"
    using t(2-4,7) by (simp_all add: forget_user_def some_values_def comp_def)
  moreover have "po_items (forget_user i d) = po_items d" "so_items (forget_user i d) = so_items d"
    by (simp_all add: forget_user_def)
  ultimately show ?thesis
    using t(6,8) unfolding typed_def user_ids_forget map_ids_forget by (simp only: simp_thms)
qed

lemma typed_delete_record:
  assumes "delete_record m i d = Some d'" "typed n d"
  shows "typed n d'"
proof -
  note t = typed_parts [OF assms(2)]
  show ?thesis
  proof (cases m)
    case DelUser
    with assms typed_forget_user show ?thesis by auto
  next
    case DelCategory
    with assms(1) have d': "d' = d\<lparr>categories := delete_rows (\<lambda>r. c_id r = i) (categories d)\<rparr>"
      and ok: "\<forall>p \<in> set (products d). p_category p \<noteq> i" by (auto simp: list_ex_iff split: if_splits)
    have "keyed n p_id (product_ok (user_ids d) (category_ids d - {i}) (supplier_ids d)) (products d)"
      using t(4) ok by (elim conjE keyed_weaken) (auto simp: product_ok_def)
    then show ?thesis using assms(2)
      by (simp add: d' typed_def keyed_delete deleted_ids) (simp add: delete_rows_def distinct_map_filter)
  next
    case DelSupplier
    with assms(1) have d': "d' = d\<lparr>suppliers := delete_rows (\<lambda>r. s_id r = i) (suppliers d)\<rparr>"
      and ok: "\<forall>p \<in> set (products d). p_supplier p \<noteq> i" "\<forall>x \<in> set (purchase_orders d). po_supplier x \<noteq> i"
      by (auto simp: list_ex_iff split: if_splits)
    have "keyed n p_id (product_ok (user_ids d) (category_ids d) (supplier_ids d - {i})) (products d)"
      "keyed n po_id (po_ok (user_ids d) (supplier_ids d - {i})) (purchase_orders d)"
      using t(4,5) ok by (elim conjE keyed_weaken; auto simp: product_ok_def po_ok_def)+
    then show ?thesis using assms(2)
      by (simp add: d' typed_def keyed_delete deleted_ids) (simp add: delete_rows_def distinct_map_filter)
  next
    case DelProduct
    with assms(1) have d': "d' = d\<lparr>products := delete_rows (\<lambda>r. p_id r = i) (products d)\<rparr>"
      and ok: "\<forall>x \<in> set (po_items d). poi_product x \<noteq> i" "\<forall>x \<in> set (so_items d). soi_product x \<noteq> i"
        "\<forall>x \<in> set (transactions d). t_product x \<noteq> i" "\<forall>x \<in> set (return_requests d). r_product x \<noteq> i"
      by (auto simp: list_ex_iff split: if_splits)
    have "keyed n poi_id (po_item_ok (product_ids d - {i}) (po_ids d)) (po_items d)"
      "keyed n soi_id (so_item_ok (product_ids d - {i}) (so_ids d)) (so_items d)"
      "keyed n t_id (txn_ok n (user_ids d) (product_ids d - {i})) (transactions d)"
      "keyed n r_id (return_ok (user_ids d) (product_ids d - {i}) (so_ids d)) (return_requests d)"
      using t(6,8-10) ok by (elim conjE keyed_weaken; auto simp: po_item_ok_def so_item_ok_def txn_ok_def return_ok_def)+
    then show ?thesis using assms(2)
      by (simp add: d' typed_def keyed_delete deleted_ids) (simp add: delete_rows_def distinct_map_filter)
  next
    case DelNotification
    with assms show ?thesis by (auto simp: typed_def keyed_delete)
  qed (use assms typed_delete_po typed_delete_so typed_delete_items in \<open>auto simp: list_ex_iff split: if_splits\<close>)
qed

end
