(* ===== verification/Admin.thy ===== *)
theory Admin
  imports Deletion
begin

section \<open>The admin site\<close>

text \<open>
  \<open>apps/*/admin.py\<close>: the options of each \<open>ModelAdmin\<close>, the checks the framework makes of them
  against the tables, and what its add, change and delete forms do to the rows. Names of columns
  are those of the migrated tables; a lookup path is split at its double underscores.
\<close>

subsection \<open>Options\<close>

record inline =
  in_model :: string
  in_autocomplete_fields :: "string list"

text \<open>The permission methods are the framework's unless overridden; the override here is \<open>False\<close>. The
  form of \<open>DjangoUserAdmin\<close> shows the password without letting one change it (\<open>ma_disabled\<close>).\<close>

datatype permission_method = Framework | Never

datatype admin_action = Add | Change | Delete

record model_admin =
  ma_model :: string
  ma_list_display :: "string list"
  ma_list_filter :: "string list"
  ma_search_fields :: "string list"
  ma_autocomplete_fields :: "string list"
  ma_readonly_fields :: "string list"
  ma_inlines :: "inline list"
  ma_fieldsets :: "string list option"
  ma_add_fieldsets :: "string list option"
  ma_disabled :: "string list"
  ma_permission :: "admin_action \<Rightarrow> permission_method"

definition model_admin :: "string \<Rightarrow> model_admin" where
  "model_admin m = \<lparr>ma_model = m, ma_list_display = [], ma_list_filter = [], ma_search_fields = [],
     ma_autocomplete_fields = [], ma_readonly_fields = [], ma_inlines = [], ma_fieldsets = None, ma_add_fieldsets = None, ma_disabled = [],
     ma_permission = (\<lambda>_. Framework)\<rparr>"

definition UserAdmin :: model_admin where
  "UserAdmin = (model_admin ''accounts.user'')\<lparr>
     ma_list_display := [''email'', ''full_name'', ''role'', ''is_active'', ''is_staff'', ''created_at''],
     ma_list_filter := [''role'', ''is_active'', ''is_staff''],
     ma_search_fields := [''email'', ''full_name''],
     ma_readonly_fields := [''id'', ''created_at'', ''updated_at''],
     ma_fieldsets := Some ([''email'', ''password''] @ [''full_name'']
       @ [''role'', ''is_active'', ''is_staff'', ''is_superuser'', ''groups'', ''user_permissions'']
       @ [''last_login'', ''created_at'', ''updated_at'']),
     ma_add_fieldsets := Some [''email'', ''full_name'', ''role'', ''password1'', ''password2''],
     ma_disabled := [''password'']\<rparr>"

definition CategoryAdmin :: model_admin where
  "CategoryAdmin = (model_admin ''catalog.category'')\<lparr>
     ma_list_display := [''name'', ''is_active'', ''created_at''],
     ma_list_filter := [''is_active''],
     ma_search_fields := [''name''],
     ma_readonly_fields := [''id'', ''created_at'', ''updated_at'']\<rparr>"

definition SupplierAdmin :: model_admin where
  "SupplierAdmin = (model_admin ''catalog.supplier'')\<lparr>
     ma_list_display := [''name'', ''email'', ''phone'', ''is_active'', ''created_at''],
     ma_list_filter := [''is_active''],
     ma_search_fields := [''name'', ''email''],
     ma_readonly_fields := [''id'', ''created_at'', ''updated_at'']\<rparr>"

definition ProductAdmin :: model_admin where
  "ProductAdmin = (model_admin ''catalog.product'')\<lparr>
     ma_list_display := [''sku'', ''name'', ''category'', ''supplier'', ''current_stock'', ''selling_price'', ''is_active''],
     ma_list_filter := [''is_active'', ''category'', ''supplier''],
     ma_search_fields := [''sku'', ''name''],
     ma_autocomplete_fields := [''category'', ''supplier''],
     ma_readonly_fields := [''id'', ''created_at'', ''updated_at'']\<rparr>"

definition PurchaseOrderItemInline :: inline where
  "PurchaseOrderItemInline = \<lparr>in_model = ''inventory.purchaseorderitem'', in_autocomplete_fields = [''product'']\<rparr>"

definition PurchaseOrderAdmin :: model_admin where
  "PurchaseOrderAdmin = (model_admin ''inventory.purchaseorder'')\<lparr>
     ma_list_display := [''id'', ''supplier'', ''status'', ''received_at'', ''created_by'', ''created_at''],
     ma_list_filter := [''status''],
     ma_search_fields := [''id__iexact'', ''supplier__name''],
     ma_autocomplete_fields := [''supplier''],
     ma_readonly_fields := [''id'', ''created_at'', ''updated_at'', ''received_at''],
     ma_inlines := [PurchaseOrderItemInline]\<rparr>"

definition SalesOrderItemInline :: inline where
  "SalesOrderItemInline = \<lparr>in_model = ''inventory.salesorderitem'', in_autocomplete_fields = [''product'']\<rparr>"

definition SalesOrderAdmin :: model_admin where
  "SalesOrderAdmin = (model_admin ''inventory.salesorder'')\<lparr>
     ma_list_display := [''id'', ''customer_name'', ''status'', ''invoice_number'', ''created_by'', ''created_at''],
     ma_list_filter := [''status''],
     ma_search_fields := [''id__iexact'', ''customer_name'', ''invoice_number''],
     ma_readonly_fields := [''id'', ''created_at'', ''updated_at'', ''invoiced_at'', ''invoice_number''],
     ma_inlines := [SalesOrderItemInline]\<rparr>"

definition ReturnAdmin :: model_admin where
  "ReturnAdmin = (model_admin ''inventory.return'')\<lparr>
     ma_list_display := [''id'', ''sales_order'', ''product'', ''quantity'', ''status'', ''approved_by'', ''created_at''],
     ma_list_filter := [''status''],
     ma_search_fields := [''id__iexact''],
     ma_autocomplete_fields := [''sales_order'', ''product''],
     ma_readonly_fields := [''id'', ''created_at'', ''approved_by'']\<rparr>"

text \<open>\<open>_meta.fields\<close>: every column that is not kept in a table of its own.\<close>

definition meta_fields :: "table \<Rightarrow> string list" where
  "meta_fields t = map fst (filter (\<lambda>(n, c). case cl_type c of ManyToManyField m \<Rightarrow> False | _ \<Rightarrow> True) t)"

definition InventoryTransactionAdmin :: "(string \<Rightarrow> table) \<Rightarrow> model_admin" where
  "InventoryTransactionAdmin ft = (model_admin ''inventory.inventorytransaction'')\<lparr>
     ma_list_display := [''id'', ''product'', ''quantity'', ''transaction_type'', ''reference_id'', ''created_by'', ''created_at''],
     ma_list_filter := [''transaction_type''],
     ma_search_fields := [''id__iexact'', ''product__name'', ''product__sku'', ''reference_id__iexact''],
     ma_readonly_fields := meta_fields (ft ''inventory.inventorytransaction''),
     ma_permission := (\<lambda>_. Never)\<rparr>"

definition NotificationAdmin :: model_admin where
  "NotificationAdmin = (model_admin ''notifications.notification'')\<lparr>
     ma_list_display := [''user'', ''type'', ''message'', ''is_read'', ''created_at''],
     ma_list_filter := [''type'', ''is_read''],
     ma_search_fields := [''message'', ''user__email''],
     ma_readonly_fields := [''id'', ''created_at'']\<rparr>"

definition registered :: "(string \<Rightarrow> table) \<Rightarrow> model_admin list" where
  "registered ft = [UserAdmin, CategoryAdmin, SupplierAdmin, ProductAdmin, PurchaseOrderAdmin, SalesOrderAdmin, ReturnAdmin,
     InventoryTransactionAdmin ft, NotificationAdmin]"

subsection \<open>The framework's checks\<close>

fun path_of :: "string \<Rightarrow> string list" where
  "path_of [] = [[]]"
| "path_of (a # s) = (case s of
     b # s' \<Rightarrow> if a = CHR 0x5F \<and> b = CHR 0x5F then [] # path_of s' else
       (case path_of s of p # ps \<Rightarrow> (a # p) # ps | [] \<Rightarrow> [[a]])
   | [] \<Rightarrow> [[a]])"

text \<open>A search path ends in a column that is not a relation, or in a column and \<open>iexact\<close>; the text search
  on a UUID needs the latter.\<close>

fun searchable :: "(string \<Rightarrow> table) \<Rightarrow> string \<Rightarrow> string list \<Rightarrow> bool" where
  "searchable ft m [] = False"
| "searchable ft m (f # rest) = (case map_of (ft m) f of
     None \<Rightarrow> False
   | Some c \<Rightarrow> (case cl_type c of
       ForeignKey m' od \<Rightarrow> searchable ft m' rest
     | UUIDField \<Rightarrow> rest = [''iexact'']
     | CharField n \<Rightarrow> rest = [] \<or> rest = [''iexact'']
     | EmailField n \<Rightarrow> rest = [] \<or> rest = [''iexact'']
     | _ \<Rightarrow> False))"

definition autocompletes :: "model_admin list \<Rightarrow> table \<Rightarrow> string \<Rightarrow> bool" where
  "autocompletes mas t f = (case map_of t f of
     Some c \<Rightarrow> (case cl_type c of
       ForeignKey m od \<Rightarrow> list_ex (\<lambda>ma. ma_model ma = m \<and> ma_search_fields ma \<noteq> []) mas | _ \<Rightarrow> False)
   | None \<Rightarrow> False)"

text \<open>A column a form may offer: editable, and not stamped by the model.\<close>

definition offered :: "table \<Rightarrow> string \<Rightarrow> bool" where
  "offered t f = (case map_of t f of Some c \<Rightarrow> cl_editable c \<and> cl_stamp c = NoStamp | None \<Rightarrow> False)"

definition inline_ok :: "model_admin list \<Rightarrow> (string \<Rightarrow> table) \<Rightarrow> string \<Rightarrow> inline \<Rightarrow> bool" where
  "inline_ok mas ft parent il \<longleftrightarrow>
     length (filter (\<lambda>(n, c). case cl_type c of ForeignKey m od \<Rightarrow> m = parent | _ \<Rightarrow> False) (ft (in_model il))) = 1
   \<and> list_all (autocompletes mas (ft (in_model il))) (in_autocomplete_fields il)"

definition options_ok :: "model_admin list \<Rightarrow> (string \<Rightarrow> table) \<Rightarrow> model_admin \<Rightarrow> bool" where
  "options_ok mas ft ma = (let t = ft (ma_model ma); known = (\<lambda>f. f \<in> set (map fst t)) in
     list_all known (ma_list_display ma @ ma_list_filter ma @ ma_readonly_fields ma)
   \<and> list_all (\<lambda>f. f \<in> set (meta_fields t)) (ma_list_display ma)
   \<and> list_all (\<lambda>p. searchable ft (ma_model ma) (path_of p)) (ma_search_fields ma)
   \<and> list_all (autocompletes mas t) (ma_autocomplete_fields ma)
   \<and> list_all (inline_ok mas ft (ma_model ma)) (ma_inlines ma)
   \<and> (case ma_fieldsets ma of None \<Rightarrow> True
      | Some fs \<Rightarrow> distinct fs \<and> list_all (\<lambda>f. offered t f \<or> f \<in> set (ma_readonly_fields ma)) fs)
   \<and> (case ma_add_fieldsets ma of None \<Rightarrow> True
      | Some fs \<Rightarrow> distinct fs \<and> list_all (\<lambda>f. offered t f \<or> f \<in> {''password1'', ''password2''}) fs))"


subsection \<open>Forms\<close>

definition change_fields :: "(string \<Rightarrow> table) \<Rightarrow> model_admin \<Rightarrow> string list" where
  "change_fields ft ma = (let t = ft (ma_model ma) in
     filter (\<lambda>f. f \<in> set (meta_fields t) \<and> offered t f \<and> f \<notin> set (ma_readonly_fields ma) \<and> f \<notin> set (ma_disabled ma))
       (case ma_fieldsets ma of None \<Rightarrow> map fst t | Some fs \<Rightarrow> fs))"

text \<open>The two passwords of an add form become the \<open>password\<close> column.\<close>

definition add_fields :: "(string \<Rightarrow> table) \<Rightarrow> model_admin \<Rightarrow> string list" where
  "add_fields ft ma = (case ma_add_fieldsets ma of
     None \<Rightarrow> change_fields ft ma
   | Some fs \<Rightarrow> filter (offered (ft (ma_model ma))) fs @ (if ''password1'' \<in> set fs then [''password''] else []))"

definition rows_in :: "string \<Rightarrow> store \<Rightarrow> row list" where
  "rows_in m st = (case map_of st m of None \<Rightarrow> [] | Some rows \<Rightarrow> rows)"

definition store_ids :: "store \<Rightarrow> string \<Rightarrow> uuid list" where
  "store_ids st m = concat (map (\<lambda>r. case cell ''id'' r of UuidV i \<Rightarrow> [i] | _ \<Rightarrow> []) (rows_in m st))"

definition put_rows :: "string \<Rightarrow> row list \<Rightarrow> store \<Rightarrow> store" where
  "put_rows m rows st = map (\<lambda>(m', rows'). if m' = m then (m', rows) else (m', rows')) st"

definition posted_ok :: "(string \<Rightarrow> uuid list) \<Rightarrow> table \<Rightarrow> row \<Rightarrow> bool" where
  "posted_ok ids t vals \<longleftrightarrow> list_all (\<lambda>(n, v). case map_of t n of
     None \<Rightarrow> False
   | Some c \<Rightarrow> value_fits ids c v \<and> (cl_blank c \<or> v \<noteq> Null \<and> v \<noteq> TextV [])) vals"

definition set_cells :: "time \<Rightarrow> table \<Rightarrow> row \<Rightarrow> row \<Rightarrow> row" where
  "set_cells now t vals r = map (\<lambda>(n, v). case map_of vals n of
     Some w \<Rightarrow> (n, w)
   | None \<Rightarrow> (n, if map_option cl_stamp (map_of t n) = Some AutoNow then TimeV now else v)) r"

definition new_row :: "uuid \<Rightarrow> time \<Rightarrow> table \<Rightarrow> row \<Rightarrow> row" where
  "new_row drawn now t vals = map (\<lambda>(n, c). (n, case map_of vals n of
       Some w \<Rightarrow> w
     | None \<Rightarrow> if cl_stamp c \<noteq> NoStamp then TimeV now
               else (case cl_default c of Uuid4 \<Rightarrow> UuidV drawn | Default v \<Rightarrow> v | NoDefault \<Rightarrow> Null)))
     (filter (\<lambda>(n, c). n \<in> set (meta_fields t)) t)"

type_synonym row_change = "store \<Rightarrow> exn + store"

definition admin_change :: "(string \<Rightarrow> table) \<Rightarrow> model_admin \<Rightarrow> time \<Rightarrow> uuid \<Rightarrow> row \<Rightarrow> row_change" where
  "admin_change ft ma now i posted st =
     (let m = ma_model ma; t = ft m;
          vals = filter (\<lambda>(n, v). n \<in> set (change_fields ft ma)) posted;
          rows = map (\<lambda>r. if cell ''id'' r = UuidV i then set_cells now t vals r else r) (rows_in m st)
      in bindE (guardE (i \<in> set (store_ids st m)) Http404) (\<lambda>_.
         bindE (guardE (posted_ok (store_ids st) t vals \<and> keys_unique t rows) (ValidationError [])) (\<lambda>_.
           Inr (put_rows m rows st))))"

definition admin_add :: "(string \<Rightarrow> table) \<Rightarrow> model_admin \<Rightarrow> uuid \<Rightarrow> time \<Rightarrow> row \<Rightarrow> row_change" where
  "admin_add ft ma drawn now posted st =
     (let m = ma_model ma; t = ft m;
          vals = filter (\<lambda>(n, v). n \<in> set (add_fields ft ma)) posted;
          rows = rows_in m st @ [new_row drawn now t vals]
      in bindE (guardE (posted_ok (store_ids st) t vals \<and> keys_unique t rows) (ValidationError [])) (\<lambda>_.
           Inr (put_rows m rows st)))"

definition admin_delete :: "(string \<times> table \<times> string list) list \<Rightarrow> model_admin \<Rightarrow> uuid \<Rightarrow> row_change" where
  "admin_delete ts ma i st =
     bindE (guardE (i \<in> set (store_ids st (ma_model ma))) Http404) (\<lambda>_.
       some_or (ProtectedError (ma_model ma)) (delete_object ts (ma_model ma) i st))"

subsection \<open>Requests\<close>

text \<open>
  \<open>perms u m a\<close>: whether the framework's permission tables grant the action on the model to the
  user; a superuser has them all. The lines of an order are edited with it, under the model of
  the inline.
\<close>

definition admin_permission :: "(user \<Rightarrow> string \<Rightarrow> admin_action \<Rightarrow> bool) \<Rightarrow> user \<Rightarrow> model_admin \<Rightarrow> admin_action \<Rightarrow> bool" where
  "admin_permission perms u ma a \<longleftrightarrow> u_is_active u \<and> u_is_staff u \<and> ma_permission ma a = Framework
     \<and> (u_is_superuser u \<or> perms u (ma_model ma) a)"

definition editable_models :: "(string \<Rightarrow> table) \<Rightarrow> model_admin list" where
  "editable_models ft = registered ft @ concat (map (\<lambda>ma. map (\<lambda>il. model_admin (in_model il)) (ma_inlines ma)) (registered ft))"

datatype admin_request =
    AddRow uuid time row
  | ChangeRow time uuid row
  | DeleteRow uuid

fun action_needed :: "admin_request \<Rightarrow> admin_action" where
  "action_needed (AddRow _ _ _) = Add"
| "action_needed (ChangeRow _ _ _) = Change"
| "action_needed (DeleteRow _) = Delete"

fun perform :: "(string \<times> table \<times> string list) list \<Rightarrow> model_admin \<Rightarrow> admin_request \<Rightarrow> row_change" where
  "perform ts ma (AddRow drawn now posted) = admin_add (fields_of ts) ma drawn now posted"
| "perform ts ma (ChangeRow now i posted) = admin_change (fields_of ts) ma now i posted"
| "perform ts ma (DeleteRow i) = admin_delete ts ma i"

definition serve_admin ::
  "(user \<Rightarrow> string \<Rightarrow> admin_action \<Rightarrow> bool) \<Rightarrow> (string \<times> table \<times> string list) list
     \<Rightarrow> user \<Rightarrow> string \<Rightarrow> admin_request \<Rightarrow> row_change" where
  "serve_admin perms ts u m r st =
     bindE (some_or Http404 (find (\<lambda>ma. ma_model ma = m) (editable_models (fields_of ts)))) (\<lambda>ma.
     bindE (guardE (admin_permission perms u ma (action_needed r)) PermissionDenied) (\<lambda>_.
       perform ts ma r st))"

type_synonym admin_event = "user \<times> string \<times> admin_request"

fun admin_after ::
  "(user \<Rightarrow> string \<Rightarrow> admin_action \<Rightarrow> bool) \<Rightarrow> (string \<times> table \<times> string list) list \<Rightarrow> admin_event \<Rightarrow> store \<Rightarrow> store" where
  "admin_after perms ts (u, m, r) st = (case serve_admin perms ts u m r st of Inl e \<Rightarrow> st | Inr st' \<Rightarrow> st')"

subsection \<open>The options are consistent\<close>

lemma schema_lookup: "fields_of schema = fields_of final_tables"
  by (simp add: fields_of_def schema_tables fun_eq_iff)

lemma options_hold: "list_all (options_ok (registered (fields_of final_tables)) (fields_of final_tables)) (registered (fields_of final_tables))"
  by code_simp

lemma forms_offer:
  "change_fields (fields_of final_tables) ProductAdmin = [''sku'', ''name'', ''description'', ''cost_price'', ''selling_price'',
     ''current_stock'', ''low_stock_threshold'', ''is_active'', ''category'', ''created_by'', ''supplier'']"
  "change_fields (fields_of final_tables) PurchaseOrderAdmin = [''status'', ''created_by'', ''supplier'']"
  "change_fields (fields_of final_tables) SalesOrderAdmin = [''status'', ''customer_name'', ''customer_phone'', ''created_by'']"
  "change_fields (fields_of final_tables) ReturnAdmin = [''quantity'', ''reason'', ''status'', ''created_by'', ''product'', ''sales_order'']"
  "change_fields (fields_of final_tables) (InventoryTransactionAdmin (fields_of final_tables)) = []"
  by code_simp+


text \<open>The options of every registered admin are consistent with the migrated tables: every column
  they list, filter on or show exists, every search path ends in a column text can be searched
  in, every autocomplete field refers to a model whose admin is searchable, every inline has one
  reference to its order, and every column of a field set is one a form can offer or show.\<close>
theorem admin_options_are_consistent:
  "list_all (options_ok (registered (fields_of schema)) (fields_of schema)) (registered (fields_of schema))"
  unfolding schema_lookup by (rule options_hold)

subsection \<open>The ledger behind the admin site\<close>

definition ledger_table :: string where
  "ledger_table = ''inventory.inventorytransaction''"

definition same_but_author :: "row \<Rightarrow> row \<Rightarrow> bool" where
  "same_but_author r r' \<longleftrightarrow> map fst r' = map fst r \<and> (\<forall>n. n \<noteq> ''created_by'' \<longrightarrow> cell n r' = cell n r)"

lemma same_but_author_refl: "same_but_author r r"
  by (simp add: same_but_author_def)

lemma same_but_author_trans: "same_but_author a b \<Longrightarrow> same_but_author b c \<Longrightarrow> same_but_author a c"
  by (simp add: same_but_author_def)

lemma ledger_fields: "fields_of schema ledger_table = inventory_transaction_fields"
  by (simp add: ledger_table_def schema_fields)

lemma ledger_never_cascades: "refers CASCADE inventory_transaction_fields gone r = False"
  by (simp add: refers_def field_defs)

lemma ledger_survives_cascades:
  "(ledger_table, v) \<notin> set gone \<Longrightarrow> (ledger_table, v) \<notin> set (cascaded k schema st gone)"
proof (induction k arbitrary: gone)
  case (Suc k)
  let ?more = "concat (map (\<lambda>(m, rows). map (\<lambda>r. (m, cell ''id'' r)) (filter (refers CASCADE (fields_of schema m) gone) rows)) st)"
  have "(ledger_table, v) \<notin> set ?more" by (auto simp: ledger_fields ledger_never_cascades)
  from Suc.IH [OF this] Suc.prems show ?case by (simp add: Let_def)
qed simp

lemma map_of_cells: "map_of (map (\<lambda>(n, v). (n, g n v)) r) n = map_option (g n) (map_of r n)"
  by (induction r) auto

lemma nullify_cells:
  "nullify t gone r = map (\<lambda>(n, v). (n, case map_of t n of
     Some c \<Rightarrow> (case cl_type c of ForeignKey m od \<Rightarrow> if od = SET_NULL \<and> (m, v) \<in> set gone then Null else v | _ \<Rightarrow> v)
   | None \<Rightarrow> v)) r"
  by (auto simp: nullify_def split: option.splits field_type.splits)

lemma nullify_ledger: "same_but_author r (nullify inventory_transaction_fields gone r)"
proof -
  let ?g = "\<lambda>n v. case map_of inventory_transaction_fields n of
     Some c \<Rightarrow> (case cl_type c of ForeignKey m od \<Rightarrow> if od = SET_NULL \<and> (m, v) \<in> set gone then Null else v | _ \<Rightarrow> v)
   | None \<Rightarrow> v"
  have "?g n v = v" if "n \<noteq> ''created_by''" for n v
    using that by (simp add: inventory_transaction_fields_def column_defs)
  then show ?thesis
    unfolding same_but_author_def nullify_cells cell_def map_of_cells
    by (auto simp: comp_def case_prod_beta option.map_comp split: option.split)
qed

lemma rows_in_map: "rows_in m (map (\<lambda>(m', rows). (m', f m' rows)) st) = (case map_of st m of None \<Rightarrow> [] | Some rows \<Rightarrow> f m rows)"
  unfolding rows_in_def map_of_cells by (simp split: option.split)

lemma delete_keeps_ledger:
  assumes "delete_object schema m i st = Some st'" "m \<noteq> ledger_table"
  shows "list_all2 same_but_author (rows_in ledger_table st) (rows_in ledger_table st')"
proof -
  let ?gone = "cascaded (length schema) schema st [(m, UuidV i)]"
  from assms(1) have st': "st' = map (\<lambda>(m, rows). (m, map (nullify (fields_of schema m) ?gone)
      (filter (\<lambda>r. (m, cell ''id'' r) \<notin> set ?gone) rows))) st"
    by (simp add: delete_object_def Let_def split: if_splits)
  have "(ledger_table, v) \<notin> set ?gone" for v
    by (rule ledger_survives_cascades) (use assms(2) in simp)
  then have "rows_in ledger_table st' = map (nullify inventory_transaction_fields ?gone) (rows_in ledger_table st)"
    unfolding st' rows_in_map by (simp add: rows_in_def ledger_fields split: option.split)
  then show ?thesis by (simp add: list_all2_conv_all_nth nullify_ledger)
qed

lemma put_keeps_others: "m \<noteq> m' \<Longrightarrow> rows_in m' (put_rows m rows st) = rows_in m' st"
proof -
  have "put_rows m rows st = map (\<lambda>(x, y). (x, if x = m then rows else y)) st"
    by (auto simp: put_rows_def)
  then show "m \<noteq> m' \<Longrightarrow> ?thesis" by (simp only: rows_in_map) (simp add: rows_in_def split: option.split)
qed

lemma perform_keeps_ledger:
  assumes "perform schema ma r st = Inr st'" "ma_model ma \<noteq> ledger_table"
  shows "list_all2 same_but_author (rows_in ledger_table st) (rows_in ledger_table st')"
proof (cases r)
  case (DeleteRow i)
  with assms(1) have "delete_object schema (ma_model ma) i st = Some st'" by (auto simp: admin_delete_def bind_elims)
  then show ?thesis by (rule delete_keeps_ledger [OF _ assms(2)])
qed (use assms in \<open>auto simp: admin_add_def admin_change_def bind_elims Let_def put_keeps_others list_all2_conv_all_nth
    same_but_author_refl\<close>)

lemma ledger_admin_refuses:
  assumes "ma \<in> set (editable_models (fields_of schema))" "ma_model ma = ledger_table"
  shows "\<not> admin_permission perms u ma a"
proof -
  have "list_all (\<lambda>ma. ma_model ma \<noteq> ledger_table \<or> ma_permission ma a = Never) (editable_models ft)" for ft
    by (simp add: editable_models_def registered_def ledger_table_def model_admin_def UserAdmin_def CategoryAdmin_def
        SupplierAdmin_def ProductAdmin_def PurchaseOrderAdmin_def SalesOrderAdmin_def ReturnAdmin_def NotificationAdmin_def
        InventoryTransactionAdmin_def PurchaseOrderItemInline_def SalesOrderItemInline_def)
  with assms have "ma_permission ma a = Never" by (auto simp: list_all_iff)
  then show ?thesis by (simp add: admin_permission_def)
qed

lemma admin_after_keeps_ledger:
  "list_all2 same_but_author (rows_in ledger_table st) (rows_in ledger_table (admin_after perms schema e st))"
proof -
  have same: "list_all2 same_but_author (rows_in ledger_table st) (rows_in ledger_table st)"
    by (simp add: list_all2_conv_all_nth same_but_author_refl)
  obtain u m r where e: "e = (u, m, r)" by (cases e)
  show ?thesis
  proof (cases "serve_admin perms schema u m r st")
    case (Inl x)
    with e same show ?thesis by simp
  next
    case (Inr st')
    then obtain ma where ma: "find (\<lambda>ma. ma_model ma = m) (editable_models (fields_of schema)) = Some ma"
      "admin_permission perms u ma (action_needed r)" "perform schema ma r st = Inr st'"
      by (auto simp: serve_admin_def bind_elims)
    have "ma \<in> set (editable_models (fields_of schema))" using ma(1) by (auto simp: find_Some_iff)
    with ledger_admin_refuses ma(2) have "ma_model ma \<noteq> ledger_table" by blast
    from perform_keeps_ledger [OF ma(3) this] e Inr show ?thesis by simp
  qed
qed

text \<open>C24. The ledger behind the admin site: whatever anyone with access to the admin site adds, changes
  or deletes there, superusers included, no ledger row is added or removed, and none changes but
  in its author.\<close>
theorem admin_keeps_the_ledger:
  "list_all2 same_but_author (rows_in ledger_table st) (rows_in ledger_table (fold (admin_after perms schema) es st))"
proof (induction es arbitrary: st)
  case Nil
  show ?case by (simp add: list_all2_conv_all_nth same_but_author_refl)
next
  case (Cons e es)
  from list_all2_trans [OF same_but_author_trans admin_after_keeps_ledger Cons.IH] show ?case by simp
qed


subsection \<open>The author of a ledger row\<close>

lemma user_store_ids: "store_ids (rows_of d) ''accounts.user'' = map u_id (users d)"
  using ids_of_tables(1) [of d] by (simp add: store_ids_def ids_of_def rows_in_def rows_of_def)

lemma admin_deletes_user:
  assumes "conforms schema d" "i \<in> user_ids d" "u_is_active u" "u_is_staff u" "u_is_superuser u"
  shows "serve_admin perms schema u ''accounts.user'' (DeleteRow i) (rows_of d) = Inr (rows_of (forget_user i d))"
proof -
  have "delete_object schema ''accounts.user'' i (rows_of d) = Some (rows_of (forget_user i d))"
    using deletions_follow_the_schema_facts [OF assms(1), of DelUser i] by simp
  moreover have "ma_model UserAdmin = ''accounts.user''" "ma_permission UserAdmin Delete = Framework"
    by (simp_all add: UserAdmin_def model_admin_def)
  ultimately show ?thesis
    using assms(2-5)
    by (simp add: serve_admin_def editable_models_def registered_def admin_permission_def admin_delete_def user_store_ids)
qed

text \<open>C25. The exception: a superuser who deletes a user through the admin site takes the author off
  every ledger row that user wrote (and off every order, return and catalog row), since these
  references are set to null. Nothing else of the ledger changes, the books stay balanced or not
  as they were, and the rows still conform to the schema.\<close>
theorem deleting_a_user_rewrites_the_ledger:
  assumes "conforms schema d" "i \<in> u_id ` set (users d)" "u_is_active u" "u_is_staff u" "u_is_superuser u"
  shows "\<exists>d'. serve_admin perms schema u ''accounts.user'' (DeleteRow i) (rows_of d) = Inr (rows_of d')
    \<and> transactions d' = map (\<lambda>t. t\<lparr>t_created_by := (if t_created_by t = Some i then None else t_created_by t)\<rparr>) (transactions d)
    \<and> balanced d' = balanced d \<and> conforms schema d'"
proof (intro exI conjI)
  show "serve_admin perms schema u ''accounts.user'' (DeleteRow i) (rows_of d) = Inr (rows_of (forget_user i d))"
    by (rule admin_deletes_user [OF assms])
  show "transactions (forget_user i d)
      = map (\<lambda>t. t\<lparr>t_created_by := (if t_created_by t = Some i then None else t_created_by t)\<rparr>) (transactions d)"
    by (simp add: forget_user_def drop_ref_def)
  show "conforms schema (forget_user i d)"
    using typed_forget_user assms(1) by (simp add: conforms_iff)
  have "levels_of (forget_user i d) = levels_of d" by (simp add: levels_of_def forget_user_def)
  moreover have "ledger_total (forget_user i d) = ledger_total d"
  proof
    fix j
    have "total signed_quantity (filter (\<lambda>t. t_product t = j) (map (\<lambda>r. r\<lparr>t_created_by := drop_ref i (t_created_by r)\<rparr>) ts))
        = total signed_quantity (filter (\<lambda>t. t_product t = j) ts)" for ts
      by (induction ts) (simp_all add: signed_quantity.simps split: txn_type.split)
    then show "ledger_total (forget_user i d) j = ledger_total d j" by (simp add: ledger_total_def forget_user_def)
  qed
  ultimately show "balanced (forget_user i d) = balanced d" by (simp add: balanced_levels)
qed

theorem deleting_a_user_rewrites_the_ledger_witness:
  "\<exists>d'. serve_admin (\<lambda>_ _ _. False) schema (sample_manager\<lparr>u_is_staff := True, u_is_superuser := True\<rparr>) ''accounts.user''
       (DeleteRow 1) (rows_of clean_db) = Inr (rows_of d')
     \<and> map t_created_by (transactions d') = [None, None, None]
     \<and> map t_created_by (transactions clean_db) = [Some 1, Some 1, Some 1] \<and> balanced d'"
proof -
  let ?root = "sample_manager\<lparr>u_is_staff := True, u_is_superuser := True\<rparr>"
  have "1 \<in> u_id ` set (users clean_db)" "u_is_active ?root" "u_is_staff ?root" "u_is_superuser ?root"
    by (simp_all add: clean_db_def sample_user_def)
  from deleting_a_user_rewrites_the_ledger [OF clean_conforms(1) this, of "\<lambda>_ _ _. False"]
  obtain d' where d': "serve_admin (\<lambda>_ _ _. False) schema ?root ''accounts.user'' (DeleteRow 1) (rows_of clean_db) = Inr (rows_of d')"
    "transactions d' = map (\<lambda>t. t\<lparr>t_created_by := (if t_created_by t = Some 1 then None else t_created_by t)\<rparr>) (transactions clean_db)"
    "balanced d' = balanced clean_db" by blast
  have "map t_created_by (transactions clean_db) = [Some 1, Some 1, Some 1]" by (simp add: clean_db_def sample_defs)
  moreover have "map t_created_by (transactions d') = map (\<lambda>x. if x = Some 1 then None else x) (map t_created_by (transactions clean_db))"
    by (simp add: d'(2))
  moreover have "balanced clean_db" using clean_books by (simp add: inventory_inv_def)
  ultimately show ?thesis using d'(1,3) by auto
qed

end
