(* ===== verification/Refusals.thy ===== *)
theory Refusals
  imports Site_Rows
begin

section \<open>Requests that are turned away\<close>

text \<open>
  \<open>apps/core/exceptions.py\<close>: the exception handler of the framework, wrapped so that throttled
  requests are logged. \<open>APIView.initial\<close> raises before the view runs; this theory takes the path of
  a request apart at that point and puts the handler back in.
\<close>

datatype refusal =
    NotAuthenticated
  | NotPermitted "user option"
  | Throttled "user option" "nat option"

text \<open>What the log line of the handler carries; \<open>kwargs\<close> of \<open>logger.warning("throttled", ...)\<close>.\<close>

record throttled_line =
  tl_scope :: "string option"
  tl_path :: string
  tl_method :: string
  tl_actor_id :: "string option"
  tl_wait_seconds :: "nat option"

text \<open>The context the framework hands to the handler: the request and the view. \<open>cx_user\<close> is \<open>None\<close> for the
  anonymous user, which is not authenticated.\<close>

record refusal_context =
  cx_throttle_scope :: "string option"
  cx_path :: string
  cx_method :: string
  cx_user :: "user option"

definition logging_exception_handler ::
  "(refusal \<Rightarrow> response) \<Rightarrow> refusal \<Rightarrow> refusal_context \<Rightarrow> response \<times> throttled_line list" where
  "logging_exception_handler default_exception_handler exc context =
     (let response = default_exception_handler exc in
      case exc of
        Throttled who wait \<Rightarrow> (response, [\<lparr>tl_scope = cx_throttle_scope context, tl_path = cx_path context,
          tl_method = cx_method context, tl_actor_id = map_option (\<lambda>u. str_uuid (u_id u)) (cx_user context),
          tl_wait_seconds = wait\<rparr>])
      | _ \<Rightarrow> (response, []))"

text \<open>The answers of the framework's own handler; the wait it adds to the text for a throttled request is
  left out.\<close>

fun framework_answer :: "refusal \<Rightarrow> response" where
  "framework_answer NotAuthenticated = Response 401 (Detail ''Given token not valid for any token type'')"
| "framework_answer (NotPermitted who) = denied who"
| "framework_answer (Throttled who wait) = Response 429 (Detail ''Request was throttled.'')"

text \<open>\<open>APIView.initial\<close>: what it raises, if anything. \<open>wait\<close> is what the throttle says is left to wait.\<close>

definition initial ::
  "('c \<Rightarrow> db \<Rightarrow> user option option) \<Rightarrow> (string \<Rightarrow> user option \<Rightarrow> time \<Rightarrow> bool) \<Rightarrow> (string \<Rightarrow> user option \<Rightarrow> time \<Rightarrow> nat option)
     \<Rightarrow> 'c \<Rightarrow> time \<Rightarrow> site_request \<Rightarrow> db \<Rightarrow> refusal option" where
  "initial auth admits wait cred now r d =
     (case requester auth cred r d of
        None \<Rightarrow> Some NotAuthenticated
      | Some who \<Rightarrow> (case route r of (e, a) \<Rightarrow>
          if \<not> has_permission (permission_of e a) who then Some (NotPermitted who)
          else if \<not> admits (throttle_scope e a) who now then Some (Throttled who (wait (throttle_scope e a) who now))
          else None))"

text \<open>A request with its path and method, served with the handler: the answer, the world, what is logged.\<close>

definition dispatch ::
  "('c \<Rightarrow> db \<Rightarrow> user option option) \<Rightarrow> (string \<Rightarrow> user option \<Rightarrow> time \<Rightarrow> bool) \<Rightarrow> (string \<Rightarrow> user option \<Rightarrow> time \<Rightarrow> nat option)
     \<Rightarrow> password_rules \<Rightarrow> 'c \<Rightarrow> time \<Rightarrow> string \<times> string \<Rightarrow> site_request \<Rightarrow> world \<Rightarrow> (response \<times> world) \<times> throttled_line list" where
  "dispatch auth admits wait rules cred now location r w =
     (let who = (case requester auth cred r (w_db w) of Some who \<Rightarrow> who | None \<Rightarrow> None); (e, a) = route r in
      case initial auth admits wait cred now r (w_db w) of
        Some exc \<Rightarrow>
          (case logging_exception_handler framework_answer exc
              \<lparr>cx_throttle_scope = Some (throttle_scope e a), cx_path = fst location, cx_method = snd location, cx_user = who\<rparr> of
             (response, lines) \<Rightarrow> ((response, w), lines))
      | None \<Rightarrow> (run_view (site_view rules now who r) w, []))"

text \<open>C28. Logging throttled requests changes no answer. With the handler in place every request is
  answered, and changes the data, exactly as without it; a line is logged for a request when and
  only when it is authenticated or anonymous, permitted, and the throttle has no room left, one
  line only, with the scope the action is counted under, the key of the user who was turned away,
  or none for an anonymous one, and the wait the throttle asks for, if it names one; and such a request leaves
  everything as it was.\<close>
theorem throttled_requests_are_logged:
  "fst (dispatch auth admits wait rules cred now location r w) = handle auth admits rules cred now r w
   \<and> snd (dispatch auth admits wait rules cred now location r w)
       = (case (requester auth cred r (w_db w), route r) of
            (Some who, e, a) \<Rightarrow>
              if has_permission (permission_of e a) who \<and> \<not> admits (throttle_scope e a) who now
              then [\<lparr>tl_scope = Some (throttle_scope e a), tl_path = fst location, tl_method = snd location,
                     tl_actor_id = map_option (str_uuid \<circ> u_id) who, tl_wait_seconds = wait (throttle_scope e a) who now\<rparr>]
              else []
          | _ \<Rightarrow> [])
   \<and> (snd (dispatch auth admits wait rules cred now location r w) \<noteq> [] \<longrightarrow>
        handle auth admits rules cred now r w = (Response 429 (Detail ''Request was throttled.''), w))"
proof (cases "requester auth cred r (w_db w)")
  case None
  then show ?thesis
    by (simp add: dispatch_def initial_def handle_def logging_exception_handler_def split: prod.split)
next
  case (Some who)
  obtain e a where r: "route r = (e, a)" by (cases "route r")
  consider "\<not> has_permission (permission_of e a) who"
    | "has_permission (permission_of e a) who" "\<not> admits (throttle_scope e a) who now"
    | "has_permission (permission_of e a) who" "admits (throttle_scope e a) who now" by blast
  then show ?thesis
    by cases (simp_all add: dispatch_def initial_def handle_def logging_exception_handler_def Some r comp_def)
qed

theorem throttled_requests_are_logged_witness:
  "\<exists>line. snd (dispatch sample_auth (\<lambda>_ _ _. False) (\<lambda>_ _ _. Some 7) fitting_rules (Some 2) 6 (''/returns/80/approve/'', ''PATCH'')
       (ToInventory (Approve 80)) (sample_world clean_db)) = [line]
     \<and> tl_scope line = Some ''stock_mutation'' \<and> tl_actor_id line = Some (str_uuid 2)
     \<and> handle sample_auth (\<lambda>_ _ _. False) fitting_rules (Some 2) 6 (ToInventory (Approve 80)) (sample_world clean_db)
         = (Response 429 (Detail ''Request was throttled.''), sample_world clean_db)"
proof -
  let ?max = "sample_manager\<lparr>u_email := ''max@inventra.io''\<rparr>"
  have a: "requester sample_auth (Some 2) (ToInventory (Approve 80)) (w_db (sample_world clean_db)) = Some (Some ?max)"
    by (simp add: requester_def token_endpoints_def sample_world_def clean_db_def sample_db_def sample_user_def get_row_Cons)
  have "u_role ?max = MANAGER" "u_id ?max = 2" by (simp_all add: sample_user_def)
  moreover have "throttle_scope ReturnViewSet ApproveAction = ''stock_mutation''" by code_simp
  ultimately show ?thesis
    using a throttled_requests_are_logged [where auth = sample_auth and admits = "\<lambda>_ _ _. False" and wait = "\<lambda>_ _ _. Some 7"
      and rules = fitting_rules and cred = "Some 2" and now = 6 and location = "(''/returns/80/approve/'', ''PATCH'')"
      and r = "ToInventory (Approve 80)" and w = "sample_world clean_db"] by auto
qed

end
