(* ===== verification/Redelivery.thy ===== *)
theory Redelivery
  imports Tasks
begin

section \<open>Tasks that are delivered again\<close>

text \<open>
  The workers acknowledge a task late (\<open>CELERY_TASK_ACKS_LATE\<close>): when one dies in the middle, the
  broker delivers the task again, so a sweep may be cut off after any number of its alerts, several
  times, before a run gets through. The sweep is not one transaction; each of its alerts is one
  INSERT (\<open>bulk_create\<close>). This theory shows that the sweep makes good what a killed run left.
\<close>

text \<open>A run that is killed after the first \<open>n\<close> candidates.\<close>

definition killed_sweep :: "time \<times> nat \<Rightarrow> db \<Rightarrow> db" where
  "killed_sweep = (\<lambda>(now, n) d. snd (flag now (take n (candidates d)) (0, d)))"

text \<open>Runs that were killed, at their times, and the one that got through.\<close>

definition redelivered_sweep :: "(time \<times> nat) list \<Rightarrow> time \<Rightarrow> db \<Rightarrow> db" where
  "redelivered_sweep attempts now d = snd (sweep_low_stock now (fold killed_sweep attempts d))"

text \<open>The database without the moments at which the alerts were written.\<close>

definition undated :: "db \<Rightarrow> db" where
  "undated d = d\<lparr>notifications := map (\<lambda>n. n\<lparr>n_created_at := 0\<rparr>) (notifications d)\<rparr>"

lemma undated_fields:
  assumes "undated d = undated e"
  shows "products d = products e" "users d = users e" "next_uuid d = next_uuid e"
    "map (\<lambda>n. n\<lparr>n_created_at := 0\<rparr>) (notifications d) = map (\<lambda>n. n\<lparr>n_created_at := 0\<rparr>) (notifications e)"
proof -
  from assms have "products (undated d) = products (undated e)" "users (undated d) = users (undated e)"
    "next_uuid (undated d) = next_uuid (undated e)" "notifications (undated d) = notifications (undated e)" by simp_all
  then show "products d = products e" "users d = users e" "next_uuid d = next_uuid e"
    "map (\<lambda>n. n\<lparr>n_created_at := 0\<rparr>) (notifications d) = map (\<lambda>n. n\<lparr>n_created_at := 0\<rparr>) (notifications e)"
    by (simp_all add: undated_def)
qed

lemma already_flagged_undated: "already_flagged ty i (undated d) = already_flagged ty i d"
  by (auto simp: already_flagged_def undated_def)

lemma undated_flagged:
  assumes "undated d = undated e"
  shows "already_flagged ty i d = already_flagged ty i e"
  using already_flagged_undated [of ty i d] already_flagged_undated [of ty i e] assms by simp

lemma undated_notify: "undated (notify u ty m r now d) = notify u ty m r 0 (undated d)"
  by (simp add: undated_def notify_def)

lemma undated_alert: "undated (notify_admins_and_managers ty m r now d) = notify_admins_and_managers ty m r 0 (undated d)"
proof -
  have "undated (fold (\<lambda>uid. notify uid ty m r now) us d) = fold (\<lambda>uid. notify uid ty m r 0) us (undated d)" for us
    by (induction us arbitrary: d) (simp_all add: undated_notify)
  moreover have "admins_and_managers (undated d) = admins_and_managers d"
    by (simp add: admins_and_managers_def undated_def)
  ultimately show ?thesis by (simp add: notify_admins_and_managers_def)
qed

lemma undated_flag: "undated (snd (flag now cs (k, d))) = snd (flag 0 cs (k, undated d))"
  by (induction now cs "(k, d)" arbitrary: k d rule: flag.induct)
    (simp_all add: already_flagged_undated undated_alert)

lemma flag_count: "snd (flag now cs (k, d)) = snd (flag now cs (0, d))"
proof (induction cs arbitrary: k d)
  case (Cons c cs)
  obtain p ty m where c: "c = (p, ty, m)" by (cases c)
  show ?case unfolding c flag.simps using Cons.IH [of k] Cons.IH [of "Suc k"] Cons.IH [of "Suc 0"] by simp
qed simp

lemma flag_append: "snd (flag now (cs @ cs') (k, d)) = snd (flag now cs' (0, snd (flag now cs (k, d))))"
proof (induction now cs "(k, d)" arbitrary: k d rule: flag.induct)
  case (1 now flagged d)
  then show ?case using flag_count [of now cs' flagged d] by simp
qed simp_all

text \<open>What a run has dealt with, a later one passes over.\<close>

lemma flag_again: "snd (flag now' (take n cs @ cs') (0, snd (flag now (take n cs) (0, d))))
    = snd (flag now' cs' (0, snd (flag now (take n cs) (0, d))))"
proof (cases "admins_and_managers d = []")
  case True
  then show ?thesis by (simp add: flag_nobody flag_frame)
next
  case False
  let ?d = "snd (flag now (take n cs) (0, d))"
  have "flag now' (take n cs) (0, ?d) = (0, ?d)"
    by (rule flag_none) (rule flag_all [OF False])
  then show ?thesis by (simp add: flag_append)
qed

lemma candidates_undated: "candidates (undated d) = candidates d"
  by (simp add: candidates_def undated_def)

lemma candidates_killed: "candidates (killed_sweep a d) = candidates d"
  by (cases a) (simp add: killed_sweep_def candidates_def flag_frame)

lemma killed_then_swept:
  "undated (snd (sweep_low_stock now' (killed_sweep (now, n) d))) = undated (snd (sweep_low_stock now'' d))"
proof -
  let ?cs = "candidates d"
  let ?d = "killed_sweep (now, n) d"
  have "snd (flag now' ?cs (0, ?d)) = snd (flag now' (drop n ?cs) (0, ?d))"
    using flag_again [of now' n ?cs "drop n ?cs" now d] by (simp add: killed_sweep_def)
  then have "undated (snd (sweep_low_stock now' ?d)) = snd (flag 0 (drop n ?cs) (0, undated ?d))"
    by (simp add: sweep_eq candidates_killed undated_flag)
  also have "\<dots> = snd (flag 0 (drop n ?cs) (0, snd (flag 0 (take n ?cs) (0, undated d))))"
    by (simp add: killed_sweep_def undated_flag)
  also have "\<dots> = snd (flag 0 ?cs (0, undated d))"
    using flag_append [of 0 "take n ?cs" "drop n ?cs" 0 "undated d"] by simp
  finally show ?thesis by (simp add: sweep_eq undated_flag)
qed

text \<open>C31. A sweep can be delivered again at will: let any number of runs be killed, each at its own time
  and after any number of its alerts; the run that gets through leaves the very notifications one
  uninterrupted sweep would have left, in the same order and with the same keys, no alert twice and
  none missing, but for the moments at which they were written.\<close>
theorem killed_sweeps_are_made_good:
  "undated (redelivered_sweep attempts now d) = undated (snd (sweep_low_stock now' d))"
proof -
  have "undated (snd (sweep_low_stock now (fold killed_sweep attempts d))) = undated (snd (sweep_low_stock now' d))" for now now'
  proof (induction attempts arbitrary: d)
    case Nil
    then show ?case by (simp add: sweep_eq undated_flag)
  next
    case (Cons a attempts)
    obtain at n where a: "a = (at, n)" by (cases a)
    show ?case using Cons.IH [of "killed_sweep a d"] killed_then_swept [of now' at n d now'] by (simp add: a)
  qed
  then show ?thesis by (simp add: redelivered_sweep_def)
qed

end
