(* ===== verification/Settings.thy ===== *)
theory Settings
  imports Access Concurrency
begin

section \<open>Settings\<close>

text \<open>
  \<open>config/settings\<close> and the entry points: how the environment becomes the settings of a process,
  which settings module a process takes, and when it refuses to start. The environment is a
  function from names to texts, what \<open>load_dotenv\<close> adds included. The parser of database
  addresses is a library's and an argument. What only configures the framework (templates,
  static files, the log format) is left out.
\<close>

subsection \<open>Texts\<close>

type_synonym environ = "string \<Rightarrow> string option"

definition py_space :: "char \<Rightarrow> bool" where
  "py_space c = (let n = of_char c :: nat in 9 \<le> n \<and> n \<le> 13 \<or> 28 \<le> n \<and> n \<le> 32 \<or> n = 133 \<or> n = 160)"

definition py_strip :: "string \<Rightarrow> string" where
  "py_strip s = rev (dropWhile py_space (rev (dropWhile py_space s)))"

definition py_lower :: "string \<Rightarrow> string" where
  "py_lower s = map lower_char s"

fun py_split :: "char \<Rightarrow> string \<Rightarrow> string list" where
  "py_split c [] = [[]]"
| "py_split c (x # s) = (case py_split c s of
     p # ps \<Rightarrow> if x = c then [] # p # ps else (x # p) # ps
   | [] \<Rightarrow> [])"

text \<open>\<open>s.rsplit(c, 1)[0]\<close>.\<close>

definition before_last :: "char \<Rightarrow> string \<Rightarrow> string" where
  "before_last c s = (if c \<in> set s then rev (tl (dropWhile (\<lambda>x. x \<noteq> c) (rev s))) else s)"

text \<open>\<open>int(s)\<close>: spaces around, one sign, digits with single underscores between them, at most 4300.\<close>

definition is_digit :: "char \<Rightarrow> bool" where
  "is_digit c = (let n = of_char c :: nat in 48 \<le> n \<and> n \<le> 57)"

definition digit_value :: "char \<Rightarrow> int" where
  "digit_value c = int (of_char c) - 48"

fun py_digits :: "int \<Rightarrow> string \<Rightarrow> int option" where
  "py_digits acc [] = Some acc"
| "py_digits acc (c # cs) =
     (if is_digit c then py_digits (10 * acc + digit_value c) cs
      else if c = CHR 0x5F then (case cs of
          d # ds \<Rightarrow> if is_digit d then py_digits (10 * acc + digit_value d) ds else None
        | [] \<Rightarrow> None)
      else None)"

definition py_unsigned :: "string \<Rightarrow> int option" where
  "py_unsigned s = (case s of c # cs \<Rightarrow> if is_digit c then py_digits (digit_value c) cs else None | [] \<Rightarrow> None)"

definition py_int :: "string \<Rightarrow> exn + int" where
  "py_int s = (let t = py_strip s in
     some_or (ValueError ''int()'')
       (if 4300 < length (filter is_digit t) then None
        else case t of
          c # cs \<Rightarrow> if c = CHR ''-'' then map_option uminus (py_unsigned cs)
                   else if c = CHR ''+'' then py_unsigned cs else py_unsigned t
        | [] \<Rightarrow> None))"

subsection \<open>The environment\<close>

text \<open>\<open>os.environ[name]\<close>, \<open>os.environ.get(name, default)\<close>, \<open>int(...)\<close> of it, and \<open>.lower() == "true"\<close>.\<close>

definition environ_item :: "environ \<Rightarrow> string \<Rightarrow> exn + string" where
  "environ_item env name = some_or (KeyError name) (env name)"

definition environ_get :: "environ \<Rightarrow> string \<Rightarrow> string \<Rightarrow> string" where
  "environ_get env name fallback = (case env name of Some v \<Rightarrow> v | None \<Rightarrow> fallback)"

definition environ_int :: "environ \<Rightarrow> string \<Rightarrow> string \<Rightarrow> exn + int" where
  "environ_int env name fallback = py_int (environ_get env name fallback)"

definition environ_true :: "environ \<Rightarrow> string \<Rightarrow> bool" where
  "environ_true env name \<longleftrightarrow> py_lower (environ_get env name ''true'') = ''true''"

definition comma_list :: "string \<Rightarrow> string list" where
  "comma_list s = filter (\<lambda>h. h \<noteq> []) (map py_strip (py_split (CHR '','') s))"

text \<open>A \<open>timedelta\<close> holds up to 999999999 days; its length in minutes.\<close>

definition timedelta_minutes :: "int \<Rightarrow> exn + int" where
  "timedelta_minutes n = (if \<bar>n div 1440\<bar> \<le> 999999999 then Inr n else Inl (ValueError ''timedelta''))"

subsection \<open>The settings\<close>

text \<open>When the scheduler sends a task: every so many seconds, or at an hour and minute.\<close>

datatype schedule = EverySeconds nat | Crontab nat nat

definition CELERY_BEAT_SCHEDULE :: "(string \<times> string \<times> schedule) list" where
  "CELERY_BEAT_SCHEDULE =
     [(''sweep-low-stock'', ''apps.inventory.tasks.sweep_low_stock'', EverySeconds (15 * 60)),
      (''reconcile-ledger-nightly'', ''apps.inventory.tasks.reconcile_ledger'', Crontab 2 0)]"

record rest_framework =
  DEFAULT_AUTHENTICATION_CLASSES :: "string list"
  DEFAULT_PERMISSION_CLASSES :: "string list"
  DEFAULT_FILTER_BACKENDS :: "string list"
  DEFAULT_PAGINATION_CLASS :: string
  PAGE_SIZE :: nat
  EXCEPTION_HANDLER :: string
  DEFAULT_THROTTLE_CLASSES :: "string list"
  DEFAULT_THROTTLE_RATES :: "(string \<times> nat) list"

text \<open>The rates are per minute.\<close>

definition REST_FRAMEWORK :: rest_framework where
  "REST_FRAMEWORK = \<lparr>
     DEFAULT_AUTHENTICATION_CLASSES = [''rest_framework_simplejwt.authentication.JWTAuthentication''],
     DEFAULT_PERMISSION_CLASSES = [''rest_framework.permissions.IsAuthenticated''],
     DEFAULT_FILTER_BACKENDS = [''django_filters.rest_framework.DjangoFilterBackend'',
       ''rest_framework.filters.SearchFilter'', ''rest_framework.filters.OrderingFilter''],
     DEFAULT_PAGINATION_CLASS = ''apps.core.pagination.DefaultPagination'', PAGE_SIZE = 20,
     EXCEPTION_HANDLER = ''apps.core.exceptions.logging_exception_handler'',
     DEFAULT_THROTTLE_CLASSES = [''rest_framework.throttling.ScopedRateThrottle'', ''rest_framework.throttling.AnonRateThrottle''],
     DEFAULT_THROTTLE_RATES = throttle_rates\<rparr>"

text \<open>The life times are in minutes.\<close>

record simple_jwt =
  ACCESS_TOKEN_LIFETIME :: int
  REFRESH_TOKEN_LIFETIME :: int
  ROTATE_REFRESH_TOKENS :: bool
  BLACKLIST_AFTER_ROTATION :: bool
  UPDATE_LAST_LOGIN :: bool

definition simple_jwt_of :: "environ \<Rightarrow> exn + simple_jwt" where
  "simple_jwt_of env =
     bindE (environ_int env ''ACCESS_TOKEN_EXPIRE_MINUTES'' ''15'') (\<lambda>minutes.
     bindE (timedelta_minutes minutes) (\<lambda>access.
     bindE (environ_int env ''REFRESH_TOKEN_EXPIRE_DAYS'' ''7'') (\<lambda>days.
     bindE (timedelta_minutes (days * 1440)) (\<lambda>refresh.
       Inr \<lparr>ACCESS_TOKEN_LIFETIME = access, REFRESH_TOKEN_LIFETIME = refresh, ROTATE_REFRESH_TOKENS = True,
            BLACKLIST_AFTER_ROTATION = True, UPDATE_LAST_LOGIN = True\<rparr>))))"

text \<open>The defaults of the framework hold where a module sets nothing; a cache without a location is
  the memory of the process.\<close>

record 'd settings =
  SECRET_KEY :: string
  DATABASE :: 'd
  DEBUG :: bool
  ALLOWED_HOSTS :: "string list"
  CORS_ALLOW_ALL_ORIGINS :: bool
  CORS_ALLOWED_ORIGINS :: "string list"
  SECURE_SSL_REDIRECT :: bool
  SESSION_COOKIE_SECURE :: bool
  CSRF_COOKIE_SECURE :: bool
  CACHE_LOCATION :: "string option"
  CELERY_BROKER_URL :: string
  CELERY_RESULT_BACKEND :: string
  TASK_TRACK_STARTED :: bool
  TASK_ACKS_LATE :: bool
  WORKER_PREFETCH_MULTIPLIER :: nat
  TASK_ALWAYS_EAGER :: bool
  BEAT_SCHEDULE :: "(string \<times> string \<times> schedule) list"
  INVENTORY_LOCKING_ENABLED :: bool
  REST :: rest_framework
  SIMPLE_JWT :: simple_jwt

type_synonym 'd parser = "string \<Rightarrow> int \<Rightarrow> exn + 'd"

definition redis_url :: "environ \<Rightarrow> string" where
  "redis_url env = environ_get env ''REDIS_URL'' ''redis://localhost:6379/0''"

definition broker_url :: "environ \<Rightarrow> string" where
  "broker_url env = environ_get env ''CELERY_BROKER_URL'' (before_last (CHR ''/'') (redis_url env) @ ''/1'')"

definition result_backend :: "environ \<Rightarrow> string" where
  "result_backend env = environ_get env ''CELERY_RESULT_BACKEND'' (before_last (CHR ''/'') (redis_url env) @ ''/2'')"

definition databases :: "'d parser \<Rightarrow> environ \<Rightarrow> exn + 'd" where
  "databases parse env =
     bindE (environ_item env ''DATABASE_URL'') (\<lambda>url.
     bindE (environ_int env ''DB_CONN_MAX_AGE'' ''600'') (\<lambda>conn_max_age. parse url conn_max_age))"

definition locking_enabled :: "environ \<Rightarrow> bool" where
  "locking_enabled env \<longleftrightarrow> environ_true env ''INVENTORY_LOCKING_ENABLED''"

definition base_settings :: "'d parser \<Rightarrow> environ \<Rightarrow> exn + 'd settings" where
  "base_settings parse env =
     bindE (environ_item env ''DJANGO_SECRET_KEY'') (\<lambda>secret.
     bindE (databases parse env) (\<lambda>database.
     bindE (simple_jwt_of env) (\<lambda>jwt.
       Inr \<lparr>SECRET_KEY = secret, DATABASE = database, DEBUG = False, ALLOWED_HOSTS = [],
            CORS_ALLOW_ALL_ORIGINS = False, CORS_ALLOWED_ORIGINS = [], SECURE_SSL_REDIRECT = False,
            SESSION_COOKIE_SECURE = False, CSRF_COOKIE_SECURE = False, CACHE_LOCATION = Some (redis_url env),
            CELERY_BROKER_URL = broker_url env, CELERY_RESULT_BACKEND = result_backend env,
            TASK_TRACK_STARTED = True, TASK_ACKS_LATE = True, WORKER_PREFETCH_MULTIPLIER = 1, TASK_ALWAYS_EAGER = False,
            BEAT_SCHEDULE = CELERY_BEAT_SCHEDULE, INVENTORY_LOCKING_ENABLED = locking_enabled env,
            REST = REST_FRAMEWORK, SIMPLE_JWT = jwt\<rparr>)))"

definition development_settings :: "'d parser \<Rightarrow> environ \<Rightarrow> exn + 'd settings" where
  "development_settings parse env = bindE (base_settings parse env) (\<lambda>s.
     Inr (s\<lparr>DEBUG := True, ALLOWED_HOSTS := [''*''], CORS_ALLOW_ALL_ORIGINS := True\<rparr>))"

definition production_settings :: "'d parser \<Rightarrow> environ \<Rightarrow> exn + 'd settings" where
  "production_settings parse env =
     bindE (base_settings parse env) (\<lambda>s.
     bindE (environ_item env ''ALLOWED_HOSTS'') (\<lambda>hosts.
     let tls = environ_true env ''SECURE_SSL_REDIRECT'' in
       Inr (s\<lparr>DEBUG := False, ALLOWED_HOSTS := comma_list hosts,
         CORS_ALLOWED_ORIGINS := comma_list (environ_get env ''CORS_ALLOWED_ORIGINS'' []),
         SECURE_SSL_REDIRECT := tls, SESSION_COOKIE_SECURE := tls, CSRF_COOKIE_SECURE := tls\<rparr>)))"

definition test_throttle_rates :: "(string \<times> nat) list" where
  "test_throttle_rates = [(''auth'', 3), (''read'', 5), (''write'', 5), (''stock_mutation'', 3),
     (''reports'', 3), (''anon'', 3)]"

definition test_settings :: "'d parser \<Rightarrow> environ \<Rightarrow> exn + 'd settings" where
  "test_settings parse env = bindE (development_settings parse env) (\<lambda>s.
     Inr (s\<lparr>CACHE_LOCATION := None, REST := (REST s)\<lparr>DEFAULT_THROTTLE_RATES := test_throttle_rates\<rparr>, TASK_ALWAYS_EAGER := True,
       CELERY_RESULT_BACKEND := ''cache+memory://''\<rparr>))"

subsection \<open>Starting a process\<close>

text \<open>\<open>os.environ.setdefault("DJANGO_SETTINGS_MODULE", ...)\<close> of \<open>manage.py\<close>, \<open>config/wsgi.py\<close>,
  \<open>config/asgi.py\<close> and \<open>config/celery.py\<close>.\<close>

datatype entry_point = Manage | Wsgi | Asgi | Worker

fun default_module :: "entry_point \<Rightarrow> string" where
  "default_module Manage = ''config.settings.development''"
| "default_module Wsgi = ''config.settings.production''"
| "default_module Asgi = ''config.settings.production''"
| "default_module Worker = ''config.settings.production''"

definition settings_of :: "'d parser \<Rightarrow> environ \<Rightarrow> entry_point \<Rightarrow> exn + 'd settings" where
  "settings_of parse env e =
     (let m = environ_get env ''DJANGO_SETTINGS_MODULE'' (default_module e) in
      if m = ''config.settings.development'' then development_settings parse env
      else if m = ''config.settings.production'' then production_settings parse env
      else if m = ''config.settings.test'' then test_settings parse env
      else Inl (ValueError ''no such settings module''))"

text \<open>A management command runs the registered checks and stops at an error; the server and the workers
  do not run them.\<close>

definition manage_command :: "'d parser \<Rightarrow> environ \<Rightarrow> exn + unit" where
  "manage_command parse env = bindE (settings_of parse env Manage) (\<lambda>s.
     guardE (locking_kill_switch_guard (INVENTORY_LOCKING_ENABLED s) (DEBUG s) = []) (ValueError ''SystemCheckError''))"

text \<open>\<open>docker-entrypoint.sh\<close>: \<open>manage.py migrate\<close>, and then the server in the same environment.\<close>

definition start_server :: "'d parser \<Rightarrow> environ \<Rightarrow> exn + 'd settings" where
  "start_server parse env = bindE (manage_command parse env) (\<lambda>_. settings_of parse env Wsgi)"

subsection \<open>What the settings are\<close>

lemma base_settings_Inr:
  "base_settings parse env = Inr s \<Longrightarrow>
     env ''DJANGO_SECRET_KEY'' = Some (SECRET_KEY s) \<and> env ''DATABASE_URL'' \<noteq> None
     \<and> CACHE_LOCATION s = Some (redis_url env)
     \<and> CELERY_BROKER_URL s = broker_url env \<and> CELERY_RESULT_BACKEND s = result_backend env
     \<and> INVENTORY_LOCKING_ENABLED s = locking_enabled env \<and> \<not> DEBUG s
     \<and> \<not> CORS_ALLOW_ALL_ORIGINS s \<and> REST s = REST_FRAMEWORK"
  by (auto simp: base_settings_def databases_def environ_item_def bind_elims Let_def)

lemma dropWhile_space: "dropWhile py_space s = [] \<or> \<not> py_space (hd (dropWhile py_space s))"
  using hd_dropWhile [of py_space s] by blast

lemma py_strip_ends: "py_strip s = [] \<or> \<not> py_space (hd (py_strip s)) \<and> \<not> py_space (last (py_strip s))"
proof -
  let ?t = "dropWhile py_space s"
  have "\<not> py_space (last (py_strip s))" if "py_strip s \<noteq> []"
    using dropWhile_space [of "rev ?t"] that unfolding py_strip_def by (metis last_rev rev_is_Nil_conv)
  moreover have "\<not> py_space (hd (py_strip s))" if "py_strip s \<noteq> []"
  proof -
    obtain ws where ws: "rev ?t = ws @ dropWhile py_space (rev ?t)" by (metis takeWhile_dropWhile_id)
    then have t: "?t = py_strip s @ rev ws" by (metis py_strip_def rev_append rev_rev_ident)
    with that have "hd ?t = hd (py_strip s)" "?t \<noteq> []" by (simp_all add: hd_append)
    with dropWhile_space [of s] show ?thesis by metis
  qed
  ultimately show ?thesis by blast
qed

lemma py_strip_subset: "set (py_strip s) \<subseteq> set s"
  by (auto simp: py_strip_def dest!: set_dropWhileD)

lemma py_split_parts: "py_split c s \<noteq> []" "p \<in> set (py_split c s) \<Longrightarrow> c \<notin> set p"
proof -
  have "py_split c s \<noteq> [] \<and> (\<forall>p \<in> set (py_split c s). c \<notin> set p)"
    by (induction s) (auto split: list.split)
  then show "py_split c s \<noteq> []" "p \<in> set (py_split c s) \<Longrightarrow> c \<notin> set p" by blast+
qed

lemma comma_list_items:
  assumes "h \<in> set (comma_list s)"
  shows "h \<noteq> []" "CHR '','' \<notin> set h" "\<not> py_space (hd h)" "\<not> py_space (last h)"
proof -
  from assms obtain p where p: "p \<in> set (py_split (CHR '','') s)" "h = py_strip p" "h \<noteq> []"
    by (auto simp: comma_list_def)
  then show "h \<noteq> []" "CHR '','' \<notin> set h" "\<not> py_space (hd h)" "\<not> py_space (last h)"
    using py_split_parts(2) [OF p(1)] py_strip_subset [of p] py_strip_ends [of p] by auto
qed

definition plain_name :: "string \<Rightarrow> bool" where
  "plain_name h \<longleftrightarrow> h \<noteq> [] \<and> CHR '','' \<notin> set h \<and> \<not> py_space (hd h) \<and> \<not> py_space (last h)"

lemma production_settings_Inr:
  assumes "production_settings parse env = Inr s"
  shows "env ''DJANGO_SECRET_KEY'' = Some (SECRET_KEY s) \<and> \<not> DEBUG s \<and> \<not> CORS_ALLOW_ALL_ORIGINS s
    \<and> list_all plain_name (ALLOWED_HOSTS s @ CORS_ALLOWED_ORIGINS s)
    \<and> SESSION_COOKIE_SECURE s = SECURE_SSL_REDIRECT s \<and> CSRF_COOKIE_SECURE s = SECURE_SSL_REDIRECT s
    \<and> SECURE_SSL_REDIRECT s = environ_true env ''SECURE_SSL_REDIRECT''
    \<and> INVENTORY_LOCKING_ENABLED s = locking_enabled env"
proof -
  from assms obtain b hosts where b: "base_settings parse env = Inr b"
    "s = b\<lparr>DEBUG := False, ALLOWED_HOSTS := comma_list hosts,
         CORS_ALLOWED_ORIGINS := comma_list (environ_get env ''CORS_ALLOWED_ORIGINS'' []),
         SECURE_SSL_REDIRECT := environ_true env ''SECURE_SSL_REDIRECT'',
         SESSION_COOKIE_SECURE := environ_true env ''SECURE_SSL_REDIRECT'',
         CSRF_COOKIE_SECURE := environ_true env ''SECURE_SSL_REDIRECT''\<rparr>"
    by (auto simp: production_settings_def bind_elims Let_def)
  have "plain_name h" if "h \<in> set (comma_list x)" for h x
    using comma_list_items [OF that] by (simp add: plain_name_def)
  with base_settings_Inr [OF b(1)] show ?thesis by (simp add: b(2) list_all_iff ball_Un)
qed

text \<open>C27. A production process has what it needs or does not start: without the secret key, the database
  address or the hosts it may serve it ends in a \<open>KeyError\<close> that names the first of them that is
  missing, and when it starts it is never in debug mode, never open to every origin, its secret
  is the environment's, every host and origin is a non-empty name without commas or spaces around
  it, cookies are only sent in the clear where the redirect to TLS is off, and that is on unless the
  environment says otherwise.\<close>
theorem production_has_what_it_needs:
  "(case production_settings parse env of
     Inl e \<Rightarrow> (env ''DJANGO_SECRET_KEY'' = None \<longrightarrow> e = KeyError ''DJANGO_SECRET_KEY'')
       \<and> (env ''DJANGO_SECRET_KEY'' \<noteq> None \<and> env ''DATABASE_URL'' = None \<longrightarrow> e = KeyError ''DATABASE_URL'')
       \<and> ((\<exists>s. base_settings parse env = Inr s) \<longrightarrow> env ''ALLOWED_HOSTS'' = None \<and> e = KeyError ''ALLOWED_HOSTS'')
   | Inr s \<Rightarrow> env ''DJANGO_SECRET_KEY'' = Some (SECRET_KEY s) \<and> env ''DATABASE_URL'' \<noteq> None \<and> env ''ALLOWED_HOSTS'' \<noteq> None
       \<and> \<not> DEBUG s \<and> \<not> CORS_ALLOW_ALL_ORIGINS s \<and> list_all plain_name (ALLOWED_HOSTS s @ CORS_ALLOWED_ORIGINS s)
       \<and> SESSION_COOKIE_SECURE s = SECURE_SSL_REDIRECT s \<and> CSRF_COOKIE_SECURE s = SECURE_SSL_REDIRECT s
       \<and> (env ''SECURE_SSL_REDIRECT'' = None \<longrightarrow> SECURE_SSL_REDIRECT s))"
proof (cases "production_settings parse env")
  case (Inl e)
  have "e = KeyError ''DJANGO_SECRET_KEY''" if "env ''DJANGO_SECRET_KEY'' = None"
    using Inl that by (simp add: production_settings_def base_settings_def databases_def environ_item_def)
  moreover have "e = KeyError ''DATABASE_URL''" if "env ''DJANGO_SECRET_KEY'' \<noteq> None \<and> env ''DATABASE_URL'' = None"
    using Inl that by (auto simp: production_settings_def base_settings_def databases_def environ_item_def)
  moreover have "env ''ALLOWED_HOSTS'' = None \<and> e = KeyError ''ALLOWED_HOSTS''" if "\<exists>s. base_settings parse env = Inr s"
    using Inl that by (cases "env ''ALLOWED_HOSTS''") (auto simp: production_settings_def environ_item_def Let_def)
  ultimately show ?thesis by (simp add: Inl)
next
  case (Inr s)
  have "environ_true env ''SECURE_SSL_REDIRECT''" if "env ''SECURE_SSL_REDIRECT'' = None"
    unfolding environ_true_def environ_get_def that by code_simp
  moreover have "env ''DATABASE_URL'' \<noteq> None \<and> env ''ALLOWED_HOSTS'' \<noteq> None"
    using Inr by (auto simp: production_settings_def base_settings_def databases_def environ_item_def bind_elims Let_def)
  ultimately show ?thesis using production_settings_Inr [OF Inr] by (simp add: Inr)
qed

subsection \<open>The databases of the Redis server\<close>

lemma before_last_part: "c \<notin> set b \<Longrightarrow> before_last c (a @ c # b) = a"
proof -
  assume "c \<notin> set b"
  then have "dropWhile (\<lambda>x. x \<noteq> c) (rev b @ c # rev a) = c # rev a"
    by (subst dropWhile_append2) auto
  then show ?thesis by (simp add: before_last_def)
qed

text \<open>C30. The cache, the broker and the results of the tasks are on databases of their own exactly when the
  cache is told neither of the two numbers the others default to. The settings replace what
  follows the last slash of the address of the cache, whatever it is: an address that ends in
  \<open>/1\<close> or \<open>/2\<close> shares its database with the task queue or its results, and one without a database
  number loses its host.\<close>
theorem redis_databases_are_separate_unless_named:
  assumes "base_settings parse env = Inr s" "env ''CELERY_BROKER_URL'' = None" "env ''CELERY_RESULT_BACKEND'' = None"
    and "redis_url env = server @ ''/'' @ name" "CHR ''/'' \<notin> set name"
  shows "CACHE_LOCATION s = Some (server @ ''/'' @ name)
    \<and> CELERY_BROKER_URL s = server @ ''/1'' \<and> CELERY_RESULT_BACKEND s = server @ ''/2''
    \<and> (distinct [the (CACHE_LOCATION s), CELERY_BROKER_URL s, CELERY_RESULT_BACKEND s] \<longleftrightarrow> name \<noteq> ''1'' \<and> name \<noteq> ''2'')"
proof -
  have "before_last (CHR ''/'') (redis_url env) = server"
    using before_last_part [OF assms(5), of server] assms(4) by simp
  with base_settings_Inr [OF assms(1)] assms(2-4) show ?thesis by (auto simp: broker_url_def result_backend_def environ_get_def)
qed

definition sample_env :: environ where
  "sample_env = [''DJANGO_SECRET_KEY'' \<mapsto> ''s3cret'', ''DATABASE_URL'' \<mapsto> ''postgresql://db/inventra'',
     ''ALLOWED_HOSTS'' \<mapsto> ''inventra.io, www.inventra.io'']"

definition plain_parser :: "(string \<times> int) parser" where
  "plain_parser url age = Inr (url, age)"

theorem redis_databases_are_separate_unless_named_witness:
  "\<exists>s. base_settings plain_parser (sample_env(''REDIS_URL'' \<mapsto> ''redis://cache:6379/1'')) = Inr s
     \<and> CACHE_LOCATION s = Some (CELERY_BROKER_URL s)
   \<and> (\<exists>s. base_settings plain_parser (sample_env(''REDIS_URL'' \<mapsto> ''redis://cache'')) = Inr s
     \<and> CELERY_BROKER_URL s = ''redis://1'')"
proof -
  let ?one = "sample_env(''REDIS_URL'' \<mapsto> ''redis://cache:6379/1'')" and ?bare = "sample_env(''REDIS_URL'' \<mapsto> ''redis://cache'')"
  have "case base_settings plain_parser ?one of Inr s \<Rightarrow> True | _ \<Rightarrow> False"
    "case base_settings plain_parser ?bare of Inr s \<Rightarrow> True | _ \<Rightarrow> False" by code_simp+
  then obtain s t where st: "base_settings plain_parser ?one = Inr s" "base_settings plain_parser ?bare = Inr t"
    by (auto split: sum.splits)
  have none: "?one ''CELERY_BROKER_URL'' = None" "?one ''CELERY_RESULT_BACKEND'' = None"
    "?bare ''CELERY_BROKER_URL'' = None" "?bare ''CELERY_RESULT_BACKEND'' = None" by (simp_all add: sample_env_def)
  have url: "redis_url ?one = ''redis://cache:6379'' @ ''/'' @ ''1''" "redis_url ?bare = ''redis:/'' @ ''/'' @ ''cache''"
    by (simp_all add: redis_url_def environ_get_def)
  have "CHR ''/'' \<notin> set ''1''" "CHR ''/'' \<notin> set ''cache''" by simp_all
  from redis_databases_are_separate_unless_named [OF st(1) none(1,2) url(1) this(1)]
    redis_databases_are_separate_unless_named [OF st(2) none(3,4) url(2) this(2)] st
  show ?thesis by simp
qed

theorem production_has_what_it_needs_witness:
  "\<exists>s. production_settings plain_parser sample_env = Inr s \<and> ALLOWED_HOSTS s = [''inventra.io'', ''www.inventra.io'']
     \<and> \<not> DEBUG s \<and> SESSION_COOKIE_SECURE s
   \<and> production_settings plain_parser (sample_env(''ALLOWED_HOSTS'' := None)) = Inl (KeyError ''ALLOWED_HOSTS'')"
proof -
  let ?bare = "sample_env(''ALLOWED_HOSTS'' := None)"
  have "case production_settings plain_parser sample_env of Inr s \<Rightarrow> ALLOWED_HOSTS s = [''inventra.io'', ''www.inventra.io''] | _ \<Rightarrow> False"
    "case base_settings plain_parser ?bare of Inr s \<Rightarrow> True | _ \<Rightarrow> False" by code_simp+
  then obtain s b where s: "production_settings plain_parser sample_env = Inr s" "ALLOWED_HOSTS s = [''inventra.io'', ''www.inventra.io'']"
    and b: "base_settings plain_parser ?bare = Inr b" by (auto split: sum.splits)
  have "sample_env ''SECURE_SSL_REDIRECT'' = None" by (simp add: sample_env_def)
  moreover have "?bare ''ALLOWED_HOSTS'' = None" by simp
  ultimately show ?thesis
    using production_has_what_it_needs [where env = sample_env and parse = plain_parser]
      production_has_what_it_needs [where env = ?bare and parse = plain_parser] s b
    by (auto split: sum.splits)
qed

subsection \<open>Throttle rates\<close>

lemma settings_rest:
  assumes "settings_of parse env e = Inr s"
  shows "DEFAULT_THROTTLE_RATES (REST s) \<in> {throttle_rates, test_throttle_rates}"
  using assms base_settings_Inr [of parse env]
  by (auto simp: settings_of_def Let_def development_settings_def production_settings_def test_settings_def
      REST_FRAMEWORK_def bind_elims split: if_splits)

text \<open>Whatever settings a process runs under, every action of every endpoint is counted under a scope that
  has a rate, so that no request fails for want of one; the tests only lower the rates.\<close>
theorem every_scope_has_a_rate:
  assumes "settings_of parse env entry = Inr s" "a \<in> set (actions_of e)"
  shows "\<exists>n m. map_of (DEFAULT_THROTTLE_RATES (REST s)) (throttle_scope e a) = Some n \<and> 0 < n
    \<and> map_of throttle_rates (throttle_scope e a) = Some m \<and> n \<le> m"
proof -
  have "\<exists>n m. map_of rates (throttle_scope e a) = Some n \<and> 0 < n \<and> map_of throttle_rates (throttle_scope e a) = Some m \<and> n \<le> m"
    if "rates \<in> {throttle_rates, test_throttle_rates}" for rates
    using assms(2) that
    by (cases e) (auto simp: throttle_scope_def throttle_rates_def test_throttle_rates_def model_view_set_def
        read_only_view_set_def write_scopes_def)
  from this [OF settings_rest [OF assms(1)]] show ?thesis .
qed

subsection \<open>The switch of the row locks\<close>

lemma settings_of_module:
  "env ''DJANGO_SETTINGS_MODULE'' = Some m \<Longrightarrow> settings_of parse env e = settings_of parse env e'"
  by (simp add: settings_of_def environ_get_def)

lemma start_server_Inr:
  "start_server parse env = Inr s \<longleftrightarrow> (\<exists>m. settings_of parse env Manage = Inr m
     \<and> locking_kill_switch_guard (INVENTORY_LOCKING_ENABLED m) (DEBUG m) = [] \<and> settings_of parse env Wsgi = Inr s)"
  by (auto simp: start_server_def manage_command_def bind_elims)

text \<open>C5. A server that is started the way the container does it, in an environment that names the
  settings module, and that is not in debug mode, never oversells: the system check of the
  migration has seen its settings. However the completions of orders without repeated products
  interleave, every product's stock is what it was at the start less everything booked as sold,
  and not negative.\<close>
theorem started_servers_never_oversell:
  assumes "start_server parse env = Inr s" "env ''DJANGO_SETTINGS_MODULE'' = Some m" "\<not> DEBUG s"
    and "shop_reachable (INVENTORY_LOCKING_ENABLED s) (open_shop init T orders) st" "proper_orders T orders" "\<And>p. 0 \<le> init p"
  shows "stock st p = init p - sold st p \<and> 0 \<le> stock st p"
proof -
  have "locking_kill_switch_guard (INVENTORY_LOCKING_ENABLED s) (DEBUG s) = []"
    using assms(1) settings_of_module [of env m parse Manage Wsgi, OF assms(2)] by (auto simp: start_server_Inr)
  then have "INVENTORY_LOCKING_ENABLED s"
    using assms(3) by (simp add: locking_kill_switch_guard_def split: if_splits)
  with assms(4) have "shop_reachable True (open_shop init T orders) st" by simp
  then have "shop_inv init st" by (rule shop_inv_reachable [OF _ assms(5,6)])
  then show ?thesis unfolding shop_inv_def by blast
qed

text \<open>C6. The check can be passed by: where the environment does not name the settings module, the
  migration takes the development settings, whose debug mode silences the check, and the server
  takes those of production. Then it starts whatever the switch says, without the locks if the
  environment turns them off, and two completions of which only one has the stock it needs can
  both go through.\<close>
theorem unnamed_settings_slip_past_the_check:
  assumes "env ''DJANGO_SETTINGS_MODULE'' = None" "production_settings parse env = Inr s"
  shows "start_server parse env = Inr s \<and> \<not> DEBUG s
    \<and> INVENTORY_LOCKING_ENABLED s = locking_enabled env
    \<and> (\<not> locking_enabled env \<longrightarrow>
         (\<exists>st. shop_reachable (INVENTORY_LOCKING_ENABLED s) (open_shop (\<lambda>_. 10) {0, 1} (\<lambda>_. [(20, 6)])) st
            \<and> threads st 0 = Finished True \<and> threads st 1 = Finished True \<and> sold st 20 = 12))"
proof -
  obtain b where "base_settings parse env = Inr b"
    using assms(2) by (auto simp: production_settings_def bind_elims)
  then have "settings_of parse env Manage = Inr (b\<lparr>DEBUG := True, ALLOWED_HOSTS := [''*''], CORS_ALLOW_ALL_ORIGINS := True\<rparr>)"
    by (simp add: settings_of_def environ_get_def assms(1) development_settings_def)
  moreover have "settings_of parse env Wsgi = Inr s"
    using assms by (simp add: settings_of_def environ_get_def)
  ultimately have "start_server parse env = Inr s" by (simp add: start_server_Inr locking_kill_switch_guard_def)
  moreover have "\<exists>st. shop_reachable (INVENTORY_LOCKING_ENABLED s) (open_shop (\<lambda>_. 10) {0, 1} (\<lambda>_. [(20, 6)])) st
      \<and> threads st 0 = Finished True \<and> threads st 1 = Finished True \<and> sold st 20 = 12"
    if "\<not> locking_enabled env"
    using production_settings_Inr [OF assms(2)] that unlocked_shops_oversell by auto
  ultimately show ?thesis using production_settings_Inr [OF assms(2)] by blast
qed

theorem started_servers_never_oversell_witness:
  "\<exists>s st. start_server plain_parser (sample_env(''DJANGO_SETTINGS_MODULE'' \<mapsto> ''config.settings.production'')) = Inr s
     \<and> shop_reachable (INVENTORY_LOCKING_ENABLED s) (open_shop (\<lambda>_. 10) {0, 1} two_orders) st
     \<and> threads st 0 = Finished True \<and> threads st 1 = Finished False \<and> 4 = 10 - sold st 20"
proof -
  let ?env = "sample_env(''DJANGO_SETTINGS_MODULE'' \<mapsto> ''config.settings.production'')"
  have "case start_server plain_parser ?env of Inr s \<Rightarrow> \<not> DEBUG s \<and> INVENTORY_LOCKING_ENABLED s | _ \<Rightarrow> False" by code_simp
  then obtain s where s: "start_server plain_parser ?env = Inr s" "\<not> DEBUG s" "INVENTORY_LOCKING_ENABLED s"
    by (auto split: sum.splits)
  obtain st where st: "run_shop True [0, 0, 0, 1] (open_shop (\<lambda>_. 10) {0, 1} two_orders) = Some st"
    "threads st 0 = Finished True" "threads st 1 = Finished False" "stock st 20 = 4"
    by (simp add: open_shop_def two_orders_def shop_next_def may_read_def release_def)
  have r: "shop_reachable (INVENTORY_LOCKING_ENABLED s) (open_shop (\<lambda>_. 10) {0, 1} two_orders) st"
    using scheduled [OF st(1)] s(3) by simp
  have m: "?env ''DJANGO_SETTINGS_MODULE'' = Some ''config.settings.production''" by simp
  have "stock st 20 = 10 - sold st 20 \<and> 0 \<le> stock st 20"
    by (rule started_servers_never_oversell [OF s(1) m s(2) r two_orders_proper]) simp
  with s(1) r st show ?thesis by auto
qed

theorem unnamed_settings_slip_past_the_check_witness:
  "\<exists>s. start_server plain_parser (sample_env(''INVENTORY_LOCKING_ENABLED'' \<mapsto> ''false'')) = Inr s \<and> \<not> INVENTORY_LOCKING_ENABLED s
     \<and> (\<exists>st. shop_reachable (INVENTORY_LOCKING_ENABLED s) (open_shop (\<lambda>_. 10) {0, 1} (\<lambda>_. [(20, 6)])) st \<and> sold st 20 = 12)"
proof -
  let ?env = "sample_env(''INVENTORY_LOCKING_ENABLED'' \<mapsto> ''false'')"
  have "case production_settings plain_parser ?env of Inr s \<Rightarrow> True | _ \<Rightarrow> False" by code_simp
  then obtain s where s: "production_settings plain_parser ?env = Inr s" by (auto split: sum.splits)
  have m: "?env ''DJANGO_SETTINGS_MODULE'' = None" by (simp add: sample_env_def)
  have "\<not> locking_enabled ?env"
    by (simp add: locking_enabled_def environ_true_def environ_get_def) code_simp
  with unnamed_settings_slip_past_the_check [OF m s] show ?thesis by auto
qed

end
