(* ===== verification/Spec2Isabelle.thy ===== *)
theory Spec2Isabelle
  imports Movements Orders Cache_Protocol Mutations Foreign_Keys Cache_Expiry Core Scenarios Admin Site_Rights Refusals Redelivery Settings
begin

section \<open>Inventra\<close>

text \<open>
  Inventra is an inventory service on Django and PostgreSQL, with Redis as its cache and Celery for
  its background tasks. Managers order goods from suppliers and receive them, employees sell goods
  and file returns, managers approve returns and write off damaged goods; every movement of stock
  writes one row of a ledger that is never edited. This development models the Python of the
  repository (\<open>src/apps\<close>, \<open>src/config\<close>, \<open>src/loadtest\<close>) and proves what makes it correct, and where it
  is not correct, what goes wrong.

  \<^bold>\<open>State.\<close> The database is the record \<open>db\<close> of Schema: one list of rows per table, in insertion
  order, and the counter \<open>next_uuid\<close> for the keys \<open>uuid4\<close> draws (fresh keys; nothing else of
  their shape is used). A model class is a record, a \<open>TextChoices\<close> enum a datatype, an amount a
  number of cents, a moment a natural number. An \<open>IntegerField\<close> is an \<open>int\<close> whose width is
  checked where it is written, as PostgreSQL does: \<open>fits_integer\<close> and \<open>check_positive_integer\<close> raise a
  \<open>DataError\<close>. World adds what is outside the database: the log, and the commit callbacks that have
  fired.

  \<^bold>\<open>Operations.\<close> A view is a function \<open>db \<Rightarrow> exn + outcome\<close>. \<open>Inl\<close> is an exception that leaves the
  view; \<open>Inr\<close> carries the answer, the new database, the callbacks given to \<open>transaction.on_commit\<close>
  and the log lines. \<open>run_view\<close> is \<open>transaction.atomic\<close> with the exception handler of the framework: an
  exception gives an error status, keeps the old database and runs no callback. The statements of a
  view follow each other by \<open>bindE\<close>, a Python loop is \<open>foldE\<close>, a raise or a failing lookup is an
  \<open>Inl\<close>, an early return ends the chain.

  \<^bold>\<open>Theories, in the order of the code.\<close>

  \<^item> Prelude: the error monad, the loops, the tables (\<open>get_row\<close>, \<open>update_row\<close>), sums, and the texts of
    numbers and keys with their injectivity.
  \<^item> Schema, World, Notifications: \<open>*/models.py\<close>; requests, answers and transactions;
    \<open>notifications/services.py\<close> and \<open>views.py\<close>.
  \<^item> Stock: what the four stock mutations of \<open>inventory/views.py\<close> share. The locale of a stock movement
    states what every one of them promises (the stock of a product and the sum of its ledger rows move
    together) and is interpreted on \<open>receive_item\<close>, \<open>deduct_line\<close>, \<open>restock\<close> and \<open>write_off\<close>.
  \<^item> Inputs: the serializers of \<open>inventory/serializers.py\<close>, full and partial.
  \<^item> Purchase, Sales, Returns: the view sets of \<open>inventory/views.py\<close>, each with its create, update,
    destroy, query set and stock-moving action; Inventory: \<open>inventory/urls.py\<close>, all write requests as one
    type and one function \<open>view_of\<close>, and the invariant of the database.
  \<^item> Sales_Properties, Orders, Movements, Server: the properties of these endpoints, and of sequences of
    requests.
  \<^item> Tasks: \<open>inventory/tasks.py\<close>, the invoice, the low stock sweep and the reconciliation.
  \<^item> Accounts, Access, Tokens: \<open>apps/accounts\<close>; the permission class and the throttle scope of every action;
    login, refresh and logout, of which the repository decides what a login records in the user's row.
  \<^item> Catalog: \<open>apps/catalog\<close>, categories, suppliers, products and the product filter.
  \<^item> Cache, Cache_Protocol: \<open>core/cache.py\<close> on a cache server that is a locale (\<open>get\<close>, \<open>set\<close>, \<open>add\<close>,
    \<open>incr\<close> and their laws), interpreted on a table; and the interleaving of readers and writers as a step
    relation.
    Cache_Expiry: the same server with timeouts and a clock.
  \<^item> Concurrency: the row locks of \<open>complete\<close> as a step relation for any number of requests, with the
    switch of \<open>core/checks.py\<close>; and the saves without locks that race it. Mutations: the locks of
    \<open>receive\<close>, \<open>complete\<close>, \<open>approve\<close> and the write-off together, documents first, then products in the
    order of their keys; a sale writes from the rows it read before its first write, the others from
    what they find. Foreign_Keys: the locks on products that the lines of a new order take.
  \<^item> Reports, Freshness: \<open>apps/reports\<close>; requests, commit callbacks, cache and reports composed.
  \<^item> Core: request ids, the task log, the task status and the health check.
  \<^item> Seed, Seed_Properties, Seed_Total, Seed_Shop: the command \<open>seed_demo\<close>, with its \<open>--flush\<close>.
  \<^item> Loadtest: the commands \<open>reset_loadtest_stock\<close> and \<open>generate_loadtest_tokens\<close>, and the purchase
    \<open>loadtest/locustfile.py\<close> makes, as two requests in a row.
    Scenarios: the three kinds of simulated users of that file.
  \<^item> Redelivery: a sweep whose worker is killed, delivered again.
  \<^item> Migrations: \<open>*/migrations\<close>, run in any order their dependencies allow, against the fields the model
    classes declare. Rows reads the database of the model as rows of these tables and says when they conform
    to the schema; Typed reduces that to conditions on the records, Integrity, Typed_Views and
    Typed_Users show that every write of every endpoint and task keeps them.
  \<^item> Site: every endpoint that changes data and the reports, behind authentication, the permission class and
    the throttle of its action, with the periodic tasks in between. Site_Rows, Site_Rights and Site_Books hold the
    properties of any sequence of these events. Refusals: \<open>core/exceptions.py\<close> on the same path.
  \<^item> Deletion: \<open>on_delete\<close> for any schema, and the deletions of the model against it. Admin: \<open>*/admin.py\<close>, the
    options of every admin and what its forms do to the rows.
  \<^item> Settings: \<open>config/settings\<close>, \<open>manage.py\<close> and \<open>config/wsgi.py\<close>; how the environment becomes the
    settings of a process and when it refuses to start.
  \<^item> Sample: a small shop on which the witnesses evaluate.

  \<^bold>\<open>What is shown.\<close> Every property is a theorem after a text block with its number.

  \<^item> The books. After any sequence of requests by anyone to any endpoint, and of the periodic tasks, the stock
    of every product is the signed sum of its ledger rows and not negative, and no product of an order is
    returned more often than it was sold (\<open>the_site_keeps_the_books\<close>), as long as no order has two lines
    for one product and no product write sets a stock level; for an order with two such lines the sale breaks
    the books, and that is exact (\<open>complete_balanced_iff\<close>). The effect of every stock mutation
    on every branch and the one-way status of orders are theorems of Sales_Properties, Orders, Movements and
    Server. Whatever happens on the site, the ledger only grows (\<open>the_ledger_only_grows\<close>). Any number of customers who buy one unit each, one after another, buy
    exactly the stock (\<open>flash_sale_sells_exactly_the_stock\<close>).
  \<^item> The rows. The migrations build what the models declare (\<open>migrations_build_the_models\<close>), and every row keeps
    the type, length, range, choices, references and uniqueness of its columns through every request
    and task (\<open>rows_stay_well_typed\<close>). Deletions take what the schema says (\<open>deletions_follow_the_schema\<close>). The
    admin site neither adds nor removes ledger rows (\<open>admin_keeps_the_ledger\<close>), but deleting a user takes the
    author off theirs (\<open>deleting_a_user_rewrites_the_ledger\<close>).
  \<^item> Rights. What a request changes is bounded by the role of its user; without one, it is a new employee or
    the moment of a login (\<open>rights_bound_every_request\<close>). The users a load test finds under its addresses are
    taken as they are, and the theorem says which are served (\<open>load_tests_are_admitted\<close>).
  \<^item> Concurrency. However receipts, sales, approvals and write-offs interleave under their row locks, the stock
    is what the committed ones make of it as long as no sold order has two lines for one product; in any
    case no document is dealt with twice, and nothing deadlocks or goes on for ever (\<open>concurrent_mutations_are_exact\<close>, \<open>concurrent_mutations_all_end\<close>); the endpoints
    refine this protocol (\<open>mutations_refine_the_protocol\<close>). The creation of an order is outside it: its lines
    lock their products in the order of the request, so it can deadlock with a sale
    (\<open>creating_an_order_can_deadlock_a_sale\<close>). A server that was
    started with a named settings module has the locks on (\<open>started_servers_never_oversell\<close>); without
    a name the check is passed by (\<open>unnamed_settings_slip_past_the_check\<close>). The saves that write a whole row
    without a lock lose updates.
  \<^item> Errors. Every answer of 400 and above leaves the database and the callbacks as they were
    (\<open>refused_requests_change_nothing\<close>). A throttled request is logged once, and its answer is the framework's
    (\<open>throttled_requests_are_logged\<close>). A production process without its secrets does not start
    (\<open>production_has_what_it_needs\<close>).
  \<^item> Returns. A return is accepted, approved and restocked exactly when it should be
    (\<open>return_create_accepts\<close>, \<open>approve_effect\<close>), but deleting an approved one makes room for another, as often
    as one likes (\<open>deleting_an_approved_return_over_restocks\<close>).
  \<^item> The cache. Every request that moves stock bumps the version. Once the counter is in the cache and no
    reader is left that found it missing, a hit contains every mutation whose bump came before the lookup
    (\<open>hits_are_fresh\<close>); a reader that still holds the miss can break this (\<open>cold_start_serves_stale_answers\<close>). Keys separate users; the inventory report is never stale
    (\<open>inventory_reports_are_never_stale\<close>), the sales report can be, but no report by more than
    its five minutes (\<open>reports_are_minutes_old_at_most\<close>).
  \<^item> The tasks. The reconciliation reports exactly the products whose stock is not what the ledger says, the
    sweep flags every low product, and once however often it is killed and delivered again
    (\<open>killed_sweeps_are_made_good\<close>), an invoice of more than 38 lines leaves the page.
  \<^item> The demo data. A run completes for every lawful random source and can be repeated, leaves a database that
    satisfies the invariant of the endpoints, and is undone by the flush (\<open>seed_demo_is_repeatable\<close>,
    \<open>seeded_shops_are_sound\<close>, \<open>flush_undoes_seeding\<close>).

  \<^bold>\<open>Bounds and fuel.\<close> Every loop of the code is over a list and is structural recursion. The one
  definition with fuel is \<open>cascaded\<close> of Deletion, which is given the number of tables: a chain of cascades that
  does not run in a circle is no longer, and Deletion shows that those of this schema end after one step. The
  interleavings (Concurrency, Mutations, Foreign_Keys, Cache_Protocol, Core) are inductive relations, so they hold
  for every schedule, of any length; \<open>run_shop\<close> executes a given schedule for the witnesses only.
  UUIDs are numbers that are drawn in order; where a row must fit its column, they must be below 2 to the 128.

  \<^bold>\<open>Parameters.\<close> What is not in the repository is an argument: password hashing, password rules and
  e-mail normalisation of Django and what SimpleJWT makes of credentials and tokens (\<open>password_rules\<close>), the truncated hash of a cache key (\<open>digest\<close>, assumed
  injective on the readers at hand where the freshness of reports and the separation of users need it), the parsing of a
  query string into dates (\<open>decode\<close>, total: a date that cannot be read is left out), the cache server (its laws are those of Redis without eviction, in Cache_Expiry with it), the random
  source (\<open>lawful_rng\<close> is the contract of \<open>random\<close>), what Celery and the probes of the health check report, what authentication makes of a token
  (\<open>authentic\<close>: an active user on file) and what the throttle has counted (\<open>admits\<close>), the permission
  tables of the admin site, the tokens of the load test and the parser of database addresses.

  \<^bold>\<open>Not modelled.\<close> The wire: JSON, tokens, their expiry and the tables SimpleJWT keeps of them, pagination, search, ordering, and the
  counting of the throttle classes belong to the framework; \<open>core/pagination.py\<close> only sets two of its
  attributes. The words the framework adds to the answer of a throttled request. The width of an integer in the
  bulk writes of \<open>seed_demo\<close>, which only tens of millions of orders could exceed. The delays of Celery between retries. The isolation of transactions other than the row locks of the
  stock mutations and the lost updates next to \<open>complete\<close>. Templates, static files, installed applications, the middleware list and log
  formatting, and the server script of the load test, which have no logic of the service in them.
\<close>

end
